(* ===== verification/Prelude.thy ===== *)
theory Prelude
  imports Main "HOL-Library.Word" "HOL-Library.Sublist"
begin

text \<open>
  Shared vocabulary of the development: the types every crate uses (identifiers, machine
  integers, time, JSON values), Rust's result and option plumbing, the string functions of
  the standard library that the sources call, and the lemmas on lists that the component
  theories share.

  Conventions. A Rust \<open>Result<T, E>\<close> is a sum \<open>'e + 'a\<close> with \<open>Inl\<close> the error. A
  \<open>u64\<close> is a \<open>nat\<close> with the wrap-around of a release build written out
  (\<open>u64_add\<close>). A \<open>String\<close> is the list of the bytes of its UTF-8 encoding. A
  \<open>DateTime<Utc>\<close> is an \<open>int\<close> number of nanoseconds; the clock is an argument of every
  operation that reads it.
\<close>

named_theorems store_simps \<open>unfolding rules of the store operations\<close>
named_theorems mapper_simps \<open>unfolding rules of the protocol mappers\<close>

section \<open>Identifiers and numbers\<close>

type_synonym uuid = "128 word"
type_synonym time = int
type_synonym u8 = "8 word"

definition u64_max :: nat where
  "u64_max = 18446744073709551615"

definition u64_add :: "nat \<Rightarrow> nat \<Rightarrow> nat" where
  "u64_add a b = (a + b) mod 18446744073709551616"

text \<open>The casts \<open>as i64\<close> and \<open>as u64\<close> reinterpret the bit pattern.\<close>

definition u64_as_i64 :: "nat \<Rightarrow> int" where
  "u64_as_i64 n = (if n < 9223372036854775808 then int n else int n - 18446744073709551616)"

definition i64_as_u64 :: "int \<Rightarrow> nat" where
  "i64_as_u64 i = (if i < 0 then nat (i + 18446744073709551616) else nat i)"

lemma u64_add_code [code]: "u64_add a b = nat ((int a + int b) mod 18446744073709551616)"
proof -
  have "int ((a + b) mod 18446744073709551616) = (int a + int b) mod 18446744073709551616"
    by (simp add: zmod_int)
  then show ?thesis by (simp add: u64_add_def flip: nat_int)
qed

lemma u64_as_i64_code [code]:
  "u64_as_i64 n = (let i = int n in if i < 9223372036854775808 then i else i - 18446744073709551616)"
  by (simp add: u64_as_i64_def Let_def)

lemma u64_add_small: "a + b \<le> u64_max \<Longrightarrow> u64_add a b = a + b"
  by (simp add: u64_add_def u64_max_def)

lemma u64_add_le_max [simp]: "u64_add a b \<le> u64_max"
proof -
  have "(a + b) mod 18446744073709551616 < (18446744073709551616 :: nat)" by simp
  then show ?thesis by (simp add: u64_add_def u64_max_def)
qed

lemma i64_u64_roundtrip: "n \<le> u64_max \<Longrightarrow> i64_as_u64 (u64_as_i64 n) = n"
  by (auto simp: u64_as_i64_def i64_as_u64_def u64_max_def)

lemma u64_as_i64_less:
  "a < 9223372036854775808 \<Longrightarrow> b < 9223372036854775808 \<Longrightarrow>
     u64_as_i64 a < u64_as_i64 b \<longleftrightarrow> a < b"
  by (simp add: u64_as_i64_def)

lemma u64_as_i64_eq:
  "a \<le> u64_max \<Longrightarrow> b \<le> u64_max \<Longrightarrow> u64_as_i64 a = u64_as_i64 b \<longleftrightarrow> a = b"
  by (metis i64_u64_roundtrip)

section \<open>Results\<close>

fun rbind :: "'e + 'a \<Rightarrow> ('a \<Rightarrow> 'e + 'b) \<Rightarrow> 'e + 'b" where
  "rbind (Inl e) f = Inl e"
| "rbind (Inr a) f = f a"

fun ok_or :: "'a option \<Rightarrow> 'e \<Rightarrow> 'e + 'a" where
  "ok_or None e = Inl e"
| "ok_or (Some a) e = Inr a"

fun map_err :: "('e \<Rightarrow> 'f) \<Rightarrow> 'e + 'a \<Rightarrow> 'f + 'a" where
  "map_err g (Inl e) = Inl (g e)"
| "map_err g (Inr a) = Inr a"

fun is_ok :: "'e + 'a \<Rightarrow> bool" where
  "is_ok (Inl e) = False"
| "is_ok (Inr a) = True"

text \<open>\<open>Option::transpose\<close> after a fallible map.\<close>

fun transpose_opt :: "('a \<Rightarrow> 'e + 'b) \<Rightarrow> 'a option \<Rightarrow> 'e + 'b option" where
  "transpose_opt f None = Inr None"
| "transpose_opt f (Some a) = (case f a of Inl e \<Rightarrow> Inl e | Inr b \<Rightarrow> Inr (Some b))"

text \<open>\<open>iter().map(f).collect::<Result<Vec<_>, _>>()\<close>: the first error wins.\<close>

fun try_collect :: "('a \<Rightarrow> 'e + 'b) \<Rightarrow> 'a list \<Rightarrow> 'e + 'b list" where
  "try_collect f [] = Inr []"
| "try_collect f (x # xs) =
     (case f x of Inl e \<Rightarrow> Inl e
      | Inr y \<Rightarrow> (case try_collect f xs of Inl e \<Rightarrow> Inl e | Inr ys \<Rightarrow> Inr (y # ys)))"

lemma rbind_Inr_iff: "rbind r f = Inr b \<longleftrightarrow> (\<exists>a. r = Inr a \<and> f a = Inr b)"
  by (cases r) auto

lemma rbind_Inl_iff: "rbind r f = Inl e \<longleftrightarrow> r = Inl e \<or> (\<exists>a. r = Inr a \<and> f a = Inl e)"
  by (cases r) auto

lemma ok_or_Inr_iff [simp]: "ok_or x e = Inr a \<longleftrightarrow> x = Some a"
  by (cases x) auto

lemma ok_or_Inl_iff [simp]: "ok_or x e = Inl e' \<longleftrightarrow> x = None \<and> e' = e"
  by (cases x) auto

lemma try_collect_total: "(\<And>x. x \<in> set xs \<Longrightarrow> f x = Inr (g x)) \<Longrightarrow> try_collect f xs = Inr (map g xs)"
  by (induction xs) auto

lemma try_collect_length: "try_collect f xs = Inr ys \<Longrightarrow> length ys = length xs"
  by (induction xs arbitrary: ys) (auto split: sum.splits)

section \<open>Strings\<close>

text \<open>
  \<open>str::trim\<close> removes Unicode white space. The encodings of every code point with the
  \<open>White_Space\<close> property are listed; a blank string is one that \<open>trim\<close> empties.
\<close>

definition white_space :: "string list" where
  "white_space =
     [[CHR 0x20], [CHR 0x09], [CHR 0x0A], [CHR 0x0B], [CHR 0x0C], [CHR 0x0D],
      [CHR 0xC2, CHR 0x85], [CHR 0xC2, CHR 0xA0], [CHR 0xE1, CHR 0x9A, CHR 0x80],
      [CHR 0xE2, CHR 0x80, CHR 0x80], [CHR 0xE2, CHR 0x80, CHR 0x81],
      [CHR 0xE2, CHR 0x80, CHR 0x82], [CHR 0xE2, CHR 0x80, CHR 0x83],
      [CHR 0xE2, CHR 0x80, CHR 0x84], [CHR 0xE2, CHR 0x80, CHR 0x85],
      [CHR 0xE2, CHR 0x80, CHR 0x86], [CHR 0xE2, CHR 0x80, CHR 0x87],
      [CHR 0xE2, CHR 0x80, CHR 0x88], [CHR 0xE2, CHR 0x80, CHR 0x89],
      [CHR 0xE2, CHR 0x80, CHR 0x8A], [CHR 0xE2, CHR 0x80, CHR 0xA8],
      [CHR 0xE2, CHR 0x80, CHR 0xA9], [CHR 0xE2, CHR 0x80, CHR 0xAF],
      [CHR 0xE2, CHR 0x81, CHR 0x9F], [CHR 0xE3, CHR 0x80, CHR 0x80]]"

function strip_front :: "string list \<Rightarrow> string \<Rightarrow> string" where
  "strip_front ws s =
     (case find (\<lambda>w. w \<noteq> [] \<and> prefix w s) ws of
        None \<Rightarrow> s
      | Some w \<Rightarrow> strip_front ws (drop (length w) s))"
  by pat_completeness auto
termination
proof (relation "measure (\<lambda>(ws, s). length s)", goal_cases)
  case 1
  show ?case by simp
next
  case (2 ws s w)
  then have "w \<noteq> [] \<and> prefix w s" by (auto simp: find_Some_iff)
  then have "0 < length w \<and> length w \<le> length s"
    by (auto dest: prefix_length_le)
  then have "length s - length w < length s" by linarith
  then show ?case by simp
qed

declare strip_front.simps [simp del]

definition trim_start :: "string \<Rightarrow> string" where
  "trim_start s = strip_front white_space s"

definition trim_end :: "string \<Rightarrow> string" where
  "trim_end s = rev (strip_front (map rev white_space) (rev s))"

definition trim :: "string \<Rightarrow> string" where
  "trim s = trim_end (trim_start s)"

definition blank :: "string \<Rightarrow> bool" where
  "blank s \<longleftrightarrow> trim s = []"

definition starts_with :: "string \<Rightarrow> string \<Rightarrow> bool" where
  "starts_with s p \<longleftrightarrow> prefix p s"

definition strip_prefix :: "string \<Rightarrow> string \<Rightarrow> string option" where
  "strip_prefix p s = (if prefix p s then Some (drop (length p) s) else None)"

fun contains_str :: "string \<Rightarrow> string \<Rightarrow> bool" where
  "contains_str p [] \<longleftrightarrow> p = []"
| "contains_str p (c # s) \<longleftrightarrow> prefix p (c # s) \<or> contains_str p s"

text \<open>Decimal printing of an unsigned integer (\<open>{}\<close> of \<open>usize\<close>, \<open>u64\<close>).\<close>

fun digit :: "nat \<Rightarrow> char" where
  "digit n = char_of (48 + n mod 10)"

fun nat_str_acc :: "nat \<Rightarrow> string \<Rightarrow> string" where
  "nat_str_acc n acc =
     (if n < 10 then digit n # acc else nat_str_acc (n div 10) (digit n # acc))"

declare nat_str_acc.simps [simp del]

definition nat_str :: "nat \<Rightarrow> string" where
  "nat_str n = nat_str_acc n []"

lemma strip_front_Nil [simp]: "strip_front ws [] = []"
proof -
  have "find (\<lambda>w. w \<noteq> [] \<and> prefix w ([] :: string)) ws = None"
    by (induction ws) auto
  then show ?thesis by (simp add: strip_front.simps)
qed

lemma blank_Nil [simp]: "blank []"
  by (simp add: blank_def trim_def trim_start_def trim_end_def)

lemma strip_prefix_append [simp]: "strip_prefix p (p @ s) = Some s"
  by (simp add: strip_prefix_def)

lemma strip_prefix_Some: "strip_prefix p s = Some r \<longleftrightarrow> s = p @ r"
  by (auto simp: strip_prefix_def prefix_def)

lemma contains_str_prefix: "prefix p s \<Longrightarrow> contains_str p s"
  by (cases s) auto

lemma contains_str_iff: "contains_str p s \<longleftrightarrow> (\<exists>a b. s = a @ p @ b)"
proof (induction s)
  case Nil
  show ?case by auto
next
  case (Cons c s)
  show ?case
  proof
    assume "contains_str p (c # s)"
    then consider "prefix p (c # s)" | "contains_str p s" by auto
    then show "\<exists>a b. c # s = a @ p @ b"
    proof cases
      case 1
      then obtain b where "c # s = [] @ p @ b" by (auto simp: prefix_def)
      then show ?thesis by blast
    next
      case 2
      with Cons.IH obtain a b where "s = a @ p @ b" by auto
      then have "c # s = (c # a) @ p @ b" by simp
      then show ?thesis by blast
    qed
  next
    assume "\<exists>a b. c # s = a @ p @ b"
    then obtain a b where ab: "c # s = a @ p @ b" by blast
    show "contains_str p (c # s)"
    proof (cases a)
      case Nil
      with ab have "prefix p (c # s)" by (auto simp: prefix_def)
      then show ?thesis by (rule contains_str_prefix)
    next
      case (Cons d a')
      with ab have "s = a' @ p @ b" by simp
      with Cons.IH show ?thesis by auto
    qed
  qed
qed

section \<open>JSON values\<close>

text \<open>
  \<open>serde_json::Value\<close>. A number is an unsigned, a negative or a floating one, as
  \<open>serde_json::Number\<close> has it; floats are kept as their bit pattern. An object is an
  association list with distinct keys.
\<close>

datatype jnumber = PosInt nat | NegInt int | Float "64 word"

datatype json =
    JNull
  | JBool bool
  | JNumber jnumber
  | JString string
  | JArray "json list"
  | JObject "(string \<times> json) list"

fun jget :: "string \<Rightarrow> json \<Rightarrow> json option" where
  "jget k (JObject kvs) = map_of kvs k"
| "jget k _ = None"

fun as_str :: "json \<Rightarrow> string option" where
  "as_str (JString s) = Some s"
| "as_str _ = None"

fun as_array :: "json \<Rightarrow> json list option" where
  "as_array (JArray xs) = Some xs"
| "as_array _ = None"

fun as_object :: "json \<Rightarrow> (string \<times> json) list option" where
  "as_object (JObject kvs) = Some kvs"
| "as_object _ = None"

fun as_u64 :: "json \<Rightarrow> nat option" where
  "as_u64 (JNumber (PosInt n)) = Some n"
| "as_u64 _ = None"

fun as_i64 :: "json \<Rightarrow> int option" where
  "as_i64 (JNumber (PosInt n)) = (if n < 9223372036854775808 then Some (int n) else None)"
| "as_i64 (JNumber (NegInt i)) = Some i"
| "as_i64 _ = None"

text \<open>\<open>value.get(k).and_then(Value::as_str)\<close>, the commonest access in the sources.\<close>

definition jget_str :: "string \<Rightarrow> json \<Rightarrow> string option" where
  "jget_str k v = Option.bind (jget k v) as_str"

fun obj_insert :: "string \<Rightarrow> json \<Rightarrow> (string \<times> json) list \<Rightarrow> (string \<times> json) list" where
  "obj_insert k v [] = [(k, v)]"
| "obj_insert k v ((k', v') # kvs) =
     (if k = k' then (k, v) # kvs else (k', v') # obj_insert k v kvs)"

lemma map_of_obj_insert [simp]: "map_of (obj_insert k v kvs) = (map_of kvs)(k \<mapsto> v)"
  by (induction kvs) auto

section \<open>Lists\<close>

lemma take_filter_sublist: "subseq (take n (filter P xs)) xs"
  by (meson subseq_filter_left subseq_order.order_trans take_is_prefix prefix_imp_subseq)

lemma filter_upt_gt: "filter (\<lambda>i. a < i) [1..<Suc n] = [Suc a..<Suc n]"
proof (induction n)
  case 0
  show ?case by simp
next
  case (Suc n)
  then show ?case by auto
qed

lemma map_filter_eq_upt:
  assumes "map f xs = [1..<Suc n]"
  shows "map f (filter (\<lambda>x. a < f x) xs) = [Suc a..<Suc n]"
proof -
  have "map f (filter (\<lambda>x. a < f x) xs) = filter (\<lambda>i. a < i) (map f xs)"
    by (simp add: filter_map comp_def)
  with assms show ?thesis by (simp only: filter_upt_gt)
qed

end
