(* ===== verification/Adapter_Model.thy ===== *)
theory Adapter_Model
  imports Prelude
begin

text \<open>
  The data types of the crate \<open>adapter-model\<close>: identifiers, task states, core events,
  commands, snapshots, store requests and results. Field names carry the prefix of their
  struct, since record fields are global constants; enum variants that occur in several
  enums carry a prefix too (\<open>Ev\<close> for core events, \<open>Dr\<close> for dispatch results,
  \<open>Ct\<close> for creation results, \<open>P\<close> for parts).
\<close>

section \<open>Identifiers, parts, errors\<close>

type_synonym task_id = uuid
type_synonym session_id = uuid
type_synonym event_seq = nat
type_synonym agent_id = string
type_synonym caller_id = string

record caller =
  caller_id_of :: caller_id
  caller_scopes :: "string list"

datatype part =
    PText string
  | PJson json
  | PFileRef string "string option"

record artifact_ref =
  art_id :: string
  art_name :: string
  art_mime_type :: string
  art_size_bytes :: nat
  art_uri :: "string option"

record input_request =
  ir_question :: string
  ir_schema :: "json option"

record public_error =
  pe_code :: string
  pe_message :: string
  pe_retryable :: bool

section \<open>Task states and events\<close>

datatype task_state =
    Created
  | Accepted
  | Running
  | WaitingForInput
  | CancelRequested
  | Completed
  | Failed
  | Cancelled

fun terminal :: "task_state \<Rightarrow> bool" where
  "terminal Completed = True"
| "terminal Failed = True"
| "terminal Cancelled = True"
| "terminal _ = False"

text \<open>The states are finitely many, so a statement about all of them can be evaluated.\<close>

instantiation task_state :: enum
begin

definition enum_task_state :: "task_state list" where
  "enum_task_state =
     [Created, Accepted, Running, WaitingForInput, CancelRequested, Completed, Failed, Cancelled]"

definition enum_all_task_state :: "(task_state \<Rightarrow> bool) \<Rightarrow> bool" where
  "enum_all_task_state P \<longleftrightarrow> list_all P enum_class.enum"

definition enum_ex_task_state :: "(task_state \<Rightarrow> bool) \<Rightarrow> bool" where
  "enum_ex_task_state P \<longleftrightarrow> list_ex P enum_class.enum"

instance
proof
  have univ: "x \<in> set [Created, Accepted, Running, WaitingForInput, CancelRequested, Completed,
      Failed, Cancelled]" for x :: task_state
    by (cases x) auto
  then show univ': "(UNIV :: task_state set) = set enum_class.enum"
    by (auto simp: enum_task_state_def)
  show "distinct (enum_class.enum :: task_state list)"
    by (simp add: enum_task_state_def)
  show "enum_class.enum_all P \<longleftrightarrow> Ball UNIV P" for P :: "task_state \<Rightarrow> bool"
    by (simp add: enum_all_task_state_def univ' list_all_iff)
  show "enum_class.enum_ex P \<longleftrightarrow> Bex UNIV P" for P :: "task_state \<Rightarrow> bool"
    by (simp add: enum_ex_task_state_def univ' list_ex_iff)
qed

end

datatype core_event_kind =
    EvAccepted bool
  | EvProgress string "u8 option"
  | EvArtifact artifact_ref
  | EvInputRequired input_request
  | EvCompleted "part list"
  | EvFailed public_error
  | EvCancelRequested "string option"
  | EvCancelled

record core_event =
  ev_task_id :: task_id
  ev_seq :: event_seq
  ev_at :: time
  ev_kind :: core_event_kind

section \<open>Commands and results\<close>

record invoke_request =
  rq_task_id :: "task_id option"
  rq_agent_id :: "agent_id option"
  rq_skill_id :: "string option"
  rq_idempotency_key :: string
  rq_session_id :: "session_id option"
  rq_input :: "part list"
  rq_context :: json
  rq_deadline :: "nat option"

datatype core_command =
    Invoke invoke_request
  | Cancel task_id "string option"
  | ProvideInput task_id "part list"
  | GetStatus task_id

record task_snapshot =
  snap_task_id :: task_id
  snap_session_id :: "session_id option"
  snap_agent_id :: agent_id
  snap_caller_id :: caller_id
  snap_state :: task_state
  snap_revision :: nat
  snap_last_seq :: event_seq
  snap_created_at :: time
  snap_updated_at :: time
  snap_terminal_at :: "time option"

datatype dispatch_result =
    DrCreated task_snapshot
  | DrExisting task_snapshot
  | DrStatus task_snapshot
  | DrCancelRequested task_snapshot
  | DrInputAccepted task_snapshot

record new_task =
  nt_task_id :: task_id
  nt_session_id :: "session_id option"
  nt_agent_id :: agent_id
  nt_caller_id :: caller_id
  nt_idempotency_key :: string
  nt_deadline_at :: "time option"

datatype create_task_result =
    CtCreated task_snapshot
  | CtExisting task_snapshot

record task_transition =
  tr_task_id :: task_id
  tr_expected_revision :: nat
  tr_allowed_states :: "task_state list"
  tr_next_state :: task_state
  tr_event_kind :: core_event_kind

record applied_transition =
  at_snapshot :: task_snapshot
  at_event :: core_event

record driver_capabilities =
  cap_cancellation :: bool
  cap_provide_input :: bool

record agent_limits =
  lim_max_concurrent_tasks :: nat
  lim_max_queued_tasks :: nat
  lim_max_input_bytes :: nat
  lim_max_event_bytes :: nat
  lim_default_timeout :: nat

section \<open>Terminal states and terminal events\<close>

text \<open>\<open>is_terminal\<close> of \<open>reliable_stream.rs\<close>: the kinds that end a task.\<close>

fun is_terminal_kind :: "core_event_kind \<Rightarrow> bool" where
  "is_terminal_kind (EvCompleted out) = True"
| "is_terminal_kind (EvFailed err) = True"
| "is_terminal_kind EvCancelled = True"
| "is_terminal_kind _ = False"

lemma terminal_iff: "terminal s \<longleftrightarrow> s \<in> {Completed, Failed, Cancelled}"
  by (cases s) auto

lemma not_terminal_iff:
  "\<not> terminal s \<longleftrightarrow> s \<in> {Created, Accepted, Running, WaitingForInput, CancelRequested}"
  by (cases s) auto

end
