(* ===== verification/Store_Contract.thy ===== *)
theory Store_Contract
  imports Adapter_Model
begin

text \<open>
  The crate \<open>adapter-store-contract\<close>: its error type, leases and retention policy, and
  the trait \<open>TaskStore\<close>. The trait object \<open>Arc<dyn TaskStore>\<close> is a record of the
  operations the core calls, over a type \<open>'s\<close> of store states; what every backend
  promises is the locale \<open>task_store\<close>, stated through an abstract view of the state
  (the snapshot and the event log of each task, and the task of each idempotency key).
  Both are used by the theory of the core; the backends interpret the locale.
\<close>

section \<open>Data\<close>

record lease =
  lease_task_id :: task_id
  lease_owner_id :: string
  lease_expires_in :: nat

record retention_policy =
  rp_task_ttl :: nat
  rp_event_ttl :: nat
  rp_idempotency_ttl :: nat
  rp_cleanup_batch_size :: nat

text \<open>Durations are in nanoseconds.\<close>

definition secs :: "nat \<Rightarrow> nat" where
  "secs n = n * 1000000000"

definition default_retention_policy :: retention_policy where
  "default_retention_policy =
     \<lparr>rp_task_ttl = secs (7 * 24 * 3600), rp_event_ttl = secs (7 * 24 * 3600),
      rp_idempotency_ttl = secs (24 * 3600), rp_cleanup_batch_size = 1000\<rparr>"

record cleanup_report =
  cr_tasks_deleted :: nat
  cr_events_deleted :: nat
  cr_idempotency_deleted :: nat

datatype store_error =
    NotFound task_id
  | Conflict
  | InvalidTransition string
  | Unavailable string
  | Corrupt string
  | Internal string

section \<open>The operations the core calls\<close>

record 's store_ops =
  op_ping :: "'s \<Rightarrow> store_error + unit"
  op_create :: "time \<Rightarrow> new_task \<Rightarrow> 's \<Rightarrow> (store_error + create_task_result) \<times> 's"
  op_get_snapshot :: "task_id \<Rightarrow> 's \<Rightarrow> store_error + task_snapshot option"
  op_append :: "time \<Rightarrow> task_transition \<Rightarrow> 's \<Rightarrow> (store_error + applied_transition) \<times> 's"
  op_events_after :: "task_id \<Rightarrow> event_seq \<Rightarrow> nat \<Rightarrow> 's \<Rightarrow> store_error + core_event list"

section \<open>What a transition does to a task\<close>

type_synonym entry = "task_snapshot \<times> core_event list"

text \<open>The snapshot of a new task.\<close>

definition initial_snapshot :: "time \<Rightarrow> new_task \<Rightarrow> task_snapshot" where
  "initial_snapshot now nt =
     \<lparr>snap_task_id = nt_task_id nt, snap_session_id = nt_session_id nt,
      snap_agent_id = nt_agent_id nt, snap_caller_id = nt_caller_id nt,
      snap_state = Created, snap_revision = 0, snap_last_seq = 0,
      snap_created_at = now, snap_updated_at = now, snap_terminal_at = None\<rparr>"

text \<open>The snapshot after a transition, and the event it stores.\<close>

definition advance :: "time \<Rightarrow> task_transition \<Rightarrow> task_snapshot \<Rightarrow> task_snapshot" where
  "advance now tr snap =
     snap\<lparr>snap_state := tr_next_state tr,
          snap_revision := u64_add (snap_revision snap) 1,
          snap_last_seq := u64_add (snap_last_seq snap) 1,
          snap_updated_at := now,
          snap_terminal_at := (if terminal (tr_next_state tr) then Some now else snap_terminal_at snap)\<rparr>"

definition next_event :: "time \<Rightarrow> task_transition \<Rightarrow> task_snapshot \<Rightarrow> core_event" where
  "next_event now tr snap =
     \<lparr>ev_task_id = tr_task_id tr, ev_seq = u64_add (snap_last_seq snap) 1, ev_at = now,
      ev_kind = tr_event_kind tr\<rparr>"

text \<open>
  A well-formed log: revision, last sequence number and number of events agree, and the
  events carry the numbers 1, 2, ... without a gap.
\<close>

definition dense_log :: "task_id \<Rightarrow> entry \<Rightarrow> bool" where
  "dense_log t e \<longleftrightarrow>
     snap_task_id (fst e) = t \<and> snap_revision (fst e) = length (snd e) \<and>
     snap_last_seq (fst e) = length (snd e) \<and>
     map ev_seq (snd e) = [1..<Suc (length (snd e))] \<and> (\<forall>ev\<in>set (snd e). ev_task_id ev = t)"

text \<open>
  The log agrees with the state: a terminal event is the last one, and it is there exactly
  when the state is terminal.
\<close>

definition closed_log :: "entry \<Rightarrow> bool" where
  "closed_log e \<longleftrightarrow>
     (\<forall>ev\<in>set (butlast (snd e)). \<not> is_terminal_kind (ev_kind ev)) \<and>
     (terminal (snap_state (fst e)) \<longleftrightarrow>
        snd e \<noteq> [] \<and> is_terminal_kind (ev_kind (last (snd e)))) \<and>
     (terminal (snap_state (fst e)) \<longleftrightarrow> snap_terminal_at (fst e) \<noteq> None)"

text \<open>
  A transition as the core issues it: it starts from non-terminal states only, and it goes
  to a terminal state exactly when its event is terminal.
\<close>

definition core_transition :: "task_transition \<Rightarrow> bool" where
  "core_transition tr \<longleftrightarrow>
     (\<forall>st\<in>set (tr_allowed_states tr). \<not> terminal st) \<and>
     (terminal (tr_next_state tr) \<longleftrightarrow> is_terminal_kind (tr_event_kind tr))"

text \<open>The counters stay below the signed range in which the SQL backends compare them.\<close>

definition seq_limit :: nat where
  "seq_limit = 9223372036854775807"

lemma initial_snapshot_simps [simp]:
  "snap_task_id (initial_snapshot now nt) = nt_task_id nt"
  "snap_state (initial_snapshot now nt) = Created"
  "snap_revision (initial_snapshot now nt) = 0"
  "snap_last_seq (initial_snapshot now nt) = 0"
  "snap_terminal_at (initial_snapshot now nt) = None"
  "snap_agent_id (initial_snapshot now nt) = nt_agent_id nt"
  "snap_caller_id (initial_snapshot now nt) = nt_caller_id nt"
  "snap_session_id (initial_snapshot now nt) = nt_session_id nt"
  by (simp_all add: initial_snapshot_def)

lemma advance_simps [simp]:
  "snap_task_id (advance now tr snap) = snap_task_id snap"
  "snap_session_id (advance now tr snap) = snap_session_id snap"
  "snap_agent_id (advance now tr snap) = snap_agent_id snap"
  "snap_caller_id (advance now tr snap) = snap_caller_id snap"
  "snap_created_at (advance now tr snap) = snap_created_at snap"
  "snap_state (advance now tr snap) = tr_next_state tr"
  "snap_revision (advance now tr snap) = u64_add (snap_revision snap) 1"
  "snap_last_seq (advance now tr snap) = u64_add (snap_last_seq snap) 1"
  by (simp_all add: advance_def)

lemma next_event_simps [simp]:
  "ev_task_id (next_event now tr snap) = tr_task_id tr"
  "ev_seq (next_event now tr snap) = u64_add (snap_last_seq snap) 1"
  "ev_kind (next_event now tr snap) = tr_event_kind tr"
  "ev_at (next_event now tr snap) = now"
  by (simp_all add: next_event_def)

lemma dense_log_initial: "dense_log (nt_task_id nt) (initial_snapshot now nt, [])"
  by (simp add: dense_log_def)

lemma closed_log_initial: "closed_log (initial_snapshot now nt, [])"
  by (simp add: closed_log_def)

lemma dense_log_advance:
  assumes "dense_log t (snap, evs)" "length evs < u64_max" "tr_task_id tr = t"
  shows "dense_log t (advance now tr snap, evs @ [next_event now tr snap])"
  using assms by (auto simp: dense_log_def u64_add_small)

lemma closed_log_advance:
  assumes "closed_log (snap, evs)" "core_transition tr"
    "snap_state snap \<in> set (tr_allowed_states tr)"
  shows "closed_log (advance now tr snap, evs @ [next_event now tr snap])"
proof -
  from assms have live: "\<not> terminal (snap_state snap)" by (auto simp: core_transition_def)
  have before: "\<forall>ev\<in>set evs. \<not> is_terminal_kind (ev_kind ev)"
  proof (cases evs rule: rev_cases)
    case Nil
    then show ?thesis by simp
  next
    case (snoc ys y)
    with assms(1) live show ?thesis by (auto simp: closed_log_def)
  qed
  with assms(1,2) live show ?thesis
    by (auto simp: closed_log_def core_transition_def advance_def)
qed

section \<open>The contract\<close>

locale task_store =
  fixes ops :: "'s store_ops"
    and inv :: "'s \<Rightarrow> bool"
    and view :: "'s \<Rightarrow> task_id \<Rightarrow> entry option"
    and keyed :: "'s \<Rightarrow> caller_id \<times> string \<Rightarrow> task_id option"
  assumes get_view: "inv s \<Longrightarrow> op_get_snapshot ops t s = Inr (map_option fst (view s t))"
    and append_missing:
      "inv s \<Longrightarrow> view s (tr_task_id tr) = None \<Longrightarrow>
       op_append ops now tr s = (Inl (NotFound (tr_task_id tr)), s)"
    and append_conflict:
      "inv s \<Longrightarrow> view s (tr_task_id tr) = Some (snap, evs) \<Longrightarrow>
       snap_revision snap \<noteq> tr_expected_revision tr \<Longrightarrow>
       op_append ops now tr s = (Inl Conflict, s)"
    and append_invalid:
      "inv s \<Longrightarrow> view s (tr_task_id tr) = Some (snap, evs) \<Longrightarrow>
       snap_revision snap = tr_expected_revision tr \<Longrightarrow>
       snap_state snap \<notin> set (tr_allowed_states tr) \<Longrightarrow>
       \<exists>msg. op_append ops now tr s = (Inl (InvalidTransition msg), s)"
    and append_ok:
      "inv s \<Longrightarrow> view s (tr_task_id tr) = Some (snap, evs) \<Longrightarrow>
       snap_revision snap = tr_expected_revision tr \<Longrightarrow>
       snap_state snap \<in> set (tr_allowed_states tr) \<Longrightarrow>
       snap_terminal_at snap = None \<Longrightarrow>
       snap_revision snap < seq_limit \<Longrightarrow> snap_last_seq snap < seq_limit \<Longrightarrow>
       \<exists>s'. op_append ops now tr s =
              (Inr \<lparr>at_snapshot = advance now tr snap, at_event = next_event now tr snap\<rparr>, s') \<and>
            inv s' \<and> keyed s' = keyed s \<and>
            view s' = (view s)(tr_task_id tr \<mapsto> (advance now tr snap, evs @ [next_event now tr snap]))"
    and events_view:
      "inv s \<Longrightarrow> view s t = Some (snap, evs) \<Longrightarrow> n \<le> 10000 \<Longrightarrow> after \<le> seq_limit \<Longrightarrow>
       op_events_after ops t after n s = Inr (take n (filter (\<lambda>ev. after < ev_seq ev) evs))"
    and create_existing:
      "inv s \<Longrightarrow> keyed s (nt_caller_id nt, nt_idempotency_key nt) = Some t \<Longrightarrow>
       \<exists>snap evs. view s t = Some (snap, evs) \<and>
         op_create ops now nt s = (Inr (CtExisting snap), s)"
    and create_fresh:
      "inv s \<Longrightarrow> keyed s (nt_caller_id nt, nt_idempotency_key nt) = None \<Longrightarrow>
       view s (nt_task_id nt) = None \<Longrightarrow>
       \<exists>s'. op_create ops now nt s = (Inr (CtCreated (initial_snapshot now nt)), s') \<and> inv s' \<and>
            view s' = (view s)(nt_task_id nt \<mapsto> (initial_snapshot now nt, [])) \<and>
            keyed s' = (keyed s)((nt_caller_id nt, nt_idempotency_key nt) \<mapsto> nt_task_id nt)"
begin

text \<open>Idempotent creation: the second call with the same key returns the first task.\<close>

lemma create_twice:
  assumes "inv s" "keyed s (nt_caller_id nt, nt_idempotency_key nt) = None"
    "view s (nt_task_id nt) = None"
    "nt_caller_id nt' = nt_caller_id nt" "nt_idempotency_key nt' = nt_idempotency_key nt"
  shows "\<exists>s'. op_create ops now nt s = (Inr (CtCreated (initial_snapshot now nt)), s') \<and>
    op_create ops now' nt' s' = (Inr (CtExisting (initial_snapshot now nt)), s')"
proof -
  from create_fresh [OF assms(1-3)] obtain s' where s':
    "op_create ops now nt s = (Inr (CtCreated (initial_snapshot now nt)), s')" "inv s'"
    "view s' = (view s)(nt_task_id nt \<mapsto> (initial_snapshot now nt, []))"
    "keyed s' = (keyed s)((nt_caller_id nt, nt_idempotency_key nt) \<mapsto> nt_task_id nt)" by blast
  then have "keyed s' (nt_caller_id nt', nt_idempotency_key nt') = Some (nt_task_id nt)"
    using assms by simp
  from create_existing [OF s'(2) this] s'(3)
  have "op_create ops now' nt' s' = (Inr (CtExisting (initial_snapshot now nt)), s')"
    by auto
  with s'(1) show ?thesis by blast
qed

text \<open>Optimistic concurrency: of two writers with the same snapshot, the second conflicts.\<close>

lemma second_writer_conflicts:
  assumes "inv s" "view s t = Some (snap, evs)" "dense_log t (snap, evs)"
    "tr_task_id tr = t" "tr_expected_revision tr = snap_revision snap"
    "tr_task_id tr' = t" "tr_expected_revision tr' = snap_revision snap"
    "snap_state snap \<in> set (tr_allowed_states tr)"
    "snap_terminal_at snap = None" "length evs < seq_limit"
  shows "\<exists>ap s'. op_append ops now tr s = (Inr ap, s') \<and>
    op_append ops now' tr' s' = (Inl Conflict, s')"
proof -
  from assms(3,10) have len: "snap_revision snap < seq_limit" "snap_last_seq snap < seq_limit"
    by (auto simp: dense_log_def)
  obtain s' where s': "op_append ops now tr s =
      (Inr \<lparr>at_snapshot = advance now tr snap, at_event = next_event now tr snap\<rparr>, s')" "inv s'"
    "view s' = (view s)(tr_task_id tr \<mapsto> (advance now tr snap, evs @ [next_event now tr snap]))"
    using append_ok [of s tr snap evs now] assms len by auto
  have "u64_add (snap_revision snap) 1 \<noteq> snap_revision snap"
    using len by (simp add: u64_add_small seq_limit_def u64_max_def)
  then have "op_append ops now' tr' s' = (Inl Conflict, s')"
    using append_conflict [OF s'(2), of tr' "advance now tr snap" _ now'] s'(3) assms
    by (auto simp: advance_def)
  with s'(1) show ?thesis by blast
qed

end

text \<open>
  What a client of the store may ask of it without destroying a task: \<open>allow\<close> says which
  creations are harmless. A backend with a primary key on the task id allows all of them,
  since it refuses a taken id; the in-memory store replaces the task under a taken id.
\<close>

locale guarded_store = task_store +
  fixes allow :: "'a \<Rightarrow> new_task \<Rightarrow> bool"
  assumes create_clash:
    "inv s \<Longrightarrow> allow s nt \<Longrightarrow> keyed s (nt_caller_id nt, nt_idempotency_key nt) = None \<Longrightarrow>
     view s (nt_task_id nt) = Some e \<Longrightarrow> \<exists>err. op_create ops now nt s = (Inl err, s)"

end
