(* ===== verification/Registry.thy ===== *)
theory Registry
  imports Store_Contract
begin

text \<open>
  The part of \<open>adapter-core\<close> that the handlers consult: its error type and the driver
  events, registered agents and the agent registry, and the two policy engines
  (\<open>AllowAllPolicy\<close> and \<open>BearerTokenPolicy\<close>).

  A \<open>DashMap\<close> is an association list in its iteration order, which the code leaves open.
  A semaphore is named by what it belongs to together with the number of permits it was
  created with; how many are handed out is part of the state of the system. The number
  \<open>ra_instance\<close> stands for the address of the \<open>Arc<RegisteredAgent>\<close>, so that an agent
  registered again under the same id has semaphores of its own.
\<close>

section \<open>Errors and driver events\<close>

datatype core_error =
    InvalidRequest string
  | AgentNotFound string
  | NoEligibleAgent
  | ResourceExhausted string
  | DriverError string
  | Timeout
  | StoreError store_error

text \<open>The \<open>Display\<close> texts of the two error types; a UUID prints as \<open>uuid_str\<close> says.\<close>

fun display_store_error :: "(uuid \<Rightarrow> string) \<Rightarrow> store_error \<Rightarrow> string" where
  "display_store_error uuid_str (NotFound t) = ''task not found: '' @ uuid_str t"
| "display_store_error uuid_str Conflict = ''concurrent mutation conflict''"
| "display_store_error uuid_str (InvalidTransition m) = ''invalid task transition: '' @ m"
| "display_store_error uuid_str (Unavailable m) = ''storage unavailable: '' @ m"
| "display_store_error uuid_str (Corrupt m) = ''storage corruption: '' @ m"
| "display_store_error uuid_str (Internal m) = ''storage internal error: '' @ m"

fun display_core_error :: "(uuid \<Rightarrow> string) \<Rightarrow> core_error \<Rightarrow> string" where
  "display_core_error uuid_str (InvalidRequest m) = ''invalid request: '' @ m"
| "display_core_error uuid_str (AgentNotFound m) = ''agent not found: '' @ m"
| "display_core_error uuid_str NoEligibleAgent = ''no eligible agent''"
| "display_core_error uuid_str (ResourceExhausted m) = ''resource exhausted: '' @ m"
| "display_core_error uuid_str (DriverError m) = ''driver error: '' @ m"
| "display_core_error uuid_str Timeout = ''task timed out''"
| "display_core_error uuid_str (StoreError e) = ''store error: '' @ display_store_error uuid_str e"

datatype driver_event =
    DvAccepted
  | DvProgress string "u8 option"
  | DvArtifact artifact_ref
  | DvInputRequired input_request
  | DvCompleted "part list"
  | DvFailed public_error
  | DvCancelled

section \<open>Agents\<close>

datatype sem_owner = AgentPool nat | AgentQueue nat | CallerPool caller_id | GlobalPool

datatype semaphore = Semaphore (sem_owner: sem_owner) (capacity: nat)

record registered_agent =
  ra_id :: agent_id
  ra_skills :: "string list"
  ra_instance :: nat
  ra_capabilities :: driver_capabilities
  ra_limits :: agent_limits
  ra_permits :: semaphore
  ra_queue_permits :: semaphore

definition registered_agent_new ::
  "nat \<Rightarrow> agent_id \<Rightarrow> string list \<Rightarrow> driver_capabilities \<Rightarrow> agent_limits \<Rightarrow> registered_agent" where
  "registered_agent_new inst aid skills driver limits =
     \<lparr>ra_id = aid, ra_skills = skills, ra_instance = inst, ra_capabilities = driver,
      ra_limits = limits,
      ra_permits = Semaphore (AgentPool inst) (lim_max_concurrent_tasks limits),
      ra_queue_permits = Semaphore (AgentQueue inst) (lim_max_queued_tasks limits)\<rparr>"

definition has_skill :: "string \<Rightarrow> registered_agent \<Rightarrow> bool" where
  "has_skill skill agent \<longleftrightarrow> list_ex (\<lambda>candidate. candidate = skill) (ra_skills agent)"

definition update_skills :: "string list \<Rightarrow> registered_agent \<Rightarrow> registered_agent" where
  "update_skills new_skills agent = agent\<lparr>ra_skills := new_skills\<rparr>"

section \<open>The registry\<close>

type_synonym agent_registry = "(agent_id \<times> registered_agent) list"

fun registry_register :: "registered_agent \<Rightarrow> agent_registry \<Rightarrow> agent_registry" where
  "registry_register agent [] = [(ra_id agent, agent)]"
| "registry_register agent ((aid, old) # rest) =
     (if aid = ra_id agent then (aid, agent) # rest else (aid, old) # registry_register agent rest)"

definition registry_get :: "agent_registry \<Rightarrow> agent_id \<Rightarrow> registered_agent option" where
  "registry_get reg aid = map_of reg aid"

definition registry_agents :: "agent_registry \<Rightarrow> registered_agent list" where
  "registry_agents reg = map snd reg"

definition registry_resolve :: "agent_registry \<Rightarrow> invoke_request \<Rightarrow> core_error + registered_agent" where
  "registry_resolve reg request =
     (case rq_agent_id request of
        Some aid \<Rightarrow> ok_or (registry_get reg aid) (AgentNotFound aid)
      | None \<Rightarrow>
          (case rq_skill_id request of
             Some skill \<Rightarrow> ok_or (find (has_skill skill) (map snd reg)) NoEligibleAgent
           | None \<Rightarrow> (case reg of [] \<Rightarrow> Inl NoEligibleAgent | (_, agent) # _ \<Rightarrow> Inr agent)))"

text \<open>
  The hot update of an agent's skills: \<open>get\<close> the agent and write its list. The registry
  holds the agent by reference, so the entry changes.
\<close>

definition registry_update_skills ::
  "agent_id \<Rightarrow> string list \<Rightarrow> agent_registry \<Rightarrow> agent_registry" where
  "registry_update_skills aid skills reg =
     map (\<lambda>(k, agent). if k = aid then (k, update_skills skills agent) else (k, agent)) reg"

lemma registry_register_map_of:
  "map_of (registry_register agent reg) = (map_of reg)(ra_id agent \<mapsto> agent)"
  by (induction agent reg rule: registry_register.induct) auto

lemma registry_register_keys:
  "fst ` set (registry_register agent reg) = insert (ra_id agent) (fst ` set reg)"
  by (induction agent reg rule: registry_register.induct) auto

lemma registry_register_distinct:
  "distinct (map fst reg) \<Longrightarrow> distinct (map fst (registry_register agent reg))"
  by (induction agent reg rule: registry_register.induct)
    (use registry_register_keys in fastforce)+

lemma registry_update_skills_map_of:
  "map_of (registry_update_skills aid skills reg) k =
     map_option (\<lambda>a. if k = aid then update_skills skills a else a) (map_of reg k)"
  by (induction reg) (auto simp: registry_update_skills_def)

lemma has_skill_iff: "has_skill skill agent \<longleftrightarrow> skill \<in> set (ra_skills agent)"
  by (auto simp: has_skill_def list_ex_iff)

lemma registry_resolve_member:
  "registry_resolve reg request = Inr agent \<Longrightarrow> agent \<in> snd ` set reg"
  by (auto simp: registry_resolve_def registry_get_def find_Some_iff dest!: map_of_SomeD
      split: option.splits list.splits)
    (metis imageI length_map nth_map nth_mem snd_conv)+

text \<open>
  Routing. A request that names an agent gets exactly that agent, or
  \<open>AgentNotFound\<close>; a request that names only a skill gets an agent that has the skill, and
  \<open>NoEligibleAgent\<close> exactly when no agent has it; a request that names neither is refused
  only by an empty registry.
\<close>

theorem registry_resolve_correct:
  "(\<forall>aid. rq_agent_id request = Some aid \<longrightarrow>
      registry_resolve reg request =
        (case map_of reg aid of Some agent \<Rightarrow> Inr agent | None \<Rightarrow> Inl (AgentNotFound aid))) \<and>
   (\<forall>skill. rq_agent_id request = None \<and> rq_skill_id request = Some skill \<longrightarrow>
      (case registry_resolve reg request of
         Inr agent \<Rightarrow> agent \<in> set (registry_agents reg) \<and> skill \<in> set (ra_skills agent)
       | Inl e \<Rightarrow> e = NoEligibleAgent \<and>
           (\<forall>agent\<in>set (registry_agents reg). skill \<notin> set (ra_skills agent)))) \<and>
   (rq_agent_id request = None \<and> rq_skill_id request = None \<longrightarrow>
      (case registry_resolve reg request of
         Inr agent \<Rightarrow> agent \<in> set (registry_agents reg)
       | Inl e \<Rightarrow> e = NoEligibleAgent \<and> reg = []))"
proof (intro conjI allI impI)
  fix aid
  assume "rq_agent_id request = Some aid"
  then show "registry_resolve reg request =
      (case map_of reg aid of Some agent \<Rightarrow> Inr agent | None \<Rightarrow> Inl (AgentNotFound aid))"
    by (simp add: registry_resolve_def registry_get_def split: option.splits)
next
  fix skill
  assume skill: "rq_agent_id request = None \<and> rq_skill_id request = Some skill"
  show "case registry_resolve reg request of
      Inr agent \<Rightarrow> agent \<in> set (registry_agents reg) \<and> skill \<in> set (ra_skills agent)
    | Inl e \<Rightarrow> e = NoEligibleAgent \<and> (\<forall>agent\<in>set (registry_agents reg). skill \<notin> set (ra_skills agent))"
  proof (cases "find (has_skill skill) (map snd reg)")
    case None
    then have "\<forall>agent\<in>set (registry_agents reg). skill \<notin> set (ra_skills agent)"
      by (auto simp: registry_agents_def find_None_iff has_skill_iff)
    with None skill show ?thesis by (simp add: registry_resolve_def)
  next
    case (Some agent)
    then have "has_skill skill agent \<and> agent \<in> set (map snd reg)"
      by (fastforce simp: find_Some_iff simp del: length_map nth_map set_map)
    with Some skill show ?thesis
      by (simp add: registry_resolve_def registry_agents_def has_skill_iff)
  qed
next
  assume "rq_agent_id request = None \<and> rq_skill_id request = None"
  then show "case registry_resolve reg request of
      Inr agent \<Rightarrow> agent \<in> set (registry_agents reg) | Inl e \<Rightarrow> e = NoEligibleAgent \<and> reg = []"
    by (auto simp: registry_resolve_def registry_agents_def split: list.splits)
qed

theorem registry_resolve_correct_witness:
  "registry_resolve [(''x'', registered_agent_new 0 ''x'' [''sum''] \<lparr>cap_cancellation = True, cap_provide_input = True\<rparr>
        \<lparr>lim_max_concurrent_tasks = 1, lim_max_queued_tasks = 1, lim_max_input_bytes = 1,
         lim_max_event_bytes = 1, lim_default_timeout = 1\<rparr>)]
      \<lparr>rq_task_id = None, rq_agent_id = Some ''y'', rq_skill_id = None, rq_idempotency_key = ''k'',
       rq_session_id = None, rq_input = [], rq_context = JNull, rq_deadline = None\<rparr> =
     Inl (AgentNotFound ''y'')"
  by (subst registry_resolve_correct [THEN conjunct1, rule_format, of _ "''y''"]) simp_all

end
