(* ===== verification/Bearer_Policy.thy ===== *)
theory Bearer_Policy
  imports Registry "HOL-Library.AList"
begin

text \<open>
  The policy engines of \<open>adapter-core\<close>: \<open>AllowAllPolicy\<close> and
  \<open>BearerTokenPolicy\<close> of \<open>bearer_token.rs\<close>. The process environment is an argument
  of the construction, as a partial function from variable names to values.
\<close>

section \<open>Definitions\<close>

type_synonym policy_engine = "caller \<Rightarrow> core_command \<Rightarrow> core_error + unit"

definition allow_all_policy :: policy_engine where
  "allow_all_policy caller command = Inr ()"

record token_grant =
  tg_caller_id :: caller_id
  tg_allowed_scopes :: "string list"

type_synonym bearer_token_policy = "(string \<times> token_grant) list"

datatype bearer_token_policy_error = MissingEnv string | DuplicateToken string

text \<open>The loop of \<open>from_env\<close> over its entries, with the map built so far.\<close>

fun from_env_loop ::
  "(string \<Rightarrow> string option) \<Rightarrow> bearer_token_policy \<Rightarrow> (string \<times> token_grant) list \<Rightarrow>
     bearer_token_policy_error + bearer_token_policy" where
  "from_env_loop env grants [] = Inr grants"
| "from_env_loop env grants ((token_env, grant) # entries) =
     (case env token_env of
        None \<Rightarrow> Inl (MissingEnv token_env)
      | Some token \<Rightarrow>
          if map_of grants token \<noteq> None then Inl (DuplicateToken token_env)
          else from_env_loop env (AList.update token grant grants) entries)"

definition from_env ::
  "(string \<Rightarrow> string option) \<Rightarrow> (string \<times> token_grant) list \<Rightarrow>
     bearer_token_policy_error + bearer_token_policy" where
  "from_env env entries = from_env_loop env [] entries"

definition resolve_token :: "bearer_token_policy \<Rightarrow> string \<Rightarrow> caller option" where
  "resolve_token policy token =
     map_option (\<lambda>grant. \<lparr>caller_id_of = tg_caller_id grant, caller_scopes = tg_allowed_scopes grant\<rparr>)
       (map_of policy token)"

fun required_scope :: "core_command \<Rightarrow> string option" where
  "required_scope (Invoke request) = rq_skill_id request"
| "required_scope (Cancel t reason) = Some ''cancel''"
| "required_scope (ProvideInput t input) = Some ''provide-input''"
| "required_scope (GetStatus t) = Some ''get-status''"

definition bearer_authorize :: policy_engine where
  "bearer_authorize caller command =
     (if caller_scopes caller = [] then Inr ()
      else case required_scope command of
             Some scope \<Rightarrow>
               if list_ex (\<lambda>s. s = scope) (caller_scopes caller) then Inr ()
               else Inl (InvalidRequest (''caller '' @ caller_id_of caller @
                      '' is not authorized for scope '' @ [CHR 0x27] @ scope @ [CHR 0x27]))
           | None \<Rightarrow> Inr ())"

section \<open>Construction\<close>

text \<open>The token an entry binds, when its variable is set.\<close>

definition entry_tokens :: "(string \<Rightarrow> string option) \<Rightarrow> (string \<times> token_grant) list \<Rightarrow> string option list" where
  "entry_tokens env entries = map (\<lambda>e. env (fst e)) entries"

lemma entry_tokens_absent:
  assumes "None \<notin> set (entry_tokens env entries)" "Some token \<notin> set (entry_tokens env entries)"
  shows "map_of (map (\<lambda>(v, g). (the (env v), g)) entries) token = None"
  using assms by (induction entries) (auto simp: entry_tokens_def)

lemma from_env_loop_ok:
  assumes "from_env_loop env grants entries = Inr policy"
  shows "None \<notin> set (entry_tokens env entries)" "distinct (entry_tokens env entries)"
    "\<forall>token. Some token \<in> set (entry_tokens env entries) \<longrightarrow> map_of grants token = None"
    "map_of policy = map_of grants ++ map_of (map (\<lambda>(v, g). (the (env v), g)) entries)"
proof -
  have "None \<notin> set (entry_tokens env entries) \<and> distinct (entry_tokens env entries) \<and>
    (\<forall>token. Some token \<in> set (entry_tokens env entries) \<longrightarrow> map_of grants token = None) \<and>
    map_of policy = map_of grants ++ map_of (map (\<lambda>(v, g). (the (env v), g)) entries)"
    using assms
  proof (induction env grants entries rule: from_env_loop.induct)
    case (1 env grants)
    then show ?case by (simp add: entry_tokens_def)
  next
    case (2 env grants token_env grant entries)
    then obtain token where token: "env token_env = Some token" "map_of grants token = None"
      "from_env_loop env (AList.update token grant grants) entries = Inr policy"
      by (auto split: option.splits if_splits)
    have ih: "None \<notin> set (entry_tokens env entries)" "distinct (entry_tokens env entries)"
      "\<forall>t. Some t \<in> set (entry_tokens env entries) \<longrightarrow> map_of (AList.update token grant grants) t = None"
      "map_of policy = map_of (AList.update token grant grants) ++
         map_of (map (\<lambda>(v, g). (the (env v), g)) entries)"
      using 2(1) [OF token(1)] token(2,3) by simp_all
    have notin: "Some token \<notin> set (entry_tokens env entries)"
      using ih(3) by (auto simp: update_conv')
    have old: "map_of grants t = None" if "Some t \<in> set (entry_tokens env entries)" for t
      using ih(3) that by (auto simp: update_conv' split: if_splits)
    have "map_of policy = map_of grants ++
        map_of (map (\<lambda>(v, g). (the (env v), g)) ((token_env, grant) # entries))"
      using entry_tokens_absent [OF ih(1) notin] token(1)
      by (auto simp: ih(4) update_conv' fun_eq_iff map_add_def split: option.split)
    moreover have "None \<notin> set (entry_tokens env ((token_env, grant) # entries)) \<and>
        distinct (entry_tokens env ((token_env, grant) # entries)) \<and>
        (\<forall>t. Some t \<in> set (entry_tokens env ((token_env, grant) # entries)) \<longrightarrow> map_of grants t = None)"
      using ih(1,2) notin old token(1,2) by (auto simp: entry_tokens_def)
    ultimately show ?case by blast
  qed
  then show "None \<notin> set (entry_tokens env entries)" "distinct (entry_tokens env entries)"
    "\<forall>token. Some token \<in> set (entry_tokens env entries) \<longrightarrow> map_of grants token = None"
    "map_of policy = map_of grants ++ map_of (map (\<lambda>(v, g). (the (env v), g)) entries)"
    by simp_all
qed

lemma from_env_loop_total:
  assumes "None \<notin> set (entry_tokens env entries)" "distinct (entry_tokens env entries)"
    "\<forall>token. Some token \<in> set (entry_tokens env entries) \<longrightarrow> map_of grants token = None"
  shows "\<exists>policy. from_env_loop env grants entries = Inr policy"
  using assms
proof (induction env grants entries rule: from_env_loop.induct)
  case (2 env grants token_env grant entries)
  then obtain token where token: "env token_env = Some token"
    by (cases "env token_env") (auto simp: entry_tokens_def)
  with 2(2-4) have "map_of grants token = None" by (auto simp: entry_tokens_def)
  moreover have "\<exists>policy. from_env_loop env (AList.update token grant grants) entries = Inr policy"
    using 2(2-4) token calculation
    by (intro 2(1) [OF token]) (auto simp: entry_tokens_def update_conv')
  ultimately show ?case using token by simp
qed simp

text \<open>
  Authentication set-up. The policy is built exactly when every variable is set and no
  two of them hold the same token; the token of each entry then resolves to that entry's
  caller and scopes, and a token that no entry holds resolves to no caller.
\<close>

theorem from_env_correct:
  "(is_ok (from_env env entries) \<longleftrightarrow>
      None \<notin> set (entry_tokens env entries) \<and> distinct (entry_tokens env entries)) \<and>
   (\<forall>policy. from_env env entries = Inr policy \<longrightarrow>
      (\<forall>(v, g)\<in>set entries. \<exists>token. env v = Some token \<and>
         resolve_token policy token =
           Some \<lparr>caller_id_of = tg_caller_id g, caller_scopes = tg_allowed_scopes g\<rparr>) \<and>
      (\<forall>token. Some token \<notin> set (entry_tokens env entries) \<longrightarrow> resolve_token policy token = None))"
proof (intro conjI allI impI)
  show "is_ok (from_env env entries) \<longleftrightarrow>
      None \<notin> set (entry_tokens env entries) \<and> distinct (entry_tokens env entries)"
    using from_env_loop_total [of env entries "[]"] from_env_loop_ok(1,2) [of env "[]" entries]
    by (cases "from_env env entries") (auto simp: from_env_def)
next
  fix policy
  assume "from_env env entries = Inr policy"
  then have "from_env_loop env [] entries = Inr policy" by (simp add: from_env_def)
  note ok = from_env_loop_ok [OF this]
  have "map fst (map (\<lambda>(v, g). (the (env v), g)) entries) = map the (entry_tokens env entries)"
    by (auto simp: entry_tokens_def)
  moreover have "inj_on the (set (entry_tokens env entries))"
    using ok(1) by (metis inj_onI option.collapse)
  ultimately have dist: "distinct (map fst (map (\<lambda>(v, g). (the (env v), g)) entries))"
    using ok(2) by (simp only: distinct_map)
  show "\<forall>(v, g)\<in>set entries. \<exists>token. env v = Some token \<and>
      resolve_token policy token =
        Some \<lparr>caller_id_of = tg_caller_id g, caller_scopes = tg_allowed_scopes g\<rparr>"
  proof clarify
    fix v g
    assume vg: "(v, g) \<in> set entries"
    with ok(1) obtain token where token: "env v = Some token"
      by (cases "env v") (force simp: entry_tokens_def image_iff)+
    with vg have "(token, g) \<in> set (map (\<lambda>(v, g). (the (env v), g)) entries)" by force
    with dist have "map_of policy token = Some g" by (simp add: ok(4))
    with token show "\<exists>token. env v = Some token \<and> resolve_token policy token =
        Some \<lparr>caller_id_of = tg_caller_id g, caller_scopes = tg_allowed_scopes g\<rparr>"
      by (simp add: resolve_token_def)
  qed
  show "resolve_token policy token = None" if "Some token \<notin> set (entry_tokens env entries)" for token
    using entry_tokens_absent [OF ok(1) that] by (simp add: resolve_token_def ok(4))
qed

theorem from_env_correct_witness:
  "resolve_token (projr (from_env (\<lambda>v. if v = ''V'' then Some ''secret'' else None)
       [(''V'', \<lparr>tg_caller_id = ''c'', tg_allowed_scopes = []\<rparr>)])) ''secret'' =
     Some \<lparr>caller_id_of = ''c'', caller_scopes = []\<rparr>"
  using from_env_correct [of "\<lambda>v. if v = ''V'' then Some ''secret'' else None"
      "[(''V'', \<lparr>tg_caller_id = ''c'', tg_allowed_scopes = []\<rparr>)]"]
  by (simp add: from_env_def)

section \<open>Authorisation\<close>

text \<open>
  Authorisation. A caller without scopes may do everything. A caller with scopes may
  cancel, provide input and read the status exactly with the scopes \<open>cancel\<close>,
  \<open>provide-input\<close> and \<open>get-status\<close>, and invoke a named skill exactly when the
  skill is one of its scopes; an invocation that names no skill passes whatever the scopes
  are, those of a read-only caller included.
\<close>

theorem bearer_authorize_iff:
  "is_ok (bearer_authorize caller command) \<longleftrightarrow>
     caller_scopes caller = [] \<or>
     (case command of
        Invoke request \<Rightarrow>
          (case rq_skill_id request of None \<Rightarrow> True | Some skill \<Rightarrow> skill \<in> set (caller_scopes caller))
      | Cancel t reason \<Rightarrow> ''cancel'' \<in> set (caller_scopes caller)
      | ProvideInput t input \<Rightarrow> ''provide-input'' \<in> set (caller_scopes caller)
      | GetStatus t \<Rightarrow> ''get-status'' \<in> set (caller_scopes caller))"
  by (cases command) (auto simp: bearer_authorize_def list_ex_iff split: option.splits)

end
