(* ===== verification/Core_Programs.thy ===== *)
theory Core_Programs
  imports Bearer_Policy
begin

text \<open>
  The handlers of \<open>AdapterCore\<close>. They run concurrently on shared state, so a handler is
  not a state transformer but a program: a tree whose nodes are the single effects of the
  code (a call of the store, a look at the registry, a semaphore, the table of active tasks,
  a call of a driver, the expiry of a timer), each with the continuation that receives its
  answer. Every \<open>await\<close> and every access to shared state is a node, so another handler can
  run between any two of them. \<open>Core_System\<close> gives the programs their meaning.
\<close>

section \<open>Programs\<close>

text \<open>What \<open>agent.driver.invoke\<close> hands over: the events the stream will deliver, and
  whether it is closed after them (a stream that is not stays silent).\<close>

datatype driver_stream = DriverStream "driver_event list" bool

datatype driver_call =
    CallCancel registered_agent task_id
  | CallProvideInput registered_agent task_id "part list"

text \<open>What the spawned task of \<open>invoke\<close> captures: the agent, the task, the request and
  the three permits it holds.\<close>

record worker =
  wk_agent :: registered_agent
  wk_task :: task_id
  wk_request :: invoke_request
  wk_caller_permit :: semaphore
  wk_global_permit :: semaphore
  wk_agent_permit :: semaphore

datatype action =
    ActiveInsert task_id
  | ActiveSend task_id core_event
  | ActiveCancel task_id
  | ActiveRemove task_id
  | Release semaphore
  | Spawn worker

datatype receiver = ClosedReceiver | LiveReceiver task_id nat

datatype 'a prog =
    Done 'a
  | Create new_task "store_error + create_task_result \<Rightarrow> 'a prog"
  | Get task_id "store_error + task_snapshot option \<Rightarrow> 'a prog"
  | Append task_transition "store_error + applied_transition \<Rightarrow> 'a prog"
  | Events task_id event_seq nat "store_error + core_event list \<Rightarrow> 'a prog"
  | ReadRegistry "agent_registry \<Rightarrow> 'a prog"
  | Clock "time \<Rightarrow> 'a prog"
  | FreshId "uuid \<Rightarrow> 'a prog"
  | TryAcquire semaphore "bool \<Rightarrow> 'a prog"
  | Act action "'a prog"
  | SubscribeActive task_id "receiver option \<Rightarrow> 'a prog"
  | DriverInvoke registered_agent task_id invoke_request "core_error + driver_stream \<Rightarrow> 'a prog"
  | DriverCall driver_call "core_error + unit \<Rightarrow> 'a prog"
  | Await "'a prog"
  | Elapsed "bool \<Rightarrow> 'a prog"
  | Hang

primrec bindp :: "'a prog \<Rightarrow> ('a \<Rightarrow> 'b prog) \<Rightarrow> 'b prog" where
  "bindp (Done a) f = f a"
| "bindp (Create nt k) f = Create nt (\<lambda>r. bindp (k r) f)"
| "bindp (Get t k) f = Get t (\<lambda>r. bindp (k r) f)"
| "bindp (Append tr k) f = Append tr (\<lambda>r. bindp (k r) f)"
| "bindp (Events t after n k) f = Events t after n (\<lambda>r. bindp (k r) f)"
| "bindp (ReadRegistry k) f = ReadRegistry (\<lambda>r. bindp (k r) f)"
| "bindp (Clock k) f = Clock (\<lambda>r. bindp (k r) f)"
| "bindp (FreshId k) f = FreshId (\<lambda>r. bindp (k r) f)"
| "bindp (TryAcquire s k) f = TryAcquire s (\<lambda>r. bindp (k r) f)"
| "bindp (Act a p) f = Act a (bindp p f)"
| "bindp (SubscribeActive t k) f = SubscribeActive t (\<lambda>r. bindp (k r) f)"
| "bindp (DriverInvoke a t rq k) f = DriverInvoke a t rq (\<lambda>r. bindp (k r) f)"
| "bindp (DriverCall c k) f = DriverCall c (\<lambda>r. bindp (k r) f)"
| "bindp (Await p) f = Await (bindp p f)"
| "bindp (Elapsed k) f = Elapsed (\<lambda>r. bindp (k r) f)"
| "bindp Hang f = Hang"

text \<open>The operator \<open>?\<close>: an error leaves the function.\<close>

definition thenp :: "('e + 'a) prog \<Rightarrow> ('a \<Rightarrow> ('e + 'b) prog) \<Rightarrow> ('e + 'b) prog" where
  "thenp p f = bindp p (\<lambda>r. case r of Inl e \<Rightarrow> Done (Inl e) | Inr a \<Rightarrow> f a)"

text \<open>
  \<open>tokio::time::timeout\<close>. The timer can fire at every \<open>await\<close> of the inner future,
  before the awaited call took effect or after it (then its answer is lost); the future is
  dropped there. It cannot fire between two synchronous effects. A future that waits
  for ever ends with the expiry.
\<close>

primrec with_timeout :: "'a prog \<Rightarrow> 'a option prog" where
  "with_timeout (Done a) = Done (Some a)"
| "with_timeout (Create nt k) =
     Elapsed (\<lambda>b. if b then Done None
       else Create nt (\<lambda>r. Elapsed (\<lambda>b. if b then Done None else with_timeout (k r))))"
| "with_timeout (Get t k) =
     Elapsed (\<lambda>b. if b then Done None
       else Get t (\<lambda>r. Elapsed (\<lambda>b. if b then Done None else with_timeout (k r))))"
| "with_timeout (Append tr k) =
     Elapsed (\<lambda>b. if b then Done None
       else Append tr (\<lambda>r. Elapsed (\<lambda>b. if b then Done None else with_timeout (k r))))"
| "with_timeout (Events t after n k) =
     Elapsed (\<lambda>b. if b then Done None
       else Events t after n (\<lambda>r. Elapsed (\<lambda>b. if b then Done None else with_timeout (k r))))"
| "with_timeout (ReadRegistry k) = ReadRegistry (\<lambda>r. with_timeout (k r))"
| "with_timeout (Clock k) = Clock (\<lambda>r. with_timeout (k r))"
| "with_timeout (FreshId k) = FreshId (\<lambda>r. with_timeout (k r))"
| "with_timeout (TryAcquire s k) = TryAcquire s (\<lambda>r. with_timeout (k r))"
| "with_timeout (Act a p) = Act a (with_timeout p)"
| "with_timeout (SubscribeActive t k) = SubscribeActive t (\<lambda>r. with_timeout (k r))"
| "with_timeout (DriverInvoke a t rq k) =
     Elapsed (\<lambda>b. if b then Done None
       else DriverInvoke a t rq (\<lambda>r. Elapsed (\<lambda>b. if b then Done None else with_timeout (k r))))"
| "with_timeout (DriverCall c k) =
     Elapsed (\<lambda>b. if b then Done None
       else DriverCall c (\<lambda>r. Elapsed (\<lambda>b. if b then Done None else with_timeout (k r))))"
| "with_timeout (Await p) = Elapsed (\<lambda>b. if b then Done None else with_timeout p)"
| "with_timeout (Elapsed k) = Elapsed (\<lambda>b. with_timeout (k b))"
| "with_timeout Hang = Done None"

section \<open>Reading and changing a task\<close>

text \<open>The configuration of the core, and the foreign functions it uses: the printed form of
  a UUID and \<open>chrono::Duration::from_std\<close>.\<close>

record core_env =
  ce_uuid_str :: "uuid \<Rightarrow> string"
  ce_from_std :: "nat \<Rightarrow> string + int"
  ce_policy :: policy_engine
  ce_max_concurrent :: nat
  ce_caller_quota :: nat

text \<open>\<open>DEFAULT_CALLER_MAX_CONCURRENT\<close> and the constructor \<open>new\<close>.\<close>

definition default_caller_max_concurrent :: nat where
  "default_caller_max_concurrent = 1"

definition core_new ::
  "(uuid \<Rightarrow> string) \<Rightarrow> (nat \<Rightarrow> string + int) \<Rightarrow> policy_engine \<Rightarrow> nat \<Rightarrow> core_env" where
  "core_new uuid_str from_std policy max_concurrent =
     \<lparr>ce_uuid_str = uuid_str, ce_from_std = from_std, ce_policy = policy,
      ce_max_concurrent = max_concurrent, ce_caller_quota = default_caller_max_concurrent\<rparr>"

definition snapshot :: "task_id \<Rightarrow> (core_error + task_snapshot) prog" where
  "snapshot t =
     Get t (\<lambda>r. case r of
        Inl e \<Rightarrow> Done (Inl (StoreError e))
      | Inr None \<Rightarrow> Done (Inl (StoreError (NotFound t)))
      | Inr (Some s) \<Rightarrow> Done (Inr s))"

definition transition ::
  "task_snapshot \<Rightarrow> task_state list \<Rightarrow> task_state \<Rightarrow> core_event_kind \<Rightarrow>
     (core_error + task_snapshot) prog" where
  "transition snap allowed next kind =
     Append \<lparr>tr_task_id = snap_task_id snap, tr_expected_revision = snap_revision snap,
             tr_allowed_states = allowed, tr_next_state = next, tr_event_kind = kind\<rparr>
       (\<lambda>r. case r of
          Inl e \<Rightarrow> Done (Inl (StoreError e))
        | Inr applied \<Rightarrow>
            Act (ActiveSend (snap_task_id snap) (at_event applied)) (Done (Inr (at_snapshot applied))))"

definition fail_active :: "core_env \<Rightarrow> task_id \<Rightarrow> core_error \<Rightarrow> (core_error + unit) prog" where
  "fail_active ce t err =
     thenp (snapshot t) (\<lambda>snap.
       if terminal (snap_state snap) then Done (Inr ())
       else thenp (transition snap
                [Created, Accepted, Running, WaitingForInput, CancelRequested] Failed
                (EvFailed \<lparr>pe_code = (if err = Timeout then ''timeout'' else ''runtime_error''),
                   pe_message = display_core_error (ce_uuid_str ce) err, pe_retryable = False\<rparr>))
              (\<lambda>_. Done (Inr ())))"

fun apply_driver_event :: "core_env \<Rightarrow> task_id \<Rightarrow> driver_event \<Rightarrow> (core_error + unit) prog" where
  "apply_driver_event ce t event =
     thenp (snapshot t) (\<lambda>snap.
       case event of
         DvAccepted \<Rightarrow> Done (Inr ())
       | DvProgress message percent \<Rightarrow>
           thenp (transition snap [Accepted, Running]
                    (if snap_state snap = Accepted then Running else snap_state snap)
                    (EvProgress message percent)) (\<lambda>_. Done (Inr ()))
       | DvArtifact artifact \<Rightarrow>
           thenp (transition snap [Accepted, Running, WaitingForInput] Running (EvArtifact artifact))
             (\<lambda>_. Done (Inr ()))
       | DvInputRequired request \<Rightarrow>
           thenp (transition snap [Accepted, Running] WaitingForInput (EvInputRequired request))
             (\<lambda>_. Done (Inr ()))
       | DvCompleted output \<Rightarrow>
           thenp (transition snap [Accepted, Running, WaitingForInput] Completed (EvCompleted output))
             (\<lambda>_. Done (Inr ()))
       | DvFailed error \<Rightarrow> fail_active ce t (DriverError (pe_message error))
       | DvCancelled \<Rightarrow>
           thenp (transition snap [CancelRequested, Accepted, Running, WaitingForInput] Cancelled
                    EvCancelled) (\<lambda>_. Done (Inr ())))"

declare apply_driver_event.simps [simp del]

section \<open>The worker\<close>

text \<open>The loop \<open>while let Some(event) = stream.recv().await\<close> and what follows it.\<close>

fun consume :: "core_env \<Rightarrow> task_id \<Rightarrow> driver_event list \<Rightarrow> bool \<Rightarrow> (core_error + unit) prog" where
  "consume ce t [] closed =
     (if closed
      then Await (thenp (snapshot t) (\<lambda>snap.
             if \<not> terminal (snap_state snap)
             then Done (Inl (DriverError ''driver stream closed before terminal event''))
             else Done (Inr ())))
      else Hang)"
| "consume ce t (event # events) closed =
     Await (thenp (apply_driver_event ce t event) (\<lambda>_.
       thenp (snapshot t) (\<lambda>snap.
         if terminal (snap_state snap) then Done (Inr ()) else consume ce t events closed)))"

definition run_driver ::
  "core_env \<Rightarrow> registered_agent \<Rightarrow> task_id \<Rightarrow> invoke_request \<Rightarrow> (core_error + unit) prog" where
  "run_driver ce agent t request =
     DriverInvoke agent t request (\<lambda>r. case r of
        Inl e \<Rightarrow> Done (Inl e)
      | Inr (DriverStream events closed) \<Rightarrow> consume ce t events closed)"

text \<open>The body of the spawned task; its three permits are dropped at its end.\<close>

definition release_permits :: "worker \<Rightarrow> unit prog" where
  "release_permits wk =
     Act (Release (wk_agent_permit wk)) (Act (Release (wk_global_permit wk))
       (Act (Release (wk_caller_permit wk)) (Done ())))"

definition worker_body :: "core_env \<Rightarrow> worker \<Rightarrow> unit prog" where
  "worker_body ce wk =
     bindp (with_timeout (run_driver ce (wk_agent wk) (wk_task wk) (wk_request wk))) (\<lambda>r.
     bindp (case r of
              Some (Inr _) \<Rightarrow> Done ()
            | Some (Inl err) \<Rightarrow> bindp (fail_active ce (wk_task wk) err) (\<lambda>_. Done ())
            | None \<Rightarrow>
                DriverCall (CallCancel (wk_agent wk) (wk_task wk)) (\<lambda>_.
                  bindp (fail_active ce (wk_task wk) Timeout) (\<lambda>_. Done ())))
       (\<lambda>_. Act (ActiveRemove (wk_task wk)) (release_permits wk)))"

section \<open>The commands\<close>

definition caller_permits :: "core_env \<Rightarrow> caller_id \<Rightarrow> semaphore" where
  "caller_permits ce c = Semaphore (CallerPool c) (ce_caller_quota ce)"

definition global_permits :: "core_env \<Rightarrow> semaphore" where
  "global_permits ce = Semaphore GlobalPool (ce_max_concurrent ce)"

text \<open>A rejected invocation: the task fails, and the caller gets the error.\<close>

definition reject ::
  "core_env \<Rightarrow> task_id \<Rightarrow> string \<Rightarrow> string \<Rightarrow> (core_error + dispatch_result) prog" where
  "reject ce t stored answered =
     thenp (fail_active ce t (ResourceExhausted stored)) (\<lambda>_. Done (Inl (ResourceExhausted answered)))"

text \<open>The limits: the queue of the agent, the quota of the caller, the global pool and the
  pool of the agent, in this order; a permit taken is given back before a rejection.\<close>

definition admit ::
  "core_env \<Rightarrow> registered_agent \<Rightarrow> caller \<Rightarrow> task_id \<Rightarrow> invoke_request \<Rightarrow> task_snapshot \<Rightarrow>
     (core_error + dispatch_result) prog" where
  "admit ce agent caller t request accepted =
     (let queue = ra_queue_permits agent; caller_permit = caller_permits ce (caller_id_of caller);
          global = global_permits ce; per_agent = ra_permits agent in
      TryAcquire queue (\<lambda>ok. if \<not> ok
        then reject ce t (''agent '' @ ra_id agent @ '' queue full (max_queued_tasks='' @
                            nat_str (lim_max_queued_tasks (ra_limits agent)) @ '')'')
               (''agent '' @ ra_id agent @ '' queue full'')
        else
      TryAcquire caller_permit (\<lambda>ok. if \<not> ok
        then Act (Release queue)
               (reject ce t (''caller '' @ caller_id_of caller @ '' at concurrency limit'')
                  (''caller '' @ caller_id_of caller @ '' at concurrency limit''))
        else
      TryAcquire global (\<lambda>ok. if \<not> ok
        then Act (Release caller_permit) (Act (Release queue)
               (reject ce t ''global task limit reached'' ''global task limit reached''))
        else
      TryAcquire per_agent (\<lambda>ok. if \<not> ok
        then Act (Release caller_permit) (Act (Release queue) (Act (Release global)
               (reject ce t (''agent '' @ ra_id agent @ '' busy'') (''agent '' @ ra_id agent @ '' busy''))))
        else
      Act (Release queue)
        (Act (Spawn \<lparr>wk_agent = agent, wk_task = t, wk_request = request,
                wk_caller_permit = caller_permit, wk_global_permit = global,
                wk_agent_permit = per_agent\<rparr>)
          (Done (Inr (DrCreated accepted)))))))))"

text \<open>From the resolved agent and the task id on: create the task, open its channel, accept
  it, and admit it.\<close>

definition start_task ::
  "core_env \<Rightarrow> registered_agent \<Rightarrow> caller \<Rightarrow> task_id \<Rightarrow> time option \<Rightarrow> invoke_request \<Rightarrow>
     (core_error + dispatch_result) prog" where
  "start_task ce agent caller t deadline_at request =
     Create \<lparr>nt_task_id = t, nt_session_id = rq_session_id request, nt_agent_id = ra_id agent,
             nt_caller_id = caller_id_of caller, nt_idempotency_key = rq_idempotency_key request,
             nt_deadline_at = deadline_at\<rparr>
       (\<lambda>r. case r of
          Inl e \<Rightarrow> Done (Inl (StoreError e))
        | Inr (CtExisting s) \<Rightarrow> Done (Inr (DrExisting s))
        | Inr (CtCreated s) \<Rightarrow>
            Act (ActiveInsert t)
              (thenp (transition s [Created] Accepted (EvAccepted False))
                 (admit ce agent caller t request)))"

definition deadline_of :: "core_env \<Rightarrow> invoke_request \<Rightarrow> (time option \<Rightarrow> 'a prog) \<Rightarrow> 'a prog" where
  "deadline_of ce request k =
     (case rq_deadline request of
        None \<Rightarrow> k None
      | Some duration \<Rightarrow>
          (case ce_from_std ce duration of
             Inl _ \<Rightarrow> k None
           | Inr d \<Rightarrow> Clock (\<lambda>now. k (Some (now + d)))))"

definition new_or_given_id :: "invoke_request \<Rightarrow> (task_id \<Rightarrow> 'a prog) \<Rightarrow> 'a prog" where
  "new_or_given_id request k = (case rq_task_id request of Some t \<Rightarrow> k t | None \<Rightarrow> FreshId k)"

definition invoke :: "core_env \<Rightarrow> caller \<Rightarrow> invoke_request \<Rightarrow> (core_error + dispatch_result) prog" where
  "invoke ce caller request =
     (if blank (rq_idempotency_key request)
      then Done (Inl (InvalidRequest ''idempotency_key required''))
      else ReadRegistry (\<lambda>registry.
        case registry_resolve registry request of
          Inl e \<Rightarrow> Done (Inl e)
        | Inr agent \<Rightarrow>
            new_or_given_id request (\<lambda>t.
              deadline_of ce request (\<lambda>deadline_at.
                start_task ce agent caller t deadline_at request))))"

definition cancel :: "task_id \<Rightarrow> string option \<Rightarrow> (core_error + dispatch_result) prog" where
  "cancel t reason =
     thenp (snapshot t) (\<lambda>snap.
       if terminal (snap_state snap) then Done (Inr (DrCancelRequested snap))
       else ReadRegistry (\<lambda>registry.
         case registry_get registry (snap_agent_id snap) of
           None \<Rightarrow> Done (Inl (AgentNotFound (snap_agent_id snap)))
         | Some agent \<Rightarrow>
             thenp (transition snap [Created, Accepted, Running, WaitingForInput] CancelRequested
                      (EvCancelRequested reason)) (\<lambda>changed.
               Act (ActiveCancel t)
                 (if cap_cancellation (ra_capabilities agent)
                  then DriverCall (CallCancel agent t) (\<lambda>_. Done (Inr (DrCancelRequested changed)))
                  else Done (Inr (DrCancelRequested changed))))))"

definition provide_input :: "task_id \<Rightarrow> part list \<Rightarrow> (core_error + dispatch_result) prog" where
  "provide_input t input =
     thenp (snapshot t) (\<lambda>snap.
       if snap_state snap \<noteq> WaitingForInput
       then Done (Inl (InvalidRequest ''task is not waiting for input''))
       else ReadRegistry (\<lambda>registry.
         case registry_get registry (snap_agent_id snap) of
           None \<Rightarrow> Done (Inl (AgentNotFound (snap_agent_id snap)))
         | Some agent \<Rightarrow>
             if \<not> cap_provide_input (ra_capabilities agent)
             then Done (Inl (InvalidRequest ''agent does not support input''))
             else DriverCall (CallProvideInput agent t input) (\<lambda>r. case r of
                    Inl e \<Rightarrow> Done (Inl e)
                  | Inr _ \<Rightarrow>
                      thenp (transition snap [WaitingForInput] Running
                               (EvProgress ''input accepted'' None)) (\<lambda>changed.
                        Done (Inr (DrInputAccepted changed))))))"

fun dispatch :: "core_env \<Rightarrow> caller \<Rightarrow> core_command \<Rightarrow> (core_error + dispatch_result) prog" where
  "dispatch ce caller command =
     (case ce_policy ce caller command of
        Inl e \<Rightarrow> Done (Inl e)
      | Inr _ \<Rightarrow>
          (case command of
             Invoke request \<Rightarrow> invoke ce caller request
           | Cancel t reason \<Rightarrow> cancel t reason
           | ProvideInput t input \<Rightarrow> provide_input t input
           | GetStatus t \<Rightarrow> thenp (snapshot t) (\<lambda>s. Done (Inr (DrStatus s)))))"

declare dispatch.simps [simp del]

section \<open>Subscriptions\<close>

record task_subscription =
  ts_history :: "core_event list"
  ts_receiver :: receiver
  ts_history_end_seq :: "event_seq option"

definition subscribe :: "task_id \<Rightarrow> event_seq \<Rightarrow> (core_error + task_subscription) prog" where
  "subscribe t after =
     Events t after 500 (\<lambda>r. case r of
        Inl e \<Rightarrow> Done (Inl (StoreError e))
      | Inr hist \<Rightarrow>
          SubscribeActive t (\<lambda>rx.
            Done (Inr \<lparr>ts_history = hist,
              ts_receiver = (case rx of None \<Rightarrow> ClosedReceiver | Some live \<Rightarrow> live),
              ts_history_end_seq = (if hist = [] then None else Some (ev_seq (last hist)))\<rparr>)))"

definition history :: "task_id \<Rightarrow> event_seq \<Rightarrow> (core_error + core_event list) prog" where
  "history t after =
     Events t after 500 (\<lambda>r. case r of Inl e \<Rightarrow> Done (Inl (StoreError e)) | Inr evs \<Rightarrow> Done (Inr evs))"

section \<open>Laws\<close>

lemma bindp_assoc: "bindp (bindp p f) g = bindp p (\<lambda>a. bindp (f a) g)"
  by (induction p) simp_all

lemma bindp_Done [simp]: "bindp p Done = p"
  by (induction p) simp_all

lemma with_timeout_bindp:
  "with_timeout (bindp p f) =
     bindp (with_timeout p) (\<lambda>r. case r of None \<Rightarrow> Done None | Some a \<Rightarrow> with_timeout (f a))"
proof (induction p)
  case (Elapsed k)
  then show ?case by simp
next
  case Hang
  show ?case by simp
qed (simp_all add: if_distrib [where f = "\<lambda>p. bindp p _"] cong: if_cong)

end
