(* ===== verification/Core_System.thy ===== *)
theory Core_System
  imports Core_Programs "HOL-Library.Multiset"
begin

text \<open>
  The meaning of the core's programs. The shared state (\<open>CoreInner\<close>) is a record: the
  store, the registry, the table of active tasks with their broadcast channels, and the
  permits handed out by each semaphore. A system is this state with a pool of threads, one
  program per request being served and one per spawned worker. A step lets one thread
  perform one effect; which thread, and what the world answers (the clock, a fresh UUID, a
  driver, the timer, a failing database), is the choice of the environment, so the theorems
  hold for every interleaving and every driver. The function that performs a step is
  executable, so a schedule can be run.
\<close>

section \<open>Shared state and single effects\<close>

record active_task =
  act_sent :: "core_event list"
  act_cancelled :: bool

record 's world =
  w_store :: 's
  w_registry :: agent_registry
  w_active :: "(task_id \<times> active_task) list"
  w_used :: "semaphore \<Rightarrow> nat"
  w_spawned :: "worker list"

text \<open>The answers of the environment. A store call can succeed at a time, fail without
  effect, or take effect and lose its answer.\<close>

datatype choice =
    Proceed time
  | Fault store_error
  | LostReply time store_error
  | IdIs uuid
  | StreamIs "core_error + driver_stream"
  | DriverSays "core_error + unit"
  | Timer bool

definition store_call ::
  "choice \<Rightarrow> (time \<Rightarrow> 's \<Rightarrow> (store_error + 'r) \<times> 's) \<Rightarrow> 's \<Rightarrow> ((store_error + 'r) \<times> 's) option" where
  "store_call c f s =
     (case c of
        Proceed now \<Rightarrow> Some (f now s)
      | Fault e \<Rightarrow> Some (Inl e, s)
      | LostReply now e \<Rightarrow> Some (Inl e, snd (f now s))
      | _ \<Rightarrow> None)"

definition update_active :: "task_id \<Rightarrow> (active_task \<Rightarrow> active_task) \<Rightarrow> 's world \<Rightarrow> 's world" where
  "update_active t f w =
     (case map_of (w_active w) t of
        None \<Rightarrow> w
      | Some a \<Rightarrow> w\<lparr>w_active := AList.update t (f a) (w_active w)\<rparr>)"

fun perform :: "action \<Rightarrow> 's world \<Rightarrow> 's world" where
  "perform (ActiveInsert t) w =
     w\<lparr>w_active := AList.update t \<lparr>act_sent = [], act_cancelled = False\<rparr> (w_active w)\<rparr>"
| "perform (ActiveSend t ev) w = update_active t (\<lambda>a. a\<lparr>act_sent := act_sent a @ [ev]\<rparr>) w"
| "perform (ActiveCancel t) w = update_active t (\<lambda>a. a\<lparr>act_cancelled := True\<rparr>) w"
| "perform (ActiveRemove t) w = w\<lparr>w_active := AList.delete t (w_active w)\<rparr>"
| "perform (Release s) w = w\<lparr>w_used := (w_used w)(s := w_used w s - 1)\<rparr>"
| "perform (Spawn wk) w = w\<lparr>w_spawned := w_spawned w @ [wk]\<rparr>"

definition try_acquire :: "semaphore \<Rightarrow> 's world \<Rightarrow> bool \<times> 's world" where
  "try_acquire s w =
     (if w_used w s < capacity s then (True, w\<lparr>w_used := (w_used w)(s := w_used w s + 1)\<rparr>)
      else (False, w))"

definition subscribe_active :: "task_id \<Rightarrow> 's world \<Rightarrow> receiver option" where
  "subscribe_active t w =
     map_option (\<lambda>a. LiveReceiver t (length (act_sent a))) (map_of (w_active w) t)"

text \<open>One effect of a thread.\<close>

primrec step ::
  "'a prog \<Rightarrow> 's store_ops \<Rightarrow> ('s \<Rightarrow> new_task \<Rightarrow> bool) \<Rightarrow> choice \<Rightarrow> 's world \<Rightarrow> ('a prog \<times> 's world) option" where
  "step (Done a) ops allow c w = None"
| "step (Create nt k) ops allow c w =
     (if allow (w_store w) nt
      then map_option (\<lambda>(r, s). (k r, w\<lparr>w_store := s\<rparr>))
             (store_call c (\<lambda>now. op_create ops now nt) (w_store w))
      else None)"
| "step (Get t k) ops allow c w =
     map_option (\<lambda>(r, s). (k r, w\<lparr>w_store := s\<rparr>))
       (store_call c (\<lambda>_ s. (op_get_snapshot ops t s, s)) (w_store w))"
| "step (Append tr k) ops allow c w =
     map_option (\<lambda>(r, s). (k r, w\<lparr>w_store := s\<rparr>))
       (store_call c (\<lambda>now. op_append ops now tr) (w_store w))"
| "step (Events t after n k) ops allow c w =
     map_option (\<lambda>(r, s). (k r, w\<lparr>w_store := s\<rparr>))
       (store_call c (\<lambda>_ s. (op_events_after ops t after n s, s)) (w_store w))"
| "step (ReadRegistry k) ops allow c w = Some (k (w_registry w), w)"
| "step (Clock k) ops allow c w = (case c of Proceed now \<Rightarrow> Some (k now, w) | _ \<Rightarrow> None)"
| "step (FreshId k) ops allow c w = (case c of IdIs u \<Rightarrow> Some (k u, w) | _ \<Rightarrow> None)"
| "step (TryAcquire s k) ops allow c w =
     (case try_acquire s w of (ok, w') \<Rightarrow> Some (k ok, w'))"
| "step (Act a p) ops allow c w = Some (p, perform a w)"
| "step (SubscribeActive t k) ops allow c w = Some (k (subscribe_active t w), w)"
| "step (DriverInvoke a t rq k) ops allow c w = (case c of StreamIs r \<Rightarrow> Some (k r, w) | _ \<Rightarrow> None)"
| "step (DriverCall d k) ops allow c w = (case c of DriverSays r \<Rightarrow> Some (k r, w) | _ \<Rightarrow> None)"
| "step (Await p) ops allow c w = Some (p, w)"
| "step (Elapsed k) ops allow c w = (case c of Timer b \<Rightarrow> Some (k b, w) | _ \<Rightarrow> None)"
| "step Hang ops allow c w = None"

section \<open>The system\<close>

datatype outcome =
    Replied "core_error + dispatch_result"
  | Subscribed "core_error + task_subscription"
  | Finished

record 's system =
  sys_world :: "'s world"
  sys_threads :: "outcome prog list"

datatype sys_event =
    StepThread nat choice
  | Arrive caller core_command
  | ArriveSubscribe task_id event_seq
  | HotUpdate agent_id "string list"
  | RegisterAgent registered_agent

definition client_thread :: "core_env \<Rightarrow> caller \<Rightarrow> core_command \<Rightarrow> outcome prog" where
  "client_thread ce caller command = bindp (dispatch ce caller command) (\<lambda>r. Done (Replied r))"

definition subscriber_thread :: "task_id \<Rightarrow> event_seq \<Rightarrow> outcome prog" where
  "subscriber_thread t after = bindp (subscribe t after) (\<lambda>r. Done (Subscribed r))"

definition worker_thread :: "core_env \<Rightarrow> worker \<Rightarrow> outcome prog" where
  "worker_thread ce wk = bindp (worker_body ce wk) (\<lambda>_. Done Finished)"

fun system_step ::
  "core_env \<Rightarrow> 's store_ops \<Rightarrow> ('s \<Rightarrow> new_task \<Rightarrow> bool) \<Rightarrow> sys_event \<Rightarrow> 's system \<Rightarrow> 's system option" where
  "system_step ce ops allow (StepThread i c) S =
     (if i < length (sys_threads S)
      then case step (sys_threads S ! i) ops allow c (sys_world S) of
             None \<Rightarrow> None
           | Some (p, w) \<Rightarrow>
               Some \<lparr>sys_world = w\<lparr>w_spawned := []\<rparr>,
                     sys_threads = (sys_threads S)[i := p] @ map (worker_thread ce) (w_spawned w)\<rparr>
      else None)"
| "system_step ce ops allow (Arrive caller command) S =
     Some (S\<lparr>sys_threads := sys_threads S @ [client_thread ce caller command]\<rparr>)"
| "system_step ce ops allow (ArriveSubscribe t after) S =
     Some (S\<lparr>sys_threads := sys_threads S @ [subscriber_thread t after]\<rparr>)"
| "system_step ce ops allow (HotUpdate agent skills) S =
     Some (S\<lparr>sys_world := (sys_world S)\<lparr>w_registry := registry_update_skills agent skills (w_registry (sys_world S))\<rparr>\<rparr>)"
| "system_step ce ops allow (RegisterAgent agent) S =
     Some (S\<lparr>sys_world := (sys_world S)\<lparr>w_registry := registry_register agent (w_registry (sys_world S))\<rparr>\<rparr>)"

definition system_init :: "'s \<Rightarrow> agent_registry \<Rightarrow> 's system" where
  "system_init s registry =
     \<lparr>sys_world = \<lparr>w_store = s, w_registry = registry, w_active = [], w_used = (\<lambda>_. 0), w_spawned = []\<rparr>,
      sys_threads = []\<rparr>"

fun run_schedule ::
  "core_env \<Rightarrow> 's store_ops \<Rightarrow> ('s \<Rightarrow> new_task \<Rightarrow> bool) \<Rightarrow> sys_event list \<Rightarrow> 's system \<Rightarrow> 's system option" where
  "run_schedule ce ops allow [] S = Some S"
| "run_schedule ce ops allow (e # es) S =
     (case system_step ce ops allow e S of
        None \<Rightarrow> None
      | Some S' \<Rightarrow> run_schedule ce ops allow es S')"

text \<open>The systems that \<open>n\<close> steps reach from a given one.\<close>

inductive reach ::
  "core_env \<Rightarrow> 's store_ops \<Rightarrow> ('s \<Rightarrow> new_task \<Rightarrow> bool) \<Rightarrow> 's system \<Rightarrow> nat \<Rightarrow> 's system \<Rightarrow> bool"
  for ce ops allow S0 where
  reach_init: "reach ce ops allow S0 0 S0"
| reach_step: "reach ce ops allow S0 n S \<Longrightarrow> system_step ce ops allow e S = Some S' \<Longrightarrow>
    reach ce ops allow S0 (Suc n) S'"

lemma reach_trans:
  "reach ce ops allow S0 n S \<Longrightarrow> run_schedule ce ops allow es S = Some S' \<Longrightarrow>
     reach ce ops allow S0 (n + length es) S'"
proof (induction es arbitrary: n S)
  case (Cons e es)
  then obtain S1 where "system_step ce ops allow e S = Some S1"
    "run_schedule ce ops allow es S1 = Some S'" by (auto split: option.splits)
  with Cons.IH [of "Suc n" S1] Cons.prems(1) show ?case by (auto intro: reach_step)
qed simp

lemma run_schedule_reach:
  "run_schedule ce ops allow es S0 = Some S \<Longrightarrow> reach ce ops allow S0 (length es) S"
  using reach_trans [OF reach_init] by fastforce

section \<open>What every handler respects\<close>

text \<open>The snapshots an answer of the store carries.\<close>

fun got :: "store_error + task_snapshot option \<Rightarrow> task_snapshot set" where
  "got (Inr (Some s)) = {s}"
| "got _ = {}"

fun got_created :: "store_error + create_task_result \<Rightarrow> task_snapshot set" where
  "got_created (Inr (CtCreated s)) = {s}"
| "got_created (Inr (CtExisting s)) = {s}"
| "got_created _ = {}"

text \<open>
  A transition is justified by the snapshots the handler has read: it starts from
  non-terminal states only, and either it goes to a terminal state exactly when its event is
  terminal, or it keeps the state of a snapshot with the expected revision.
\<close>

definition justified :: "task_snapshot set \<Rightarrow> task_transition \<Rightarrow> bool" where
  "justified K tr \<longleftrightarrow>
     (\<forall>st\<in>set (tr_allowed_states tr). \<not> terminal st) \<and>
     ((terminal (tr_next_state tr) \<longleftrightarrow> is_terminal_kind (tr_event_kind tr)) \<or>
      \<not> is_terminal_kind (tr_event_kind tr) \<and>
      (\<exists>snap\<in>K. snap_task_id snap = tr_task_id tr \<and> snap_revision snap = tr_expected_revision tr \<and>
         tr_next_state tr = snap_state snap))"

text \<open>Every transition the program can ever issue is justified, whatever the answers.\<close>

primrec safe :: "'a prog \<Rightarrow> task_snapshot set \<Rightarrow> bool" where
  "safe (Done a) K \<longleftrightarrow> True"
| "safe (Create nt k) K \<longleftrightarrow> (\<forall>r. safe (k r) (K \<union> got_created r))"
| "safe (Get t k) K \<longleftrightarrow> (\<forall>r. safe (k r) (K \<union> got r))"
| "safe (Append tr k) K \<longleftrightarrow> justified K tr \<and> (\<forall>r. safe (k r) K)"
| "safe (Events t after n k) K \<longleftrightarrow> (\<forall>r. safe (k r) K)"
| "safe (ReadRegistry k) K \<longleftrightarrow> (\<forall>r. safe (k r) K)"
| "safe (Clock k) K \<longleftrightarrow> (\<forall>r. safe (k r) K)"
| "safe (FreshId k) K \<longleftrightarrow> (\<forall>r. safe (k r) K)"
| "safe (TryAcquire s k) K \<longleftrightarrow> (\<forall>r. safe (k r) K)"
| "safe (Act a p) K \<longleftrightarrow> safe p K"
| "safe (SubscribeActive t k) K \<longleftrightarrow> (\<forall>r. safe (k r) K)"
| "safe (DriverInvoke a t rq k) K \<longleftrightarrow> (\<forall>r. safe (k r) K)"
| "safe (DriverCall c k) K \<longleftrightarrow> (\<forall>r. safe (k r) K)"
| "safe (Await p) K \<longleftrightarrow> safe p K"
| "safe (Elapsed k) K \<longleftrightarrow> (\<forall>r. safe (k r) K)"
| "safe Hang K \<longleftrightarrow> True"

text \<open>A thread that holds the permits \<open>P\<close> and gives all of them back, or to a worker.\<close>

definition worker_permits :: "worker \<Rightarrow> semaphore multiset" where
  "worker_permits wk = {#wk_caller_permit wk, wk_global_permit wk, wk_agent_permit wk#}"

primrec owns :: "'a prog \<Rightarrow> semaphore multiset \<Rightarrow> bool" where
  "owns (Done a) P \<longleftrightarrow> P = {#}"
| "owns (Create nt k) P \<longleftrightarrow> (\<forall>r. owns (k r) P)"
| "owns (Get t k) P \<longleftrightarrow> (\<forall>r. owns (k r) P)"
| "owns (Append tr k) P \<longleftrightarrow> (\<forall>r. owns (k r) P)"
| "owns (Events t after n k) P \<longleftrightarrow> (\<forall>r. owns (k r) P)"
| "owns (ReadRegistry k) P \<longleftrightarrow> (\<forall>r. owns (k r) P)"
| "owns (Clock k) P \<longleftrightarrow> (\<forall>r. owns (k r) P)"
| "owns (FreshId k) P \<longleftrightarrow> (\<forall>r. owns (k r) P)"
| "owns (TryAcquire s k) P \<longleftrightarrow> owns (k True) (add_mset s P) \<and> owns (k False) P"
| "owns (Act a p) P \<longleftrightarrow>
     (case a of
        Release s \<Rightarrow> s \<in># P \<and> owns p (P - {#s#})
      | Spawn wk \<Rightarrow> worker_permits wk \<subseteq># P \<and> owns p (P - worker_permits wk)
      | _ \<Rightarrow> owns p P)"
| "owns (SubscribeActive t k) P \<longleftrightarrow> (\<forall>r. owns (k r) P)"
| "owns (DriverInvoke a t rq k) P \<longleftrightarrow> (\<forall>r. owns (k r) P)"
| "owns (DriverCall c k) P \<longleftrightarrow> (\<forall>r. owns (k r) P)"
| "owns (Await p) P \<longleftrightarrow> owns p P"
| "owns (Elapsed k) P \<longleftrightarrow> (\<forall>r. owns (k r) P)"
| "owns Hang P \<longleftrightarrow> True"

lemma justified_mono: "justified K tr \<Longrightarrow> K \<subseteq> K' \<Longrightarrow> justified K' tr"
  by (auto simp: justified_def)

lemma safe_mono: "safe p K \<Longrightarrow> K \<subseteq> K' \<Longrightarrow> safe p K'"
proof (induction p arbitrary: K K')
  case (Create nt k)
  show ?case
  proof (simp, intro allI)
    fix r
    show "safe (k r) (K' \<union> got_created r)"
      using Create.IH [of "k r" "K \<union> got_created r" "K' \<union> got_created r"] Create.prems by auto
  qed
next
  case (Get t k)
  show ?case
  proof (simp, intro allI)
    fix r
    show "safe (k r) (K' \<union> got r)"
      using Get.IH [of "k r" "K \<union> got r" "K' \<union> got r"] Get.prems by auto
  qed
qed (auto intro: justified_mono, (meson rangeI)+)

lemma safe_bindp:
  "safe p K \<Longrightarrow> (\<And>a K'. K \<subseteq> K' \<Longrightarrow> safe (f a) K') \<Longrightarrow> safe (bindp p f) K"
proof (induction p arbitrary: K)
  case (Create nt k)
  have "safe (bindp (k r) f) (K \<union> got_created r)" for r
    using Create by (intro Create.IH) auto
  then show ?case by simp
next
  case (Get t k)
  have "safe (bindp (k r) f) (K \<union> got r)" for r
    using Get by (intro Get.IH) auto
  then show ?case by simp
qed auto

lemma safe_thenp:
  "safe p K \<Longrightarrow> (\<And>a K'. K \<subseteq> K' \<Longrightarrow> safe (f a) K') \<Longrightarrow> safe (thenp p f) K"
  unfolding thenp_def by (erule safe_bindp) (auto split: sum.split)

lemma safe_with_timeout: "safe p K \<Longrightarrow> safe (with_timeout p) K"
  by (induction p arbitrary: K) auto

lemma safe_snapshot:
  "(\<And>snap. safe (f snap) (insert snap K)) \<Longrightarrow> safe (thenp (snapshot t) f) K"
  by (auto simp: thenp_def snapshot_def split: sum.split option.split)

lemma safe_transition:
  assumes "justified K \<lparr>tr_task_id = snap_task_id snap, tr_expected_revision = snap_revision snap,
      tr_allowed_states = allowed, tr_next_state = nxt, tr_event_kind = kind\<rparr>"
  shows "safe (transition snap allowed nxt kind) K"
  using assms by (auto simp: transition_def split: sum.split)

lemmas safe_intros = safe_thenp safe_bindp safe_transition safe_snapshot safe_with_timeout

lemma safe_fail_active: "safe (fail_active ce t err) K"
  unfolding fail_active_def
  by (auto intro!: safe_snapshot safe_thenp safe_transition simp: justified_def)

lemma safe_apply_driver_event: "safe (apply_driver_event ce t event) K"
  unfolding apply_driver_event.simps
  by (rule safe_snapshot)
    (auto intro!: safe_thenp safe_transition safe_fail_active simp: justified_def split: driver_event.split)

lemma safe_consume: "safe (consume ce t events closed) K"
proof (induction events arbitrary: K)
  case Nil
  show ?case by (auto intro!: safe_snapshot)
next
  case (Cons ev events)
  then show ?case
    by (auto intro!: safe_snapshot safe_thenp [OF safe_apply_driver_event])
qed

lemma safe_worker_body: "safe (worker_body ce wk) K"
  unfolding worker_body_def run_driver_def release_permits_def
  by (rule safe_bindp [OF safe_with_timeout])
    (auto intro!: safe_bindp safe_fail_active safe_consume
      split: sum.split option.split driver_stream.split unit.split)

lemma safe_reject: "safe (reject ce t m m') K"
  unfolding reject_def by (auto intro: safe_thenp safe_fail_active)

lemma safe_admit: "safe (admit ce agent caller t rq accepted) K"
  by (simp add: admit_def Let_def safe_reject)

lemma safe_start_task: "safe (start_task ce agent caller t d rq) K"
proof -
  have "safe (thenp (transition s [Created] Accepted (EvAccepted False)) (admit ce agent caller t rq)) K'"
    for s K'
    by (rule safe_thenp [OF safe_transition safe_admit]) (simp add: justified_def)
  then show ?thesis
    by (simp add: start_task_def split: sum.split create_task_result.split)
qed

lemma safe_invoke: "safe (invoke ce caller rq) K"
  unfolding invoke_def
  by (simp add: new_or_given_id_def deadline_of_def safe_start_task split: sum.split option.split)

lemma safe_cancel: "safe (cancel t reason) K"
  unfolding cancel_def
  by (rule safe_snapshot) (auto intro!: safe_thenp safe_transition simp: justified_def split: option.split)

lemma safe_provide_input: "safe (provide_input t input) K"
proof -
  have "safe (thenp (transition snap [WaitingForInput] Running (EvProgress m None))
      (\<lambda>changed. Done (Inr (DrInputAccepted changed)))) K'" for snap m K'
    by (rule safe_thenp [OF safe_transition]) (simp_all add: justified_def)
  then show ?thesis
    unfolding provide_input_def
    by (intro safe_snapshot) (simp split: option.split sum.split unit.split)
qed

lemma safe_client: "safe (client_thread ce caller command) K"
  unfolding client_thread_def dispatch.simps
  by (rule safe_bindp)
    (auto intro!: safe_invoke safe_cancel safe_provide_input safe_snapshot
      split: sum.split core_command.split unit.split)

lemma safe_subscriber: "safe (subscriber_thread t after) K"
  by (auto simp: subscriber_thread_def subscribe_def split: sum.split)

lemma safe_worker: "safe (worker_thread ce wk) K"
  unfolding worker_thread_def by (rule safe_bindp [OF safe_worker_body]) simp

section \<open>Permits\<close>

text \<open>Programs that touch no permit and spawn nothing.\<close>

primrec quiet :: "'a prog \<Rightarrow> bool" where
  "quiet (Done a) \<longleftrightarrow> True"
| "quiet (Create nt k) \<longleftrightarrow> (\<forall>r. quiet (k r))"
| "quiet (Get t k) \<longleftrightarrow> (\<forall>r. quiet (k r))"
| "quiet (Append tr k) \<longleftrightarrow> (\<forall>r. quiet (k r))"
| "quiet (Events t after n k) \<longleftrightarrow> (\<forall>r. quiet (k r))"
| "quiet (ReadRegistry k) \<longleftrightarrow> (\<forall>r. quiet (k r))"
| "quiet (Clock k) \<longleftrightarrow> (\<forall>r. quiet (k r))"
| "quiet (FreshId k) \<longleftrightarrow> (\<forall>r. quiet (k r))"
| "quiet (TryAcquire s k) \<longleftrightarrow> False"
| "quiet (Act a p) \<longleftrightarrow> (case a of Release s \<Rightarrow> False | Spawn wk \<Rightarrow> False | _ \<Rightarrow> quiet p)"
| "quiet (SubscribeActive t k) \<longleftrightarrow> (\<forall>r. quiet (k r))"
| "quiet (DriverInvoke a t rq k) \<longleftrightarrow> (\<forall>r. quiet (k r))"
| "quiet (DriverCall c k) \<longleftrightarrow> (\<forall>r. quiet (k r))"
| "quiet (Await p) \<longleftrightarrow> quiet p"
| "quiet (Elapsed k) \<longleftrightarrow> (\<forall>r. quiet (k r))"
| "quiet Hang \<longleftrightarrow> True"

lemma quiet_bindp: "quiet p \<Longrightarrow> (\<And>a. quiet (f a)) \<Longrightarrow> quiet (bindp p f)"
  by (induction p) (auto split: action.splits)

lemma quiet_thenp: "quiet p \<Longrightarrow> (\<And>a. quiet (f a)) \<Longrightarrow> quiet (thenp p f)"
  unfolding thenp_def by (erule quiet_bindp) (auto split: sum.split)

lemma quiet_with_timeout: "quiet p \<Longrightarrow> quiet (with_timeout p)"
  by (induction p) (auto split: action.splits)

lemma owns_quiet_bindp: "quiet p \<Longrightarrow> (\<And>a. owns (f a) P) \<Longrightarrow> owns (bindp p f) P"
  by (induction p) (auto split: action.splits)

lemma owns_quiet_thenp:
  "quiet p \<Longrightarrow> (\<And>a. owns (f a) {#}) \<Longrightarrow> owns (thenp p f) {#}"
  unfolding thenp_def by (erule owns_quiet_bindp) (auto split: sum.split)

lemma owns_bindp_end: "owns p P \<Longrightarrow> (\<And>a. owns (f a) {#}) \<Longrightarrow> owns (bindp p f) P"
  by (induction p arbitrary: P) (auto split: action.splits)

lemma quiet_owns: "quiet p \<Longrightarrow> owns p {#}"
  using owns_quiet_bindp [of p Done "{#}"] by simp

lemma quiet_snapshot: "quiet (snapshot t)"
  by (simp add: snapshot_def split: sum.split option.split)

lemma quiet_transition: "quiet (transition snap allowed nxt kind)"
  by (simp add: transition_def split: sum.split)

lemmas quiet_intros = quiet_thenp quiet_bindp quiet_snapshot quiet_transition quiet_with_timeout

lemma quiet_fail_active: "quiet (fail_active ce t err)"
  unfolding fail_active_def by (simp add: quiet_intros)

lemma quiet_apply_driver_event: "quiet (apply_driver_event ce t event)"
  unfolding apply_driver_event.simps
  by (cases event) (simp_all add: quiet_intros quiet_fail_active)

lemma quiet_consume: "quiet (consume ce t events closed)"
  by (induction events) (simp_all add: quiet_intros quiet_apply_driver_event)

lemma owns_worker: "owns (worker_thread ce wk) (worker_permits wk)"
  unfolding worker_thread_def worker_body_def bindp_assoc
proof (rule owns_quiet_bindp)
  show "quiet (with_timeout (run_driver ce (wk_agent wk) (wk_task wk) (wk_request wk)))"
    by (rule quiet_with_timeout)
      (simp add: run_driver_def quiet_consume split: sum.split driver_stream.split)
qed (rule owns_quiet_bindp, auto simp: release_permits_def worker_permits_def quiet_intros
    quiet_fail_active split: option.split sum.split unit.split)

lemma owns_reject: "owns (reject ce t m m') {#}"
  unfolding reject_def by (rule owns_quiet_thenp [OF quiet_fail_active]) simp

lemma owns_admit: "owns (admit ce agent caller t rq accepted) {#}"
  by (simp add: admit_def Let_def owns_reject worker_permits_def add_mset_commute)

lemma owns_invoke: "owns (invoke ce caller rq) {#}"
proof -
  have "owns (start_task ce agent caller t d rq) {#}" for agent t d
    by (simp add: start_task_def owns_quiet_thenp [OF quiet_transition owns_admit]
        split: sum.split create_task_result.split)
  then show ?thesis
    by (simp add: invoke_def new_or_given_id_def deadline_of_def split: sum.split option.split)
qed

lemma quiet_cancel: "quiet (cancel t reason)"
  unfolding cancel_def
  by (rule quiet_thenp [OF quiet_snapshot]) (simp add: quiet_intros split: option.split)

lemma quiet_provide_input: "quiet (provide_input t input)"
  unfolding provide_input_def
  by (rule quiet_thenp [OF quiet_snapshot])
    (simp add: quiet_intros split: option.split sum.split unit.split)

lemma owns_client: "owns (client_thread ce caller command) {#}"
  unfolding client_thread_def dispatch.simps
  by (rule owns_bindp_end)
    (auto simp: owns_invoke quiet_owns quiet_cancel quiet_provide_input quiet_intros
      split: sum.split core_command.split unit.split)

lemma owns_subscriber: "owns (subscriber_thread t after) {#}"
  by (simp add: subscriber_thread_def subscribe_def split: sum.split)

end
