(* ===== verification/Core_Invariants.thy ===== *)
theory Core_Invariants
  imports Core_System
begin

text \<open>
  The invariants of the running core, for every backend that satisfies the store contract:
  proved once inside the locale \<open>guarded_store\<close> over the step relation of
  \<open>Core_System\<close>, and used by the theories of the backends through their interpretations.
\<close>

section \<open>Well-formed stores and stale snapshots\<close>

definition good_store ::
  "('s \<Rightarrow> bool) \<Rightarrow> ('s \<Rightarrow> task_id \<Rightarrow> entry option) \<Rightarrow> nat \<Rightarrow> 's \<Rightarrow> bool" where
  "good_store iv view n s \<longleftrightarrow> iv s \<and>
     (\<forall>t e. view s t = Some e \<longrightarrow> dense_log t e \<and> closed_log e \<and> length (snd e) \<le> n)"

text \<open>A snapshot that was once the stored one: the store is at a later revision, or still
  holds it.\<close>

definition past :: "('s \<Rightarrow> task_id \<Rightarrow> entry option) \<Rightarrow> 's \<Rightarrow> task_snapshot \<Rightarrow> bool" where
  "past view s snap \<longleftrightarrow>
     (\<exists>cur evs. view s (snap_task_id snap) = Some (cur, evs) \<and>
        (snap_revision snap < snap_revision cur \<or> snap = cur))"

definition all_past :: "('s \<Rightarrow> task_id \<Rightarrow> entry option) \<Rightarrow> 's \<Rightarrow> task_snapshot set \<Rightarrow> bool" where
  "all_past view s K \<longleftrightarrow> (\<forall>snap\<in>K. past view s snap)"

text \<open>How a store may change: old snapshots stay old, logs only grow at their end, and a task
  that has ended is never touched again.\<close>

definition evolves :: "('s \<Rightarrow> task_id \<Rightarrow> entry option) \<Rightarrow> 's \<Rightarrow> 's \<Rightarrow> bool" where
  "evolves view s s' \<longleftrightarrow> (\<forall>snap. past view s snap \<longrightarrow> past view s' snap) \<and>
     (\<forall>t snap evs. view s t = Some (snap, evs) \<longrightarrow>
        (\<exists>snap' evs'. view s' t = Some (snap', evs @ evs') \<and>
           (terminal (snap_state snap) \<longrightarrow> snap' = snap \<and> evs' = [])))"

definition permits_ok :: "'s system \<Rightarrow> semaphore multiset list \<Rightarrow> bool" where
  "permits_ok S Ps \<longleftrightarrow> list_all2 owns (sys_threads S) Ps \<and>
     w_used (sys_world S) = count (sum_list Ps) \<and> w_spawned (sys_world S) = [] \<and>
     (\<forall>s. w_used (sys_world S) s \<le> capacity s)"

lemma evolves_refl [simp]: "evolves view s s"
  by (simp add: evolves_def)

lemma all_past_keeps: "all_past view s K \<Longrightarrow> evolves view s s' \<Longrightarrow> all_past view s' K"
  by (auto simp: all_past_def evolves_def)

lemma all_past_Un [simp]: "all_past view s (K \<union> K') \<longleftrightarrow> all_past view s K \<and> all_past view s K'"
  by (auto simp: all_past_def)

lemma all_past_empty [simp]: "all_past view s {}"
  by (simp add: all_past_def)

lemma good_store_mono: "good_store iv view n s \<Longrightarrow> n \<le> m \<Longrightarrow> good_store iv view m s"
  unfolding good_store_def by (meson le_trans)

lemma good_store_dense:
  assumes "good_store iv view n s" "view s t = Some (snap, evs)"
  shows "snap_task_id snap = t" "snap_revision snap = length evs" "snap_last_seq snap = length evs"
    "length evs \<le> n" "dense_log t (snap, evs)" "closed_log (snap, evs)"
  using assms by (auto simp: good_store_def dense_log_def)

lemma good_store_put:
  assumes "good_store iv view n s" "iv s'" "view s' = (view s)(t \<mapsto> e)"
    "dense_log t e" "closed_log e" "length (snd e) \<le> m" "n \<le> m"
  shows "good_store iv view m s'"
  unfolding good_store_def
proof (rule conjI, rule assms(2), intro allI impI)
  fix t' e'
  assume e': "view s' t' = Some e'"
  show "dense_log t' e' \<and> closed_log e' \<and> length (snd e') \<le> m"
  proof (cases "t' = t")
    case True
    with assms e' show ?thesis by simp
  next
    case False
    with e' assms(3) have "view s t' = Some e'" by simp
    with assms(1,7) show ?thesis unfolding good_store_def by fastforce
  qed
qed

lemma evolves_put:
  assumes "view s' = (view s)(t \<mapsto> (cur', evs'))"
    and "\<And>cur evs. view s t = Some (cur, evs) \<Longrightarrow>
      snap_revision cur < snap_revision cur' \<and> \<not> terminal (snap_state cur) \<and> prefix evs evs'"
  shows "evolves view s s'"
  unfolding evolves_def
proof (intro conjI allI impI)
  show "past view s' snap" if "past view s snap" for snap
    using that assms unfolding past_def by fastforce
next
  fix t' snap evs
  assume view: "view s t' = Some (snap, evs)"
  show "\<exists>snap' evs'. view s' t' = Some (snap', evs @ evs') \<and>
      (terminal (snap_state snap) \<longrightarrow> snap' = snap \<and> evs' = [])"
  proof (cases "t' = t")
    case True
    with view assms show ?thesis by (auto simp: prefix_def)
  next
    case False
    with view assms(1) show ?thesis by auto
  qed
qed

lemma evolves_trans: "evolves view s s' \<Longrightarrow> evolves view s' s'' \<Longrightarrow> evolves view s s''"
  unfolding evolves_def by fastforce

section \<open>Effects outside the store\<close>

lemma store_call_cases:
  assumes "store_call c f s = Some (r, s')"
  obtains (ok) now where "f now s = (r, s')"
    | (fault) e where "r = Inl e" "s' = s"
    | (lost) now e r' where "r = Inl e" "f now s = (r', s')"
  using assms by (cases c) (auto simp: store_call_def, metis prod.collapse)

lemma perform_store [simp]: "w_store (perform a w) = w_store w"
  by (cases a) (auto simp: update_active_def split: option.split)

lemma update_active_frame [simp]:
  "w_used (update_active t f w) = w_used w" "w_spawned (update_active t f w) = w_spawned w"
  by (auto simp: update_active_def split: option.split)

lemma try_acquire_store [simp]: "w_store (snd (try_acquire s w)) = w_store w"
  by (simp add: try_acquire_def)

text \<open>The permits of one thread across one step; \<open>Q\<close> are those of all other threads.\<close>

lemma step_permits:
  assumes "step p ops allow c w = Some (p', w')" "owns p P" "w_spawned w = []"
    and "w_used w = count (Q + P)" "\<forall>s. w_used w s \<le> capacity s"
  shows "\<exists>P'. owns p' P' \<and> (\<forall>s. w_used w' s \<le> capacity s) \<and>
    w_used w' = count (Q + P' + sum_list (map worker_permits (w_spawned w')))"
proof (cases p)
  case (TryAcquire s k)
  show ?thesis
  proof (cases "w_used w s < capacity s")
    case True
    with TryAcquire assms show ?thesis
      by (intro exI [of _ "add_mset s P"]) (auto simp: try_acquire_def fun_eq_iff)
  next
    case False
    with TryAcquire assms show ?thesis by (auto simp: try_acquire_def)
  qed
next
  case (Act a q)
  show ?thesis
  proof (cases a)
    case (Release s)
    with Act assms have in_P: "s \<in># P" by simp
    have bound: "count Q x + count P x \<le> Suc (capacity x)" for x
      using assms(4,5) by (simp add: le_SucI)
    with in_P Act Release assms show ?thesis
      by (intro exI [of _ "P - {#s#}"]) (auto simp: fun_eq_iff le_diff_conv)
  next
    case (Spawn wk)
    with Act assms have "worker_permits wk \<subseteq># P" by simp
    then have "Q + (P - worker_permits wk) + worker_permits wk = Q + P"
      by (metis subset_mset.diff_add union_assoc)
    moreover have "w' = w\<lparr>w_spawned := [wk]\<rparr>" "owns p' (P - worker_permits wk)"
      using Act Spawn assms(1-3) by auto
    ultimately show ?thesis
      using assms(4,5) by (intro exI [of _ "P - worker_permits wk"]) (simp add: add.assoc)
  qed (use Act assms in \<open>auto\<close>)
qed (use assms in \<open>auto split: choice.splits if_splits\<close>)

section \<open>The steps of a store call\<close>

context guarded_store
begin

lemma got_past:
  assumes "good_store inv view n s"
  shows "all_past view s (got (op_get_snapshot ops t s))"
proof (cases "view s t")
  case None
  with assms show ?thesis by (simp add: get_view good_store_def)
next
  case (Some e)
  obtain snap evs where e: "e = (snap, evs)" by fastforce
  with Some assms have "op_get_snapshot ops t s = Inr (Some snap)"
    by (simp add: get_view good_store_def)
  with good_store_dense(1) [OF assms] Some e show ?thesis
    by (simp add: all_past_def past_def)
qed

lemma append_step:
  assumes good: "good_store inv view n s" and n: "n < seq_limit"
    and just: "justified K tr" "all_past view s K"
    and step: "op_append ops now tr s = (r, s')"
  shows "good_store inv view (Suc n) s'" "evolves view s s'"
proof -
  have inv: "inv s" using good by (simp add: good_store_def)
  have "good_store inv view (Suc n) s' \<and> evolves view s s'"
  proof (cases "view s (tr_task_id tr)")
    case None
    with append_missing [OF inv] step have "s' = s" by simp
    with good show ?thesis by (auto intro: good_store_mono)
  next
    case (Some e)
    obtain snap evs where e: "e = (snap, evs)" by fastforce
    note view = Some [unfolded e]
    note dense = good_store_dense [OF good view]
    consider "snap_revision snap \<noteq> tr_expected_revision tr"
      | "snap_revision snap = tr_expected_revision tr" "snap_state snap \<notin> set (tr_allowed_states tr)"
      | (ok) "snap_revision snap = tr_expected_revision tr" "snap_state snap \<in> set (tr_allowed_states tr)"
      by blast
    then show ?thesis
    proof cases
      case 1
      with append_conflict [OF inv view] step have "s' = s" by simp
      with good show ?thesis by (auto intro: good_store_mono)
    next
      case 2
      with append_invalid [OF inv view, of now] step have "s' = s" by auto
      with good show ?thesis by (auto intro: good_store_mono)
    next
      case ok
      have live: "\<not> terminal (snap_state snap)" using just(1) ok(2) by (auto simp: justified_def)
      then have end_at: "snap_terminal_at snap = None" using dense(6) by (auto simp: closed_log_def)
      have core: "core_transition tr"
      proof -
        have "snap' = snap" if "snap' \<in> K" "snap_task_id snap' = tr_task_id tr"
          "snap_revision snap' = tr_expected_revision tr" for snap'
          using just(2) that view ok(1) by (fastforce simp: all_past_def past_def)
        with just(1) live show ?thesis by (auto simp: justified_def core_transition_def)
      qed
      obtain s'' where s'': "op_append ops now tr s =
          (Inr \<lparr>at_snapshot = advance now tr snap, at_event = next_event now tr snap\<rparr>, s'')" "inv s''"
        "view s'' = (view s)(tr_task_id tr \<mapsto> (advance now tr snap, evs @ [next_event now tr snap]))"
        using append_ok [OF inv view ok end_at, of now] dense n by auto
      with step have s': "s'' = s'" by simp
      have len: "length evs < u64_max" using dense(4) n by (simp add: seq_limit_def u64_max_def)
      have "good_store inv view (Suc n) s''"
        by (rule good_store_put [OF good s''(2,3)])
          (use dense dense_log_advance [OF dense(5) len] closed_log_advance [OF dense(6) core ok(2)]
            in auto)
      moreover have "evolves view s s''"
        by (rule evolves_put [OF s''(3)])
          (use view dense len live in \<open>auto simp: u64_add_small\<close>)
      ultimately show ?thesis using s' by simp
    qed
  qed
  then show "good_store inv view (Suc n) s'" "evolves view s s'" by auto
qed

lemma create_step:
  assumes good: "good_store inv view n s" and allow: "allow s nt"
    and step: "op_create ops now nt s = (r, s')"
  shows "good_store inv view n s'" "evolves view s s'" "all_past view s' (got_created r)"
proof -
  have inv: "inv s" using good by (simp add: good_store_def)
  have "good_store inv view n s' \<and> evolves view s s' \<and> all_past view s' (got_created r)"
  proof (cases "keyed s (nt_caller_id nt, nt_idempotency_key nt)")
    case (Some t)
    from create_existing [OF inv Some, of now] step obtain snap evs where
      "view s t = Some (snap, evs)" "r = Inr (CtExisting snap)" "s' = s" by auto
    with good good_store_dense(1) [OF good] show ?thesis by (auto simp: all_past_def past_def)
  next
    case None
    show ?thesis
    proof (cases "view s (nt_task_id nt)")
      case None': None
      from create_fresh [OF inv None None', of now] step have s':
        "r = Inr (CtCreated (initial_snapshot now nt))" "inv s'"
        "view s' = (view s)(nt_task_id nt \<mapsto> (initial_snapshot now nt, []))" by auto
      have "good_store inv view n s'"
        by (rule good_store_put [OF good s'(2,3)])
          (simp_all add: dense_log_initial closed_log_initial)
      moreover have "evolves view s s'"
        by (rule evolves_put [OF s'(3)]) (simp add: None')
      ultimately show ?thesis using s' by (simp add: all_past_def past_def)
    next
      case (Some e)
      from create_clash [OF inv allow None Some, of now] step obtain err where
        "r = Inl err" "s' = s" by auto
      with good show ?thesis by simp
    qed
  qed
  then show "good_store inv view n s'" "evolves view s s'" "all_past view s' (got_created r)"
    by auto
qed

section \<open>Steps of a thread and of the system\<close>

lemma step_safe:
  assumes good: "good_store inv view n (w_store w)" and n: "n < seq_limit"
    and safe: "safe p K" "all_past view (w_store w) K"
    and step: "step p ops allow c w = Some (p', w')"
  shows "good_store inv view (Suc n) (w_store w') \<and> evolves view (w_store w) (w_store w') \<and>
    (\<exists>K'. safe p' K' \<and> all_past view (w_store w') K')"
proof -
  have mono: "good_store inv view (Suc n) (w_store w)" using good by (rule good_store_mono) simp
  show ?thesis
  proof (cases p)
    case (Create nt k)
    with step obtain r s' where rs: "allow (w_store w) nt" "p' = k r" "w' = w\<lparr>w_store := s'\<rparr>"
      "store_call c (\<lambda>now. op_create ops now nt) (w_store w) = Some (r, s')"
      by (auto split: if_splits)
    from rs(4) have "good_store inv view (Suc n) s' \<and> evolves view (w_store w) s' \<and>
        all_past view s' (got_created r)"
    proof (cases rule: store_call_cases)
      case (ok now)
      then show ?thesis using create_step [OF good rs(1)] good_store_mono [of inv view n s' "Suc n"] by auto
    next
      case fault
      then show ?thesis using mono by simp
    next
      case (lost now e r')
      then show ?thesis using create_step [OF good rs(1)] good_store_mono [of inv view n s' "Suc n"] by auto
    qed
    with rs Create safe all_past_keeps show ?thesis by fastforce
  next
    case (Get t k)
    with step obtain r s' where rs: "p' = k r" "w' = w\<lparr>w_store := s'\<rparr>"
      "store_call c (\<lambda>_ s. (op_get_snapshot ops t s, s)) (w_store w) = Some (r, s')"
      by auto
    from rs(3) have "s' = w_store w \<and> all_past view s' (got r)"
      by (cases rule: store_call_cases) (use got_past [OF good] in auto)
    with rs Get safe mono show ?thesis by fastforce
  next
    case (Append tr k)
    with step obtain r s' where rs: "p' = k r" "w' = w\<lparr>w_store := s'\<rparr>"
      "store_call c (\<lambda>now. op_append ops now tr) (w_store w) = Some (r, s')"
      by auto
    from Append safe have just: "justified K tr" "all_past view (w_store w) K" by auto
    from rs(3) have "good_store inv view (Suc n) s' \<and> evolves view (w_store w) s'"
      by (cases rule: store_call_cases) (use append_step [OF good n just] mono in auto)
    with rs Append safe all_past_keeps show ?thesis by fastforce
  next
    case (Events t after m k)
    with step obtain r s' where rs: "p' = k r" "w' = w\<lparr>w_store := s'\<rparr>"
      "store_call c (\<lambda>_ s. (op_events_after ops t after m s, s)) (w_store w) = Some (r, s')"
      by auto
    from rs(3) have "s' = w_store w" by (cases rule: store_call_cases) auto
    with rs Events safe mono show ?thesis by auto
  next
    case (TryAcquire s k)
    with step safe mono show ?thesis by (auto simp: try_acquire_def split: if_splits)
  qed (use step safe mono in \<open>auto split: choice.splits\<close>)
qed

lemma system_step_safe:
  assumes good: "good_store inv view n (w_store (sys_world S))" and n: "n < seq_limit"
    and safe: "\<forall>p\<in>set (sys_threads S). \<exists>K. safe p K \<and> all_past view (w_store (sys_world S)) K"
    and step: "system_step ce ops allow e S = Some S'"
  shows "good_store inv view (Suc n) (w_store (sys_world S')) \<and>
    evolves view (w_store (sys_world S)) (w_store (sys_world S')) \<and>
    (\<forall>p\<in>set (sys_threads S'). \<exists>K. safe p K \<and> all_past view (w_store (sys_world S')) K)"
proof (cases e)
  case (StepThread i c)
  with step obtain p w where pw: "i < length (sys_threads S)"
    "step (sys_threads S ! i) ops allow c (sys_world S) = Some (p, w)"
    "S' = \<lparr>sys_world = w\<lparr>w_spawned := []\<rparr>,
       sys_threads = (sys_threads S)[i := p] @ map (worker_thread ce) (w_spawned w)\<rparr>"
    by (auto split: if_splits option.splits)
  from pw(1) safe obtain K where "safe (sys_threads S ! i) K" "all_past view (w_store (sys_world S)) K"
    by (meson nth_mem)
  from step_safe [OF good n this pw(2)] have
    good': "good_store inv view (Suc n) (w_store w)" and keep: "evolves view (w_store (sys_world S)) (w_store w)"
    and p: "\<exists>K. safe p K \<and> all_past view (w_store w) K" by auto
  have old: "\<exists>K. safe q K \<and> all_past view (w_store w) K" if q: "q \<in> set (sys_threads S)" for q
  proof -
    obtain K where "safe q K" "all_past view (w_store (sys_world S)) K" using safe q by auto
    with all_past_keeps [OF _ keep] show ?thesis by auto
  qed
  have new: "\<exists>K. safe (worker_thread ce wk) K \<and> all_past view (w_store w) K" for wk
    by (intro exI [of _ "{}"]) (simp add: safe_worker)
  have "set (sys_threads S') \<subseteq> insert p (set (sys_threads S)) \<union> range (worker_thread ce)"
    using pw(3) set_update_subset_insert [of "sys_threads S" i p] by auto
  with good' keep p old new show ?thesis using pw(3) by auto
next
  case (Arrive caller command)
  have "\<exists>K. safe (client_thread ce caller command) K \<and> all_past view (w_store (sys_world S)) K"
    by (intro exI [of _ "{}"]) (simp add: safe_client)
  with Arrive step good safe show ?thesis by (auto intro: good_store_mono)
next
  case (ArriveSubscribe t after)
  have "\<exists>K. safe (subscriber_thread t after) K \<and> all_past view (w_store (sys_world S)) K"
    by (intro exI [of _ "{}"]) (simp add: safe_subscriber)
  with ArriveSubscribe step good safe show ?thesis by (auto intro: good_store_mono)
qed (use step good safe in \<open>auto intro: good_store_mono\<close>)

text \<open>Every reachable store is well formed.\<close>

lemma reach_good_store:
  assumes "reach ce ops allow (system_init s registry) n S" "good_store inv view m s"
    "m + n \<le> seq_limit"
  shows "good_store inv view (m + n) (w_store (sys_world S)) \<and>
    (\<forall>p\<in>set (sys_threads S). \<exists>K. safe p K \<and> all_past view (w_store (sys_world S)) K)"
  using assms
proof (induction rule: reach.induct)
  case reach_init
  then show ?case by (simp add: system_init_def)
next
  case (reach_step n S e S')
  then show ?case using system_step_safe [of "m + n" S ce e S'] by simp
qed

text \<open>From a reachable system on, every stored log only grows, and stops at the terminal event.\<close>

lemma run_schedule_evolves:
  assumes "good_store inv view n (w_store (sys_world S))"
    "\<forall>p\<in>set (sys_threads S). \<exists>K. safe p K \<and> all_past view (w_store (sys_world S)) K"
    "n + length es \<le> seq_limit" "run_schedule ce ops allow es S = Some S'"
  shows "evolves view (w_store (sys_world S)) (w_store (sys_world S'))"
  using assms
proof (induction es arbitrary: n S)
  case (Cons e es)
  then obtain S1 where S1: "system_step ce ops allow e S = Some S1"
    "run_schedule ce ops allow es S1 = Some S'" by (auto split: option.splits)
  from Cons.prems(3) have "n < seq_limit" by simp
  note step = system_step_safe [OF Cons.prems(1) this Cons.prems(2) S1(1)]
  have "evolves view (w_store (sys_world S1)) (w_store (sys_world S'))"
    using Cons.IH [of "Suc n" S1] step S1(2) Cons.prems(3) by simp
  then show ?case by (rule evolves_trans [OF step [THEN conjunct2, THEN conjunct1]])
qed simp

end

section \<open>Permits are conserved\<close>

lemma sum_list_update:
  fixes Ps :: "'m :: comm_monoid_add list"
  assumes "i < length Ps"
  shows "\<exists>Q. sum_list Ps = Q + Ps ! i \<and> (\<forall>P. sum_list (Ps[i := P]) = Q + P)"
proof (intro exI conjI allI)
  let ?Q = "sum_list (take i Ps) + sum_list (drop (Suc i) Ps)"
  have "sum_list (take i Ps @ Ps ! i # drop (Suc i) Ps) = ?Q + Ps ! i"
    by (simp add: ac_simps)
  then show "sum_list Ps = ?Q + Ps ! i" by (simp only: id_take_nth_drop [OF assms, symmetric])
  show "sum_list (Ps[i := P]) = ?Q + P" for P
    using assms by (simp add: upd_conv_take_nth_drop ac_simps)
qed

lemma system_step_permits:
  assumes "permits_ok S Ps" "system_step ce ops allow e S = Some S'"
  shows "\<exists>Ps'. permits_ok S' Ps'"
proof (cases e)
  case (StepThread i c)
  with assms(2) obtain p w where pw: "i < length (sys_threads S)"
    "step (sys_threads S ! i) ops allow c (sys_world S) = Some (p, w)"
    "S' = \<lparr>sys_world = w\<lparr>w_spawned := []\<rparr>,
       sys_threads = (sys_threads S)[i := p] @ map (worker_thread ce) (w_spawned w)\<rparr>"
    by (auto split: if_splits option.splits)
  have ok: "list_all2 owns (sys_threads S) Ps" "w_used (sys_world S) = count (sum_list Ps)"
    "w_spawned (sys_world S) = []" "\<forall>s. w_used (sys_world S) s \<le> capacity s"
    using assms(1) by (auto simp: permits_ok_def)
  have i: "i < length Ps" using pw(1) ok(1) by (simp add: list_all2_lengthD)
  obtain Q where Q: "sum_list Ps = Q + Ps ! i" "\<forall>P. sum_list (Ps[i := P]) = Q + P"
    using sum_list_update [OF i] by blast
  have "owns (sys_threads S ! i) (Ps ! i)" using ok(1) pw(1) by (simp add: list_all2_nthD)
  from step_permits [OF pw(2) this ok(3), of Q] ok(2,4) Q(1) obtain P' where P': "owns p P'"
    "\<forall>s. w_used w s \<le> capacity s"
    "w_used w = count (Q + P' + sum_list (map worker_permits (w_spawned w)))" by auto
  have "list_all2 owns (map (worker_thread ce) wks) (map worker_permits wks)" for wks
    by (induction wks) (auto simp: owns_worker)
  with ok(1) P'(1) have "list_all2 owns (sys_threads S') (Ps[i := P'] @ map worker_permits (w_spawned w))"
    by (simp add: pw(3) list_all2_update_cong list_all2_appendI)
  then have "permits_ok S' (Ps[i := P'] @ map worker_permits (w_spawned w))"
    using P' Q(2) by (simp add: permits_ok_def pw(3))
  then show ?thesis by blast
next
  case (Arrive caller command)
  with assms have "permits_ok S' (Ps @ [{#}])"
    by (auto simp: permits_ok_def owns_client list_all2_appendI)
  then show ?thesis by blast
next
  case (ArriveSubscribe t after)
  with assms have "permits_ok S' (Ps @ [{#}])"
    by (auto simp: permits_ok_def owns_subscriber list_all2_appendI)
  then show ?thesis by blast
next
  case (HotUpdate a skills)
  with assms have "permits_ok S' Ps" by (auto simp: permits_ok_def)
  then show ?thesis by blast
next
  case (RegisterAgent a)
  with assms have "permits_ok S' Ps" by (auto simp: permits_ok_def)
  then show ?thesis by blast
qed

lemma reach_permits:
  assumes "reach ce ops allow (system_init s registry) n S"
  shows "\<exists>Ps. permits_ok S Ps"
  using assms
proof (induction rule: reach.induct)
  case reach_init
  have "permits_ok (system_init s registry) []"
    by (simp add: permits_ok_def system_init_def fun_eq_iff)
  then show ?case by blast
next
  case (reach_step n S e S')
  then show ?case using system_step_permits by blast
qed

end
