(* ===== verification/Core_Run.thy ===== *)
theory Core_Run
  imports Core_Invariants
begin

text \<open>
  A handler that runs alone. \<open>run\<close> executes a program from its first effect to its result,
  with one answer per question: the clock, a fresh id and the driver are given by a record,
  the expiries of the timer by a list, and the store neither fails nor is touched by
  anybody else. It is one of the executions of the step relation (\<open>run_is_execution\<close>). It
  serves to state what each handler does, and that a worker always ends its task.
\<close>

section \<open>Definitions\<close>

record answers =
  o_now :: time
  o_id :: uuid
  o_stream :: "core_error + driver_stream"
  o_reply :: "driver_call \<Rightarrow> core_error + unit"

primrec run ::
  "'a prog \<Rightarrow> 's store_ops \<Rightarrow> answers \<Rightarrow> bool list \<Rightarrow> 's world \<Rightarrow> 'a option \<times> bool list \<times> 's world" where
  "run (Done a) ops ora bs w = (Some a, bs, w)"
| "run (Create nt k) ops ora bs w =
     (case op_create ops (o_now ora) nt (w_store w) of
        (r, s) \<Rightarrow> run (k r) ops ora bs (w\<lparr>w_store := s\<rparr>))"
| "run (Get t k) ops ora bs w = run (k (op_get_snapshot ops t (w_store w))) ops ora bs w"
| "run (Append tr k) ops ora bs w =
     (case op_append ops (o_now ora) tr (w_store w) of
        (r, s) \<Rightarrow> run (k r) ops ora bs (w\<lparr>w_store := s\<rparr>))"
| "run (Events t after n k) ops ora bs w =
     run (k (op_events_after ops t after n (w_store w))) ops ora bs w"
| "run (ReadRegistry k) ops ora bs w = run (k (w_registry w)) ops ora bs w"
| "run (Clock k) ops ora bs w = run (k (o_now ora)) ops ora bs w"
| "run (FreshId k) ops ora bs w = run (k (o_id ora)) ops ora bs w"
| "run (TryAcquire s k) ops ora bs w =
     (case try_acquire s w of (ok, w') \<Rightarrow> run (k ok) ops ora bs w')"
| "run (Act a p) ops ora bs w = run p ops ora bs (perform a w)"
| "run (SubscribeActive t k) ops ora bs w = run (k (subscribe_active t w)) ops ora bs w"
| "run (DriverInvoke a t rq k) ops ora bs w = run (k (o_stream ora)) ops ora bs w"
| "run (DriverCall d k) ops ora bs w = run (k (o_reply ora d)) ops ora bs w"
| "run (Await p) ops ora bs w = run p ops ora bs w"
| "run (Elapsed k) ops ora bs w =
     (case bs of [] \<Rightarrow> run (k False) ops ora [] w | b # bs' \<Rightarrow> run (k b) ops ora bs' w)"
| "run Hang ops ora bs w = (None, bs, w)"

fun stream_length :: "core_error + driver_stream \<Rightarrow> nat" where
  "stream_length (Inl e) = 0"
| "stream_length (Inr (DriverStream events closed)) = length events"

text \<open>The transition that \<open>transition\<close> asks the store for.\<close>

definition transition_of ::
  "task_snapshot \<Rightarrow> task_state list \<Rightarrow> task_state \<Rightarrow> core_event_kind \<Rightarrow> task_transition" where
  "transition_of snap allowed nxt kind =
     \<lparr>tr_task_id = snap_task_id snap, tr_expected_revision = snap_revision snap,
      tr_allowed_states = allowed, tr_next_state = nxt, tr_event_kind = kind\<rparr>"

text \<open>
  The task \<open>t\<close> made one transition: its snapshot is replaced, one event of the given kind
  is stored with the next number and broadcast on the task's channel when it is active, and
  nothing else changed.
\<close>

definition moved ::
  "('s \<Rightarrow> task_id \<Rightarrow> entry option) \<Rightarrow> 's world \<Rightarrow> 's world \<Rightarrow> task_id \<Rightarrow> core_event list \<Rightarrow>
     task_snapshot \<Rightarrow> task_state \<Rightarrow> core_event_kind \<Rightarrow> bool" where
  "moved view w w' t evs snap' nxt kind \<longleftrightarrow>
     (\<exists>ev. ev_kind ev = kind \<and> ev_seq ev = Suc (length evs) \<and>
        view (w_store w') = (view (w_store w))(t \<mapsto> (snap', evs @ [ev])) \<and>
        w_active w' = (case map_of (w_active w) t of
            None \<Rightarrow> w_active w
          | Some a \<Rightarrow> AList.update t (a\<lparr>act_sent := act_sent a @ [ev]\<rparr>) (w_active w))) \<and>
     snap_state snap' = nxt \<and> w_registry w' = w_registry w \<and> w_used w' = w_used w \<and>
     w_spawned w' = w_spawned w"

text \<open>How many transitions a program can issue at most.\<close>

primrec appends_le :: "'a prog \<Rightarrow> nat \<Rightarrow> bool" where
  "appends_le (Done a) n \<longleftrightarrow> True"
| "appends_le (Create nt k) n \<longleftrightarrow> False"
| "appends_le (Get t k) n \<longleftrightarrow> (\<forall>r. appends_le (k r) n)"
| "appends_le (Append tr k) n \<longleftrightarrow> 0 < n \<and> (\<forall>r. appends_le (k r) (n - 1))"
| "appends_le (Events t after m k) n \<longleftrightarrow> (\<forall>r. appends_le (k r) n)"
| "appends_le (ReadRegistry k) n \<longleftrightarrow> (\<forall>r. appends_le (k r) n)"
| "appends_le (Clock k) n \<longleftrightarrow> (\<forall>r. appends_le (k r) n)"
| "appends_le (FreshId k) n \<longleftrightarrow> (\<forall>r. appends_le (k r) n)"
| "appends_le (TryAcquire s k) n \<longleftrightarrow> (\<forall>r. appends_le (k r) n)"
| "appends_le (Act a p) n \<longleftrightarrow> appends_le p n"
| "appends_le (SubscribeActive t k) n \<longleftrightarrow> (\<forall>r. appends_le (k r) n)"
| "appends_le (DriverInvoke a t rq k) n \<longleftrightarrow> (\<forall>r. appends_le (k r) n)"
| "appends_le (DriverCall c k) n \<longleftrightarrow> (\<forall>r. appends_le (k r) n)"
| "appends_le (Await p) n \<longleftrightarrow> appends_le p n"
| "appends_le (Elapsed k) n \<longleftrightarrow> (\<forall>r. appends_le (k r) n)"
| "appends_le Hang n \<longleftrightarrow> True"

section \<open>Laws\<close>

lemma run_bindp:
  "run (bindp p f) ops ora bs w =
     (case run p ops ora bs w of
        (None, bs', w') \<Rightarrow> (None, bs', w')
      | (Some a, bs', w') \<Rightarrow> run (f a) ops ora bs' w')"
  by (induction p arbitrary: bs w) (auto split: prod.split list.split)

lemma update_active_registry [simp]: "w_registry (update_active t f w) = w_registry w"
  by (simp add: update_active_def split: option.split)

lemma run_quiet:
  assumes "quiet p"
  shows "w_used (snd (snd (run p ops ora bs w))) = w_used w"
    "w_spawned (snd (snd (run p ops ora bs w))) = w_spawned w"
    "w_registry (snd (snd (run p ops ora bs w))) = w_registry w"
proof -
  have "w_used (snd (snd (run p ops ora bs w))) = w_used w \<and>
    w_spawned (snd (snd (run p ops ora bs w))) = w_spawned w \<and>
    w_registry (snd (snd (run p ops ora bs w))) = w_registry w"
    using assms by (induction p arbitrary: bs w) (auto split: prod.split list.split action.splits)
  then show "w_used (snd (snd (run p ops ora bs w))) = w_used w"
    "w_spawned (snd (snd (run p ops ora bs w))) = w_spawned w"
    "w_registry (snd (snd (run p ops ora bs w))) = w_registry w" by auto
qed

lemma run_with_timeout_result: "\<exists>r bs' w'. run (with_timeout p) ops ora bs w = (Some r, bs', w')"
  by (induction p arbitrary: bs w) (auto split: prod.split list.split)

lemma appends_le_mono: "appends_le p n \<Longrightarrow> n \<le> m \<Longrightarrow> appends_le p m"
proof (induction p arbitrary: n m)
  case (Append tr k)
  have "appends_le (k r) (m - 1)" for r
    by (rule Append.IH [of "k r" "n - 1"]) (use Append.prems in auto)
  with Append.prems show ?case by simp
qed (auto, (meson rangeI)+)

lemma appends_le_bindp:
  "appends_le p n \<Longrightarrow> (\<And>a. appends_le (f a) m) \<Longrightarrow> appends_le (bindp p f) (n + m)"
proof (induction p arbitrary: n)
  case (Done a)
  then show ?case using appends_le_mono [of "f a" m "n + m"] by simp
next
  case (Append tr k)
  have "appends_le (bindp (k r) f) (n - 1 + m)" for r
    by (rule Append.IH) (use Append.prems in auto)
  moreover have "n - 1 + m = n + m - 1" using Append.prems by simp
  ultimately show ?case using Append.prems by simp
qed auto

lemma appends_le_thenp:
  "appends_le p n \<Longrightarrow> (\<And>a. appends_le (f a) m) \<Longrightarrow> appends_le (thenp p f) (n + m)"
  unfolding thenp_def by (erule appends_le_bindp) (auto split: sum.split)

lemma appends_le_with_timeout: "appends_le p n \<Longrightarrow> appends_le (with_timeout p) n"
  by (induction p arbitrary: n) auto

lemma appends_le_snapshot_thenp: "(\<And>a. appends_le (f a) m) \<Longrightarrow> appends_le (thenp (snapshot t) f) m"
  by (simp add: thenp_def snapshot_def split: sum.split option.split)

lemma appends_le_transition_thenp:
  "(\<And>a. appends_le (f a) m) \<Longrightarrow> appends_le (thenp (transition s al nx kd) f) (Suc m)"
  by (simp add: thenp_def transition_def split: sum.split)

lemma appends_le_fail_active: "appends_le (fail_active ce t err) 1"
  unfolding fail_active_def One_nat_def
  by (rule appends_le_snapshot_thenp) (simp add: appends_le_transition_thenp)

lemma appends_le_apply_driver_event: "appends_le (apply_driver_event ce t ev) 1"
  unfolding apply_driver_event.simps
  by (rule appends_le_snapshot_thenp)
    (cases ev, use appends_le_fail_active in \<open>simp_all add: appends_le_transition_thenp\<close>)

lemma appends_le_consume: "appends_le (consume ce t events closed) (length events)"
proof (induction events)
  case Nil
  show ?case by (simp add: appends_le_snapshot_thenp)
next
  case (Cons ev events)
  have "appends_le (thenp (apply_driver_event ce t ev) (\<lambda>_. thenp (snapshot t)
      (\<lambda>snap. if terminal (snap_state snap) then Done (Inr ()) else consume ce t events closed)))
      (1 + length events)"
    by (intro appends_le_thenp appends_le_apply_driver_event appends_le_snapshot_thenp) (simp add: Cons)
  then show ?case by simp
qed

text \<open>A sequence of steps of one thread, nobody else moving.\<close>

fun execute ::
  "'a prog \<Rightarrow> 's store_ops \<Rightarrow> choice list \<Rightarrow> 's world \<Rightarrow> ('a prog \<times> 's world) option" where
  "execute p ops [] w = Some (p, w)"
| "execute p ops (c # cs) w =
     (case step p ops (\<lambda>_ _. True) c w of None \<Rightarrow> None | Some (p', w') \<Rightarrow> execute p' ops cs w')"

lemma run_is_execution:
  "run p ops ora bs w = (Some a, bs', w') \<Longrightarrow> \<exists>cs. execute p ops cs w = Some (Done a, w')"
proof (induction p arbitrary: bs w)
  case (Done b)
  then show ?case by (intro exI [of _ "[]"]) simp
next
  case (Create nt k)
  obtain r s where rs: "op_create ops (o_now ora) nt (w_store w) = (r, s)" by fastforce
  with Create obtain cs where "execute (k r) ops cs (w\<lparr>w_store := s\<rparr>) = Some (Done a, w')" by fastforce
  with rs show ?case by (intro exI [of _ "Proceed (o_now ora) # cs"]) (simp add: store_call_def)
next
  case (Append tr k)
  obtain r s where rs: "op_append ops (o_now ora) tr (w_store w) = (r, s)" by fastforce
  with Append obtain cs where "execute (k r) ops cs (w\<lparr>w_store := s\<rparr>) = Some (Done a, w')" by fastforce
  with rs show ?case by (intro exI [of _ "Proceed (o_now ora) # cs"]) (simp add: store_call_def)
next
  case (Get t k)
  then obtain cs where "execute (k (op_get_snapshot ops t (w_store w))) ops cs w = Some (Done a, w')"
    by fastforce
  then show ?case by (intro exI [of _ "Proceed (o_now ora) # cs"]) (simp add: store_call_def)
next
  case (Events t after n k)
  then obtain cs where
    "execute (k (op_events_after ops t after n (w_store w))) ops cs w = Some (Done a, w')"
    by fastforce
  then show ?case by (intro exI [of _ "Proceed (o_now ora) # cs"]) (simp add: store_call_def)
next
  case (ReadRegistry k)
  then obtain cs where "execute (k (w_registry w)) ops cs w = Some (Done a, w')" by fastforce
  then show ?case by (intro exI [of _ "Proceed 0 # cs"]) simp
next
  case (Clock k)
  then obtain cs where "execute (k (o_now ora)) ops cs w = Some (Done a, w')" by fastforce
  then show ?case by (intro exI [of _ "Proceed (o_now ora) # cs"]) simp
next
  case (FreshId k)
  then obtain cs where "execute (k (o_id ora)) ops cs w = Some (Done a, w')" by fastforce
  then show ?case by (intro exI [of _ "IdIs (o_id ora) # cs"]) simp
next
  case (TryAcquire s k)
  obtain ok w1 where ok: "try_acquire s w = (ok, w1)" by fastforce
  with TryAcquire obtain cs where "execute (k ok) ops cs w1 = Some (Done a, w')" by fastforce
  with ok show ?case by (intro exI [of _ "Proceed 0 # cs"]) simp
next
  case (Act b p)
  then obtain cs where "execute p ops cs (perform b w) = Some (Done a, w')" by fastforce
  then show ?case by (intro exI [of _ "Proceed 0 # cs"]) simp
next
  case (SubscribeActive t k)
  then obtain cs where "execute (k (subscribe_active t w)) ops cs w = Some (Done a, w')" by fastforce
  then show ?case by (intro exI [of _ "Proceed 0 # cs"]) simp
next
  case (DriverInvoke ag t rq k)
  then obtain cs where "execute (k (o_stream ora)) ops cs w = Some (Done a, w')" by fastforce
  then show ?case by (intro exI [of _ "StreamIs (o_stream ora) # cs"]) simp
next
  case (DriverCall c k)
  then obtain cs where "execute (k (o_reply ora c)) ops cs w = Some (Done a, w')" by fastforce
  then show ?case by (intro exI [of _ "DriverSays (o_reply ora c) # cs"]) simp
next
  case (Await p)
  then obtain cs where "execute p ops cs w = Some (Done a, w')" by fastforce
  then show ?case by (intro exI [of _ "Proceed 0 # cs"]) simp
next
  case (Elapsed k)
  then obtain b cs where "execute (k b) ops cs w = Some (Done a, w')"
    by (cases bs) fastforce+
  then show ?case by (intro exI [of _ "Timer b # cs"]) simp
next
  case Hang
  then show ?case by simp
qed

lemma run_timeout_thenp_ok:
  assumes "run (with_timeout (thenp p f)) ops ora bs w = (Some (Some (Inr x)), bs', w')"
  shows "\<exists>a bs1 w1. run (with_timeout p) ops ora bs w = (Some (Some (Inr a)), bs1, w1) \<and>
    run (with_timeout (f a)) ops ora bs1 w1 = (Some (Some (Inr x)), bs', w')"
  using assms unfolding thenp_def with_timeout_bindp run_bindp
  by (auto split: prod.splits option.splits sum.splits)

text \<open>A stored task stays stored.\<close>

lemma evolves_stored:
  assumes "good_store iv view n s" "evolves view s s'" "view s t \<noteq> None"
  shows "view s' t \<noteq> None"
proof -
  obtain snap evs where view: "view s t = Some (snap, evs)" using assms(3) by auto
  then have "past view s snap" using good_store_dense(1) [OF assms(1)] by (simp add: past_def)
  with assms(2) have "past view s' snap" by (simp add: evolves_def)
  with good_store_dense(1) [OF assms(1) view] show ?thesis by (auto simp: past_def)
qed

section \<open>A worker ends its task\<close>

context guarded_store
begin

text \<open>A safe program that creates nothing keeps the store well formed.\<close>

lemma run_safe:
  assumes "safe p K" "all_past view (w_store w) K" "appends_le p k"
    "good_store inv view n (w_store w)" "n + k \<le> seq_limit"
  shows "good_store inv view (n + k) (w_store (snd (snd (run p ops ora bs w)))) \<and>
    evolves view (w_store w) (w_store (snd (snd (run p ops ora bs w))))"
  using assms
proof (induction p arbitrary: K bs w k n)
  case (Get t f)
  from Get.prems(4) have "all_past view (w_store w) (got (op_get_snapshot ops t (w_store w)))"
    by (rule got_past)
  with Get.prems Get.IH [OF rangeI, of _ "K \<union> got (op_get_snapshot ops t (w_store w))" w k n] show ?case
    by simp
next
  case (Append tr f)
  obtain r s where rs: "op_append ops (o_now ora) tr (w_store w) = (r, s)" by fastforce
  from Append.prems have n: "n < seq_limit" "justified K tr" "0 < k" by auto
  note step = append_step [OF Append.prems(4) n(1,2) Append.prems(2) rs]
  have "good_store inv view (Suc n + (k - 1)) (w_store (snd (snd (run (f r) ops ora bs (w\<lparr>w_store := s\<rparr>))))) \<and>
    evolves view (w_store (w\<lparr>w_store := s\<rparr>)) (w_store (snd (snd (run (f r) ops ora bs (w\<lparr>w_store := s\<rparr>)))))"
    by (rule Append.IH [of _ K])
      (use Append.prems step n(3) all_past_keeps [OF Append.prems(2) step(2)] in auto)
  with rs n(3) step(2) show ?case by (auto intro: evolves_trans)
next
  case (TryAcquire s f)
  show ?case
    using TryAcquire.IH [OF rangeI, of True K "w\<lparr>w_used := (w_used w)(s := w_used w s + 1)\<rparr>" k n]
      TryAcquire.IH [OF rangeI, of False K w k n] TryAcquire.prems
    by (simp add: try_acquire_def)
next
  case (Elapsed f)
  show ?case
    using Elapsed.IH [OF rangeI, of _ K _ k n] Elapsed.prems by (simp split: list.split)
next
  case (Events t after m f)
  show ?case using Events.IH [OF rangeI, of _ K _ k n] Events.prems by simp
next
  case (ReadRegistry f)
  show ?case using ReadRegistry.IH [OF rangeI, of _ K _ k n] ReadRegistry.prems by simp
next
  case (Clock f)
  show ?case using Clock.IH [OF rangeI, of _ K _ k n] Clock.prems by simp
next
  case (FreshId f)
  show ?case using FreshId.IH [OF rangeI, of _ K _ k n] FreshId.prems by simp
next
  case (SubscribeActive t f)
  show ?case using SubscribeActive.IH [OF rangeI, of _ K _ k n] SubscribeActive.prems by simp
next
  case (DriverInvoke ag t rq f)
  show ?case using DriverInvoke.IH [OF rangeI, of _ K _ k n] DriverInvoke.prems by simp
next
  case (DriverCall c f)
  show ?case using DriverCall.IH [OF rangeI, of _ K _ k n] DriverCall.prems by simp
next
  case (Act b p)
  show ?case using Act.IH [of K "perform b w" k n] Act.prems by simp
next
  case (Await p)
  show ?case using Await.IH [of K _ k n] Await.prems by simp
qed (auto intro: good_store_mono)

text \<open>Reading the snapshot of a stored task.\<close>

lemma run_snapshot:
  assumes "good_store inv view n (w_store w)" "view (w_store w) t = Some (snap, evs)"
  shows "run (snapshot t) ops ora bs w = (Some (Inr snap), bs, w)"
  using assms by (simp add: snapshot_def get_view good_store_def)

text \<open>\<open>fail_active\<close> with the store to itself always leaves the task terminal.\<close>

lemma run_fail_active:
  assumes good: "good_store inv view n (w_store w)" and n: "n < seq_limit"
    and view: "view (w_store w) t = Some (snap, evs)"
  shows "\<exists>w' snap' evs'. run (fail_active ce t err) ops ora bs w = (Some (Inr ()), bs, w') \<and>
    view (w_store w') t = Some (snap', evs') \<and> terminal (snap_state snap')"
proof (cases "terminal (snap_state snap)")
  case True
  with view show ?thesis
    by (simp add: fail_active_def thenp_def run_bindp run_snapshot [OF good view])
next
  case False
  note dense = good_store_dense [OF good view]
  have inv: "inv (w_store w)" using good by (simp add: good_store_def)
  let ?tr = "\<lparr>tr_task_id = snap_task_id snap, tr_expected_revision = snap_revision snap,
      tr_allowed_states = [Created, Accepted, Running, WaitingForInput, CancelRequested],
      tr_next_state = Failed,
      tr_event_kind = EvFailed \<lparr>pe_code = (if err = Timeout then ''timeout'' else ''runtime_error''),
        pe_message = display_core_error (ce_uuid_str ce) err, pe_retryable = False\<rparr>\<rparr>"
  have "snap_terminal_at snap = None" using False dense(6) by (auto simp: closed_log_def)
  moreover have "snap_state snap \<in> set (tr_allowed_states ?tr)" using False by (auto simp: not_terminal_iff)
  ultimately obtain s' where s': "op_append ops (o_now ora) ?tr (w_store w) =
      (Inr \<lparr>at_snapshot = advance (o_now ora) ?tr snap, at_event = next_event (o_now ora) ?tr snap\<rparr>, s')"
    "view s' = (view (w_store w))(t \<mapsto> (advance (o_now ora) ?tr snap, evs @ [next_event (o_now ora) ?tr snap]))"
    using append_ok [OF inv, of ?tr snap evs "o_now ora"] view dense n by auto
  have "w_store (update_active t' f (w\<lparr>w_store := s'\<rparr>)) = s'" for t' f
    by (simp add: update_active_def split: option.split)
  with False s' show ?thesis
    by (simp add: fail_active_def thenp_def run_bindp run_snapshot [OF good view] transition_def)
qed

text \<open>When the loop over the driver's events returns without an error, the task has ended.\<close>

lemma run_timeout_snapshot_then:
  assumes "good_store inv view n (w_store w)" "view (w_store w) t = Some (snap, evs)"
    and "run (with_timeout (thenp (snapshot t) f)) ops ora bs w = (Some (Some (Inr ())), bs', w')"
  shows "\<exists>bs1. run (with_timeout (f snap)) ops ora bs1 w = (Some (Some (Inr ())), bs', w')"
  using assms
  by (auto simp: thenp_def snapshot_def get_view good_store_def split: list.splits if_splits)

lemma run_consume_terminal:
  assumes "good_store inv view n (w_store w)" "view (w_store w) t \<noteq> None"
    "n + length events \<le> seq_limit"
    "run (with_timeout (consume ce t events closed)) ops ora bs w = (Some (Some (Inr ())), bs', w')"
  shows "\<exists>snap evs. view (w_store w') t = Some (snap, evs) \<and> terminal (snap_state snap)"
  using assms
proof (induction events arbitrary: n bs w)
  case Nil
  obtain snap evs where view: "view (w_store w) t = Some (snap, evs)" using Nil.prems(2) by auto
  from Nil.prems(4) obtain bs1 where closed: "closed" and
    "run (with_timeout (thenp (snapshot t) (\<lambda>snap. if \<not> terminal (snap_state snap)
       then Done (Inl (DriverError ''driver stream closed before terminal event'')) else Done (Inr ()))))
       ops ora bs1 w = (Some (Some (Inr ())), bs', w')"
    by (auto split: if_splits list.splits)
  from run_timeout_snapshot_then [OF Nil.prems(1) view this(2)] view show ?case
    by (auto split: if_splits)
next
  case (Cons ev events)
  let ?rest = "\<lambda>_. thenp (snapshot t) (\<lambda>snap. if terminal (snap_state snap) then Done (Inr ())
      else consume ce t events closed)"
  from Cons.prems(4) obtain bs1 where
    "run (with_timeout (thenp (apply_driver_event ce t ev) ?rest)) ops ora bs1 w =
       (Some (Some (Inr ())), bs', w')"
    by (auto split: if_splits list.splits)
  then obtain bs2 w1 where first: "run (with_timeout (apply_driver_event ce t ev)) ops ora bs1 w =
      (Some (Some (Inr ())), bs2, w1)"
    and second: "run (with_timeout (?rest ())) ops ora bs2 w1 = (Some (Some (Inr ())), bs', w')"
    by (auto dest: run_timeout_thenp_ok)
  have "good_store inv view (n + 1) (w_store w1) \<and> evolves view (w_store w) (w_store w1)"
    using run_safe [OF safe_with_timeout [OF safe_apply_driver_event [of ce t ev "{}"]] _
        appends_le_with_timeout [OF appends_le_apply_driver_event] Cons.prems(1), of ora bs1] Cons.prems(3) first
    by simp
  then have good1: "good_store inv view (Suc n) (w_store w1)" and keep: "evolves view (w_store w) (w_store w1)"
    by auto
  have in1: "view (w_store w1) t \<noteq> None"
    by (rule evolves_stored [OF Cons.prems(1) keep Cons.prems(2)])
  then obtain snap evs where view1: "view (w_store w1) t = Some (snap, evs)" by auto
  from run_timeout_snapshot_then [OF good1 view1 second] obtain bs3 where
    third: "run (with_timeout (if terminal (snap_state snap) then Done (Inr ())
      else consume ce t events closed)) ops ora bs3 w1 = (Some (Some (Inr ())), bs', w')" by blast
  show ?case
  proof (cases "terminal (snap_state snap)")
    case True
    with third view1 show ?thesis by simp
  next
    case False
    with third show ?thesis using Cons.IH [OF good1 in1] Cons.prems(3) by simp
  qed
qed

text \<open>The supervised driver: it yields an answer, the store stays well formed, and an answer
  without an error means that the task has ended.\<close>

lemma run_timeout_driver:
  assumes good: "good_store inv view n (w_store w)" and view: "view (w_store w) t \<noteq> None"
    and n: "n + stream_length (o_stream ora) \<le> seq_limit"
  shows "\<exists>r bs' w'. run (with_timeout (run_driver ce agent t rq)) ops ora bs w = (Some r, bs', w') \<and>
    good_store inv view (n + stream_length (o_stream ora)) (w_store w') \<and>
    evolves view (w_store w) (w_store w') \<and> w_used w' = w_used w \<and>
    (r = Some (Inr ()) \<longrightarrow>
      (\<exists>snap evs. view (w_store w') t = Some (snap, evs) \<and> terminal (snap_state snap)))"
proof (cases "o_stream ora")
  case (Inl e)
  with good show ?thesis
    by (auto simp: run_driver_def split: list.splits if_splits intro: good_store_mono)
next
  case (Inr st)
  obtain events closed where st: "st = DriverStream events closed" by (cases st)
  let ?c = "with_timeout (consume ce t events closed)"
  have main: "\<exists>r bs' w'. run ?c ops ora bs1 w = (Some r, bs', w') \<and>
      good_store inv view (n + length events) (w_store w') \<and> evolves view (w_store w) (w_store w') \<and>
      w_used w' = w_used w \<and> (r = Some (Inr ()) \<longrightarrow>
      (\<exists>snap evs. view (w_store w') t = Some (snap, evs) \<and> terminal (snap_state snap)))" for bs1
  proof -
    obtain r bs' w' where run: "run ?c ops ora bs1 w = (Some r, bs', w')"
      using run_with_timeout_result by blast
    have "good_store inv view (n + length events) (w_store w') \<and> evolves view (w_store w) (w_store w')"
      using run_safe [OF safe_with_timeout [OF safe_consume [of ce t events closed "{}"]] _
          appends_le_with_timeout [OF appends_le_consume] good, of ora bs1] n run Inr st by simp
    moreover have "w_used w' = w_used w"
      using run_quiet(1) [OF quiet_with_timeout [OF quiet_consume [of ce t events closed]],
          of ops ora bs1 w] run by simp
    moreover have "r = Some (Inr ()) \<longrightarrow>
        (\<exists>snap evs. view (w_store w') t = Some (snap, evs) \<and> terminal (snap_state snap))"
      using run_consume_terminal [OF good view, of events ce closed ora bs1 bs' w'] run n Inr st by auto
    ultimately show ?thesis using run by blast
  qed
  have "good_store inv view (n + length events) (w_store w)" using good by (rule good_store_mono) simp
  then show ?thesis
    using main Inr st by (auto simp: run_driver_def split: list.split)
qed

lemma run_worker_body:
  assumes good: "good_store inv view n (w_store w)" and view: "view (w_store w) (wk_task wk) \<noteq> None"
    and n: "n + stream_length (o_stream ora) < seq_limit"
  shows "\<exists>bs' w' snap evs. run (worker_body ce wk) ops ora bs w = (Some (), bs', w') \<and>
    view (w_store w') (wk_task wk) = Some (snap, evs) \<and> terminal (snap_state snap) \<and>
    map_of (w_active w') (wk_task wk) = None \<and>
    (\<forall>s. w_used w' s = w_used w s - count (worker_permits wk) s)"
proof -
  let ?t = "wk_task wk"
  obtain r bs1 w1 where one:
    "run (with_timeout (run_driver ce (wk_agent wk) ?t (wk_request wk))) ops ora bs w = (Some r, bs1, w1)"
    "good_store inv view (n + stream_length (o_stream ora)) (w_store w1)"
    "evolves view (w_store w) (w_store w1)" "w_used w1 = w_used w"
    "r = Some (Inr ()) \<longrightarrow>
      (\<exists>snap evs. view (w_store w1) ?t = Some (snap, evs) \<and> terminal (snap_state snap))"
    using run_timeout_driver [OF good view, of ora ce "wk_agent wk" "wk_request wk" bs] n by auto
  have "view (w_store w1) ?t \<noteq> None"
    by (rule evolves_stored [OF good one(3) view])
  then obtain snap evs where view1: "view (w_store w1) ?t = Some (snap, evs)" by auto
  have fail: "\<exists>w2 snap evs. run (fail_active ce ?t err) ops ora bs2 w1 = (Some (Inr ()), bs2, w2) \<and>
      view (w_store w2) ?t = Some (snap, evs) \<and> terminal (snap_state snap) \<and> w_used w2 = w_used w" for err bs2
  proof -
    have "w_used (snd (snd (run (fail_active ce ?t err) ops ora bs2 w1))) = w_used w1"
      by (rule run_quiet(1) [OF quiet_fail_active])
    with run_fail_active [OF one(2) n view1, of ce err ora bs2] one(4) show ?thesis by auto
  qed
  let ?mid = "case r of Some (Inr _) \<Rightarrow> Done ()
      | Some (Inl err) \<Rightarrow> bindp (fail_active ce ?t err) (\<lambda>_. Done ())
      | None \<Rightarrow> DriverCall (CallCancel (wk_agent wk) ?t) (\<lambda>_. bindp (fail_active ce ?t Timeout) (\<lambda>_. Done ()))"
  have mid: "\<exists>bs2 w2 snap evs. run ?mid ops ora bs1 w1 = (Some (), bs2, w2) \<and>
      view (w_store w2) ?t = Some (snap, evs) \<and> terminal (snap_state snap) \<and> w_used w2 = w_used w"
  proof (cases r)
    case None
    with fail [of Timeout bs1] show ?thesis by (auto simp: run_bindp)
  next
    case (Some x)
    show ?thesis
    proof (cases x)
      case (Inl err)
      with Some fail [of err bs1] show ?thesis by (auto simp: run_bindp)
    next
      case (Inr u)
      with Some one(4,5) show ?thesis by simp
    qed
  qed
  then obtain bs2 w2 snap2 evs2 where two: "run ?mid ops ora bs1 w1 = (Some (), bs2, w2)"
    "view (w_store w2) ?t = Some (snap2, evs2)" "terminal (snap_state snap2)" "w_used w2 = w_used w"
    by blast
  let ?w3 = "perform (ActiveRemove ?t) w2"
  let ?w4 = "perform (Release (wk_caller_permit wk)) (perform (Release (wk_global_permit wk))
      (perform (Release (wk_agent_permit wk)) ?w3))"
  have "run (worker_body ce wk) ops ora bs w = run (Act (ActiveRemove ?t) (release_permits wk)) ops ora bs2 w2"
    by (simp only: worker_body_def run_bindp one(1) two(1) prod.case option.case)
  then have "run (worker_body ce wk) ops ora bs w = (Some (), bs2, ?w4)"
    by (simp add: release_permits_def)
  moreover have "w_used ?w4 s = w_used w s - count (worker_permits wk) s" for s
    by (simp add: two(4) worker_permits_def)
  moreover have "map_of (w_active ?w4) ?t = None" "w_store ?w4 = w_store w2"
    by (simp_all add: delete_conv')
  ultimately show ?thesis
    using two(2,3) by (intro exI [of _ bs2] exI [of _ ?w4] exI [of _ snap2] exI [of _ evs2]) simp
qed

section \<open>Single transitions\<close>

text \<open>The transition that \<open>transition\<close> issues, and the world after it.\<close>

lemma run_transition_ok:
  assumes good: "good_store inv view n (w_store w)" and n: "n < seq_limit"
    and view: "view (w_store w) t = Some (snap, evs)"
    and allowed: "snap_state snap \<in> set allowed" "\<not> terminal (snap_state snap)"
    and tr: "tr = transition_of snap allowed nxt kind"
  shows "\<exists>s'. run (transition snap allowed nxt kind) ops ora bs w =
      (Some (Inr (advance (o_now ora) tr snap)), bs,
       perform (ActiveSend t (next_event (o_now ora) tr snap)) (w\<lparr>w_store := s'\<rparr>)) \<and>
    inv s' \<and> keyed s' = keyed (w_store w) \<and>
    view s' = (view (w_store w))(t \<mapsto> (advance (o_now ora) tr snap, evs @ [next_event (o_now ora) tr snap]))"
proof -
  note dense = good_store_dense [OF good view]
  have inv: "inv (w_store w)" using good by (simp add: good_store_def)
  have "snap_terminal_at snap = None" using allowed(2) dense(6) by (auto simp: closed_log_def)
  then obtain s' where "op_append ops (o_now ora) tr (w_store w) =
      (Inr \<lparr>at_snapshot = advance (o_now ora) tr snap, at_event = next_event (o_now ora) tr snap\<rparr>, s')"
    "inv s'" "keyed s' = keyed (w_store w)"
    "view s' = (view (w_store w))(t \<mapsto> (advance (o_now ora) tr snap, evs @ [next_event (o_now ora) tr snap]))"
    using append_ok [OF inv, of tr snap evs "o_now ora"] view dense n allowed
    by (auto simp: tr transition_of_def)
  then show ?thesis
    using dense(1) by (auto simp: transition_def tr transition_of_def)
qed

lemma run_transition_invalid:
  assumes good: "good_store inv view n (w_store w)" and view: "view (w_store w) t = Some (snap, evs)"
    and refused: "snap_state snap \<notin> set allowed"
  shows "\<exists>msg. run (transition snap allowed nxt kind) ops ora bs w =
    (Some (Inl (StoreError (InvalidTransition msg))), bs, w)"
proof -
  note dense = good_store_dense [OF good view]
  have inv: "inv (w_store w)" using good by (simp add: good_store_def)
  obtain msg where "op_append ops (o_now ora) (transition_of snap allowed nxt kind) (w_store w) =
      (Inl (InvalidTransition msg), w_store w)"
    using append_invalid [OF inv, of "transition_of snap allowed nxt kind" snap evs "o_now ora"] view dense refused
    by (auto simp: transition_of_def)
  then show ?thesis by (simp add: transition_def transition_of_def)
qed

lemma run_snapshot_missing:
  assumes "good_store inv view n (w_store w)" "view (w_store w) t = None"
  shows "run (snapshot t) ops ora bs w = (Some (Inl (StoreError (NotFound t))), bs, w)"
  using assms by (simp add: snapshot_def get_view good_store_def)

text \<open>A transition followed by the rest of the handler.\<close>

lemma run_transition_then:
  assumes good: "good_store inv view n (w_store w)" and n: "n < seq_limit"
    and view: "view (w_store w) t = Some (snap, evs)"
    and allowed: "snap_state snap \<in> set allowed" "\<not> terminal (snap_state snap)"
  shows "\<exists>w' snap'. run (thenp (transition snap allowed nxt kind) f) ops ora bs w =
      run (f snap') ops ora bs w' \<and> moved view w w' t evs snap' nxt kind \<and>
    inv (w_store w') \<and> keyed (w_store w') = keyed (w_store w) \<and>
    (core_transition (transition_of snap allowed nxt kind) \<longrightarrow> good_store inv view (Suc n) (w_store w'))"
proof -
  let ?tr = "transition_of snap allowed nxt kind"
  note dense = good_store_dense [OF good view]
  obtain s' where s': "run (transition snap allowed nxt kind) ops ora bs w =
      (Some (Inr (advance (o_now ora) ?tr snap)), bs,
       perform (ActiveSend t (next_event (o_now ora) ?tr snap)) (w\<lparr>w_store := s'\<rparr>))"
    "inv s'" "keyed s' = keyed (w_store w)"
    "view s' = (view (w_store w))(t \<mapsto> (advance (o_now ora) ?tr snap, evs @ [next_event (o_now ora) ?tr snap]))"
    using run_transition_ok [OF good n view allowed refl, of nxt kind ora bs] by blast
  let ?w = "perform (ActiveSend t (next_event (o_now ora) ?tr snap)) (w\<lparr>w_store := s'\<rparr>)"
  have "u64_add (length evs) 1 = Suc (length evs)"
    using dense(4) n by (simp add: u64_add_small seq_limit_def u64_max_def)
  then have "moved view w ?w t evs (advance (o_now ora) ?tr snap) nxt kind"
    using s'(4) dense(3) unfolding moved_def
    by (intro conjI exI [of _ "next_event (o_now ora) ?tr snap"])
      (simp_all add: transition_of_def update_active_def split: option.split)
  moreover have store: "w_store ?w = s'" by (simp add: update_active_def split: option.split)
  moreover have "good_store inv view (Suc n) s'" if "core_transition ?tr"
  proof (rule good_store_put [OF good s'(2,4)])
    show "dense_log t (advance (o_now ora) ?tr snap, evs @ [next_event (o_now ora) ?tr snap])"
      using dense n by (intro dense_log_advance) (auto simp: transition_of_def seq_limit_def u64_max_def)
    show "closed_log (advance (o_now ora) ?tr snap, evs @ [next_event (o_now ora) ?tr snap])"
      using dense(6) that allowed(1) by (intro closed_log_advance) (auto simp: transition_of_def)
  qed (use dense(4) in auto)
  moreover have "run (thenp (transition snap allowed nxt kind) f) ops ora bs w =
      run (f (advance (o_now ora) ?tr snap)) ops ora bs ?w"
    by (simp add: thenp_def run_bindp s'(1))
  ultimately show ?thesis
    using s'(2,3) by (intro exI [of _ ?w] exI [of _ "advance (o_now ora) ?tr snap"]) simp
qed

lemma run_transition_then_invalid:
  assumes "good_store inv view n (w_store w)" "view (w_store w) t = Some (snap, evs)"
    and "snap_state snap \<notin> set allowed"
  shows "\<exists>msg. run (thenp (transition snap allowed nxt kind) f) ops ora bs w =
    (Some (Inl (StoreError (InvalidTransition msg))), bs, w)"
  using run_transition_invalid [OF assms, of nxt kind ora bs] by (auto simp: thenp_def run_bindp)

lemma run_snapshot_then:
  assumes "good_store inv view n (w_store w)" "view (w_store w) t = Some (snap, evs)"
  shows "run (thenp (snapshot t) f) ops ora bs w = run (f snap) ops ora bs w"
  by (simp add: thenp_def run_bindp run_snapshot [OF assms])

lemma run_snapshot_then_missing:
  assumes "good_store inv view n (w_store w)" "view (w_store w) t = None"
  shows "run (thenp (snapshot t) f) ops ora bs w = (Some (Inl (StoreError (NotFound t))), bs, w)"
  by (simp add: thenp_def run_bindp run_snapshot_missing [OF assms])

end

end
