(* ===== verification/Memory_Store.thy ===== *)
theory Memory_Store
  imports Store_Contract "HOL-Library.AList"
begin

text \<open>
  The crate \<open>memory-task-store\<close>. The struct \<open>State\<close> behind the mutex is a record of
  association lists (a \<open>HashMap\<close> together with the order in which it is iterated, which
  the code leaves open; every theorem is about all states, hence all orders). Each method
  holds the lock for its whole body, so it is one state transformer. The clock, the
  conversion \<open>chrono::Duration::from_std\<close> and the printed form of a UUID are arguments.
\<close>

section \<open>State and operations\<close>

record lease_record =
  lr_owner_id :: string
  lr_expires_at :: time

record mem_state =
  m_tasks :: "(task_id \<times> task_snapshot) list"
  m_events :: "(task_id \<times> core_event list) list"
  m_idempotency :: "((caller_id \<times> string) \<times> task_id) list"
  m_leases :: "(task_id \<times> lease_record) list"

definition mem_new :: mem_state where
  "mem_new = \<lparr>m_tasks = [], m_events = [], m_idempotency = [], m_leases = []\<rparr>"

definition mem_ping :: "mem_state \<Rightarrow> store_error + unit" where
  "mem_ping s = Inr ()"

definition mem_create ::
  "time \<Rightarrow> new_task \<Rightarrow> mem_state \<Rightarrow> (store_error + create_task_result) \<times> mem_state" where
  "mem_create now task s =
     (let key = (nt_caller_id task, nt_idempotency_key task) in
      case map_of (m_idempotency s) key of
        Some task_id \<Rightarrow>
          (case map_of (m_tasks s) task_id of
             Some existing \<Rightarrow> (Inr (CtExisting existing), s)
           | None \<Rightarrow> (Inl (Corrupt ''idempotency references absent task''), s))
      | None \<Rightarrow>
          (let snapshot = initial_snapshot now task in
           (Inr (CtCreated snapshot),
            s\<lparr>m_idempotency := AList.update key (nt_task_id task) (m_idempotency s),
              m_tasks := AList.update (nt_task_id task) snapshot (m_tasks s),
              m_events := AList.update (nt_task_id task) [] (m_events s)\<rparr>)))"

definition mem_get_snapshot :: "task_id \<Rightarrow> mem_state \<Rightarrow> store_error + task_snapshot option" where
  "mem_get_snapshot t s = Inr (map_of (m_tasks s) t)"

text \<open>\<open>{:?}\<close> of a task state, as the derived \<open>Debug\<close> prints it.\<close>

fun debug_state :: "task_state \<Rightarrow> string" where
  "debug_state Created = ''Created''"
| "debug_state Accepted = ''Accepted''"
| "debug_state Running = ''Running''"
| "debug_state WaitingForInput = ''WaitingForInput''"
| "debug_state CancelRequested = ''CancelRequested''"
| "debug_state Completed = ''Completed''"
| "debug_state Failed = ''Failed''"
| "debug_state Cancelled = ''Cancelled''"

definition mem_append ::
  "time \<Rightarrow> task_transition \<Rightarrow> mem_state \<Rightarrow> (store_error + applied_transition) \<times> mem_state" where
  "mem_append now tr s =
     (case map_of (m_tasks s) (tr_task_id tr) of
        None \<Rightarrow> (Inl (NotFound (tr_task_id tr)), s)
      | Some snapshot \<Rightarrow>
          if snap_revision snapshot \<noteq> tr_expected_revision tr then (Inl Conflict, s)
          else if snap_state snapshot \<notin> set (tr_allowed_states tr)
          then (Inl (InvalidTransition (''current='' @ debug_state (snap_state snapshot))), s)
          else
            (let snapshot' = snapshot\<lparr>snap_state := tr_next_state tr,
                   snap_revision := u64_add (snap_revision snapshot) 1,
                   snap_last_seq := u64_add (snap_last_seq snapshot) 1,
                   snap_updated_at := now\<rparr>;
                 snapshot'' = (if terminal (snap_state snapshot')
                               then snapshot'\<lparr>snap_terminal_at := Some now\<rparr> else snapshot');
                 event = \<lparr>ev_task_id = tr_task_id tr, ev_seq = snap_last_seq snapshot'',
                          ev_at = now, ev_kind = tr_event_kind tr\<rparr>;
                 log = (case map_of (m_events s) (tr_task_id tr) of None \<Rightarrow> [] | Some evs \<Rightarrow> evs)
             in (Inr \<lparr>at_snapshot = snapshot'', at_event = event\<rparr>,
                 s\<lparr>m_tasks := AList.update (tr_task_id tr) snapshot'' (m_tasks s),
                   m_events := AList.update (tr_task_id tr) (log @ [event]) (m_events s)\<rparr>)))"

definition mem_events_after ::
  "task_id \<Rightarrow> event_seq \<Rightarrow> nat \<Rightarrow> mem_state \<Rightarrow> store_error + core_event list" where
  "mem_events_after t after limit s =
     (case map_of (m_tasks s) t of
        None \<Rightarrow> Inl (NotFound t)
      | Some _ \<Rightarrow>
          Inr (take limit (filter (\<lambda>ev. after < ev_seq ev)
                 (case map_of (m_events s) t of None \<Rightarrow> [] | Some evs \<Rightarrow> evs))))"

definition mem_acquire_lease ::
  "(nat \<Rightarrow> string + int) \<Rightarrow> time \<Rightarrow> lease \<Rightarrow> mem_state \<Rightarrow> (store_error + bool) \<times> mem_state" where
  "mem_acquire_lease from_std now l s =
     (case from_std (lease_expires_in l) of
        Inl e \<Rightarrow> (Inl (Internal e), s)
      | Inr d \<Rightarrow>
          (let taken = (Inr True,
                 s\<lparr>m_leases := AList.update (lease_task_id l)
                     \<lparr>lr_owner_id = lease_owner_id l, lr_expires_at = now + d\<rparr> (m_leases s)\<rparr>)
           in case map_of (m_leases s) (lease_task_id l) of
                Some existing \<Rightarrow>
                  if lr_expires_at existing > now \<and> lr_owner_id existing \<noteq> lease_owner_id l
                  then (Inr False, s) else taken
              | None \<Rightarrow> taken))"

definition mem_renew_lease ::
  "(nat \<Rightarrow> string + int) \<Rightarrow> time \<Rightarrow> lease \<Rightarrow> mem_state \<Rightarrow> (store_error + bool) \<times> mem_state" where
  "mem_renew_lease from_std now l s =
     (case from_std (lease_expires_in l) of
        Inl e \<Rightarrow> (Inl (Internal e), s)
      | Inr d \<Rightarrow>
          (case map_of (m_leases s) (lease_task_id l) of
             Some existing \<Rightarrow>
               if lr_owner_id existing = lease_owner_id l \<and> lr_expires_at existing \<ge> now
               then (Inr True,
                     s\<lparr>m_leases := AList.update (lease_task_id l)
                         (existing\<lparr>lr_expires_at := now + d\<rparr>) (m_leases s)\<rparr>)
               else (Inr False, s)
           | None \<Rightarrow> (Inr False, s)))"

text \<open>The loop over the expired tasks, one removal per step.\<close>

fun mem_remove_expired ::
  "(uuid \<Rightarrow> string) \<Rightarrow> task_id list \<Rightarrow> mem_state \<Rightarrow> nat \<Rightarrow> mem_state \<times> nat" where
  "mem_remove_expired uuid_str [] s deleted = (s, deleted)"
| "mem_remove_expired uuid_str (t # ts) s deleted =
     (case map_of (m_tasks s) t of
        None \<Rightarrow> mem_remove_expired uuid_str ts s deleted
      | Some snapshot \<Rightarrow>
          mem_remove_expired uuid_str ts
            (s\<lparr>m_tasks := AList.delete t (m_tasks s),
               m_idempotency := AList.delete (snap_caller_id snapshot, ''memory:'' @ uuid_str t)
                                  (m_idempotency s),
               m_events := AList.delete t (m_events s),
               m_leases := AList.delete t (m_leases s)\<rparr>)
            (u64_add deleted 1))"

text \<open>The loop over the remaining logs, which drops the events older than the cutoff.\<close>

fun mem_retain_events ::
  "time \<Rightarrow> (task_id \<times> core_event list) list \<Rightarrow> nat \<Rightarrow> (task_id \<times> core_event list) list \<times> nat" where
  "mem_retain_events cutoff [] deleted = ([], deleted)"
| "mem_retain_events cutoff ((t, evs) # logs) deleted =
     (let kept = filter (\<lambda>ev. ev_at ev \<ge> cutoff) evs;
          r = mem_retain_events cutoff logs (u64_add deleted (length evs - length kept))
      in ((t, kept) # fst r, snd r))"

definition mem_expired :: "time \<Rightarrow> nat \<Rightarrow> mem_state \<Rightarrow> task_id list" where
  "mem_expired cutoff batch s =
     take batch (map fst (filter (\<lambda>(t, snapshot).
       case snap_terminal_at snapshot of None \<Rightarrow> False | Some at \<Rightarrow> at < cutoff) (m_tasks s)))"

definition mem_cleanup ::
  "(uuid \<Rightarrow> string) \<Rightarrow> (nat \<Rightarrow> string + int) \<Rightarrow> time \<Rightarrow> retention_policy \<Rightarrow> mem_state \<Rightarrow>
     (store_error + cleanup_report) \<times> mem_state" where
  "mem_cleanup uuid_str from_std now policy s =
     (case from_std (rp_task_ttl policy) of
        Inl e \<Rightarrow> (Inl (Internal e), s)
      | Inr task_ttl \<Rightarrow>
          (case from_std (rp_event_ttl policy) of
             Inl e \<Rightarrow> (Inl (Internal e), s)
           | Inr event_ttl \<Rightarrow>
               (let expired = mem_expired (now - task_ttl) (rp_cleanup_batch_size policy) s;
                    r1 = mem_remove_expired uuid_str expired s 0;
                    r2 = mem_retain_events (now - event_ttl) (m_events (fst r1)) 0
                in (Inr \<lparr>cr_tasks_deleted = snd r1, cr_events_deleted = snd r2,
                         cr_idempotency_deleted = 0\<rparr>,
                    (fst r1)\<lparr>m_events := fst r2\<rparr>))))"

definition mem_ops :: "mem_state store_ops" where
  "mem_ops = \<lparr>op_ping = mem_ping, op_create = mem_create, op_get_snapshot = mem_get_snapshot,
     op_append = mem_append, op_events_after = mem_events_after\<rparr>"

section \<open>The contract holds\<close>

text \<open>Every idempotency record points at a stored task; the keys of a \<open>HashMap\<close> are distinct.\<close>

definition mem_inv :: "mem_state \<Rightarrow> bool" where
  "mem_inv s \<longleftrightarrow> distinct (map fst (m_tasks s)) \<and>
     (\<forall>k t. map_of (m_idempotency s) k = Some t \<longrightarrow> map_of (m_tasks s) t \<noteq> None)"

definition mem_view :: "mem_state \<Rightarrow> task_id \<Rightarrow> entry option" where
  "mem_view s t =
     (case map_of (m_tasks s) t of
        None \<Rightarrow> None
      | Some snap \<Rightarrow> Some (snap, case map_of (m_events s) t of None \<Rightarrow> [] | Some evs \<Rightarrow> evs))"

definition mem_keyed :: "mem_state \<Rightarrow> caller_id \<times> string \<Rightarrow> task_id option" where
  "mem_keyed s k = map_of (m_idempotency s) k"

lemma mem_ops_simps [simp]:
  "op_ping mem_ops = mem_ping" "op_create mem_ops = mem_create"
  "op_get_snapshot mem_ops = mem_get_snapshot" "op_append mem_ops = mem_append"
  "op_events_after mem_ops = mem_events_after"
  by (simp_all add: mem_ops_def)

lemma mem_view_None: "mem_view s t = None \<longleftrightarrow> map_of (m_tasks s) t = None"
  by (simp add: mem_view_def split: option.splits)

lemma mem_view_Some:
  "mem_view s t = Some (snap, evs) \<longleftrightarrow>
     map_of (m_tasks s) t = Some snap \<and>
     evs = (case map_of (m_events s) t of None \<Rightarrow> [] | Some evs \<Rightarrow> evs)"
  by (auto simp: mem_view_def split: option.splits)

lemma mem_inv_new: "mem_inv mem_new"
  by (simp add: mem_inv_def mem_new_def)

lemma mem_append_success:
  assumes "map_of (m_tasks s) (tr_task_id tr) = Some snap"
    "snap_revision snap = tr_expected_revision tr" "snap_state snap \<in> set (tr_allowed_states tr)"
  shows "mem_append now tr s =
    (Inr \<lparr>at_snapshot = advance now tr snap, at_event = next_event now tr snap\<rparr>,
     s\<lparr>m_tasks := AList.update (tr_task_id tr) (advance now tr snap) (m_tasks s),
       m_events := AList.update (tr_task_id tr)
         ((case map_of (m_events s) (tr_task_id tr) of None \<Rightarrow> [] | Some evs \<Rightarrow> evs) @
           [next_event now tr snap]) (m_events s)\<rparr>)"
  using assms by (simp add: mem_append_def advance_def next_event_def Let_def)

text \<open>What storing one entry does to the view.\<close>

lemma mem_view_update:
  "mem_view (s\<lparr>m_idempotency := ks, m_tasks := AList.update t snap (m_tasks s),
      m_events := AList.update t evs (m_events s)\<rparr>) = (mem_view s)(t \<mapsto> (snap, evs))"
  "mem_view (s\<lparr>m_tasks := AList.update t snap (m_tasks s),
      m_events := AList.update t evs (m_events s)\<rparr>) = (mem_view s)(t \<mapsto> (snap, evs))"
  by (simp_all add: mem_view_def fun_eq_iff update_conv' split: option.split)

lemma mem_inv_update:
  assumes "mem_inv s"
  shows "mem_inv (s\<lparr>m_tasks := AList.update t snap (m_tasks s), m_events := es\<rparr>)"
    "mem_inv (s\<lparr>m_idempotency := AList.update k t (m_idempotency s),
       m_tasks := AList.update t snap (m_tasks s), m_events := es\<rparr>)"
  using assms by (auto simp: mem_inv_def update_conv' intro: distinct_update)

interpretation mem: task_store mem_ops mem_inv mem_view mem_keyed
proof
  fix s t
  assume "mem_inv s"
  show "op_get_snapshot mem_ops t s = Inr (map_option fst (mem_view s t))"
    by (simp add: mem_get_snapshot_def mem_view_def split: option.splits)
next
  fix s :: mem_state and tr :: task_transition and now
  assume "mem_inv s" "mem_view s (tr_task_id tr) = None"
  then show "op_append mem_ops now tr s = (Inl (NotFound (tr_task_id tr)), s)"
    by (simp add: mem_append_def mem_view_None)
next
  fix s :: mem_state and tr :: task_transition and snap :: task_snapshot and evs now
  assume "mem_inv s" "mem_view s (tr_task_id tr) = Some (snap, evs)"
    "snap_revision snap \<noteq> tr_expected_revision tr"
  then show "op_append mem_ops now tr s = (Inl Conflict, s)"
    by (simp add: mem_append_def mem_view_Some)
next
  fix s :: mem_state and tr :: task_transition and snap :: task_snapshot and evs now
  assume "mem_inv s" "mem_view s (tr_task_id tr) = Some (snap, evs)"
    "snap_revision snap = tr_expected_revision tr" "snap_state snap \<notin> set (tr_allowed_states tr)"
  then show "\<exists>msg. op_append mem_ops now tr s = (Inl (InvalidTransition msg), s)"
    by (simp add: mem_append_def mem_view_Some)
next
  fix s :: mem_state and tr :: task_transition and snap :: task_snapshot and evs now
  assume "mem_inv s" "mem_view s (tr_task_id tr) = Some (snap, evs)"
    "snap_revision snap = tr_expected_revision tr" "snap_state snap \<in> set (tr_allowed_states tr)"
  then show "\<exists>s'. op_append mem_ops now tr s =
      (Inr \<lparr>at_snapshot = advance now tr snap, at_event = next_event now tr snap\<rparr>, s') \<and>
      mem_inv s' \<and> mem_keyed s' = mem_keyed s \<and>
      mem_view s' = (mem_view s)(tr_task_id tr \<mapsto> (advance now tr snap, evs @ [next_event now tr snap]))"
    by (auto simp: mem_view_Some mem_append_success mem_inv_update mem_keyed_def mem_view_update
        fun_eq_iff)
next
  fix s :: mem_state and t and snap :: task_snapshot and evs n after
  assume "mem_inv s" "mem_view s t = Some (snap, evs)"
  then show "op_events_after mem_ops t after n s = Inr (take n (filter (\<lambda>ev. after < ev_seq ev) evs))"
    by (simp add: mem_events_after_def mem_view_Some)
next
  fix s :: mem_state and nt :: new_task and t now
  assume "mem_inv s" "mem_keyed s (nt_caller_id nt, nt_idempotency_key nt) = Some t"
  then show "\<exists>snap evs. mem_view s t = Some (snap, evs) \<and>
      op_create mem_ops now nt s = (Inr (CtExisting snap), s)"
    by (fastforce simp: mem_inv_def mem_keyed_def mem_view_Some mem_create_def)
next
  fix s :: mem_state and nt :: new_task and now
  assume "mem_inv s" "mem_keyed s (nt_caller_id nt, nt_idempotency_key nt) = None"
    "mem_view s (nt_task_id nt) = None"
  then show "\<exists>s'. op_create mem_ops now nt s = (Inr (CtCreated (initial_snapshot now nt)), s') \<and>
      mem_inv s' \<and> mem_view s' = (mem_view s)(nt_task_id nt \<mapsto> (initial_snapshot now nt, [])) \<and>
      mem_keyed s' = (mem_keyed s)((nt_caller_id nt, nt_idempotency_key nt) \<mapsto> nt_task_id nt)"
    by (simp add: mem_create_def mem_keyed_def mem_inv_update mem_view_update Let_def
        update_conv' fun_eq_iff)
qed

text \<open>Creations that name a new task, or a known idempotency key, are harmless.\<close>

definition mem_allow :: "mem_state \<Rightarrow> new_task \<Rightarrow> bool" where
  "mem_allow s nt \<longleftrightarrow> map_of (m_tasks s) (nt_task_id nt) = None \<or>
     map_of (m_idempotency s) (nt_caller_id nt, nt_idempotency_key nt) \<noteq> None"

interpretation memg: guarded_store mem_ops mem_inv mem_view mem_keyed mem_allow
  by unfold_locales (auto simp: mem_allow_def mem_keyed_def mem_view_def split: option.splits)

section \<open>A concrete run\<close>

text \<open>One task is created, completed and cleaned up.\<close>

definition demo_task :: new_task where
  "demo_task = \<lparr>nt_task_id = 7, nt_session_id = None, nt_agent_id = ''a'', nt_caller_id = ''c'',
     nt_idempotency_key = ''k'', nt_deadline_at = None\<rparr>"

definition demo_transition :: task_transition where
  "demo_transition = \<lparr>tr_task_id = 7, tr_expected_revision = 0, tr_allowed_states = [Created],
     tr_next_state = Completed, tr_event_kind = EvCompleted []\<rparr>"

definition demo_policy :: retention_policy where
  "demo_policy = \<lparr>rp_task_ttl = 10, rp_event_ttl = 10, rp_idempotency_ttl = 10, rp_cleanup_batch_size = 5\<rparr>"

definition demo_created :: mem_state where
  "demo_created = snd (mem_create 0 demo_task mem_new)"

definition demo_done :: mem_state where
  "demo_done = snd (mem_append 1 demo_transition demo_created)"

lemmas demo_defs = demo_task_def demo_transition_def demo_policy_def demo_created_def demo_done_def
  mem_create_def mem_append_def mem_new_def initial_snapshot_def u64_add_def Let_def

lemma demo_done_inv: "mem_inv demo_done"
  by (auto simp: demo_defs mem_inv_def split: if_splits)

lemma demo_created_inv: "mem_inv demo_created"
  by (auto simp: demo_defs mem_inv_def split: if_splits)

section \<open>Optimistic concurrency and idempotent creation\<close>

text \<open>
  Two writers that read the same snapshot of a task cannot both append. The first
  transition whose allowed states contain the current one succeeds, and whatever the second
  one asks for is refused with \<open>Conflict\<close> and changes nothing.
\<close>

theorem mem_second_writer_conflicts:
  assumes "mem_inv s" "mem_view s t = Some (snap, evs)" "dense_log t (snap, evs)"
    "tr_task_id tr = t" "tr_expected_revision tr = snap_revision snap"
    "tr_task_id tr' = t" "tr_expected_revision tr' = snap_revision snap"
    "snap_state snap \<in> set (tr_allowed_states tr)"
    "snap_terminal_at snap = None" "length evs < seq_limit"
  shows "\<exists>ap s'. mem_append now tr s = (Inr ap, s') \<and> mem_append now' tr' s' = (Inl Conflict, s')"
  using mem.second_writer_conflicts [OF assms] by simp

theorem mem_second_writer_conflicts_witness:
  "\<exists>ap s'. mem_append 1 demo_transition demo_created = (Inr ap, s') \<and>
     mem_append 2 demo_transition s' = (Inl Conflict, s')"
  by (rule mem_second_writer_conflicts [OF demo_created_inv, of 7 "initial_snapshot 0 demo_task" "[]"])
    (simp_all add: demo_defs mem_view_def dense_log_def seq_limit_def)

section \<open>Leases\<close>

text \<open>
  A lease excludes every other owner until it expires. After an owner acquires the
  lease of a task at \<open>now\<close> for a duration \<open>d\<close>, another owner that asks before
  \<open>now + d\<close> is refused and the state is unchanged, and from \<open>now + d\<close> on it gets
  the lease; the holder itself can renew up to and including \<open>now + d\<close>.
\<close>

theorem mem_lease_exclusive:
  assumes "mem_acquire_lease from_std now l s = (Inr True, s')"
    and "from_std (lease_expires_in l) = Inr d"
    and "lease_task_id l' = lease_task_id l" "lease_owner_id l' \<noteq> lease_owner_id l"
    and "from_std (lease_expires_in l') = Inr d'"
  shows "mem_acquire_lease from_std later l' s' =
      (if later < now + d then (Inr False, s')
       else (Inr True, s'\<lparr>m_leases := AList.update (lease_task_id l)
              \<lparr>lr_owner_id = lease_owner_id l', lr_expires_at = later + d'\<rparr> (m_leases s')\<rparr>))
    \<and> fst (mem_renew_lease from_std later l s') = Inr (later \<le> now + d)
    \<and> mem_renew_lease from_std later l' s' = (Inr False, s')"
proof -
  have "map_of (m_leases s') (lease_task_id l) =
      Some \<lparr>lr_owner_id = lease_owner_id l, lr_expires_at = now + d\<rparr>"
    using assms(1,2)
    by (auto simp: mem_acquire_lease_def update_conv' Let_def split: option.splits if_splits)
  with assms(2-5) show ?thesis
    by (auto simp: mem_acquire_lease_def mem_renew_lease_def)
qed

theorem mem_lease_exclusive_witness:
  "fst (mem_acquire_lease (\<lambda>n. Inr (int n)) 9 \<lparr>lease_task_id = 1, lease_owner_id = ''b'', lease_expires_in = 5\<rparr>
      (snd (mem_acquire_lease (\<lambda>n. Inr (int n)) 0
         \<lparr>lease_task_id = 1, lease_owner_id = ''a'', lease_expires_in = 10\<rparr> mem_new))) = Inr False"
proof -
  have acq: "mem_acquire_lease (\<lambda>n. Inr (int n)) 0
      \<lparr>lease_task_id = 1, lease_owner_id = ''a'', lease_expires_in = 10\<rparr> mem_new =
    (Inr True, mem_new\<lparr>m_leases := [(1, \<lparr>lr_owner_id = ''a'', lr_expires_at = 10\<rparr>)]\<rparr>)"
    by (simp add: mem_acquire_lease_def mem_new_def)
  show ?thesis
    using mem_lease_exclusive [OF acq, of 10 "\<lparr>lease_task_id = 1, lease_owner_id = ''b'', lease_expires_in = 5\<rparr>" 5 9]
    by (simp add: acq)
qed

section \<open>Cleanup\<close>

lemma mem_remove_expired_tasks:
  "map_of (m_tasks (fst (mem_remove_expired u ts s n))) = (map_of (m_tasks s)) |` (- set ts)"
proof (induction u ts s n rule: mem_remove_expired.induct)
  case (1 u s n)
  show ?case by (simp add: fun_eq_iff restrict_map_def)
next
  case (2 u t ts s n)
  show ?case
  proof (cases "map_of (m_tasks s) t")
    case None
    with 2(1) show ?thesis by (auto simp: fun_eq_iff restrict_map_def)
  next
    case (Some snap)
    with 2(2) [OF Some] show ?thesis by (auto simp: fun_eq_iff restrict_map_def delete_conv')
  qed
qed

lemma mem_remove_expired_events:
  assumes "t \<notin> set ts"
  shows "map_of (m_events (fst (mem_remove_expired u ts s n))) t = map_of (m_events s) t"
  using assms
  by (induction u ts s n rule: mem_remove_expired.induct) (auto simp: delete_conv' split: option.splits)

lemma mem_remove_expired_keys:
  assumes "\<forall>x\<in>set ts. snd k \<noteq> ''memory:'' @ u x"
  shows "map_of (m_idempotency (fst (mem_remove_expired u ts s n))) k = map_of (m_idempotency s) k"
  using assms
  by (induction u ts s n rule: mem_remove_expired.induct) (auto simp: delete_conv' split: option.splits)

lemma mem_retain_events_map_of:
  "map_of (fst (mem_retain_events c logs n)) t =
     map_option (filter (\<lambda>ev. c \<le> ev_at ev)) (map_of logs t)"
  by (induction c logs n rule: mem_retain_events.induct) (auto simp: Let_def)

lemma mem_expired_iff:
  assumes "distinct (map fst (m_tasks s))" "length (m_tasks s) \<le> n"
  shows "t \<in> set (mem_expired c n s) \<longleftrightarrow>
    (\<exists>snap at. map_of (m_tasks s) t = Some snap \<and> snap_terminal_at snap = Some at \<and> at < c)"
proof -
  have "length (filter P (m_tasks s)) \<le> n" for P
    using assms(2) length_filter_le [of P "m_tasks s"] by linarith
  then show ?thesis
    using assms(1)
    by (force simp: mem_expired_def image_iff split: option.splits)
qed

lemma mem_expired_sound:
  assumes "distinct (map fst (m_tasks s))" "t \<in> set (mem_expired c n s)"
  shows "\<exists>snap at. map_of (m_tasks s) t = Some snap \<and> snap_terminal_at snap = Some at \<and> at < c"
  using assms by (force simp: mem_expired_def dest!: in_set_takeD split: option.splits)

lemma mem_cleanup_state:
  assumes "from_std (rp_task_ttl p) = Inr tt" "from_std (rp_event_ttl p) = Inr et"
  shows "\<exists>rep s'. mem_cleanup u from_std now p s = (Inr rep, s') \<and>
    m_tasks s' = m_tasks (fst (mem_remove_expired u (mem_expired (now - tt) (rp_cleanup_batch_size p) s) s 0)) \<and>
    m_idempotency s' = m_idempotency (fst (mem_remove_expired u (mem_expired (now - tt) (rp_cleanup_batch_size p) s) s 0)) \<and>
    mem_view s' = (\<lambda>t. if t \<in> set (mem_expired (now - tt) (rp_cleanup_batch_size p) s) then None
      else map_option (map_prod id (filter (\<lambda>ev. now - et \<le> ev_at ev))) (mem_view s t))"
  using assms
  by (auto simp: mem_cleanup_def Let_def mem_view_def mem_remove_expired_tasks restrict_map_def
      mem_retain_events_map_of mem_remove_expired_events fun_eq_iff split: option.splits)

text \<open>
  Cleanup removes only tasks that ended before the cutoff, together with their logs,
  and removes all of them when the batch size allows; every other task keeps its snapshot
  and the events that are not older than the event cutoff.
\<close>

theorem mem_cleanup_exact:
  assumes "mem_inv s" "from_std (rp_task_ttl p) = Inr tt" "from_std (rp_event_ttl p) = Inr et"
    and "mem_view s t = Some (snap, evs)"
  shows "\<exists>rep s'. mem_cleanup u from_std now p s = (Inr rep, s') \<and>
    (mem_view s' t = None \<and> (\<exists>at. snap_terminal_at snap = Some at \<and> at < now - tt) \<or>
     mem_view s' t = Some (snap, filter (\<lambda>ev. now - et \<le> ev_at ev) evs)) \<and>
    (length (m_tasks s) \<le> rp_cleanup_batch_size p \<longrightarrow>
       (mem_view s' t = None \<longleftrightarrow> (\<exists>at. snap_terminal_at snap = Some at \<and> at < now - tt)))"
proof -
  let ?X = "mem_expired (now - tt) (rp_cleanup_batch_size p) s"
  have dist: "distinct (map fst (m_tasks s))" using assms(1) by (simp add: mem_inv_def)
  have snap: "map_of (m_tasks s) t = Some snap" using assms(4) by (simp add: mem_view_Some)
  obtain rep s' where s': "mem_cleanup u from_std now p s = (Inr rep, s')"
    "mem_view s' = (\<lambda>t. if t \<in> set ?X then None
      else map_option (map_prod id (filter (\<lambda>ev. now - et \<le> ev_at ev))) (mem_view s t))"
    using mem_cleanup_state [OF assms(2,3), of u now s] by blast
  have "t \<in> set ?X \<Longrightarrow> \<exists>at. snap_terminal_at snap = Some at \<and> at < now - tt"
    using mem_expired_sound [OF dist] snap by fastforce
  moreover have "length (m_tasks s) \<le> rp_cleanup_batch_size p \<Longrightarrow>
      t \<in> set ?X \<longleftrightarrow> (\<exists>at. snap_terminal_at snap = Some at \<and> at < now - tt)"
    using mem_expired_iff [OF dist, of "rp_cleanup_batch_size p" t "now - tt"] snap by simp
  ultimately show ?thesis using s' assms(4) by auto
qed

theorem mem_cleanup_exact_witness:
  "\<exists>rep s'. mem_cleanup (\<lambda>_. ''u'') (\<lambda>n. Inr (int n)) 20 demo_policy demo_done = (Inr rep, s') \<and>
     mem_view s' 7 = None"
  using mem_cleanup_exact [OF demo_done_inv, of "\<lambda>n. Inr (int n)" demo_policy 10 10 7
      "advance 1 demo_transition (initial_snapshot 0 demo_task)"
      "[next_event 1 demo_transition (initial_snapshot 0 demo_task)]" "\<lambda>_. ''u''" 20]
  by (auto simp: demo_defs mem_view_def advance_def next_event_def)

text \<open>
  Cleanup leaves the idempotency record of the tasks it removes behind. It deletes the
  key \<open>memory:<task id>\<close>, which no creation ever used, so once a task created under another
  key is removed, every later creation by that caller with that key fails with
  \<open>Corrupt\<close>.
\<close>

theorem mem_cleanup_dangling_key:
  assumes "from_std (rp_task_ttl p) = Inr tt" "from_std (rp_event_ttl p) = Inr et"
    and "map_of (m_idempotency s) (caller, key) = Some t"
    and "t \<in> set (mem_expired (now - tt) (rp_cleanup_batch_size p) s)"
    and "\<not> prefix ''memory:'' key"
    and "nt_caller_id nt = caller" "nt_idempotency_key nt = key"
  shows "mem_create later nt (snd (mem_cleanup u from_std now p s)) =
    (Inl (Corrupt ''idempotency references absent task''), snd (mem_cleanup u from_std now p s))"
proof -
  let ?X = "mem_expired (now - tt) (rp_cleanup_batch_size p) s"
  obtain rep s' where s': "mem_cleanup u from_std now p s = (Inr rep, s')"
    "m_tasks s' = m_tasks (fst (mem_remove_expired u ?X s 0))"
    "m_idempotency s' = m_idempotency (fst (mem_remove_expired u ?X s 0))"
    using mem_cleanup_state [OF assms(1,2), of u now s] by blast
  have "map_of (m_idempotency s') (caller, key) = Some t"
    using assms(3,5) by (subst s'(3), subst mem_remove_expired_keys) auto
  moreover have "map_of (m_tasks s') t = None"
    using assms(4) by (simp add: s'(2) mem_remove_expired_tasks restrict_map_def)
  ultimately show ?thesis using s'(1) assms(6,7) by (simp add: mem_create_def)
qed

theorem mem_cleanup_dangling_key_witness:
  "fst (mem_create 30 demo_task (snd (mem_cleanup (\<lambda>_. ''u'') (\<lambda>n. Inr (int n)) 20 demo_policy demo_done))) =
     Inl (Corrupt ''idempotency references absent task'')"
proof -
  have "mem_expired (20 - 10) (rp_cleanup_batch_size demo_policy) demo_done = [7]"
    by (simp add: demo_defs mem_expired_def)
  moreover have "map_of (m_idempotency demo_done) (''c'', ''k'') = Some 7"
    by (simp add: demo_defs)
  ultimately show ?thesis
    using mem_cleanup_dangling_key [of "\<lambda>n. Inr (int n)" demo_policy 10 10 demo_done "''c''" "''k''" 7 20
        demo_task 30 "\<lambda>_. ''u''"]
    by (simp add: demo_policy_def demo_task_def)
qed

end
