(* ===== verification/Core_Properties.thy ===== *)
theory Core_Properties
  imports Core_Run Memory_Store
begin

text \<open>
  What the core guarantees, for every backend that satisfies the store contract, and two
  schedules in which it does not do what it means to. The witnesses run on the in-memory
  store.
\<close>

section \<open>A running example\<close>

definition demo_env :: core_env where
  "demo_env = core_new (\<lambda>_. ''u'') (\<lambda>n. Inr (int n)) allow_all_policy 4"

definition demo_agent :: registered_agent where
  "demo_agent = registered_agent_new 0 ''x'' [''sum'']
     \<lparr>cap_cancellation = True, cap_provide_input = True\<rparr>
     \<lparr>lim_max_concurrent_tasks = 1, lim_max_queued_tasks = 1, lim_max_input_bytes = 1,
      lim_max_event_bytes = 1, lim_default_timeout = 1\<rparr>"

definition demo_request :: invoke_request where
  "demo_request =
     \<lparr>rq_task_id = Some 7, rq_agent_id = None, rq_skill_id = None, rq_idempotency_key = ''k'',
      rq_session_id = None, rq_input = [], rq_context = JNull, rq_deadline = None\<rparr>"

definition demo_caller :: caller where
  "demo_caller = \<lparr>caller_id_of = ''c'', caller_scopes = []\<rparr>"

definition demo_start :: "mem_state system" where
  "demo_start = system_init mem_new [(''x'', demo_agent)]"

text \<open>A client invokes the agent and gets its answer; the worker is spawned.\<close>

definition invoke_schedule :: "sys_event list" where
  "invoke_schedule =
     Arrive demo_caller (Invoke demo_request) # replicate 11 (StepThread 0 (Proceed 1))"

text \<open>The worker's driver sends the given events and closes its stream.\<close>

definition open_stream :: "driver_event list \<Rightarrow> sys_event list" where
  "open_stream events =
     [StepThread 1 (Timer False), StepThread 1 (StreamIs (Inr (DriverStream events True))),
      StepThread 1 (Timer False)]"

text \<open>The completed event is applied: an await, the snapshot, the transition, the broadcast,
  the snapshot again; then the clean-up of the worker.\<close>

definition complete_schedule :: "sys_event list" where
  "complete_schedule = invoke_schedule @ open_stream [DvCompleted []] @
     [StepThread 1 (Timer False), StepThread 1 (Timer False), StepThread 1 (Proceed 2),
      StepThread 1 (Timer False), StepThread 1 (Timer False), StepThread 1 (Proceed 3),
      StepThread 1 (Timer False), StepThread 1 (Proceed 3), StepThread 1 (Timer False),
      StepThread 1 (Proceed 4), StepThread 1 (Timer False)] @
     replicate 4 (StepThread 1 (Proceed 5))"

fun is_done :: "'a prog \<Rightarrow> bool" where
  "is_done (Done a) = True"
| "is_done _ = False"

definition demo_run :: "sys_event list \<Rightarrow> mem_state system option" where
  "demo_run es = run_schedule demo_env mem_ops mem_allow es demo_start"

lemma demo_run_reach:
  "demo_run es = Some S \<Longrightarrow> reach demo_env mem_ops mem_allow demo_start (length es) S"
  by (simp add: demo_run_def run_schedule_reach)

lemma mem_new_good: "good_store mem_inv mem_view 0 mem_new"
  by (simp add: good_store_def mem_inv_new) (simp add: mem_view_def mem_new_def)

lemma complete_schedule_run:
  "case demo_run complete_schedule of
     None \<Rightarrow> False
   | Some S \<Rightarrow> list_all is_done (sys_threads S) \<and> w_active (sys_world S) = [] \<and>
       map_option (map_prod snap_state length) (mem_view (w_store (sys_world S)) 7) = Some (Completed, 2)"
  by code_simp

lemma complete_schedule_state:
  obtains S snap evs where "demo_run complete_schedule = Some S"
    "reach demo_env mem_ops mem_allow (system_init mem_new [(''x'', demo_agent)]) (length complete_schedule) S"
    "mem_view (w_store (sys_world S)) 7 = Some (snap, evs)" "snap_state snap = Completed"
    "length evs = 2" "list_all is_done (sys_threads S)"
proof -
  obtain S where S: "demo_run complete_schedule = Some S"
    using complete_schedule_run by (cases "demo_run complete_schedule") auto
  with complete_schedule_run show thesis
    using that demo_run_reach [OF S] by (auto simp: demo_start_def)
qed

lemma complete_schedule_short: "0 + length complete_schedule \<le> seq_limit"
  by (simp add: complete_schedule_def invoke_schedule_def open_stream_def seq_limit_def)

section \<open>Safety under every interleaving\<close>

text \<open>
  C1: no gaps and no duplicates. Whatever requests arrive, however their handlers and the
  workers interleave, whatever the drivers send, whichever timers fire and store calls fail:
  the log of every stored task carries the sequence numbers 1, 2, 3, ... in order, its length
  is the revision and the last sequence number of the snapshot, and every event belongs to
  the task. It holds for each backend that satisfies the store contract.
\<close>

theorem core_log_dense:
  assumes "guarded_store ops iv view keyed allow" "good_store iv view m s"
    and "reach ce ops allow (system_init s registry) n S" "m + n \<le> seq_limit"
    and "view (w_store (sys_world S)) t = Some (snap, evs)"
  shows "map ev_seq evs = [1..<Suc (length evs)] \<and> snap_last_seq snap = length evs \<and>
    snap_revision snap = length evs \<and> snap_task_id snap = t \<and> (\<forall>ev\<in>set evs. ev_task_id ev = t)"
  using guarded_store.reach_good_store [OF assms(1,3,2,4)] assms(5)
  by (auto simp: good_store_def dense_log_def)

theorem core_log_dense_witness:
  "\<exists>S snap evs. demo_run complete_schedule = Some S \<and>
     mem_view (w_store (sys_world S)) 7 = Some (snap, evs) \<and> map ev_seq evs = [1, 2]"
proof -
  obtain S snap evs where S: "demo_run complete_schedule = Some S"
    "reach demo_env mem_ops mem_allow (system_init mem_new [(''x'', demo_agent)]) (length complete_schedule) S"
    "mem_view (w_store (sys_world S)) 7 = Some (snap, evs)" "length evs = 2"
    using complete_schedule_state by metis
  have "map ev_seq evs = [1..<Suc (length evs)]"
    using core_log_dense [OF memg.guarded_store_axioms mem_new_good S(2) complete_schedule_short S(3)]
    by simp
  with S show ?thesis by (auto simp: upt_rec)
qed

text \<open>
  C2: a task ends once. In every reachable state the log of a task has a terminal event
  exactly when its state is terminal, and the terminal event is the last one; the end time
  is set exactly then.
\<close>

theorem core_log_closed:
  assumes "guarded_store ops iv view keyed allow" "good_store iv view m s"
    and "reach ce ops allow (system_init s registry) n S" "m + n \<le> seq_limit"
    and "view (w_store (sys_world S)) t = Some (snap, evs)"
  shows "(\<forall>ev\<in>set (butlast evs). \<not> is_terminal_kind (ev_kind ev)) \<and>
    (terminal (snap_state snap) \<longleftrightarrow> evs \<noteq> [] \<and> is_terminal_kind (ev_kind (last evs))) \<and>
    (terminal (snap_state snap) \<longleftrightarrow> snap_terminal_at snap \<noteq> None)"
  using guarded_store.reach_good_store [OF assms(1,3,2,4)] assms(5)
  by (auto simp: good_store_def closed_log_def)

theorem core_log_closed_witness:
  "\<exists>S snap evs. demo_run complete_schedule = Some S \<and>
     mem_view (w_store (sys_world S)) 7 = Some (snap, evs) \<and> is_terminal_kind (ev_kind (last evs))"
proof -
  obtain S snap evs where S: "demo_run complete_schedule = Some S"
    "reach demo_env mem_ops mem_allow (system_init mem_new [(''x'', demo_agent)]) (length complete_schedule) S"
    "mem_view (w_store (sys_world S)) 7 = Some (snap, evs)" "snap_state snap = Completed"
    using complete_schedule_state by metis
  have "is_terminal_kind (ev_kind (last evs))"
    using core_log_closed [OF memg.guarded_store_axioms mem_new_good S(2) complete_schedule_short S(3)] S(4)
    by simp
  with S show ?thesis by blast
qed



text \<open>
  C4: permits. Under every interleaving no semaphore hands out more permits than it was
  created with: not the pool or the queue of an agent, not the quota of a caller, not the
  global pool. And when every handler and every worker has finished, all permits are back.
\<close>

theorem core_permits_conserved:
  assumes "reach ce ops allow (system_init s registry) n S"
  shows "w_used (sys_world S) sem \<le> capacity sem \<and>
    (list_all is_done (sys_threads S) \<longrightarrow> w_used (sys_world S) sem = 0)"
proof -
  obtain Ps where ok: "list_all2 owns (sys_threads S) Ps" "w_used (sys_world S) = count (sum_list Ps)"
    "\<forall>s. w_used (sys_world S) s \<le> capacity s"
    using reach_permits [OF assms] by (auto simp: permits_ok_def)
  have "sum_list Ps = {#}" if "list_all is_done (sys_threads S)"
    using ok(1) that
    by (induction rule: list_all2_induct) (auto elim!: is_done.elims)
  with ok show ?thesis by auto
qed

theorem core_permits_conserved_witness:
  "\<exists>S. demo_run complete_schedule = Some S \<and> w_used (sys_world S) (global_permits demo_env) = 0"
proof -
  obtain S where S: "demo_run complete_schedule = Some S"
    "reach demo_env mem_ops mem_allow (system_init mem_new [(''x'', demo_agent)]) (length complete_schedule) S"
    "list_all is_done (sys_threads S)"
    using complete_schedule_state by metis
  with core_permits_conserved [OF S(2), of "global_permits demo_env"] show ?thesis by blast
qed

section \<open>A worker ends its task\<close>


definition demo_worker :: worker where
  "demo_worker = \<lparr>wk_agent = demo_agent, wk_task = 7, wk_request = demo_request,
     wk_caller_permit = caller_permits demo_env ''c'', wk_global_permit = global_permits demo_env,
     wk_agent_permit = ra_permits demo_agent\<rparr>"

definition demo_world :: "mem_state world" where
  "demo_world = \<lparr>w_store = demo_created, w_registry = [(''x'', demo_agent)], w_active = [],
     w_used = (\<lambda>_. 0), w_spawned = []\<rparr>"

definition demo_answers :: answers where
  "demo_answers = \<lparr>o_now = 9, o_id = 8, o_stream = Inr (DriverStream [DvProgress ''p'' None] False),
     o_reply = (\<lambda>_. Inr ())\<rparr>"

lemma demo_created_view: "mem_view demo_created 7 = Some (initial_snapshot 0 demo_task, [])"
  by (simp add: demo_defs mem_view_def)

lemma demo_world_good: "good_store mem_inv mem_view 0 (w_store demo_world)"
proof -
  have "mem_view demo_created t = Some e \<Longrightarrow> t = 7 \<and> e = (initial_snapshot 0 demo_task, [])" for t e
    using demo_created_view by (simp add: demo_defs mem_view_def split: if_splits)
  then show ?thesis
    using demo_created_inv dense_log_initial [of demo_task 0] closed_log_initial [of 0 demo_task]
    by (auto simp: good_store_def demo_world_def demo_task_def)
qed


section \<open>Schedules that go wrong\<close>

text \<open>The driver closes its stream without a terminal event. The worker reads the snapshot in
  order to fail the task; a client cancels the task; the worker's transition conflicts.\<close>

definition stuck_schedule :: "sys_event list" where
  "stuck_schedule = invoke_schedule @ open_stream [] @
     [StepThread 1 (Timer False), StepThread 1 (Timer False), StepThread 1 (Proceed 2),
      StepThread 1 (Timer False), StepThread 1 (Proceed 3),
      Arrive demo_caller (Cancel 7 None)] @ replicate 5 (StepThread 2 (Proceed 4)) @
     [StepThread 2 (DriverSays (Inr ()))] @ replicate 5 (StepThread 1 (Proceed 5))"

lemma stuck_schedule_run:
  "case demo_run stuck_schedule of
     None \<Rightarrow> False
   | Some S \<Rightarrow> list_all is_done (sys_threads S) \<and> w_active (sys_world S) = [] \<and>
       map_option (snap_state \<circ> fst) (mem_view (w_store (sys_world S)) 7) = Some CancelRequested"
  by code_simp


text \<open>A subscriber reads the history of the accepted task; the worker stores and broadcasts a
  progress event; then the subscriber opens its receiver.\<close>

definition missed_schedule :: "sys_event list" where
  "missed_schedule = invoke_schedule @ [ArriveSubscribe 7 0, StepThread 2 (Proceed 2)] @
     open_stream [DvProgress ''p'' None] @
     [StepThread 1 (Timer False), StepThread 1 (Timer False), StepThread 1 (Proceed 3),
      StepThread 1 (Timer False), StepThread 1 (Timer False), StepThread 1 (Proceed 3),
      StepThread 1 (Timer False), StepThread 1 (Proceed 3), StepThread 2 (Proceed 4)]"

fun subscription_of :: "outcome prog \<Rightarrow> task_subscription option" where
  "subscription_of (Done (Subscribed (Inr sub))) = Some sub"
| "subscription_of _ = None"

lemma missed_schedule_run:
  "case demo_run missed_schedule of
     None \<Rightarrow> False
   | Some S \<Rightarrow> length (sys_threads S) = 3 \<and>
       map_option (\<lambda>sub. (map ev_seq (ts_history sub), ts_receiver sub)) (subscription_of (sys_threads S ! 2)) =
         Some ([1], LiveReceiver 7 2) \<and>
       map_option (\<lambda>e. map ev_seq (snd e)) (mem_view (w_store (sys_world S)) 7) = Some [1, 2] \<and>
       map_option (map ev_seq \<circ> act_sent) (map_of (w_active (sys_world S)) 7) = Some [1, 2]"
  by code_simp

text \<open>
  C7: \<open>subscribe\<close> can miss an event. It reads the stored history before it opens the live
  receiver; an event that is stored and broadcast in between is in neither. A reachable
  state: the subscription holds event 1 only, its receiver starts after the two events
  already sent, and the log has events 1 and 2.
\<close>

theorem subscribe_misses_event:
  "\<exists>n S sub e a. reach demo_env mem_ops mem_allow demo_start n S \<and>
     subscription_of (sys_threads S ! 2) = Some sub \<and>
     map ev_seq (ts_history sub) = [1] \<and> ts_receiver sub = LiveReceiver 7 2 \<and>
     map_of (w_active (sys_world S)) 7 = Some a \<and> map ev_seq (act_sent a) = [1, 2] \<and>
     mem_view (w_store (sys_world S)) 7 = Some e \<and> map ev_seq (snd e) = [1, 2]"
proof -
  obtain S where S: "demo_run missed_schedule = Some S"
    using missed_schedule_run by (cases "demo_run missed_schedule") auto
  with missed_schedule_run have parts:
    "\<exists>sub. subscription_of (sys_threads S ! 2) = Some sub \<and> map ev_seq (ts_history sub) = [1] \<and>
       ts_receiver sub = LiveReceiver 7 2"
    "\<exists>a. map_of (w_active (sys_world S)) 7 = Some a \<and> map ev_seq (act_sent a) = [1, 2]"
    "\<exists>e. mem_view (w_store (sys_world S)) 7 = Some e \<and> map ev_seq (snd e) = [1, 2]"
    by (auto simp: map_eq_Cons_conv)
  show ?thesis
    using parts by (intro exI [of _ "length missed_schedule"] exI [of _ S])
      (auto simp: demo_run_reach [OF S] simp del: map_eq_Cons_conv)
qed

end
