(* ===== verification/Core_Commands.thy ===== *)
theory Core_Commands
  imports Core_Properties
begin

text \<open>
  What each command of the core does, branch by branch, when it runs alone on a well-formed
  store: the driver events against a table of the state machine, cancellation, input,
  invocation with its idempotency key and its limits. Every statement holds for each
  backend that satisfies the store contract.
\<close>

section \<open>Driver events\<close>

text \<open>The state machine the driver events follow: in a given state an event is ignored, moves
  the task and stores an event, or is refused.\<close>

datatype effect = Ignored | Moves task_state core_event_kind | Refused

fun driver_effect :: "task_state \<Rightarrow> driver_event \<Rightarrow> effect" where
  "driver_effect st DvAccepted = Ignored"
| "driver_effect st (DvProgress m p) =
     (if st \<in> {Accepted, Running} then Moves Running (EvProgress m p) else Refused)"
| "driver_effect st (DvArtifact a) =
     (if st \<in> {Accepted, Running, WaitingForInput} then Moves Running (EvArtifact a) else Refused)"
| "driver_effect st (DvInputRequired r) =
     (if st \<in> {Accepted, Running} then Moves WaitingForInput (EvInputRequired r) else Refused)"
| "driver_effect st (DvCompleted out) =
     (if st \<in> {Accepted, Running, WaitingForInput} then Moves Completed (EvCompleted out) else Refused)"
| "driver_effect st (DvFailed e) =
     (if terminal st then Ignored
      else Moves Failed (EvFailed \<lparr>pe_code = ''runtime_error'',
             pe_message = ''driver error: '' @ pe_message e, pe_retryable = False\<rparr>))"
| "driver_effect st DvCancelled =
     (if st \<in> {CancelRequested, Accepted, Running, WaitingForInput} then Moves Cancelled EvCancelled
      else Refused)"

definition performs ::
  "'s store_ops \<Rightarrow> ('s \<Rightarrow> task_id \<Rightarrow> entry option) \<Rightarrow> answers \<Rightarrow> (core_error + unit) prog \<Rightarrow> 's world \<Rightarrow>
     task_id \<Rightarrow> core_event list \<Rightarrow> effect \<Rightarrow> bool" where
  "performs ops view ora p w t evs eff \<longleftrightarrow>
     (\<forall>bs. case eff of
        Ignored \<Rightarrow> run p ops ora bs w = (Some (Inr ()), bs, w)
      | Moves nxt kind \<Rightarrow>
          (\<exists>w' snap'. run p ops ora bs w = (Some (Inr ()), bs, w') \<and> moved view w w' t evs snap' nxt kind)
      | Refused \<Rightarrow>
          (\<exists>msg. run p ops ora bs w = (Some (Inl (StoreError (InvalidTransition msg))), bs, w)))"

context guarded_store
begin

lemma performs_snapshot_then:
  assumes "good_store inv view n (w_store w)" "view (w_store w) t = Some (snap, evs)"
  shows "performs ops view ora (thenp (snapshot t) f) w t evs eff \<longleftrightarrow>
    performs ops view ora (f snap) w t evs eff"
  unfolding performs_def run_snapshot_then [OF assms] ..

lemma performs_transition:
  assumes "good_store inv view n (w_store w)" "n < seq_limit" "view (w_store w) t = Some (snap, evs)"
    and "\<forall>st\<in>set allowed. \<not> terminal st"
  shows "performs ops view ora (thenp (transition snap allowed nxt kind) (\<lambda>_. Done (Inr ()))) w t evs
    (if snap_state snap \<in> set allowed then Moves nxt kind else Refused)"
proof (cases "snap_state snap \<in> set allowed")
  case True
  have "\<exists>w' snap'. run (thenp (transition snap allowed nxt kind) (\<lambda>_. Done (Inr ()))) ops ora bs w =
      (Some (Inr ()), bs, w') \<and> moved view w w' t evs snap' nxt kind" for bs
    using run_transition_then [OF assms(1-3) True, of nxt kind "\<lambda>_. Done (Inr ())" ora bs] True assms(4)
    by auto
  with True show ?thesis by (auto simp: performs_def)
next
  case False
  with run_transition_then_invalid [OF assms(1,3) False] show ?thesis by (auto simp: performs_def)
qed

lemma performs_fail_active:
  assumes "good_store inv view n (w_store w)" "n < seq_limit" "view (w_store w) t = Some (snap, evs)"
  shows "performs ops view ora (fail_active ce t err) w t evs
    (if terminal (snap_state snap) then Ignored
     else Moves Failed (EvFailed \<lparr>pe_code = (if err = Timeout then ''timeout'' else ''runtime_error''),
            pe_message = display_core_error (ce_uuid_str ce) err, pe_retryable = False\<rparr>))"
proof (cases "terminal (snap_state snap)")
  case True
  then show ?thesis
    by (simp add: performs_def fail_active_def run_snapshot_then [OF assms(1,3)])
next
  case False
  let ?al = "[Created, Accepted, Running, WaitingForInput, CancelRequested]"
  have "snap_state snap \<in> set ?al" using False by (auto simp: not_terminal_iff)
  with False performs_transition [OF assms, of ?al ora Failed "EvFailed
      \<lparr>pe_code = (if err = Timeout then ''timeout'' else ''runtime_error''),
       pe_message = display_core_error (ce_uuid_str ce) err, pe_retryable = False\<rparr>"]
  show ?thesis by (simp add: performs_def fail_active_def run_snapshot_then [OF assms(1,3)])
qed

lemma performs_driver_event:
  assumes "good_store inv view n (w_store w)" "n < seq_limit" "view (w_store w) t = Some (snap, evs)"
  shows "performs ops view ora (apply_driver_event ce t ev) w t evs (driver_effect (snap_state snap) ev)"
proof -
  note tr = performs_transition [OF assms, of _ ora]
  note step = apply_driver_event.simps performs_snapshot_then [OF assms(1,3)]
  show ?thesis
  proof (cases ev)
    case DvAccepted
    then show ?thesis by (simp add: step) (simp add: performs_def)
  next
    case (DvProgress m p)
    then show ?thesis
      using tr [of "[Accepted, Running]" "if snap_state snap = Accepted then Running else snap_state snap"
          "EvProgress m p"] by (auto simp: step)
  next
    case (DvArtifact a)
    then show ?thesis
      using tr [of "[Accepted, Running, WaitingForInput]" Running "EvArtifact a"] by (simp add: step)
  next
    case (DvInputRequired r)
    then show ?thesis
      using tr [of "[Accepted, Running]" WaitingForInput "EvInputRequired r"] by (simp add: step)
  next
    case (DvCompleted out)
    then show ?thesis
      using tr [of "[Accepted, Running, WaitingForInput]" Completed "EvCompleted out"] by (simp add: step)
  next
    case (DvFailed e)
    then show ?thesis
      using performs_fail_active [OF assms, of ora ce "DriverError (pe_message e)"]
      by (cases "terminal (snap_state snap)") (simp_all add: step)
  next
    case DvCancelled
    then show ?thesis
      using tr [of "[CancelRequested, Accepted, Running, WaitingForInput]" Cancelled EvCancelled]
      by (simp add: step)
  qed
qed

end

text \<open>
  C8: the core's handling of driver events refines the state machine. In every state of a
  stored task and for every driver event, \<open>apply_driver_event\<close> ignores the event, makes
  exactly the transition of the table (stored and broadcast), or returns an
  \<open>InvalidTransition\<close> error and changes nothing, as the table says. A driver's own error
  code and its retry hint are lost on the way.
\<close>

theorem apply_driver_event_refines:
  assumes "guarded_store ops iv view keyed allow"
    and "good_store iv view n (w_store w)" "n < seq_limit" "view (w_store w) t = Some (snap, evs)"
  shows "performs ops view ora (apply_driver_event ce t ev) w t evs (driver_effect (snap_state snap) ev)"
  using assms by (rule guarded_store.performs_driver_event)

theorem apply_driver_event_refines_witness:
  "performs mem_ops mem_view demo_answers (apply_driver_event demo_env 7 (DvFailed \<lparr>pe_code = ''rate_limited'',
       pe_message = ''busy'', pe_retryable = True\<rparr>)) demo_world 7 []
     (Moves Failed (EvFailed \<lparr>pe_code = ''runtime_error'', pe_message = ''driver error: busy'',
        pe_retryable = False\<rparr>))"
  using apply_driver_event_refines [OF memg.guarded_store_axioms demo_world_good _,
      of 7 "initial_snapshot 0 demo_task" "[]" demo_answers demo_env
        "DvFailed \<lparr>pe_code = ''rate_limited'', pe_message = ''busy'', pe_retryable = True\<rparr>"]
  by (simp add: demo_world_def demo_created_view seq_limit_def)

section \<open>Cancellation and input\<close>

text \<open>
  C9: cancellation, on every branch. An unknown task is \<open>NotFound\<close>; a task that has ended
  is answered with its snapshot; a task of an unregistered agent is \<open>AgentNotFound\<close>; a
  task already being cancelled is refused as an invalid transition; in these cases nothing
  changes. Every other task moves to \<open>CancelRequested\<close> with the reason stored and
  broadcast, and its cancellation token is triggered, whatever the driver answers.
\<close>

theorem cancel_correct:
  assumes "guarded_store ops iv view keyed allow" "good_store iv view n (w_store w)" "n < seq_limit"
  shows "case view (w_store w) t of
      None \<Rightarrow> run (cancel t reason) ops ora bs w = (Some (Inl (StoreError (NotFound t))), bs, w)
    | Some (snap, evs) \<Rightarrow>
        if terminal (snap_state snap)
        then run (cancel t reason) ops ora bs w = (Some (Inr (DrCancelRequested snap)), bs, w)
        else case registry_get (w_registry w) (snap_agent_id snap) of
          None \<Rightarrow> run (cancel t reason) ops ora bs w = (Some (Inl (AgentNotFound (snap_agent_id snap))), bs, w)
        | Some agent \<Rightarrow>
            if snap_state snap = CancelRequested
            then \<exists>msg. run (cancel t reason) ops ora bs w =
                   (Some (Inl (StoreError (InvalidTransition msg))), bs, w)
            else \<exists>w' snap'. run (cancel t reason) ops ora bs w =
                   (Some (Inr (DrCancelRequested snap')), bs, perform (ActiveCancel t) w') \<and>
                   moved view w w' t evs snap' CancelRequested (EvCancelRequested reason)"
proof (cases "view (w_store w) t")
  case None
  then show ?thesis
    by (simp add: cancel_def guarded_store.run_snapshot_then_missing [OF assms(1,2)])
next
  case (Some e)
  obtain snap evs where e: "e = (snap, evs)" by fastforce
  note view = Some [unfolded e]
  note snap = guarded_store.run_snapshot_then [OF assms(1,2) view]
  let ?al = "[Created, Accepted, Running, WaitingForInput]"
  show ?thesis
  proof (cases "terminal (snap_state snap) \<or> registry_get (w_registry w) (snap_agent_id snap) = None")
    case True
    then show ?thesis by (auto simp: view cancel_def snap split: option.split)
  next
    case False
    then obtain agent where agent: "registry_get (w_registry w) (snap_agent_id snap) = Some agent"
      and live: "\<not> terminal (snap_state snap)" by auto
    show ?thesis
    proof (cases "snap_state snap = CancelRequested")
      case True
      then show ?thesis
        using guarded_store.run_transition_then_invalid [OF assms(1,2) view, of ?al] agent live
        by (simp add: view cancel_def snap)
    next
      case False
      with live have "snap_state snap \<in> set ?al" by (auto simp: not_terminal_iff)
      let ?k = "\<lambda>changed. Act (ActiveCancel t)
          (if cap_cancellation (ra_capabilities agent)
           then DriverCall (CallCancel agent t) (\<lambda>_. Done (Inr (DrCancelRequested changed)))
           else Done (Inr (DrCancelRequested changed)))"
      from guarded_store.run_transition_then [OF assms(1,2,3) view \<open>snap_state snap \<in> set ?al\<close> live,
          of CancelRequested "EvCancelRequested reason" ?k ora bs]
      obtain w' snap' where moved: "moved view w w' t evs snap' CancelRequested (EvCancelRequested reason)"
        and "run (thenp (transition snap ?al CancelRequested (EvCancelRequested reason)) ?k) ops ora bs w =
          run (?k snap') ops ora bs w'" by blast
      then have "run (cancel t reason) ops ora bs w =
          (Some (Inr (DrCancelRequested snap')), bs, perform (ActiveCancel t) w')"
        by (simp add: cancel_def snap agent live)
      with moved agent live False show ?thesis by (simp add: view) blast
    qed
  qed
qed

theorem cancel_correct_witness:
  "\<exists>w' snap'. run (cancel 7 None) mem_ops demo_answers []
       (demo_world\<lparr>w_registry := [(''a'', demo_agent)]\<rparr>) =
     (Some (Inr (DrCancelRequested snap')), [], perform (ActiveCancel 7) w') \<and>
     snap_state snap' = CancelRequested"
proof -
  have "good_store mem_inv mem_view 0 (w_store (demo_world\<lparr>w_registry := [(''a'', demo_agent)]\<rparr>))"
    using demo_world_good by simp
  from cancel_correct [OF memg.guarded_store_axioms this, of 7 None demo_answers "[]"]
  show ?thesis
    by (auto simp: demo_world_def demo_created_view seq_limit_def registry_get_def demo_task_def moved_def)
qed

text \<open>
  Input. It is accepted exactly when the task waits for input, its agent is registered
  and supports input, and the driver takes it; then the task runs again and the event
  \<open>input accepted\<close> is stored and broadcast. On every other branch the matching error is
  returned and nothing changes.
\<close>

theorem provide_input_correct:
  assumes "guarded_store ops iv view keyed allow" "good_store iv view n (w_store w)" "n < seq_limit"
  shows "case view (w_store w) t of
      None \<Rightarrow> run (provide_input t input) ops ora bs w = (Some (Inl (StoreError (NotFound t))), bs, w)
    | Some (snap, evs) \<Rightarrow>
        if snap_state snap \<noteq> WaitingForInput
        then run (provide_input t input) ops ora bs w =
               (Some (Inl (InvalidRequest ''task is not waiting for input'')), bs, w)
        else case registry_get (w_registry w) (snap_agent_id snap) of
          None \<Rightarrow> run (provide_input t input) ops ora bs w =
                    (Some (Inl (AgentNotFound (snap_agent_id snap))), bs, w)
        | Some agent \<Rightarrow>
            if \<not> cap_provide_input (ra_capabilities agent)
            then run (provide_input t input) ops ora bs w =
                   (Some (Inl (InvalidRequest ''agent does not support input'')), bs, w)
            else case o_reply ora (CallProvideInput agent t input) of
              Inl err \<Rightarrow> run (provide_input t input) ops ora bs w = (Some (Inl err), bs, w)
            | Inr u \<Rightarrow>
                \<exists>w' snap'. run (provide_input t input) ops ora bs w =
                   (Some (Inr (DrInputAccepted snap')), bs, w') \<and>
                   moved view w w' t evs snap' Running (EvProgress ''input accepted'' None)"
proof (cases "view (w_store w) t")
  case None
  then show ?thesis
    by (simp add: provide_input_def guarded_store.run_snapshot_then_missing [OF assms(1,2)])
next
  case (Some e)
  obtain snap evs where e: "e = (snap, evs)" by fastforce
  note view = Some [unfolded e]
  note snap = guarded_store.run_snapshot_then [OF assms(1,2) view]
  show ?thesis
  proof (cases "snap_state snap = WaitingForInput")
    case False
    then show ?thesis by (simp add: view provide_input_def snap)
  next
    case True
    then have "snap_state snap \<in> set [WaitingForInput]" "\<not> terminal (snap_state snap)" by auto
    from guarded_store.run_transition_then [OF assms(1,2,3) view this, of Running
        "EvProgress ''input accepted'' None" "\<lambda>changed. Done (Inr (DrInputAccepted changed))" ora bs]
    obtain w' snap' where ok: "run (thenp (transition snap [WaitingForInput] Running
          (EvProgress ''input accepted'' None)) (\<lambda>changed. Done (Inr (DrInputAccepted changed)))) ops ora bs w =
        (Some (Inr (DrInputAccepted snap')), bs, w')"
      "moved view w w' t evs snap' Running (EvProgress ''input accepted'' None)" by auto
    show ?thesis
    proof (cases "registry_get (w_registry w) (snap_agent_id snap)")
      case None
      with True show ?thesis by (simp add: view provide_input_def snap)
    next
      case (Some agent)
      have "o_reply ora (CallProvideInput agent t input) = Inr u \<Longrightarrow> cap_provide_input (ra_capabilities agent) \<Longrightarrow>
          run (provide_input t input) ops ora bs w = (Some (Inr (DrInputAccepted snap')), bs, w')" for u
        by (simp add: provide_input_def snap True Some ok(1))
      with True Some ok(2) show ?thesis
        by (cases "o_reply ora (CallProvideInput agent t input)")
          (auto simp: view provide_input_def snap)
    qed
  qed
qed

theorem provide_input_correct_witness:
  "run (provide_input 7 []) mem_ops demo_answers [] demo_world =
     (Some (Inl (InvalidRequest ''task is not waiting for input'')), [], demo_world)"
  using provide_input_correct [OF memg.guarded_store_axioms demo_world_good, of 7 "[]" demo_answers "[]"]
  by (simp add: demo_world_def demo_created_view seq_limit_def)

section \<open>Invocation\<close>

definition available :: "'s world \<Rightarrow> semaphore \<Rightarrow> bool" where
  "available w s \<longleftrightarrow> w_used w s < capacity s"

text \<open>The four semaphores of an invocation, in the order in which they are tried.\<close>

definition limits_of :: "core_env \<Rightarrow> registered_agent \<Rightarrow> caller \<Rightarrow> semaphore list" where
  "limits_of ce agent caller =
     [ra_queue_permits agent, caller_permits ce (caller_id_of caller), global_permits ce, ra_permits agent]"

definition worker_of ::
  "core_env \<Rightarrow> registered_agent \<Rightarrow> caller \<Rightarrow> task_id \<Rightarrow> invoke_request \<Rightarrow> worker" where
  "worker_of ce agent caller t request =
     \<lparr>wk_agent = agent, wk_task = t, wk_request = request,
      wk_caller_permit = caller_permits ce (caller_id_of caller),
      wk_global_permit = global_permits ce, wk_agent_permit = ra_permits agent\<rparr>"

lemma try_acquire_simps:
  "available w s \<Longrightarrow> try_acquire s w = (True, w\<lparr>w_used := (w_used w)(s := w_used w s + 1)\<rparr>)"
  "\<not> available w s \<Longrightarrow> try_acquire s w = (False, w)"
  by (simp_all add: try_acquire_def available_def)

text \<open>With all four limits free, the worker is spawned with its three permits and the queue
  permit is returned.\<close>

lemma run_admit_ok:
  assumes "\<forall>s\<in>set (limits_of ce agent caller). available w s" "distinct (limits_of ce agent caller)"
  shows "\<exists>w'. run (admit ce agent caller t rq accepted) ops ora bs w = (Some (Inr (DrCreated accepted)), bs, w') \<and>
    w_store w' = w_store w \<and> w_active w' = w_active w \<and>
    w_spawned w' = w_spawned w @ [worker_of ce agent caller t rq] \<and>
    (\<forall>s. w_used w' s = w_used w s + count (worker_permits (worker_of ce agent caller t rq)) s)"
proof -
  let ?q = "ra_queue_permits agent" and ?c = "caller_permits ce (caller_id_of caller)"
    and ?g = "global_permits ce" and ?a = "ra_permits agent"
  have dist: "?q \<noteq> ?c" "?q \<noteq> ?g" "?q \<noteq> ?a" "?c \<noteq> ?g" "?c \<noteq> ?a" "?g \<noteq> ?a"
    "?c \<noteq> ?q" "?g \<noteq> ?q" "?a \<noteq> ?q" "?g \<noteq> ?c" "?a \<noteq> ?c" "?a \<noteq> ?g"
    using assms(2) by (auto simp: limits_of_def)
  have free: "w_used w ?q < capacity ?q" "w_used w ?c < capacity ?c" "w_used w ?g < capacity ?g"
    "w_used w ?a < capacity ?a"
    using assms(1) by (auto simp: limits_of_def available_def)
  let ?w = "perform (Spawn (worker_of ce agent caller t rq)) (perform (Release ?q)
      (snd (try_acquire ?a (snd (try_acquire ?g (snd (try_acquire ?c (snd (try_acquire ?q w)))))))))"
  have "run (admit ce agent caller t rq accepted) ops ora bs w = (Some (Inr (DrCreated accepted)), bs, ?w)"
    by (simp add: admit_def Let_def try_acquire_def dist free worker_of_def)
  moreover have "w_store ?w = w_store w" "w_active ?w = w_active w"
    "w_spawned ?w = w_spawned w @ [worker_of ce agent caller t rq]"
    by (simp_all add: try_acquire_def)
  moreover have "w_used ?w s = w_used w s + count (worker_permits (worker_of ce agent caller t rq)) s" for s
    by (simp add: try_acquire_def dist free worker_of_def worker_permits_def)
  ultimately show ?thesis by blast
qed

text \<open>With one of them exhausted, the permits already taken are returned and the task is
  failed.\<close>

lemma run_admit_reject:
  assumes "\<exists>s\<in>set (limits_of ce agent caller). \<not> available w s" "distinct (limits_of ce agent caller)"
  shows "\<exists>m m'. run (admit ce agent caller t rq accepted) ops ora bs w = run (reject ce t m m') ops ora bs w"
proof -
  let ?q = "ra_queue_permits agent" and ?c = "caller_permits ce (caller_id_of caller)"
    and ?g = "global_permits ce" and ?a = "ra_permits agent"
  consider "\<not> available w ?q" | "available w ?q" "\<not> available w ?c"
    | "available w ?q" "available w ?c" "\<not> available w ?g"
    | "available w ?q" "available w ?c" "available w ?g" "\<not> available w ?a"
    using assms(1) by (auto simp: limits_of_def)
  then show ?thesis
  proof cases
    case 1
    then show ?thesis by (auto simp: admit_def Let_def try_acquire_simps)
  next
    case 2
    then show ?thesis
      using assms(2) by (auto simp: admit_def Let_def limits_of_def try_acquire_def available_def fun_upd_twist)
  next
    case 3
    then show ?thesis
      using assms(2) by (auto simp: admit_def Let_def limits_of_def try_acquire_def available_def fun_upd_twist)
  next
    case 4
    then show ?thesis
      using assms(2) by (auto simp: admit_def Let_def limits_of_def try_acquire_def available_def fun_upd_twist)
  qed
qed

definition new_task_of ::
  "registered_agent \<Rightarrow> caller \<Rightarrow> task_id \<Rightarrow> time option \<Rightarrow> invoke_request \<Rightarrow> new_task" where
  "new_task_of agent caller t deadline_at request =
     \<lparr>nt_task_id = t, nt_session_id = rq_session_id request, nt_agent_id = ra_id agent,
      nt_caller_id = caller_id_of caller, nt_idempotency_key = rq_idempotency_key request,
      nt_deadline_at = deadline_at\<rparr>"

lemma perform_insert_frame [simp]:
  "w_registry (perform (ActiveInsert t) w) = w_registry w" "w_used (perform (ActiveInsert t) w) = w_used w"
  "w_spawned (perform (ActiveInsert t) w) = w_spawned w"
  by simp_all

text \<open>The task id of an invocation, and the deadline it stores.\<close>

definition invoked_id :: "answers \<Rightarrow> invoke_request \<Rightarrow> task_id" where
  "invoked_id ora request = (case rq_task_id request of Some t \<Rightarrow> t | None \<Rightarrow> o_id ora)"

lemma run_invoke_start:
  assumes "\<not> blank (rq_idempotency_key rq)" "registry_resolve (w_registry w) rq = Inr agent"
  shows "\<exists>d. run (invoke ce caller rq) ops ora bs w =
    run (start_task ce agent caller (invoked_id ora rq) d rq) ops ora bs w"
  using assms
  by (auto simp: invoke_def new_or_given_id_def deadline_of_def invoked_id_def split: option.split sum.split)

context guarded_store
begin

lemma run_start_existing:
  assumes "inv (w_store w)" "keyed (w_store w) (caller_id_of caller, rq_idempotency_key rq) = Some t'"
  shows "\<exists>snap evs. view (w_store w) t' = Some (snap, evs) \<and>
    run (start_task ce agent caller t d rq) ops ora bs w = (Some (Inr (DrExisting snap)), bs, w)"
  using create_existing [OF assms(1), of "new_task_of agent caller t d rq" t' "o_now ora"] assms(2)
  by (auto simp: start_task_def new_task_of_def)

text \<open>A fresh task reaches the admission with the accepted event stored and broadcast.\<close>

lemma run_start_fresh:
  assumes good: "good_store inv view n (w_store w)" and n: "n < seq_limit"
    and key: "keyed (w_store w) (caller_id_of caller, rq_idempotency_key rq) = None"
    and new: "view (w_store w) t = None"
  shows "\<exists>w' snap' ev. run (start_task ce agent caller t d rq) ops ora bs w =
      run (admit ce agent caller t rq snap') ops ora bs w' \<and>
    snap_state snap' = Accepted \<and> ev_kind ev = EvAccepted False \<and> ev_seq ev = 1 \<and>
    good_store inv view (Suc n) (w_store w') \<and> view (w_store w') = (view (w_store w))(t \<mapsto> (snap', [ev])) \<and>
    keyed (w_store w') = (keyed (w_store w))((caller_id_of caller, rq_idempotency_key rq) \<mapsto> t) \<and>
    map_of (w_active w') t = Some \<lparr>act_sent = [ev], act_cancelled = False\<rparr> \<and>
    w_used w' = w_used w \<and> w_spawned w' = w_spawned w"
proof -
  let ?nt = "new_task_of agent caller t d rq" and ?now = "o_now ora"
  have inv: "inv (w_store w)" using good by (simp add: good_store_def)
  obtain s1 where s1: "op_create ops ?now ?nt (w_store w) = (Inr (CtCreated (initial_snapshot ?now ?nt)), s1)"
    "inv s1" "view s1 = (view (w_store w))(t \<mapsto> (initial_snapshot ?now ?nt, []))"
    "keyed s1 = (keyed (w_store w))((caller_id_of caller, rq_idempotency_key rq) \<mapsto> t)"
    using create_fresh [OF inv, of ?nt ?now] key new by (auto simp: new_task_of_def)
  let ?w1 = "perform (ActiveInsert t) (w\<lparr>w_store := s1\<rparr>)"
  let ?al = "[Created]"
  have good1: "good_store inv view n (w_store ?w1)"
    using good_store_put [OF good s1(2,3), of n] dense_log_initial [of ?nt] closed_log_initial
    by (simp add: new_task_of_def)
  have view1: "view (w_store ?w1) t = Some (initial_snapshot ?now ?nt, [])" by (simp add: s1(3))
  obtain w' snap' where w': "run (thenp (transition (initial_snapshot ?now ?nt) ?al Accepted (EvAccepted False))
        (admit ce agent caller t rq)) ops ora bs ?w1 = run (admit ce agent caller t rq snap') ops ora bs w'"
    "moved view ?w1 w' t [] snap' Accepted (EvAccepted False)" "inv (w_store w')"
    "keyed (w_store w') = keyed (w_store ?w1)"
    "good_store inv view (Suc n) (w_store w')"
    using run_transition_then [OF good1 n view1, of ?al Accepted "EvAccepted False" "admit ce agent caller t rq" ora bs]
    by (auto simp: core_transition_def transition_of_def)
  from w'(2) obtain ev where ev: "ev_kind ev = EvAccepted False" "ev_seq ev = 1"
    "view (w_store w') = (view (w_store w))(t \<mapsto> (snap', [ev]))"
    "map_of (w_active w') t = Some \<lparr>act_sent = [ev], act_cancelled = False\<rparr>" "snap_state snap' = Accepted"
    "w_used w' = w_used w" "w_spawned w' = w_spawned w"
    by (auto simp: moved_def s1(3) update_conv')
  have "run (start_task ce agent caller t d rq) ops ora bs w = run (admit ce agent caller t rq snap') ops ora bs w'"
    using s1(1) w'(1) by (simp add: start_task_def new_task_of_def)
  with s1(4) w'(4,5) ev show ?thesis
    by (intro exI [of _ w'] exI [of _ snap'] exI [of _ ev]) simp
qed

end

text \<open>
  C10: invocations are idempotent. When the caller has used the key before, the answer is the
  snapshot of the task of that key, and nothing changes: no second task, no event, no permit,
  no worker, whatever task id or input the request carries.
\<close>

theorem invoke_idempotent:
  assumes "guarded_store ops iv view keyed allow" "iv (w_store w)"
    and "\<not> blank (rq_idempotency_key rq)" "registry_resolve (w_registry w) rq = Inr agent"
    and "keyed (w_store w) (caller_id_of caller, rq_idempotency_key rq) = Some t'"
  shows "\<exists>snap evs. view (w_store w) t' = Some (snap, evs) \<and>
    run (invoke ce caller rq) ops ora bs w = (Some (Inr (DrExisting snap)), bs, w)"
proof -
  obtain d where "run (invoke ce caller rq) ops ora bs w =
      run (start_task ce agent caller (invoked_id ora rq) d rq) ops ora bs w"
    using run_invoke_start [OF assms(3,4)] by blast
  with guarded_store.run_start_existing [OF assms(1,2,5)] show ?thesis by simp
qed

lemma demo_request_key: "\<not> blank (rq_idempotency_key demo_request)"
  by code_simp

lemma demo_resolve: "registry_resolve [(''x'', demo_agent)] demo_request = Inr demo_agent"
  by (simp add: registry_resolve_def demo_request_def)

lemma demo_created_keyed: "mem_keyed demo_created (''c'', ''k'') = Some 7"
  by (simp add: demo_defs mem_keyed_def)

theorem invoke_idempotent_witness:
  "\<exists>snap evs. mem_view demo_created 7 = Some (snap, evs) \<and>
     run (invoke demo_env demo_caller demo_request) mem_ops demo_answers [] demo_world =
       (Some (Inr (DrExisting snap)), [], demo_world)"
  using invoke_idempotent [OF memg.guarded_store_axioms _ demo_request_key, of demo_world demo_agent demo_caller 7
      demo_env demo_answers "[]"] demo_resolve demo_created_inv demo_created_keyed
  by (simp add: demo_world_def demo_caller_def demo_request_def)

text \<open>
  C11: a fresh invocation. The task is created and accepted (one event, number 1, stored and
  broadcast) and its key is bound. If the queue of the agent, the quota of the caller, the
  global pool and the pool of the agent all have a permit left, a worker is spawned that
  holds one permit of the last three, and the answer is the accepted snapshot. If one of
  them is exhausted, the answer is \<open>ResourceExhausted\<close>, the task ends as \<open>Failed\<close>, every
  permit is as before and no worker is spawned; but the entry of the task in the table of
  active tasks stays, and no worker is there to remove it.
\<close>

theorem invoke_fresh:
  assumes "guarded_store ops iv view keyed allow" "good_store iv view n (w_store w)" "Suc n < seq_limit"
    and "\<not> blank (rq_idempotency_key rq)" "registry_resolve (w_registry w) rq = Inr agent"
    and "keyed (w_store w) (caller_id_of caller, rq_idempotency_key rq) = None"
    and "view (w_store w) (invoked_id ora rq) = None" "distinct (limits_of ce agent caller)"
  shows "if \<forall>s\<in>set (limits_of ce agent caller). available w s
    then \<exists>w' snap ev. run (invoke ce caller rq) ops ora bs w = (Some (Inr (DrCreated snap)), bs, w') \<and>
      snap_state snap = Accepted \<and> ev_kind ev = EvAccepted False \<and> ev_seq ev = 1 \<and>
      view (w_store w') = (view (w_store w))(invoked_id ora rq \<mapsto> (snap, [ev])) \<and>
      keyed (w_store w') = (keyed (w_store w))((caller_id_of caller, rq_idempotency_key rq) \<mapsto> invoked_id ora rq) \<and>
      map_of (w_active w') (invoked_id ora rq) = Some \<lparr>act_sent = [ev], act_cancelled = False\<rparr> \<and>
      w_spawned w' = w_spawned w @ [worker_of ce agent caller (invoked_id ora rq) rq] \<and>
      (\<forall>s. w_used w' s = w_used w s +
         count (worker_permits (worker_of ce agent caller (invoked_id ora rq) rq)) s)
    else \<exists>w' m snap evs. run (invoke ce caller rq) ops ora bs w = (Some (Inl (ResourceExhausted m)), bs, w') \<and>
      view (w_store w') (invoked_id ora rq) = Some (snap, evs) \<and> snap_state snap = Failed \<and>
      map_of (w_active w') (invoked_id ora rq) \<noteq> None \<and>
      w_spawned w' = w_spawned w \<and> w_used w' = w_used w"
proof -
  let ?t = "invoked_id ora rq"
  obtain d where start: "run (invoke ce caller rq) ops ora bs w =
      run (start_task ce agent caller ?t d rq) ops ora bs w"
    using run_invoke_start [OF assms(4,5)] by blast
  have "n < seq_limit" using assms(3) by simp
  then obtain w1 snap ev where w1: "run (start_task ce agent caller ?t d rq) ops ora bs w =
      run (admit ce agent caller ?t rq snap) ops ora bs w1"
    "snap_state snap = Accepted" "ev_kind ev = EvAccepted False" "ev_seq ev = 1"
    "good_store iv view (Suc n) (w_store w1)" "view (w_store w1) = (view (w_store w))(?t \<mapsto> (snap, [ev]))"
    "keyed (w_store w1) = (keyed (w_store w))((caller_id_of caller, rq_idempotency_key rq) \<mapsto> ?t)"
    "map_of (w_active w1) ?t = Some \<lparr>act_sent = [ev], act_cancelled = False\<rparr>"
    "w_used w1 = w_used w" "w_spawned w1 = w_spawned w"
    using guarded_store.run_start_fresh [OF assms(1,2) _ assms(6,7)] by blast
  have avail: "available w1 s \<longleftrightarrow> available w s" for s by (simp add: available_def w1(9))
  show ?thesis
  proof (cases "\<forall>s\<in>set (limits_of ce agent caller). available w s")
    case True
    then have "\<forall>s\<in>set (limits_of ce agent caller). available w1 s" by (simp add: avail)
    from run_admit_ok [OF this assms(8), of ?t rq snap ops ora bs] obtain w' where
      "run (admit ce agent caller ?t rq snap) ops ora bs w1 = (Some (Inr (DrCreated snap)), bs, w')"
      "w_store w' = w_store w1" "w_active w' = w_active w1"
      "w_spawned w' = w_spawned w1 @ [worker_of ce agent caller ?t rq]"
      "\<forall>s. w_used w' s = w_used w1 s + count (worker_permits (worker_of ce agent caller ?t rq)) s" by blast
    with w1 start show ?thesis
      unfolding if_P [OF True] by (intro exI [of _ w'] exI [of _ snap] exI [of _ ev]) simp
  next
    case False
    then have "\<exists>s\<in>set (limits_of ce agent caller). \<not> available w1 s" by (simp add: avail)
    from run_admit_reject [OF this assms(8), of ?t rq snap ops ora bs] obtain m m' where rej:
      "run (admit ce agent caller ?t rq snap) ops ora bs w1 = run (reject ce ?t m m') ops ora bs w1" by blast
    have view1: "view (w_store w1) ?t = Some (snap, [ev])" by (simp add: w1(6))
    from guarded_store.performs_fail_active [OF assms(1) w1(5) assms(3) view1, of ora ce "ResourceExhausted m"] w1(2)
    have "\<exists>w' snap' kind. run (fail_active ce ?t (ResourceExhausted m)) ops ora bs w1 = (Some (Inr ()), bs, w') \<and>
        moved view w1 w' ?t [ev] snap' Failed kind"
      by (simp add: performs_def) blast
    then obtain w' snap' kind where w': "run (fail_active ce ?t (ResourceExhausted m)) ops ora bs w1 = (Some (Inr ()), bs, w')"
      "moved view w1 w' ?t [ev] snap' Failed kind" by blast
    then have run: "run (invoke ce caller rq) ops ora bs w = (Some (Inl (ResourceExhausted m')), bs, w')"
      by (simp add: start w1(1) rej reject_def thenp_def run_bindp)
    from w'(2) obtain evs' where "view (w_store w') ?t = Some (snap', evs')" "snap_state snap' = Failed"
      "map_of (w_active w') ?t \<noteq> None" "w_spawned w' = w_spawned w" "w_used w' = w_used w"
      using w1(8-10) by (auto simp: moved_def update_conv')
    with run show ?thesis unfolding if_not_P [OF False] by blast
  qed
qed

theorem invoke_fresh_witness:
  "\<exists>w' m snap evs. run (invoke demo_env demo_caller demo_request) mem_ops demo_answers []
       (sys_world demo_start\<lparr>w_used := (\<lambda>s. if s = caller_permits demo_env ''c'' then 1 else 0)\<rparr>) =
       (Some (Inl (ResourceExhausted m)), [], w') \<and>
     mem_view (w_store w') 7 = Some (snap, evs) \<and> snap_state snap = Failed \<and> map_of (w_active w') 7 \<noteq> None"
proof -
  let ?w = "sys_world demo_start\<lparr>w_used := (\<lambda>s. if s = caller_permits demo_env ''c'' then 1 else 0)\<rparr>"
  have new: "mem_view mem_new t = None" "mem_keyed mem_new k = None" for t k
    by (simp_all add: mem_view_def mem_new_def mem_keyed_def)
  have store: "w_store ?w = mem_new" "w_registry ?w = [(''x'', demo_agent)]"
    by (simp_all add: demo_start_def system_init_def)
  have lims: "distinct (limits_of demo_env demo_agent demo_caller)"
    by (simp add: limits_of_def demo_agent_def registered_agent_new_def caller_permits_def global_permits_def)
  have busy: "\<not> (\<forall>s\<in>set (limits_of demo_env demo_agent demo_caller). available ?w s)"
    by (simp add: limits_of_def available_def demo_caller_def caller_permits_def demo_env_def core_new_def
        default_caller_max_concurrent_def)
  have "mem_view (w_store ?w) (invoked_id demo_answers demo_request) = None"
    "mem_keyed (w_store ?w) (caller_id_of demo_caller, rq_idempotency_key demo_request) = None"
    "good_store mem_inv mem_view 0 (w_store ?w)" "registry_resolve (w_registry ?w) demo_request = Inr demo_agent"
    "Suc 0 < seq_limit"
    using new mem_new_good demo_resolve by (simp_all add: store seq_limit_def)
  from invoke_fresh [OF memg.guarded_store_axioms this(3,5) demo_request_key this(4,2,1) lims, of "[]",
      unfolded if_not_P [OF busy]]
  have "\<exists>w' m snap evs. run (invoke demo_env demo_caller demo_request) mem_ops demo_answers [] ?w =
       (Some (Inl (ResourceExhausted m)), [], w') \<and>
     mem_view (w_store w') (invoked_id demo_answers demo_request) = Some (snap, evs) \<and> snap_state snap = Failed \<and>
     map_of (w_active w') (invoked_id demo_answers demo_request) \<noteq> None"
    by blast
  then show ?thesis by (simp add: invoked_id_def demo_request_def)
qed

end
