(* ===== verification/Sqlite_Store.thy ===== *)
theory Sqlite_Store
  imports Core_Commands "HOL-Library.Char_ord" "HOL-Library.List_Lexorder"
begin

text \<open>
  The crate \<open>sqlite-task-store-adapter\<close>. The database is a record of tables, a table is the
  list of its rows in scan order, and each SQL statement of the source is a function on the
  tables: primary keys and unique constraints make an insertion fail, foreign keys cascade.
  Columns have the types of the schema, so identifiers and times are text; how they print
  and parse, and the text of a JSON document, are foreign (the crates \<open>uuid\<close>,
  \<open>chrono\<close> and \<open>serde_json\<close>) and come in as a record \<open>codec\<close>; what the code relies
  on is \<open>codec_ok\<close> (values survive the round trip) and \<open>codec_ordered\<close> (the text of
  times sorts as the times do). A statement can fail at any time: \<open>fl i\<close> is the error of
  the \<open>i\<close>-th statement of an operation, if it fails.
\<close>

section \<open>Tables\<close>

record task_row =
  tk_task_id :: string
  tk_session_id :: "string option"
  tk_agent_id :: string
  tk_caller_id :: string
  tk_idempotency_key :: string
  tk_state :: string
  tk_revision :: int
  tk_last_seq :: int
  tk_deadline_at :: "string option"
  tk_created_at :: string
  tk_updated_at :: string
  tk_terminal_at :: "string option"

text \<open>The type \<open>'x\<close> is the text of a JSON document, which no statement looks into.\<close>

record 'x event_row =
  er_task_id :: string
  er_seq :: int
  er_event_kind_json :: 'x
  er_created_at :: string

record lease_row =
  ls_task_id :: string
  ls_owner_id :: string
  ls_expires_at :: string
  ls_updated_at :: string

record 'x db =
  db_tasks :: "task_row list"
  db_events :: "'x event_row list"
  db_leases :: "lease_row list"

record 'x codec =
  cd_uuid :: "uuid \<Rightarrow> string"
  cd_parse_uuid :: "string \<Rightarrow> string + uuid"
  cd_time :: "time \<Rightarrow> string"
  cd_parse_time :: "string \<Rightarrow> string + time"
  cd_kind :: "core_event_kind \<Rightarrow> string + 'x"
  cd_parse_kind :: "'x \<Rightarrow> string + core_event_kind"
  cd_constraint :: string
  cd_row_not_found :: string

definition codec_ok :: "'x codec \<Rightarrow> bool" where
  "codec_ok cd \<longleftrightarrow>
     (\<forall>u. cd_parse_uuid cd (cd_uuid cd u) = Inr u) \<and>
     (\<forall>t. cd_parse_time cd (cd_time cd t) = Inr t) \<and>
     (\<forall>k. \<exists>x. cd_kind cd k = Inr x \<and> cd_parse_kind cd x = Inr k)"

definition codec_ordered :: "'x codec \<Rightarrow> bool" where
  "codec_ordered cd \<longleftrightarrow> (\<forall>a b. cd_time cd a < cd_time cd b \<longleftrightarrow> a < b)"

definition empty_db :: "'x db" where
  "empty_db = \<lparr>db_tasks = [], db_events = [], db_leases = []\<rparr>"

section \<open>Rows and values\<close>

definition db_error :: "string \<Rightarrow> store_error" where
  "db_error e = Unavailable e"

definition parse_time :: "'x codec \<Rightarrow> string \<Rightarrow> store_error + time" where
  "parse_time cd v = map_err (\<lambda>e. Corrupt (''time: '' @ e)) (cd_parse_time cd v)"

fun state_db :: "task_state \<Rightarrow> string" where
  "state_db Created = ''created''"
| "state_db Accepted = ''accepted''"
| "state_db Running = ''running''"
| "state_db WaitingForInput = ''waiting_for_input''"
| "state_db CancelRequested = ''cancel_requested''"
| "state_db Completed = ''completed''"
| "state_db Failed = ''failed''"
| "state_db Cancelled = ''cancelled''"

definition state_of_db :: "string \<Rightarrow> store_error + task_state" where
  "state_of_db v =
     (if v = ''created'' then Inr Created
      else if v = ''accepted'' then Inr Accepted
      else if v = ''running'' then Inr Running
      else if v = ''waiting_for_input'' then Inr WaitingForInput
      else if v = ''cancel_requested'' then Inr CancelRequested
      else if v = ''completed'' then Inr Completed
      else if v = ''failed'' then Inr Failed
      else if v = ''cancelled'' then Inr Cancelled
      else Inl (Corrupt (''state='' @ v)))"

definition row_snapshot :: "'x codec \<Rightarrow> task_row \<Rightarrow> store_error + task_snapshot" where
  "row_snapshot cd row =
     rbind (map_err (\<lambda>e. Corrupt (''id:'' @ e)) (cd_parse_uuid cd (tk_task_id row))) (\<lambda>task_id.
     rbind (transpose_opt (\<lambda>v. map_err (\<lambda>e. Corrupt (''session:'' @ e)) (cd_parse_uuid cd v))
              (tk_session_id row)) (\<lambda>session_id.
     rbind (state_of_db (tk_state row)) (\<lambda>state.
     rbind (parse_time cd (tk_created_at row)) (\<lambda>created_at.
     rbind (parse_time cd (tk_updated_at row)) (\<lambda>updated_at.
     rbind (transpose_opt (parse_time cd) (tk_terminal_at row)) (\<lambda>terminal_at.
       Inr \<lparr>snap_task_id = task_id, snap_session_id = session_id, snap_agent_id = tk_agent_id row,
            snap_caller_id = tk_caller_id row, snap_state = state,
            snap_revision = i64_as_u64 (tk_revision row), snap_last_seq = i64_as_u64 (tk_last_seq row),
            snap_created_at = created_at, snap_updated_at = updated_at,
            snap_terminal_at = terminal_at\<rparr>))))))"

definition row_event :: "'x codec \<Rightarrow> task_id \<Rightarrow> 'x event_row \<Rightarrow> store_error + core_event" where
  "row_event cd t row =
     rbind (map_err Corrupt (cd_parse_kind cd (er_event_kind_json row))) (\<lambda>kind.
     rbind (parse_time cd (er_created_at row)) (\<lambda>at.
       Inr \<lparr>ev_task_id = t, ev_seq = i64_as_u64 (er_seq row), ev_at = at, ev_kind = kind\<rparr>))"

section \<open>Statements\<close>

text \<open>The outcome of running the \<open>i\<close>-th statement, apart from its effect.\<close>

definition try_stmt :: "(nat \<Rightarrow> string option) \<Rightarrow> nat \<Rightarrow> store_error + unit" where
  "try_stmt fl i = (case fl i of None \<Rightarrow> Inr () | Some e \<Rightarrow> Inl (db_error e))"

text \<open>A transaction takes effect when it reaches its commit and is rolled back otherwise.\<close>

definition in_tx :: "'x db \<Rightarrow> store_error + 'a \<times> 'x db \<Rightarrow> (store_error + 'a) \<times> 'x db" where
  "in_tx db r = (case r of Inl e \<Rightarrow> (Inl e, db) | Inr (a, db') \<Rightarrow> (Inr a, db'))"

definition select_task :: "string \<Rightarrow> 'x db \<Rightarrow> task_row option" where
  "select_task k db = find (\<lambda>r. tk_task_id r = k) (db_tasks db)"

definition select_key :: "string \<Rightarrow> string \<Rightarrow> 'x db \<Rightarrow> task_row option" where
  "select_key c k db = find (\<lambda>r. tk_caller_id r = c \<and> tk_idempotency_key r = k) (db_tasks db)"

text \<open>\<open>fetch_one\<close>: no row is an error.\<close>

definition fetch_one :: "'x codec \<Rightarrow> 'r option \<Rightarrow> store_error + 'r" where
  "fetch_one cd r = ok_or r (db_error (cd_row_not_found cd))"

definition insert_task :: "'x codec \<Rightarrow> task_row \<Rightarrow> 'x db \<Rightarrow> store_error + 'x db" where
  "insert_task cd row db =
     (if select_task (tk_task_id row) db \<noteq> None \<or>
         select_key (tk_caller_id row) (tk_idempotency_key row) db \<noteq> None
      then Inl (db_error (cd_constraint cd))
      else Inr (db\<lparr>db_tasks := db_tasks db @ [row]\<rparr>))"

definition insert_event :: "'x codec \<Rightarrow> 'x event_row \<Rightarrow> 'x db \<Rightarrow> store_error + 'x db" where
  "insert_event cd row db =
     (if find (\<lambda>r. er_task_id r = er_task_id row \<and> er_seq r = er_seq row) (db_events db) \<noteq> None \<or>
         select_task (er_task_id row) db = None
      then Inl (db_error (cd_constraint cd))
      else Inr (db\<lparr>db_events := db_events db @ [row]\<rparr>))"

text \<open>\<open>UPDATE tasks SET ... WHERE task_id=? AND revision=?\<close> with the number of rows it changed.\<close>

definition update_task :: "(task_row \<Rightarrow> task_row) \<Rightarrow> string \<Rightarrow> int \<Rightarrow> 'x db \<Rightarrow> nat \<times> 'x db" where
  "update_task f k rv db =
     (length (filter (\<lambda>r. tk_task_id r = k \<and> tk_revision r = rv) (db_tasks db)),
      db\<lparr>db_tasks := map (\<lambda>r. if tk_task_id r = k \<and> tk_revision r = rv then f r else r) (db_tasks db)\<rparr>)"

section \<open>Operations\<close>

definition sq_ping :: "(nat \<Rightarrow> string option) \<Rightarrow> 'x db \<Rightarrow> store_error + unit" where
  "sq_ping fl db = try_stmt fl 0"

definition new_row :: "'x codec \<Rightarrow> time \<Rightarrow> new_task \<Rightarrow> task_row" where
  "new_row cd now task =
     \<lparr>tk_task_id = cd_uuid cd (nt_task_id task),
      tk_session_id = map_option (cd_uuid cd) (nt_session_id task),
      tk_agent_id = nt_agent_id task, tk_caller_id = nt_caller_id task,
      tk_idempotency_key = nt_idempotency_key task, tk_state = ''created'',
      tk_revision = 0, tk_last_seq = 0,
      tk_deadline_at = map_option (cd_time cd) (nt_deadline_at task),
      tk_created_at = cd_time cd now, tk_updated_at = cd_time cd now, tk_terminal_at = None\<rparr>"

definition sq_create ::
  "'x codec \<Rightarrow> (nat \<Rightarrow> string option) \<Rightarrow> time \<Rightarrow> new_task \<Rightarrow> 'x db \<Rightarrow>
     (store_error + create_task_result) \<times> 'x db" where
  "sq_create cd fl now task db = in_tx db (
     rbind (try_stmt fl 0) (\<lambda>_.
     rbind (try_stmt fl 1) (\<lambda>_.
     case select_key (nt_caller_id task) (nt_idempotency_key task) db of
       Some row \<Rightarrow>
         rbind (row_snapshot cd row) (\<lambda>snap.
         rbind (try_stmt fl 2) (\<lambda>_. Inr (CtExisting snap, db)))
     | None \<Rightarrow>
         rbind (try_stmt fl 2) (\<lambda>_.
         rbind (insert_task cd (new_row cd now task) db) (\<lambda>db1.
         rbind (try_stmt fl 3) (\<lambda>_.
         rbind (fetch_one cd (select_task (cd_uuid cd (nt_task_id task)) db1)) (\<lambda>row.
         rbind (row_snapshot cd row) (\<lambda>snap.
         rbind (try_stmt fl 4) (\<lambda>_. Inr (CtCreated snap, db1))))))))))"

definition sq_get_snapshot ::
  "'x codec \<Rightarrow> (nat \<Rightarrow> string option) \<Rightarrow> task_id \<Rightarrow> 'x db \<Rightarrow> store_error + task_snapshot option" where
  "sq_get_snapshot cd fl t db =
     rbind (try_stmt fl 0) (\<lambda>_. transpose_opt (row_snapshot cd) (select_task (cd_uuid cd t) db))"

text \<open>The columns the update of a transition sets.\<close>

definition transition_row :: "'x codec \<Rightarrow> time \<Rightarrow> task_transition \<Rightarrow> nat \<Rightarrow> nat \<Rightarrow> task_row \<Rightarrow> task_row" where
  "transition_row cd now tr revision seq row =
     row\<lparr>tk_state := state_db (tr_next_state tr), tk_revision := u64_as_i64 revision,
         tk_last_seq := u64_as_i64 seq, tk_updated_at := cd_time cd now,
         tk_terminal_at := (case tk_terminal_at row of
            Some at \<Rightarrow> Some at
          | None \<Rightarrow> if terminal (tr_next_state tr) then Some (cd_time cd now) else None)\<rparr>"

definition sq_append ::
  "'x codec \<Rightarrow> (nat \<Rightarrow> string option) \<Rightarrow> time \<Rightarrow> task_transition \<Rightarrow> 'x db \<Rightarrow>
     (store_error + applied_transition) \<times> 'x db" where
  "sq_append cd fl now tr db = in_tx db (
     rbind (try_stmt fl 0) (\<lambda>_.
     rbind (try_stmt fl 1) (\<lambda>_.
     rbind (ok_or (select_task (cd_uuid cd (tr_task_id tr)) db) (NotFound (tr_task_id tr))) (\<lambda>row.
     rbind (row_snapshot cd row) (\<lambda>current.
     if snap_revision current \<noteq> tr_expected_revision tr then Inl Conflict
     else if snap_state current \<notin> set (tr_allowed_states tr)
     then Inl (InvalidTransition (''current='' @ debug_state (snap_state current)))
     else
       (let seq = u64_add (snap_last_seq current) 1; revision = u64_add (snap_revision current) 1 in
        rbind (try_stmt fl 2) (\<lambda>_.
        case update_task (transition_row cd now tr revision seq) (cd_uuid cd (tr_task_id tr))
               (u64_as_i64 (snap_revision current)) db of
          (changed, db1) \<Rightarrow>
            if changed \<noteq> 1 then Inl Conflict
            else
              rbind (map_err Internal (cd_kind cd (tr_event_kind tr))) (\<lambda>kind_json.
              rbind (try_stmt fl 3) (\<lambda>_.
              rbind (insert_event cd \<lparr>er_task_id = cd_uuid cd (tr_task_id tr), er_seq = u64_as_i64 seq,
                       er_event_kind_json = kind_json, er_created_at = cd_time cd now\<rparr> db1) (\<lambda>db2.
              rbind (try_stmt fl 4) (\<lambda>_.
              rbind (fetch_one cd (select_task (cd_uuid cd (tr_task_id tr)) db2)) (\<lambda>row.
              rbind (row_snapshot cd row) (\<lambda>snap.
              rbind (try_stmt fl 5) (\<lambda>_.
                Inr (\<lparr>at_snapshot = snap,
                      at_event = \<lparr>ev_task_id = tr_task_id tr, ev_seq = seq, ev_at = now,
                                  ev_kind = tr_event_kind tr\<rparr>\<rparr>, db2)))))))))))))))"

definition sq_events_after ::
  "'x codec \<Rightarrow> (nat \<Rightarrow> string option) \<Rightarrow> task_id \<Rightarrow> event_seq \<Rightarrow> nat \<Rightarrow> 'x db \<Rightarrow> store_error + core_event list" where
  "sq_events_after cd fl t after limit db =
     rbind (try_stmt fl 0) (\<lambda>_.
       try_collect (row_event cd t)
         (take (min limit 10000)
           (sort_key er_seq (filter (\<lambda>r. er_task_id r = cd_uuid cd t \<and> er_seq r > u64_as_i64 after)
             (db_events db)))))"

definition sq_acquire_lease ::
  "'x codec \<Rightarrow> (nat \<Rightarrow> string + int) \<Rightarrow> (nat \<Rightarrow> string option) \<Rightarrow> time \<Rightarrow> lease \<Rightarrow> 'x db \<Rightarrow>
     (store_error + bool) \<times> 'x db" where
  "sq_acquire_lease cd from_std fl now l db =
     (case from_std (lease_expires_in l) of
        Inl e \<Rightarrow> (Inl (Internal e), db)
      | Inr d \<Rightarrow>
          (case fl 0 of Some e \<Rightarrow> (Inl (db_error e), db) | None \<Rightarrow>
             (let k = cd_uuid cd (lease_task_id l);
                  row = \<lparr>ls_task_id = k, ls_owner_id = lease_owner_id l,
                         ls_expires_at = cd_time cd (now + d), ls_updated_at = cd_time cd now\<rparr>
              in case find (\<lambda>r. ls_task_id r = k) (db_leases db) of
                   None \<Rightarrow>
                     if select_task k db = None then (Inl (db_error (cd_constraint cd)), db)
                     else (Inr True, db\<lparr>db_leases := db_leases db @ [row]\<rparr>)
                 | Some old \<Rightarrow>
                     if ls_expires_at old < cd_time cd now \<or> ls_owner_id old = lease_owner_id l
                     then (Inr True, db\<lparr>db_leases :=
                            map (\<lambda>r. if ls_task_id r = k then row else r) (db_leases db)\<rparr>)
                     else (Inr False, db))))"

definition sq_renew_lease ::
  "'x codec \<Rightarrow> (nat \<Rightarrow> string + int) \<Rightarrow> (nat \<Rightarrow> string option) \<Rightarrow> time \<Rightarrow> lease \<Rightarrow> 'x db \<Rightarrow>
     (store_error + bool) \<times> 'x db" where
  "sq_renew_lease cd from_std fl now l db =
     (case from_std (lease_expires_in l) of
        Inl e \<Rightarrow> (Inl (Internal e), db)
      | Inr d \<Rightarrow>
          (case fl 0 of Some e \<Rightarrow> (Inl (db_error e), db) | None \<Rightarrow>
             (let P = (\<lambda>r. ls_task_id r = cd_uuid cd (lease_task_id l) \<and>
                           ls_owner_id r = lease_owner_id l \<and> cd_time cd now \<le> ls_expires_at r)
              in (Inr (length (filter P (db_leases db)) = 1),
                  db\<lparr>db_leases := map (\<lambda>r. if P r then r\<lparr>ls_expires_at := cd_time cd (now + d),
                       ls_updated_at := cd_time cd now\<rparr> else r) (db_leases db)\<rparr>))))"

text \<open>\<open>DELETE ... WHERE rowid IN (SELECT rowid ... LIMIT n)\<close>: the first \<open>n\<close> matching rows.\<close>

fun delete_limit :: "nat \<Rightarrow> ('r \<Rightarrow> bool) \<Rightarrow> 'r list \<Rightarrow> 'r list \<times> nat" where
  "delete_limit n P [] = ([], 0)"
| "delete_limit n P (r # rs) =
     (if 0 < n \<and> P r then (case delete_limit (n - 1) P rs of (kept, d) \<Rightarrow> (kept, Suc d))
      else (case delete_limit n P rs of (kept, d) \<Rightarrow> (r # kept, d)))"

text \<open>Deleting tasks cascades to their events and leases.\<close>

definition cascade :: "'x db \<Rightarrow> task_row list \<Rightarrow> 'x db" where
  "cascade db kept =
     (let ids = map tk_task_id kept in
      \<lparr>db_tasks = kept,
       db_events = filter (\<lambda>r. er_task_id r \<in> set ids) (db_events db),
       db_leases = filter (\<lambda>r. ls_task_id r \<in> set ids) (db_leases db)\<rparr>)"

definition sq_cleanup ::
  "'x codec \<Rightarrow> (nat \<Rightarrow> string + int) \<Rightarrow> (nat \<Rightarrow> string option) \<Rightarrow> time \<Rightarrow> retention_policy \<Rightarrow> 'x db \<Rightarrow>
     (store_error + cleanup_report) \<times> 'x db" where
  "sq_cleanup cd from_std fl now policy db =
     (case from_std (rp_task_ttl policy) of Inl e \<Rightarrow> (Inl (Internal e), db) | Inr task_ttl \<Rightarrow>
      case from_std (rp_event_ttl policy) of Inl e \<Rightarrow> (Inl (Internal e), db) | Inr event_ttl \<Rightarrow>
      case fl 0 of Some e \<Rightarrow> (Inl (db_error e), db) | None \<Rightarrow>
      (case delete_limit (rp_cleanup_batch_size policy)
              (\<lambda>r. er_created_at r < cd_time cd (now - event_ttl)) (db_events db) of
         (events_kept, events) \<Rightarrow>
           (let db1 = db\<lparr>db_events := events_kept\<rparr> in
            case fl 1 of Some e \<Rightarrow> (Inl (db_error e), db1) | None \<Rightarrow>
            (case delete_limit (rp_cleanup_batch_size policy)
                    (\<lambda>r. case tk_terminal_at r of None \<Rightarrow> False
                         | Some at \<Rightarrow> at < cd_time cd (now - task_ttl)) (db_tasks db1) of
               (tasks_kept, tasks) \<Rightarrow>
                 (Inr \<lparr>cr_tasks_deleted = tasks, cr_events_deleted = events, cr_idempotency_deleted = tasks\<rparr>,
                  cascade db1 tasks_kept)))))"

definition no_fault :: "nat \<Rightarrow> string option" where
  "no_fault i = None"

definition sq_ops :: "'x codec \<Rightarrow> 'x db store_ops" where
  "sq_ops cd =
     \<lparr>op_ping = sq_ping no_fault, op_create = sq_create cd no_fault,
      op_get_snapshot = sq_get_snapshot cd no_fault, op_append = sq_append cd no_fault,
      op_events_after = sq_events_after cd no_fault\<rparr>"

section \<open>What the tables mean\<close>

definition sq_view :: "'x codec \<Rightarrow> 'x db \<Rightarrow> task_id \<Rightarrow> entry option" where
  "sq_view cd db t =
     (case select_task (cd_uuid cd t) db of
        None \<Rightarrow> None
      | Some row \<Rightarrow>
          (case row_snapshot cd row of
             Inl _ \<Rightarrow> None
           | Inr snap \<Rightarrow>
               (case try_collect (row_event cd t) (filter (\<lambda>r. er_task_id r = cd_uuid cd t) (db_events db)) of
                  Inl _ \<Rightarrow> None
                | Inr evs \<Rightarrow> Some (snap, evs))))"

definition sq_keyed :: "'x codec \<Rightarrow> 'x db \<Rightarrow> caller_id \<times> string \<Rightarrow> task_id option" where
  "sq_keyed cd db k =
     (case select_key (fst k) (snd k) db of
        None \<Rightarrow> None
      | Some row \<Rightarrow> (case row_snapshot cd row of Inl _ \<Rightarrow> None | Inr snap \<Rightarrow> Some (snap_task_id snap)))"

text \<open>A row that decodes, with counters in the signed range.\<close>

definition row_ok :: "'x codec \<Rightarrow> task_row \<Rightarrow> bool" where
  "row_ok cd row \<longleftrightarrow>
     (\<exists>snap. row_snapshot cd row = Inr snap \<and> tk_task_id row = cd_uuid cd (snap_task_id snap)) \<and>
     0 \<le> tk_revision row \<and> tk_revision row < 9223372036854775808 \<and>
     0 \<le> tk_last_seq row \<and> tk_last_seq row < 9223372036854775808"

text \<open>The constraints of the schema, and that every row decodes; the events of a task are in
  the order of their numbers, none above the last one.\<close>

definition sq_inv :: "'x codec \<Rightarrow> 'x db \<Rightarrow> bool" where
  "sq_inv cd db \<longleftrightarrow>
     distinct (map tk_task_id (db_tasks db)) \<and>
     distinct (map (\<lambda>r. (tk_caller_id r, tk_idempotency_key r)) (db_tasks db)) \<and>
     (\<forall>row\<in>set (db_tasks db). row_ok cd row) \<and>
     (\<forall>r\<in>set (db_events db). 0 \<le> er_seq r \<and> (\<forall>t. is_ok (row_event cd t r)) \<and>
        (\<exists>row\<in>set (db_tasks db). tk_task_id row = er_task_id r \<and> er_seq r \<le> tk_last_seq row)) \<and>
     (\<forall>k. sorted (map er_seq (filter (\<lambda>r. er_task_id r = k) (db_events db))))"

section \<open>Lemmas on rows and tables\<close>

lemma state_roundtrip [simp]: "state_of_db (state_db st) = Inr st"
  by (cases st) (simp_all add: state_of_db_def)

lemma codec_uuid_inj: "codec_ok cd \<Longrightarrow> cd_uuid cd a = cd_uuid cd b \<longleftrightarrow> a = b"
  unfolding codec_ok_def by (metis Inr_inject)

lemma try_collect_ok: "(\<And>x. x \<in> set xs \<Longrightarrow> is_ok (f x)) \<Longrightarrow> \<exists>ys. try_collect f xs = Inr ys"
proof (induction xs)
  case (Cons x xs)
  have "is_ok (f x)" using Cons.prems by simp
  then obtain y where "f x = Inr y" by (cases "f x") auto
  moreover obtain ys where "try_collect f xs = Inr ys" using Cons by auto
  ultimately show ?case by simp
qed simp

lemma try_collect_append:
  "try_collect f xs = Inr as \<Longrightarrow> f y = Inr b \<Longrightarrow> try_collect f (xs @ [y]) = Inr (as @ [b])"
  by (induction xs arbitrary: as) (auto split: sum.splits)

lemma try_collect_take_filter:
  assumes "try_collect f xs = Inr ys" "\<And>x y. x \<in> set xs \<Longrightarrow> f x = Inr y \<Longrightarrow> P x \<longleftrightarrow> Q y"
  shows "try_collect f (take n (filter P xs)) = Inr (take n (filter Q ys))"
proof -
  have "try_collect f (filter P xs) = Inr (filter Q ys)"
    using assms by (induction xs arbitrary: ys) (auto split: sum.splits)
  moreover have "try_collect f zs = Inr us \<Longrightarrow> try_collect f (take n zs) = Inr (take n us)" for zs us
    by (induction zs arbitrary: n us) (auto simp: take_Cons' split: sum.splits)
  ultimately show ?thesis by blast
qed

lemma find_append: "find P (xs @ ys) = (case find P xs of None \<Rightarrow> find P ys | Some x \<Rightarrow> Some x)"
  by (induction xs) auto

lemma find_Some_in: "find P xs = Some x \<Longrightarrow> x \<in> set xs \<and> P x"
  by (induction xs) (auto split: if_splits)

lemma find_unique:
  "distinct (map f xs) \<Longrightarrow> x \<in> set xs \<Longrightarrow> find (\<lambda>y. f y = f x) xs = Some x"
  by (induction xs) (auto simp: image_iff)

lemma find_map_other:
  assumes "\<And>r. P (g r) \<longleftrightarrow> P r" "\<And>r. P r \<Longrightarrow> g r = r"
  shows "find P (map g xs) = find P xs"
  using assms by (induction xs) auto

lemma find_map_same:
  assumes "\<And>r. P (g r) \<longleftrightarrow> P r"
  shows "find P (map g xs) = map_option g (find P xs)"
  using assms by (induction xs) auto

lemma filter_unique:
  "distinct (map f xs) \<Longrightarrow> x \<in> set xs \<Longrightarrow> P x \<Longrightarrow> (\<And>y. P y \<Longrightarrow> f y = f x) \<Longrightarrow> filter P xs = [x]"
proof (induction xs)
  case (Cons a xs)
  show ?case
  proof (cases "a = x")
    case True
    have "\<not> P y" if "y \<in> set xs" for y
      using Cons.prems(1) Cons.prems(4) [of y] that True by (metis distinct.simps(2) image_eqI list.map(2) list.set_map)
    with True Cons.prems(3) show ?thesis by (simp add: filter_empty_conv)
  next
    case False
    then have x: "x \<in> set xs" using Cons.prems(2) by simp
    then have "\<not> P a"
      using Cons.prems(1) Cons.prems(4) [of a] by (metis distinct.simps(2) image_eqI list.map(2) list.set_map)
    with Cons.IH [OF _ x Cons.prems(3,4)] Cons.prems(1) show ?thesis by simp
  qed
qed simp

lemma i64_roundtrip: "0 \<le> i \<Longrightarrow> i < 9223372036854775808 \<Longrightarrow> u64_as_i64 (i64_as_u64 i) = i"
  by (simp add: u64_as_i64_def i64_as_u64_def)

lemma row_snapshot_new:
  assumes "codec_ok cd"
  shows "row_snapshot cd (new_row cd now nt) = Inr (initial_snapshot now nt)"
proof -
  have "state_of_db ''created'' = Inr Created" by (simp add: state_of_db_def)
  with assms show ?thesis
    by (cases "nt_session_id nt")
      (simp_all add: row_snapshot_def new_row_def codec_ok_def parse_time_def initial_snapshot_def i64_as_u64_def)
qed

text \<open>A row after a transition decodes to the advanced snapshot.\<close>

lemma row_snapshot_transition:
  assumes "codec_ok cd" "row_snapshot cd row = Inr snap" "snap_terminal_at snap = None"
  shows "row_snapshot cd (transition_row cd now tr (u64_add (snap_revision snap) 1)
      (u64_add (snap_last_seq snap) 1) row) = Inr (advance now tr snap)"
proof -
  from assms(2) obtain ti si st ca ua ta where parts:
    "map_err (\<lambda>e. Corrupt (''id:'' @ e)) (cd_parse_uuid cd (tk_task_id row)) = Inr ti"
    "transpose_opt (\<lambda>v. map_err (\<lambda>e. Corrupt (''session:'' @ e)) (cd_parse_uuid cd v)) (tk_session_id row) = Inr si"
    "state_of_db (tk_state row) = Inr st" "parse_time cd (tk_created_at row) = Inr ca"
    "parse_time cd (tk_updated_at row) = Inr ua" "transpose_opt (parse_time cd) (tk_terminal_at row) = Inr ta"
    and snap: "snap = \<lparr>snap_task_id = ti, snap_session_id = si, snap_agent_id = tk_agent_id row,
            snap_caller_id = tk_caller_id row, snap_state = st,
            snap_revision = i64_as_u64 (tk_revision row), snap_last_seq = i64_as_u64 (tk_last_seq row),
            snap_created_at = ca, snap_updated_at = ua, snap_terminal_at = ta\<rparr>"
    by (auto simp: row_snapshot_def rbind_Inr_iff)
  with assms(3) have "tk_terminal_at row = None"
    by (cases "tk_terminal_at row") (auto split: sum.splits)
  then show ?thesis
    using assms(1) parts
    by (simp add: row_snapshot_def transition_row_def snap advance_def codec_ok_def parse_time_def
        i64_u64_roundtrip)
qed

section \<open>The contract holds\<close>

lemma try_stmt_no_fault [simp]: "try_stmt no_fault i = Inr ()"
  by (simp add: try_stmt_def no_fault_def)

lemma select_task_in: "select_task k db = Some row \<Longrightarrow> row \<in> set (db_tasks db) \<and> tk_task_id row = k"
  by (auto simp: select_task_def dest: find_Some_in)

lemma select_key_in:
  "select_key c k db = Some row \<Longrightarrow>
     row \<in> set (db_tasks db) \<and> tk_caller_id row = c \<and> tk_idempotency_key row = k"
  by (auto simp: select_key_def dest: find_Some_in)

lemma sq_view_cases:
  assumes "sq_inv cd db"
  obtains (none) "select_task (cd_uuid cd t) db = None" "sq_view cd db t = None"
    | (some) row snap evs where "select_task (cd_uuid cd t) db = Some row" "row_snapshot cd row = Inr snap"
      "row_ok cd row" "row \<in> set (db_tasks db)"
      "try_collect (row_event cd t) (filter (\<lambda>r. er_task_id r = cd_uuid cd t) (db_events db)) = Inr evs"
      "sq_view cd db t = Some (snap, evs)"
proof (cases "select_task (cd_uuid cd t) db")
  case None
  then show ?thesis using none by (simp add: sq_view_def)
next
  case (Some row)
  then have row: "row \<in> set (db_tasks db)" using select_task_in by blast
  with assms have ok: "row_ok cd row" by (simp add: sq_inv_def)
  then obtain snap where snap: "row_snapshot cd row = Inr snap" by (auto simp: row_ok_def)
  obtain evs where evs: "try_collect (row_event cd t)
      (filter (\<lambda>r. er_task_id r = cd_uuid cd t) (db_events db)) = Inr evs"
    using try_collect_ok [of "filter (\<lambda>r. er_task_id r = cd_uuid cd t) (db_events db)" "row_event cd t"] assms
    by (auto simp: sq_inv_def)
  show ?thesis
    using some [OF Some snap ok row evs] by (simp add: sq_view_def Some snap evs)
qed

lemma row_event_stored:
  assumes "codec_ok cd" "cd_kind cd (tr_event_kind tr) = Inr x"
  shows "row_event cd t \<lparr>er_task_id = k, er_seq = u64_as_i64 n, er_event_kind_json = x,
      er_created_at = cd_time cd now\<rparr> =
    Inr \<lparr>ev_task_id = t, ev_seq = i64_as_u64 (u64_as_i64 n), ev_at = now, ev_kind = tr_event_kind tr\<rparr>"
proof -
  have "cd_parse_kind cd x = Inr (tr_event_kind tr)"
    using assms unfolding codec_ok_def by (metis Inr_inject)
  with assms(1) show ?thesis by (simp add: row_event_def parse_time_def codec_ok_def)
qed

lemma tk_unique:
  assumes "sq_inv cd db" "r \<in> set (db_tasks db)" "r' \<in> set (db_tasks db)" "tk_task_id r = tk_task_id r'"
  shows "r = r'"
proof -
  have "inj_on tk_task_id (set (db_tasks db))" using assms(1) by (simp add: sq_inv_def distinct_map)
  then show ?thesis using assms(2-4) by (simp add: inj_on_def)
qed

text \<open>The update of a stored task.\<close>

definition updated_rows :: "'x codec \<Rightarrow> (task_row \<Rightarrow> task_row) \<Rightarrow> string \<Rightarrow> task_row list \<Rightarrow> task_row list" where
  "updated_rows cd f k rows = map (\<lambda>r. if tk_task_id r = k then f r else r) rows"

lemma update_task_stored:
  assumes "sq_inv cd db" "select_task k db = Some row"
  shows "update_task f k (tk_revision row) db = (1, db\<lparr>db_tasks := updated_rows cd f k (db_tasks db)\<rparr>)"
proof -
  have row: "row \<in> set (db_tasks db)" "tk_task_id row = k" using select_task_in [OF assms(2)] by auto
  have dist: "distinct (map tk_task_id (db_tasks db))" using assms(1) by (simp add: sq_inv_def)
  have "filter (\<lambda>r. tk_task_id r = k \<and> tk_revision r = tk_revision row) (db_tasks db) = [row]"
    by (rule filter_unique [OF dist row(1)]) (auto simp: row(2))
  moreover have "r = row" if "r \<in> set (db_tasks db)" "tk_task_id r = k" for r
    by (rule tk_unique [OF assms(1)]) (use row that in auto)
  then have "map (\<lambda>r. if tk_task_id r = k \<and> tk_revision r = tk_revision row then f r else r) (db_tasks db) =
      updated_rows cd f k (db_tasks db)"
    by (auto simp: updated_rows_def)
  ultimately show ?thesis by (simp add: update_task_def)
qed

lemma select_task_updated:
  assumes "\<And>r. tk_task_id (f r) = tk_task_id r"
  shows "select_task k' (db\<lparr>db_tasks := updated_rows cd f k (db_tasks db), db_events := es\<rparr>) =
    (if k' = k then map_option f (select_task k db) else select_task k' db)"
proof (cases "k' = k")
  case True
  have "find (\<lambda>r. tk_task_id r = k) (updated_rows cd f k rows) = map_option f (find (\<lambda>r. tk_task_id r = k) rows)" for rows
    using assms by (induction rows) (auto simp: updated_rows_def)
  with True show ?thesis by (simp add: select_task_def)
next
  case False
  have "find (\<lambda>r. tk_task_id r = k') (updated_rows cd f k rows) = find (\<lambda>r. tk_task_id r = k') rows" for rows
    unfolding updated_rows_def using assms False by (intro find_map_other) auto
  with False show ?thesis by (simp add: select_task_def)
qed

lemma transition_row_frame [simp]:
  "tk_task_id (transition_row cd now tr n m row) = tk_task_id row"
  "tk_caller_id (transition_row cd now tr n m row) = tk_caller_id row"
  "tk_idempotency_key (transition_row cd now tr n m row) = tk_idempotency_key row"
  "tk_revision (transition_row cd now tr n m row) = u64_as_i64 n"
  "tk_last_seq (transition_row cd now tr n m row) = u64_as_i64 m"
  by (simp_all add: transition_row_def)

text \<open>The database after a successful transition.\<close>

definition appended ::
  "'x codec \<Rightarrow> time \<Rightarrow> task_transition \<Rightarrow> task_snapshot \<Rightarrow> 'x \<Rightarrow> 'x db \<Rightarrow> 'x db" where
  "appended cd now tr snap x db =
     db\<lparr>db_tasks := updated_rows cd (transition_row cd now tr (u64_add (snap_revision snap) 1)
           (u64_add (snap_last_seq snap) 1)) (cd_uuid cd (tr_task_id tr)) (db_tasks db),
        db_events := db_events db @ [\<lparr>er_task_id = cd_uuid cd (tr_task_id tr),
          er_seq = u64_as_i64 (u64_add (snap_last_seq snap) 1), er_event_kind_json = x,
          er_created_at = cd_time cd now\<rparr>]\<rparr>"

lemma row_ok_snapshot:
  assumes "row_ok cd row" "row_snapshot cd row = Inr snap"
  shows "tk_task_id row = cd_uuid cd (snap_task_id snap)" "snap_revision snap = nat (tk_revision row)"
    "snap_last_seq snap = nat (tk_last_seq row)" "0 \<le> tk_revision row" "0 \<le> tk_last_seq row"
    "snap_caller_id snap = tk_caller_id row"
  using assms by (auto simp: row_ok_def row_snapshot_def rbind_Inr_iff i64_as_u64_def)

lemma sq_append_success:
  assumes cd: "codec_ok cd" and inv: "sq_inv cd db"
    and row: "select_task (cd_uuid cd (tr_task_id tr)) db = Some row" "row_snapshot cd row = Inr snap"
    and guard: "snap_revision snap = tr_expected_revision tr" "snap_state snap \<in> set (tr_allowed_states tr)"
      "snap_terminal_at snap = None" "snap_revision snap < seq_limit" "snap_last_seq snap < seq_limit"
  shows "\<exists>x. cd_kind cd (tr_event_kind tr) = Inr x \<and> sq_append cd no_fault now tr db =
    (Inr \<lparr>at_snapshot = advance now tr snap, at_event = next_event now tr snap\<rparr>, appended cd now tr snap x db)"
proof -
  let ?k = "cd_uuid cd (tr_task_id tr)"
  have ok: "row_ok cd row" "row \<in> set (db_tasks db)" "tk_task_id row = ?k"
    using inv select_task_in [OF row(1)] by (auto simp: sq_inv_def)
  note r = row_ok_snapshot [OF ok(1) row(2)]
  have rev: "u64_as_i64 (snap_revision snap) = tk_revision row"
    using ok(1) r by (auto simp: row_ok_def u64_as_i64_def)
  obtain x where x: "cd_kind cd (tr_event_kind tr) = Inr x" using cd unfolding codec_ok_def by blast
  let ?f = "transition_row cd now tr (u64_add (snap_revision snap) 1) (u64_add (snap_last_seq snap) 1)"
  let ?db1 = "db\<lparr>db_tasks := updated_rows cd ?f ?k (db_tasks db)\<rparr>"
  have upd: "update_task ?f ?k (u64_as_i64 (snap_revision snap)) db = (1, ?db1)"
    using update_task_stored [OF inv row(1), of ?f] by (simp add: rev)
  have new: "u64_as_i64 (u64_add (snap_last_seq snap) 1) = tk_last_seq row + 1"
    using r guard(5) by (simp add: u64_add_small seq_limit_def u64_max_def u64_as_i64_def)
  have "er_seq e \<le> tk_last_seq row" if e: "e \<in> set (db_events db)" "er_task_id e = ?k" for e
  proof -
    obtain row' where "row' \<in> set (db_tasks db)" "tk_task_id row' = ?k" "er_seq e \<le> tk_last_seq row'"
      using inv e by (fastforce simp: sq_inv_def)
    moreover have "row' = row"
      by (rule tk_unique [OF inv]) (use ok calculation in auto)
    ultimately show ?thesis by simp
  qed
  then have free: "find (\<lambda>e. er_task_id e = ?k \<and> er_seq e = tk_last_seq row + 1) (db_events db) = None"
    by (fastforce simp: find_None_iff)
  have sel1: "select_task k' ?db1 = (if k' = ?k then map_option ?f (select_task ?k db) else select_task k' db)" for k'
    using select_task_updated [where f = ?f and k = ?k and k' = k' and cd = cd and db = db and
        es = "db_events db"] by simp
  have sel2: "select_task k' (appended cd now tr snap x db) =
      (if k' = ?k then map_option ?f (select_task ?k db) else select_task k' db)" for k'
    unfolding appended_def by (rule select_task_updated) simp
  have ins: "insert_event cd \<lparr>er_task_id = ?k, er_seq = u64_as_i64 (u64_add (snap_last_seq snap) 1),
      er_event_kind_json = x, er_created_at = cd_time cd now\<rparr> ?db1 = Inr (appended cd now tr snap x db)"
    using free by (simp add: insert_event_def sel1 row(1) new appended_def del: One_nat_def)
  show ?thesis
    using x row_snapshot_transition [OF cd row(2) guard(3), of now tr]
    by (simp add: sq_append_def in_tx_def row guard(1) [symmetric] guard(2) Let_def upd ins fetch_one_def sel2 next_event_def
        del: One_nat_def)
qed

lemma row_ok_transition:
  assumes cd: "codec_ok cd" and row: "row_ok cd row" "row_snapshot cd row = Inr snap" "snap_terminal_at snap = None"
    and lim: "snap_revision snap < seq_limit" "snap_last_seq snap < seq_limit"
  shows "row_ok cd (transition_row cd now tr (u64_add (snap_revision snap) 1) (u64_add (snap_last_seq snap) 1) row)"
  using row_snapshot_transition [OF cd row(2,3), of now tr] row_ok_snapshot [OF row(1,2)] lim
  by (auto simp: row_ok_def u64_add_small seq_limit_def u64_max_def u64_as_i64_def)

lemma appended_inv:
  assumes cd: "codec_ok cd" and inv: "sq_inv cd db"
    and row: "select_task (cd_uuid cd (tr_task_id tr)) db = Some row" "row_snapshot cd row = Inr snap"
    and guard: "snap_terminal_at snap = None" "snap_revision snap < seq_limit" "snap_last_seq snap < seq_limit"
    and x: "cd_kind cd (tr_event_kind tr) = Inr x"
  shows "sq_inv cd (appended cd now tr snap x db)"
proof -
  let ?k = "cd_uuid cd (tr_task_id tr)"
  let ?f = "transition_row cd now tr (u64_add (snap_revision snap) 1) (u64_add (snap_last_seq snap) 1)"
  let ?g = "\<lambda>r. if tk_task_id r = ?k then ?f r else r"
  let ?e = "\<lparr>er_task_id = ?k, er_seq = u64_as_i64 (u64_add (snap_last_seq snap) 1), er_event_kind_json = x,
      er_created_at = cd_time cd now\<rparr>"
  have ok: "row_ok cd row" "row \<in> set (db_tasks db)" "tk_task_id row = ?k"
    using inv select_task_in [OF row(1)] by (auto simp: sq_inv_def)
  note r = row_ok_snapshot [OF ok(1) row(2)]
  have new: "u64_as_i64 (u64_add (snap_last_seq snap) 1) = tk_last_seq row + 1"
    using r guard(3) by (simp add: u64_add_small seq_limit_def u64_max_def u64_as_i64_def)
  have only: "r' = row" if "r' \<in> set (db_tasks db)" "tk_task_id r' = ?k" for r'
    by (rule tk_unique [OF inv]) (use ok that in auto)
  have rows: "db_tasks (appended cd now tr snap x db) = map ?g (db_tasks db)"
    by (simp add: appended_def updated_rows_def)
  have events: "db_events (appended cd now tr snap x db) = db_events db @ [?e]"
    by (simp add: appended_def)
  have below: "er_seq e \<le> tk_last_seq row" if "e \<in> set (db_events db)" "er_task_id e = ?k" for e
    using inv that only by (fastforce simp: sq_inv_def)
  have "map tk_task_id (map ?g (db_tasks db)) = map tk_task_id (db_tasks db)" by simp
  with inv have "distinct (map tk_task_id (map ?g (db_tasks db)))" unfolding sq_inv_def by argo
  moreover have "map (\<lambda>r. (tk_caller_id r, tk_idempotency_key r)) (map ?g (db_tasks db)) =
      map (\<lambda>r. (tk_caller_id r, tk_idempotency_key r)) (db_tasks db)" by simp
  with inv have "distinct (map (\<lambda>r. (tk_caller_id r, tk_idempotency_key r)) (map ?g (db_tasks db)))"
    unfolding sq_inv_def by argo
  moreover have "\<forall>r'\<in>set (map ?g (db_tasks db)). row_ok cd r'"
    using inv only row_ok_transition [OF cd ok(1) row(2) guard] by (auto simp: sq_inv_def)
  moreover have "0 \<le> er_seq e \<and> (\<forall>t. is_ok (row_event cd t e)) \<and>
      (\<exists>r'\<in>set (map ?g (db_tasks db)). tk_task_id r' = er_task_id e \<and> er_seq e \<le> tk_last_seq r')"
    if e: "e \<in> set (db_events db @ [?e])" for e
  proof (cases "e = ?e")
    case True
    have "?g row \<in> set (map ?g (db_tasks db))" using ok(2) by simp
    moreover have "tk_task_id (?g row) = ?k" "er_seq ?e \<le> tk_last_seq (?g row)" using ok(3) by simp_all
    moreover have "0 \<le> er_seq ?e" using r(5) new by simp
    ultimately show ?thesis
      unfolding True using row_event_stored [OF cd x] by (auto simp del: set_map)
  next
    case False
    with e have e': "e \<in> set (db_events db)" by simp
    with inv obtain r' where r': "r' \<in> set (db_tasks db)" "tk_task_id r' = er_task_id e" "er_seq e \<le> tk_last_seq r'"
      by (fastforce simp: sq_inv_def)
    have "er_seq e \<le> tk_last_seq (?g r')"
      using r' only new by (cases "tk_task_id r' = ?k") (auto simp del: One_nat_def)
    moreover have "?g r' \<in> set (map ?g (db_tasks db))" "tk_task_id (?g r') = er_task_id e"
      using r' by simp_all
    moreover have "0 \<le> er_seq e" "\<forall>t. is_ok (row_event cd t e)" using inv e' by (auto simp: sq_inv_def)
    ultimately show ?thesis by blast
  qed
  moreover have "sorted (map er_seq (filter (\<lambda>r. er_task_id r = k) (db_events db @ [?e])))" for k
    using inv below new by (fastforce simp: sq_inv_def sorted_append simp del: One_nat_def)
  ultimately show ?thesis
    unfolding sq_inv_def rows events by blast
qed

lemma appended_view:
  assumes cd: "codec_ok cd" and inv: "sq_inv cd db"
    and view: "sq_view cd db (tr_task_id tr) = Some (snap, evs)"
    and guard: "snap_terminal_at snap = None" "snap_last_seq snap < seq_limit"
    and x: "cd_kind cd (tr_event_kind tr) = Inr x"
  shows "sq_view cd (appended cd now tr snap x db) =
    (sq_view cd db)(tr_task_id tr \<mapsto> (advance now tr snap, evs @ [next_event now tr snap]))"
proof
  fix t'
  let ?t = "tr_task_id tr" and ?k = "cd_uuid cd (tr_task_id tr)"
  let ?f = "transition_row cd now tr (u64_add (snap_revision snap) 1) (u64_add (snap_last_seq snap) 1)"
  let ?e = "\<lparr>er_task_id = ?k, er_seq = u64_as_i64 (u64_add (snap_last_seq snap) 1), er_event_kind_json = x,
      er_created_at = cd_time cd now\<rparr>"
  have sel: "select_task k' (appended cd now tr snap x db) =
      (if k' = ?k then map_option ?f (select_task ?k db) else select_task k' db)" for k'
    unfolding appended_def by (rule select_task_updated) simp
  have ev: "filter (\<lambda>r. er_task_id r = k') (db_events (appended cd now tr snap x db)) =
      filter (\<lambda>r. er_task_id r = k') (db_events db) @ (if k' = ?k then [?e] else [])" for k'
    by (auto simp: appended_def)
  show "sq_view cd (appended cd now tr snap x db) t' =
      ((sq_view cd db)(?t \<mapsto> (advance now tr snap, evs @ [next_event now tr snap]))) t'"
  proof (cases "t' = ?t")
    case False
    then have "cd_uuid cd t' \<noteq> ?k" using codec_uuid_inj [OF cd] by simp
    with False show ?thesis by (simp add: sq_view_def sel ev split: option.split sum.split)
  next
    case True
    from inv view obtain row where row: "select_task ?k db = Some row" "row_snapshot cd row = Inr snap"
      "try_collect (row_event cd ?t) (filter (\<lambda>r. er_task_id r = ?k) (db_events db)) = Inr evs"
      by (cases rule: sq_view_cases [of cd db ?t]) auto
    have "row_event cd ?t ?e = Inr (next_event now tr snap)"
      using row_event_stored [OF cd x, of ?t ?k "u64_add (snap_last_seq snap) 1" now] guard(2)
      by (simp add: next_event_def i64_u64_roundtrip)
    with row have "try_collect (row_event cd ?t) (filter (\<lambda>r. er_task_id r = ?k) (db_events db) @ [?e]) =
        Inr (evs @ [next_event now tr snap])"
      by (intro try_collect_append) auto
    with True row row_snapshot_transition [OF cd row(2) guard(1), of now tr] show ?thesis
      by (simp add: sq_view_def sel ev del: One_nat_def)
  qed
qed

lemma appended_keyed:
  assumes cd: "codec_ok cd" and inv: "sq_inv cd db"
    and row: "select_task (cd_uuid cd (tr_task_id tr)) db = Some row" "row_snapshot cd row = Inr snap"
    and end_at: "snap_terminal_at snap = None"
  shows "sq_keyed cd (appended cd now tr snap x db) = sq_keyed cd db"
proof
  fix k
  let ?k = "cd_uuid cd (tr_task_id tr)"
  let ?f = "transition_row cd now tr (u64_add (snap_revision snap) 1) (u64_add (snap_last_seq snap) 1)"
  let ?g = "\<lambda>r. if tk_task_id r = ?k then ?f r else r"
  have rows: "row \<in> set (db_tasks db)" "tk_task_id row = ?k" using select_task_in [OF row(1)] by auto
  have sel: "select_key (fst k) (snd k) (appended cd now tr snap x db) =
      map_option ?g (select_key (fst k) (snd k) db)"
    unfolding select_key_def appended_def updated_rows_def by (simp, rule find_map_same) simp
  show "sq_keyed cd (appended cd now tr snap x db) k = sq_keyed cd db k"
  proof (cases "select_key (fst k) (snd k) db")
    case None
    then show ?thesis by (simp add: sq_keyed_def sel)
  next
    case (Some r)
    show ?thesis
    proof (cases "tk_task_id r = ?k")
      case True
      have "r = row" by (rule tk_unique [OF inv]) (use select_key_in [OF Some] rows True in auto)
      with Some row(2) rows row_snapshot_transition [OF cd row(2) end_at, of now tr] show ?thesis
        by (simp add: sq_keyed_def sel del: One_nat_def)
    next
      case False
      with Some show ?thesis by (simp add: sq_keyed_def sel)
    qed
  qed
qed

lemma select_task_append:
  "select_task k (db\<lparr>db_tasks := db_tasks db @ [row]\<rparr>) =
     (case select_task k db of None \<Rightarrow> if tk_task_id row = k then Some row else None | Some r \<Rightarrow> Some r)"
  by (simp add: select_task_def find_append split: option.split)

lemma select_key_append:
  "select_key c k (db\<lparr>db_tasks := db_tasks db @ [row]\<rparr>) =
     (case select_key c k db of
        None \<Rightarrow> if tk_caller_id row = c \<and> tk_idempotency_key row = k then Some row else None
      | Some r \<Rightarrow> Some r)"
  by (simp add: select_key_def find_append split: option.split)

lemma new_row_simps [simp]:
  "tk_task_id (new_row cd now nt) = cd_uuid cd (nt_task_id nt)"
  "tk_caller_id (new_row cd now nt) = nt_caller_id nt"
  "tk_idempotency_key (new_row cd now nt) = nt_idempotency_key nt"
  "tk_revision (new_row cd now nt) = 0" "tk_last_seq (new_row cd now nt) = 0"
  by (simp_all add: new_row_def)

lemma created_inv:
  assumes cd: "codec_ok cd" and inv: "sq_inv cd db"
    and free: "select_task (cd_uuid cd (nt_task_id nt)) db = None"
      "select_key (nt_caller_id nt) (nt_idempotency_key nt) db = None"
  shows "sq_inv cd (db\<lparr>db_tasks := db_tasks db @ [new_row cd now nt]\<rparr>)"
proof -
  have "row_ok cd (new_row cd now nt)" using row_snapshot_new [OF cd, of now nt] by (auto simp: row_ok_def)
  moreover have "cd_uuid cd (nt_task_id nt) \<notin> tk_task_id ` set (db_tasks db)"
    using free(1) by (auto simp: select_task_def find_None_iff)
  moreover have "(nt_caller_id nt, nt_idempotency_key nt) \<notin>
      (\<lambda>r. (tk_caller_id r, tk_idempotency_key r)) ` set (db_tasks db)"
    using free(2) by (auto simp: select_key_def find_None_iff)
  ultimately show ?thesis using inv by (auto simp: sq_inv_def)
qed

lemma created_view:
  assumes cd: "codec_ok cd" and inv: "sq_inv cd db" and free: "select_task (cd_uuid cd (nt_task_id nt)) db = None"
  shows "sq_view cd (db\<lparr>db_tasks := db_tasks db @ [new_row cd now nt]\<rparr>) =
    (sq_view cd db)(nt_task_id nt \<mapsto> (initial_snapshot now nt, []))"
proof
  fix t
  have none: "filter (\<lambda>r. er_task_id r = cd_uuid cd (nt_task_id nt)) (db_events db) = []"
    using inv free by (fastforce simp: sq_inv_def filter_empty_conv select_task_def find_None_iff)
  show "sq_view cd (db\<lparr>db_tasks := db_tasks db @ [new_row cd now nt]\<rparr>) t =
      ((sq_view cd db)(nt_task_id nt \<mapsto> (initial_snapshot now nt, []))) t"
  proof (cases "t = nt_task_id nt")
    case True
    with free none row_snapshot_new [OF cd, of now nt] show ?thesis
      by (simp add: sq_view_def select_task_append)
  next
    case False
    then have "cd_uuid cd (nt_task_id nt) \<noteq> cd_uuid cd t" using codec_uuid_inj [OF cd] by metis
    with False show ?thesis by (simp add: sq_view_def select_task_append split: option.split sum.split)
  qed
qed

lemma sq_keyed_None:
  assumes "sq_inv cd db" "sq_keyed cd db (c, k) = None"
  shows "select_key c k db = None"
proof (rule ccontr)
  assume "select_key c k db \<noteq> None"
  then obtain row where row: "select_key c k db = Some row" by auto
  with assms(1) have "row_ok cd row" using select_key_in [OF row] by (simp add: sq_inv_def)
  with assms(2) row show False by (auto simp: sq_keyed_def row_ok_def)
qed

locale sqlite_codec =
  fixes cd :: "'x codec"
  assumes codec: "codec_ok cd"

sublocale sqlite_codec \<subseteq> sq: guarded_store "sq_ops cd" "sq_inv cd" "sq_view cd" "sq_keyed cd" "\<lambda>_ _. True"
proof
  fix s t
  assume inv: "sq_inv cd s"
  then show "op_get_snapshot (sq_ops cd) t s = Inr (map_option fst (sq_view cd s t))"
    by (cases rule: sq_view_cases [of cd s t]) (auto simp: sq_ops_def sq_get_snapshot_def)
next
  fix s and tr :: task_transition and now
  assume "sq_inv cd s" "sq_view cd s (tr_task_id tr) = None"
  then have "select_task (cd_uuid cd (tr_task_id tr)) s = None"
    by (cases rule: sq_view_cases [of cd s "tr_task_id tr"]) auto
  then show "op_append (sq_ops cd) now tr s = (Inl (NotFound (tr_task_id tr)), s)"
    by (simp add: sq_ops_def sq_append_def in_tx_def)
next
  fix s and tr :: task_transition and snap :: task_snapshot and evs now
  assume a: "sq_inv cd s" "sq_view cd s (tr_task_id tr) = Some (snap, evs)"
    "snap_revision snap \<noteq> tr_expected_revision tr"
  then obtain row where "select_task (cd_uuid cd (tr_task_id tr)) s = Some row" "row_snapshot cd row = Inr snap"
    by (cases rule: sq_view_cases [of cd s "tr_task_id tr"]) auto
  with a(3) show "op_append (sq_ops cd) now tr s = (Inl Conflict, s)"
    by (simp add: sq_ops_def sq_append_def in_tx_def)
next
  fix s and tr :: task_transition and snap :: task_snapshot and evs now
  assume a: "sq_inv cd s" "sq_view cd s (tr_task_id tr) = Some (snap, evs)"
    "snap_revision snap = tr_expected_revision tr" "snap_state snap \<notin> set (tr_allowed_states tr)"
  then obtain row where "select_task (cd_uuid cd (tr_task_id tr)) s = Some row" "row_snapshot cd row = Inr snap"
    by (cases rule: sq_view_cases [of cd s "tr_task_id tr"]) auto
  with a(3,4) show "\<exists>msg. op_append (sq_ops cd) now tr s = (Inl (InvalidTransition msg), s)"
    by (simp add: sq_ops_def sq_append_def in_tx_def)
next
  fix s and tr :: task_transition and snap :: task_snapshot and evs now
  assume a: "sq_inv cd s" "sq_view cd s (tr_task_id tr) = Some (snap, evs)"
    "snap_revision snap = tr_expected_revision tr" "snap_state snap \<in> set (tr_allowed_states tr)"
    "snap_terminal_at snap = None" "snap_revision snap < seq_limit" "snap_last_seq snap < seq_limit"
  then obtain row where row: "select_task (cd_uuid cd (tr_task_id tr)) s = Some row" "row_snapshot cd row = Inr snap"
    by (cases rule: sq_view_cases [of cd s "tr_task_id tr"]) auto
  obtain x where x: "cd_kind cd (tr_event_kind tr) = Inr x"
    "sq_append cd no_fault now tr s =
      (Inr \<lparr>at_snapshot = advance now tr snap, at_event = next_event now tr snap\<rparr>, appended cd now tr snap x s)"
    using sq_append_success [OF codec a(1) row a(3-7), of now] by blast
  with appended_inv [OF codec a(1) row a(5-7) x(1)] appended_keyed [OF codec a(1) row a(5)]
    appended_view [OF codec a(1,2,5,7) x(1)]
  show "\<exists>s'. op_append (sq_ops cd) now tr s =
      (Inr \<lparr>at_snapshot = advance now tr snap, at_event = next_event now tr snap\<rparr>, s') \<and>
      sq_inv cd s' \<and> sq_keyed cd s' = sq_keyed cd s \<and>
      sq_view cd s' = (sq_view cd s)(tr_task_id tr \<mapsto> (advance now tr snap, evs @ [next_event now tr snap]))"
    by (simp add: sq_ops_def)
next
  fix s t and snap :: task_snapshot and evs and n after :: nat
  assume a: "sq_inv cd s" "sq_view cd s t = Some (snap, evs)" "n \<le> 10000" "after \<le> seq_limit"
  let ?rows = "filter (\<lambda>r. er_task_id r = cd_uuid cd t) (db_events s)"
  from a obtain evs': "try_collect (row_event cd t) ?rows = Inr evs"
    by (cases rule: sq_view_cases [of cd s t]) auto
  have "filter (\<lambda>r. er_task_id r = cd_uuid cd t \<and> er_seq r > u64_as_i64 after) (db_events s) =
      filter (\<lambda>r. er_seq r > u64_as_i64 after) ?rows"
    by (simp add: conj_commute)
  moreover have "sort_key er_seq (filter (\<lambda>r. er_seq r > u64_as_i64 after) ?rows) =
      filter (\<lambda>r. er_seq r > u64_as_i64 after) ?rows"
    by (rule sort_key_id_if_sorted, rule sorted_filter) (use a(1) in \<open>simp add: sq_inv_def\<close>)
  moreover have "try_collect (row_event cd t) (take n (filter (\<lambda>r. er_seq r > u64_as_i64 after) ?rows)) =
      Inr (take n (filter (\<lambda>ev. after < ev_seq ev) evs))"
  proof (rule try_collect_take_filter [OF evs'])
    fix r ev
    assume r: "r \<in> set ?rows" "row_event cd t r = Inr ev"
    then have "ev_seq ev = i64_as_u64 (er_seq r)" by (auto simp: row_event_def rbind_Inr_iff)
    moreover have "0 \<le> er_seq r" using a(1) r(1) by (auto simp: sq_inv_def)
    ultimately show "er_seq r > u64_as_i64 after \<longleftrightarrow> after < ev_seq ev"
      using a(4) by (auto simp: i64_as_u64_def u64_as_i64_def seq_limit_def)
  qed
  ultimately show "op_events_after (sq_ops cd) t after n s = Inr (take n (filter (\<lambda>ev. after < ev_seq ev) evs))"
    using a(3) by (simp add: sq_ops_def sq_events_after_def)
next
  fix s and nt :: new_task and t now
  assume a: "sq_inv cd s" "sq_keyed cd s (nt_caller_id nt, nt_idempotency_key nt) = Some t"
  then obtain row snap where row: "select_key (nt_caller_id nt) (nt_idempotency_key nt) s = Some row"
    "row_snapshot cd row = Inr snap" "t = snap_task_id snap"
    by (auto simp: sq_keyed_def split: option.splits sum.splits)
  have in_db: "row \<in> set (db_tasks s)" using select_key_in [OF row(1)] by simp
  with a(1) have "tk_task_id row = cd_uuid cd t"
    using row_ok_snapshot(1) [of cd row snap] row(2,3) by (simp add: sq_inv_def)
  then have "select_task (cd_uuid cd t) s = Some row"
    using a(1) in_db find_unique [of tk_task_id "db_tasks s" row] by (simp add: select_task_def sq_inv_def)
  with a(1) row obtain evs where "sq_view cd s t = Some (snap, evs)"
    by (cases rule: sq_view_cases [of cd s t]) auto
  with row show "\<exists>snap evs. sq_view cd s t = Some (snap, evs) \<and>
      op_create (sq_ops cd) now nt s = (Inr (CtExisting snap), s)"
    by (auto simp: sq_ops_def sq_create_def in_tx_def)
next
  fix s and nt :: new_task and now
  assume a: "sq_inv cd s" "sq_keyed cd s (nt_caller_id nt, nt_idempotency_key nt) = None"
    "sq_view cd s (nt_task_id nt) = None"
  have free: "select_task (cd_uuid cd (nt_task_id nt)) s = None"
    using a(1,3) by (cases rule: sq_view_cases [of cd s "nt_task_id nt"]) auto
  have key: "select_key (nt_caller_id nt) (nt_idempotency_key nt) s = None"
    by (rule sq_keyed_None [OF a(1,2)])
  let ?s' = "s\<lparr>db_tasks := db_tasks s @ [new_row cd now nt]\<rparr>"
  have "op_create (sq_ops cd) now nt s = (Inr (CtCreated (initial_snapshot now nt)), ?s')"
    by (simp add: sq_ops_def sq_create_def in_tx_def key insert_task_def free fetch_one_def
        select_task_append row_snapshot_new [OF codec])
  moreover have "sq_keyed cd ?s' = (sq_keyed cd s)((nt_caller_id nt, nt_idempotency_key nt) \<mapsto> nt_task_id nt)"
    using key by (auto simp: sq_keyed_def fun_eq_iff select_key_append row_snapshot_new [OF codec] split: option.split)
  ultimately show "\<exists>s'. op_create (sq_ops cd) now nt s = (Inr (CtCreated (initial_snapshot now nt)), s') \<and>
      sq_inv cd s' \<and> sq_view cd s' = (sq_view cd s)(nt_task_id nt \<mapsto> (initial_snapshot now nt, [])) \<and>
      sq_keyed cd s' = (sq_keyed cd s)((nt_caller_id nt, nt_idempotency_key nt) \<mapsto> nt_task_id nt)"
    using created_inv [OF codec a(1) free key] created_view [OF codec a(1) free] by blast
next
  fix s and nt :: new_task and e now
  assume a: "sq_inv cd s" "sq_keyed cd s (nt_caller_id nt, nt_idempotency_key nt) = None"
    "sq_view cd s (nt_task_id nt) = Some e"
  obtain row where "select_task (cd_uuid cd (nt_task_id nt)) s = Some row"
    using a(1,3) by (cases rule: sq_view_cases [of cd s "nt_task_id nt"]) auto
  with sq_keyed_None [OF a(1,2)] show "\<exists>err. op_create (sq_ops cd) now nt s = (Inl err, s)"
    by (simp add: sq_ops_def sq_create_def in_tx_def insert_task_def)
qed

context sqlite_codec
begin

lemma contract: "guarded_store (sq_ops cd) (sq_inv cd) (sq_view cd) (sq_keyed cd) (\<lambda>_ _. True)"
  by (rule sq.guarded_store_axioms)

end

section \<open>Properties\<close>

text \<open>
  C13: the SQLite backend satisfies the store contract, with every creation allowed: whatever
  the text forms of UUIDs, times and JSON documents are, as long as values survive them, its
  operations refine the abstract ones (reads return the stored snapshot, a transition is
  refused on a missing task, a stale revision or a state that is not allowed and otherwise
  advances the snapshot and appends one event, creation is idempotent per key and refused on
  a taken id). So everything proved of the core holds on top of it.
\<close>

theorem sqlite_satisfies_contract:
  assumes "codec_ok cd"
  shows "guarded_store (sq_ops cd) (sq_inv cd) (sq_view cd) (sq_keyed cd) (\<lambda>_ _. True)"
proof -
  from assms have "sqlite_codec cd" by unfold_locales
  then show ?thesis by (rule sqlite_codec.contract)
qed

text \<open>A concrete text form: UUIDs in unary, times as words that sort like them, documents as the
  values they encode.\<close>

definition demo_time :: "time \<Rightarrow> string" where
  "demo_time i = (if i < 0 then replicate (nat (- i)) CHR ''a'' @ ''b'' else replicate (Suc (nat i)) CHR ''c'')"

fun demo_parse_time :: "string \<Rightarrow> string + time" where
  "demo_parse_time [] = Inl ''empty''"
| "demo_parse_time (c # s) = (if c = CHR ''c'' then Inr (int (length s)) else Inr (- int (length s)))"

definition demo_codec :: "core_event_kind codec" where
  "demo_codec =
     \<lparr>cd_uuid = (\<lambda>u. replicate (unat u) CHR ''x''), cd_parse_uuid = (\<lambda>s. Inr (of_nat (length s))),
      cd_time = demo_time, cd_parse_time = demo_parse_time, cd_kind = Inr, cd_parse_kind = Inr,
      cd_constraint = ''constraint'', cd_row_not_found = ''no rows''\<rparr>"

lemma demo_time_parse: "demo_parse_time (demo_time i) = Inr i"
proof (cases "i < 0")
  case True
  then obtain n where n: "nat (- i) = Suc n" by (cases "nat (- i)") auto
  with True show ?thesis by (simp add: demo_time_def)
next
  case False
  then show ?thesis by (simp add: demo_time_def)
qed

lemma demo_codec_ok: "codec_ok demo_codec"
  by (simp add: codec_ok_def demo_codec_def demo_time_parse)

interpretation demo_sq: sqlite_codec demo_codec
  by unfold_locales (rule demo_codec_ok)

lemma replicate_less: "replicate m c < replicate n (c :: char) \<longleftrightarrow> m < n"
proof (induction m arbitrary: n)
  case 0
  show ?case by (cases n) auto
next
  case (Suc m)
  then show ?case by (cases n) auto
qed

lemma replicate_end_less:
  "replicate m CHR ''a'' @ ''b'' < replicate n CHR ''a'' @ ''b'' \<longleftrightarrow> n < m"
proof (induction m arbitrary: n)
  case 0
  show ?case by (cases n) (auto simp: less_char_def)
next
  case (Suc m)
  then show ?case by (cases n) (auto simp: less_char_def)
qed

lemma demo_codec_ordered: "codec_ordered demo_codec"
proof -
  have mixed: "replicate (Suc m) CHR ''a'' @ ''b'' < replicate (Suc n) CHR ''c''"
    "\<not> replicate (Suc n) CHR ''c'' < replicate (Suc m) CHR ''a'' @ ''b''" for m n
    by (simp_all add: less_char_def)
  have suc: "\<exists>m. nat (- i) = Suc m" if "i < 0" for i :: int
    using that by (cases "nat (- i)") auto
  have "demo_time a < demo_time b \<longleftrightarrow> a < b" for a b
  proof (cases "a < 0"; cases "b < 0")
    assume "a < 0" "b < 0"
    then show ?thesis using replicate_end_less [of "nat (- a)" "nat (- b)"] by (auto simp: demo_time_def)
  next
    assume "a < 0" "\<not> b < 0"
    then show ?thesis using suc [of a] mixed(1) by (auto simp: demo_time_def simp del: replicate_Suc)
  next
    assume "\<not> a < 0" "b < 0"
    then show ?thesis using suc [of b] mixed(2) by (auto simp: demo_time_def simp del: replicate_Suc)
  next
    assume "\<not> a < 0" "\<not> b < 0"
    then show ?thesis
      using replicate_less [of "Suc (nat a)" _ "Suc (nat b)"] by (auto simp: demo_time_def simp del: replicate_Suc)
  qed
  then show ?thesis by (simp add: codec_ordered_def demo_codec_def)
qed

theorem sqlite_satisfies_contract_witness:
  "guarded_store (sq_ops demo_codec) (sq_inv demo_codec) (sq_view demo_codec) (sq_keyed demo_codec) (\<lambda>_ _. True)"
  using sqlite_satisfies_contract [OF demo_codec_ok] .

definition demo_db :: "core_event_kind db" where
  "demo_db = snd (sq_create demo_codec no_fault 0 demo_task empty_db)"

lemma in_tx_rollback: "in_tx db r = (Inl e, db') \<Longrightarrow> db' = db"
  by (auto simp: in_tx_def split: sum.splits)

lemma try_stmt_failed: "fl i = Some e \<Longrightarrow> try_stmt fl i = Inl (db_error e)"
  by (simp add: try_stmt_def)

lemma try_stmt_passed: "fl i = None \<Longrightarrow> try_stmt fl i = Inr ()"
  by (simp add: try_stmt_def)

lemma sq_append_passed:
  assumes "sq_append cd fl now tr db = (Inr ap, db')" "i < 6"
  shows "fl i = None"
proof (rule ccontr)
  assume "fl i \<noteq> None"
  then obtain e where e: "fl i = Some e" by auto
  from assms(2) consider "i = 0" | "i = 1" | "i = 2" | "i = 3" | "i = 4" | "i = 5" by linarith
  then show False
    using assms(1) e
    by cases (auto simp: sq_append_def in_tx_def rbind_Inr_iff Let_def try_stmt_failed
        split: sum.splits if_splits prod.splits)
qed

lemma sq_create_passed:
  assumes "sq_create cd fl now nt db = (Inr r, db')" "i < 3"
  shows "fl i = None"
proof (rule ccontr)
  assume "fl i \<noteq> None"
  then obtain e where e: "fl i = Some e" by auto
  from assms(2) consider "i = 0" | "i = 1" | "i = 2" by linarith
  then show False
    using assms(1) e
    by cases (auto simp: sq_create_def in_tx_def rbind_Inr_iff try_stmt_failed split: sum.splits option.splits)
qed

lemma sq_create_same:
  assumes "sq_create cd fl now nt db = (Inr r, db')"
  shows "sq_create cd no_fault now nt db = (Inr r, db')"
proof -
  have "fl 0 = None" "fl 1 = None" "fl 2 = None" using sq_create_passed [OF assms] by auto
  then show ?thesis
    using assms
    by (auto simp: sq_create_def in_tx_def rbind_Inr_iff try_stmt_passed split: sum.splits option.splits)
qed

text \<open>
  C14: transitions and creations are atomic. Whichever of its statements fails, an operation
  that returns an error leaves the database as it was; one that succeeds has run every
  statement and gives the result and the database of the run without failures.
\<close>

theorem sqlite_atomic:
  "(case sq_append cd fl now tr db of
      (Inl e, db') \<Rightarrow> db' = db
    | (Inr ap, db') \<Rightarrow> sq_append cd no_fault now tr db = (Inr ap, db') \<and> (\<forall>i\<in>{0..<6}. fl i = None)) \<and>
   (case sq_create cd fl now nt db of
      (Inl e, db') \<Rightarrow> db' = db
    | (Inr r, db') \<Rightarrow> sq_create cd no_fault now nt db = (Inr r, db') \<and> (\<forall>i\<in>{0..<3}. fl i = None))"
proof -
  have "db' = db" if "sq_append cd fl now tr db = (Inl e, db')" for e db'
    using that unfolding sq_append_def by (rule in_tx_rollback)
  moreover have "sq_append cd no_fault now tr db = (Inr ap, db') \<and> (\<forall>i\<in>{0..<6}. fl i = None)"
    if ok: "sq_append cd fl now tr db = (Inr ap, db')" for ap db'
  proof -
    note passed = sq_append_passed [OF ok]
    have eqs: "try_stmt fl 0 = Inr ()" "try_stmt fl 1 = Inr ()" "try_stmt fl 2 = Inr ()"
      "try_stmt fl 3 = Inr ()" "try_stmt fl 4 = Inr ()" "try_stmt fl 5 = Inr ()"
      using passed by (simp_all add: try_stmt_passed)
    have "sq_append cd fl now tr db = sq_append cd no_fault now tr db"
      unfolding sq_append_def eqs try_stmt_no_fault ..
    with ok passed show ?thesis by simp
  qed
  moreover have "db' = db" if "sq_create cd fl now nt db = (Inl e, db')" for e db'
    using that unfolding sq_create_def by (rule in_tx_rollback)
  moreover have "sq_create cd no_fault now nt db = (Inr r, db') \<and> (\<forall>i\<in>{0..<3}. fl i = None)"
    if "sq_create cd fl now nt db = (Inr r, db')" for r db'
    using that sq_create_same sq_create_passed by auto
  ultimately show ?thesis by (auto split: prod.split sum.split)
qed

theorem sqlite_atomic_witness:
  "fst (sq_append demo_codec (\<lambda>i. if i = 4 then Some ''disk full'' else None) 1 demo_transition demo_db) =
     Inl (Unavailable ''disk full'') \<and>
   snd (sq_append demo_codec (\<lambda>i. if i = 4 then Some ''disk full'' else None) 1 demo_transition demo_db) = demo_db"
proof -
  let ?r = "sq_append demo_codec (\<lambda>i. if i = 4 then Some ''disk full'' else None) 1 demo_transition demo_db"
  obtain db' where r: "?r = (fst ?r, db')" by (metis prod.collapse)
  have err: "fst ?r = Inl (Unavailable ''disk full'')"
    by code_simp
  have "db' = demo_db"
    using sqlite_atomic [where cd = demo_codec and fl = "\<lambda>i. if i = 4 then Some ''disk full'' else None"
        and now = 1 and tr = demo_transition and db = demo_db, THEN conjunct1]
    by (subst (asm) r, subst (asm) err) simp
  with r err show ?thesis by (metis snd_conv)
qed

text \<open>
  Leases of the SQLite backend. After an owner acquires the lease of a task at \<open>now\<close>
  for a duration \<open>d\<close>, another owner is refused up to and including \<open>now + d\<close> and
  succeeds afterwards. (The in-memory store already yields at \<open>now + d\<close>.)
\<close>

theorem sqlite_lease_exclusive:
  assumes "codec_ordered cd"
    and "sq_acquire_lease cd from_std fl now l db = (Inr True, db')" "from_std (lease_expires_in l) = Inr d"
    and "lease_task_id l' = lease_task_id l" "lease_owner_id l' \<noteq> lease_owner_id l"
    and "from_std (lease_expires_in l') = Inr d'" "fl' 0 = None"
  shows "fst (sq_acquire_lease cd from_std fl' later l' db') = Inr (now + d < later) \<and>
    (later \<le> now + d \<longrightarrow> snd (sq_acquire_lease cd from_std fl' later l' db') = db')"
proof -
  let ?k = "cd_uuid cd (lease_task_id l)"
  let ?row = "\<lparr>ls_task_id = ?k, ls_owner_id = lease_owner_id l, ls_expires_at = cd_time cd (now + d),
      ls_updated_at = cd_time cd now\<rparr>"
  have upd: "find (\<lambda>r. ls_task_id r = ?k) (map (\<lambda>r. if ls_task_id r = ?k then ?row else r) rs) =
      map_option (\<lambda>_. ?row) (find (\<lambda>r. ls_task_id r = ?k) rs)" for rs
    by (induction rs) auto
  have "find (\<lambda>r. ls_task_id r = ?k) (db_leases db') = Some ?row"
    using assms(2,3)
    by (auto simp: sq_acquire_lease_def Let_def find_append upd split: option.splits if_splits)
  moreover have "cd_time cd (now + d) < cd_time cd later \<longleftrightarrow> now + d < later"
    using assms(1) by (simp add: codec_ordered_def)
  ultimately show ?thesis
    using assms(4-7) by (auto simp: sq_acquire_lease_def Let_def)
qed

definition lease_for :: "string \<Rightarrow> lease" where
  "lease_for owner = \<lparr>lease_task_id = 7, lease_owner_id = owner, lease_expires_in = 10\<rparr>"

lemma demo_db_acquire:
  "fst (sq_acquire_lease demo_codec (\<lambda>n. Inr (int n)) no_fault 0 (lease_for ''a'') demo_db) = Inr True"
  by code_simp

theorem sqlite_lease_exclusive_witness:
  "fst (sq_acquire_lease demo_codec (\<lambda>n. Inr (int n)) no_fault 10 (lease_for ''b'')
     (snd (sq_acquire_lease demo_codec (\<lambda>n. Inr (int n)) no_fault 0 (lease_for ''a'') demo_db))) = Inr False"
proof -
  have acq: "sq_acquire_lease demo_codec (\<lambda>n. Inr (int n)) no_fault 0 (lease_for ''a'') demo_db =
    (Inr True, snd (sq_acquire_lease demo_codec (\<lambda>n. Inr (int n)) no_fault 0 (lease_for ''a'') demo_db))"
    using demo_db_acquire by (metis prod.collapse)
  show ?thesis
    using sqlite_lease_exclusive [OF demo_codec_ordered acq, of 10 "lease_for ''b''" 10 no_fault 10]
    by (simp add: lease_for_def no_fault_def)
qed

text \<open>
  Replay past the signed range. \<open>events_after\<close> casts the sequence number to
  \<open>i64\<close>; from \<open>2^63\<close> on it turns negative, and the query returns the events from the
  first one on instead of none.
\<close>

theorem sqlite_replay_wraps:
  assumes "codec_ok cd" "sq_inv cd db" "sq_view cd db t = Some (snap, evs)"
    and "9223372036854775808 \<le> after" "after \<le> u64_max"
  shows "sq_events_after cd no_fault t after limit db = Inr (take (min limit 10000) evs)"
proof -
  let ?rows = "filter (\<lambda>r. er_task_id r = cd_uuid cd t) (db_events db)"
  from assms(2,3) have evs: "try_collect (row_event cd t) ?rows = Inr evs"
    by (cases rule: sq_view_cases [of cd db t]) auto
  have neg: "u64_as_i64 after < 0" using assms(4,5) by (simp add: u64_as_i64_def u64_max_def)
  have "filter (\<lambda>r. er_task_id r = cd_uuid cd t \<and> er_seq r > u64_as_i64 after) (db_events db) = ?rows"
  proof (rule filter_cong [OF refl])
    fix r
    assume "r \<in> set (db_events db)"
    with assms(2) have "0 \<le> er_seq r" by (simp add: sq_inv_def)
    with neg show "er_task_id r = cd_uuid cd t \<and> er_seq r > u64_as_i64 after \<longleftrightarrow> er_task_id r = cd_uuid cd t"
      by linarith
  qed
  moreover have "sort_key er_seq ?rows = ?rows"
    by (rule sort_key_id_if_sorted) (use assms(2) in \<open>simp add: sq_inv_def\<close>)
  moreover have "try_collect (row_event cd t) (take n ?rows) = Inr (take n evs)" for n
    using try_collect_take_filter [OF evs, of "\<lambda>_. True" "\<lambda>_. True" n] by simp
  ultimately show ?thesis by (simp add: sq_events_after_def)
qed

theorem sqlite_replay_wraps_witness:
  "sq_events_after demo_codec no_fault 7 9223372036854775808 5
     (snd (sq_append demo_codec no_fault 1 demo_transition demo_db)) =
   Inr [next_event 1 demo_transition (initial_snapshot 0 demo_task)]"
proof -
  have create: "sq_create demo_codec no_fault 0 demo_task empty_db =
      (Inr (CtCreated (initial_snapshot 0 demo_task)), demo_db)"
  proof -
    have "fst (sq_create demo_codec no_fault 0 demo_task empty_db) = Inr (CtCreated (initial_snapshot 0 demo_task))"
      by code_simp
    then show ?thesis by (metis demo_db_def prod.collapse)
  qed
  have inv0: "sq_inv demo_codec empty_db" by (simp add: sq_inv_def empty_db_def)
  have none: "sq_keyed demo_codec empty_db k = None" "sq_view demo_codec empty_db t = None" for k t
    by (simp_all add: sq_keyed_def sq_view_def select_key_def select_task_def empty_db_def)
  obtain inv: "sq_inv demo_codec demo_db"
    and view: "sq_view demo_codec demo_db 7 = Some (initial_snapshot 0 demo_task, [])"
    using demo_sq.sq.create_fresh [where nt = demo_task and now = 0, OF inv0 none(1) none(2)] create
    by (auto simp: sq_ops_def demo_task_def)
  have tr: "tr_task_id demo_transition = 7" "tr_expected_revision demo_transition = 0"
    "tr_allowed_states demo_transition = [Created]" by (simp_all add: demo_transition_def)
  obtain db' where db': "sq_append demo_codec no_fault 1 demo_transition demo_db = (Inr \<lparr>at_snapshot =
        advance 1 demo_transition (initial_snapshot 0 demo_task),
        at_event = next_event 1 demo_transition (initial_snapshot 0 demo_task)\<rparr>, db')"
    "sq_inv demo_codec db'"
    "sq_view demo_codec db' 7 = Some (advance 1 demo_transition (initial_snapshot 0 demo_task),
       [next_event 1 demo_transition (initial_snapshot 0 demo_task)])"
    using demo_sq.sq.append_ok [OF inv, of demo_transition "initial_snapshot 0 demo_task" "[]" 1] view tr
    by (auto simp: sq_ops_def seq_limit_def)
  show ?thesis
    using sqlite_replay_wraps [OF demo_codec_ok db'(2,3), of 9223372036854775808 5] db'(1)
    by (simp add: u64_max_def)
qed

end
