(* ===== verification/Postgres_Store.thy ===== *)
theory Postgres_Store
  imports Sqlite_Store
begin

text \<open>
  The crate \<open>postgres-task-store-adapter\<close>. Its tables have native column types, so a row
  holds identifiers and instants and only the state is text. What belongs to PostgreSQL and
  to the driver \<open>sqlx\<close> is the record \<open>pg\<close>: the instant a \<open>TIMESTAMPTZ\<close> column
  keeps, the JSON document of an event and whether \<open>JSONB\<close> takes it, which texts a
  \<open>TEXT\<close> column refuses, the sum of an instant and a number of seconds, and two error
  texts. The statements and their failures are as in the theory of the SQLite backend, and
  the two backends are compared through the embedding \<open>enc_db\<close> of native rows as text
  rows.
\<close>

section \<open>Tables\<close>

record pg_task_row =
  pt_task_id :: uuid
  pt_session_id :: "uuid option"
  pt_agent_id :: string
  pt_caller_id :: string
  pt_idempotency_key :: string
  pt_state :: string
  pt_revision :: int
  pt_last_seq :: int
  pt_deadline_at :: "time option"
  pt_created_at :: time
  pt_updated_at :: time
  pt_terminal_at :: "time option"

record 'x pg_event_row =
  pev_task_id :: uuid
  pev_seq :: int
  pev_event_kind_json :: 'x
  pev_created_at :: time

record pg_lease_row =
  pl_task_id :: uuid
  pl_owner_id :: string
  pl_expires_at :: time
  pl_updated_at :: time

record 'x pg_db =
  pg_tasks :: "pg_task_row list"
  pg_events :: "'x pg_event_row list"
  pg_leases :: "pg_lease_row list"

text \<open>The types \<open>'v\<close> and \<open>'x\<close> are a JSON value of \<open>serde_json\<close> and a \<open>JSONB\<close> document.\<close>

record ('v, 'x) pg =
  pg_time :: "time \<Rightarrow> time"
  pg_to_value :: "core_event_kind \<Rightarrow> string + 'v"
  pg_jsonb :: "'v \<Rightarrow> string + 'x"
  pg_from_value :: "'x \<Rightarrow> string + core_event_kind"
  pg_text_error :: "string \<Rightarrow> string option"
  pg_plus_secs :: "time \<Rightarrow> int \<Rightarrow> string + time"
  pg_constraint :: string
  pg_row_not_found :: string

section \<open>Connecting\<close>

definition pg_schema_char :: "char \<Rightarrow> bool" where
  "pg_schema_char c \<longleftrightarrow>
     (let n = (of_char c :: nat) in 48 \<le> n \<and> n \<le> 57 \<or> 65 \<le> n \<and> n \<le> 90 \<or> 97 \<le> n \<and> n \<le> 122) \<or> c = CHR ''_''"

definition validate_schema :: "string \<Rightarrow> store_error + string" where
  "validate_schema s =
     (if s = [] \<or> \<not> list_all pg_schema_char s
      then Inl (Internal ''schema must contain only [A-Za-z0-9_]'') else Inr s)"

definition pg_table :: "string \<Rightarrow> string \<Rightarrow> string" where
  "pg_table schema name = [CHR 0x22] @ schema @ [CHR 0x22] @ ''.'' @ [CHR 0x22] @ name @ [CHR 0x22]"

definition pg_empty :: "'x pg_db" where
  "pg_empty = \<lparr>pg_tasks = [], pg_events = [], pg_leases = []\<rparr>"

text \<open>\<open>migrate\<close>: five statements, each of which creates what is not there yet.\<close>

definition pg_migrate :: "(nat \<Rightarrow> string option) \<Rightarrow> 'x pg_db option \<Rightarrow> store_error + 'x pg_db" where
  "pg_migrate fl stored =
     rbind (try_collect (try_stmt fl) [0..<5]) (\<lambda>_.
       Inr (case stored of None \<Rightarrow> pg_empty | Some db \<Rightarrow> db))"

text \<open>\<open>connect\<close>: \<open>pool\<close> is the outcome of opening the pool, \<open>stored\<close> says what a schema holds.\<close>

definition pg_connect ::
  "string option \<Rightarrow> (nat \<Rightarrow> string option) \<Rightarrow> (string \<Rightarrow> 'x pg_db option) \<Rightarrow> string \<Rightarrow>
     store_error + string \<times> 'x pg_db" where
  "pg_connect pool fl stored schema =
     rbind (validate_schema schema) (\<lambda>s.
     case pool of
       Some e \<Rightarrow> Inl (db_error e)
     | None \<Rightarrow> rbind (pg_migrate fl (stored s)) (\<lambda>db. Inr (s, db)))"

section \<open>Rows and values\<close>

definition pg_state :: "string \<Rightarrow> store_error + task_state" where
  "pg_state s =
     (if s = ''created'' then Inr Created
      else if s = ''accepted'' then Inr Accepted
      else if s = ''running'' then Inr Running
      else if s = ''waiting_for_input'' then Inr WaitingForInput
      else if s = ''cancel_requested'' then Inr CancelRequested
      else if s = ''completed'' then Inr Completed
      else if s = ''failed'' then Inr Failed
      else if s = ''cancelled'' then Inr Cancelled
      else Inl (Corrupt (''unknown state: '' @ s)))"

fun pg_db_state :: "task_state \<Rightarrow> string" where
  "pg_db_state Created = ''created''"
| "pg_db_state Accepted = ''accepted''"
| "pg_db_state Running = ''running''"
| "pg_db_state WaitingForInput = ''waiting_for_input''"
| "pg_db_state CancelRequested = ''cancel_requested''"
| "pg_db_state Completed = ''completed''"
| "pg_db_state Failed = ''failed''"
| "pg_db_state Cancelled = ''cancelled''"

definition pg_snapshot :: "pg_task_row \<Rightarrow> store_error + task_snapshot" where
  "pg_snapshot row =
     rbind (pg_state (pt_state row)) (\<lambda>state.
       Inr \<lparr>snap_task_id = pt_task_id row, snap_session_id = pt_session_id row,
            snap_agent_id = pt_agent_id row, snap_caller_id = pt_caller_id row, snap_state = state,
            snap_revision = i64_as_u64 (pt_revision row), snap_last_seq = i64_as_u64 (pt_last_seq row),
            snap_created_at = pt_created_at row, snap_updated_at = pt_updated_at row,
            snap_terminal_at = pt_terminal_at row\<rparr>)"

definition pg_row_event :: "('v, 'x) pg \<Rightarrow> task_id \<Rightarrow> 'x pg_event_row \<Rightarrow> store_error + core_event" where
  "pg_row_event pg t row =
     rbind (map_err Corrupt (pg_from_value pg (pev_event_kind_json row))) (\<lambda>kind.
       Inr \<lparr>ev_task_id = t, ev_seq = i64_as_u64 (pev_seq row), ev_at = pev_created_at row, ev_kind = kind\<rparr>)"

section \<open>Statements\<close>

definition pg_fetch_one :: "('v, 'x) pg \<Rightarrow> 'r option \<Rightarrow> store_error + 'r" where
  "pg_fetch_one pg r = ok_or r (db_error (pg_row_not_found pg))"

text \<open>Binding texts: the first that a \<open>TEXT\<close> value cannot hold fails the statement.\<close>

definition pg_bind :: "('v, 'x) pg \<Rightarrow> string list \<Rightarrow> store_error + unit" where
  "pg_bind pg texts =
     (case List.map_filter (pg_text_error pg) texts of [] \<Rightarrow> Inr () | e # _ \<Rightarrow> Inl (db_error e))"

definition pg_select_task :: "task_id \<Rightarrow> 'x pg_db \<Rightarrow> pg_task_row option" where
  "pg_select_task t db = find (\<lambda>r. pt_task_id r = t) (pg_tasks db)"

definition pg_select_key :: "string \<Rightarrow> string \<Rightarrow> 'x pg_db \<Rightarrow> pg_task_row option" where
  "pg_select_key c k db = find (\<lambda>r. pt_caller_id r = c \<and> pt_idempotency_key r = k) (pg_tasks db)"

text \<open>\<open>INSERT ... ON CONFLICT(caller_id,idempotency_key) DO NOTHING\<close> with the number of rows
  inserted. The named constraint is looked at first; a taken primary key is an error.\<close>

definition pg_insert_task :: "('v, 'x) pg \<Rightarrow> pg_task_row \<Rightarrow> 'x pg_db \<Rightarrow> store_error + nat \<times> 'x pg_db" where
  "pg_insert_task pg row db =
     (if pg_select_key (pt_caller_id row) (pt_idempotency_key row) db \<noteq> None then Inr (0, db)
      else if pg_select_task (pt_task_id row) db \<noteq> None then Inl (db_error (pg_constraint pg))
      else Inr (1, db\<lparr>pg_tasks := pg_tasks db @ [row]\<rparr>))"

definition pg_update_task ::
  "(pg_task_row \<Rightarrow> pg_task_row) \<Rightarrow> task_id \<Rightarrow> int \<Rightarrow> 'x pg_db \<Rightarrow> nat \<times> 'x pg_db" where
  "pg_update_task f t rv db =
     (length (filter (\<lambda>r. pt_task_id r = t \<and> pt_revision r = rv) (pg_tasks db)),
      db\<lparr>pg_tasks := map (\<lambda>r. if pt_task_id r = t \<and> pt_revision r = rv then f r else r) (pg_tasks db)\<rparr>)"

definition pg_insert_event :: "('v, 'x) pg \<Rightarrow> 'x pg_event_row \<Rightarrow> 'x pg_db \<Rightarrow> store_error + 'x pg_db" where
  "pg_insert_event pg row db =
     (if find (\<lambda>r. pev_task_id r = pev_task_id row \<and> pev_seq r = pev_seq row) (pg_events db) \<noteq> None \<or>
         pg_select_task (pev_task_id row) db = None
      then Inl (db_error (pg_constraint pg))
      else Inr (db\<lparr>pg_events := pg_events db @ [row]\<rparr>))"

text \<open>\<open>pool.begin()\<close> up to \<open>tx.commit()\<close>: dropping the transaction rolls it back.\<close>

definition pg_in_tx :: "'x pg_db \<Rightarrow> store_error + 'a \<times> 'x pg_db \<Rightarrow> (store_error + 'a) \<times> 'x pg_db" where
  "pg_in_tx db r = (case r of Inl e \<Rightarrow> (Inl e, db) | Inr (a, db') \<Rightarrow> (Inr a, db'))"

section \<open>Operations\<close>

definition pg_ping :: "(nat \<Rightarrow> string option) \<Rightarrow> store_error + unit" where
  "pg_ping fl = try_stmt fl 0"

definition pg_new_row :: "('v, 'x) pg \<Rightarrow> time \<Rightarrow> new_task \<Rightarrow> pg_task_row" where
  "pg_new_row pg now task =
     \<lparr>pt_task_id = nt_task_id task, pt_session_id = nt_session_id task,
      pt_agent_id = nt_agent_id task, pt_caller_id = nt_caller_id task,
      pt_idempotency_key = nt_idempotency_key task, pt_state = ''created'',
      pt_revision = 0, pt_last_seq = 0,
      pt_deadline_at = map_option (pg_time pg) (nt_deadline_at task),
      pt_created_at = pg_time pg now, pt_updated_at = pg_time pg now, pt_terminal_at = None\<rparr>"

text \<open>\<open>create_or_get_idempotent\<close>: an insertion and a query, each a transaction of its own.\<close>

definition pg_create_insert ::
  "('v, 'x) pg \<Rightarrow> (nat \<Rightarrow> string option) \<Rightarrow> time \<Rightarrow> new_task \<Rightarrow> 'x pg_db \<Rightarrow> store_error + nat \<times> 'x pg_db" where
  "pg_create_insert pg fl now task db =
     rbind (try_stmt fl 0) (\<lambda>_.
     rbind (pg_bind pg [nt_agent_id task, nt_caller_id task, nt_idempotency_key task]) (\<lambda>_.
       pg_insert_task pg (pg_new_row pg now task) db))"

definition pg_create_select ::
  "('v, 'x) pg \<Rightarrow> (nat \<Rightarrow> string option) \<Rightarrow> new_task \<Rightarrow> nat \<Rightarrow> 'x pg_db \<Rightarrow> store_error + create_task_result" where
  "pg_create_select pg fl task affected db =
     rbind (try_stmt fl 1) (\<lambda>_.
     rbind (pg_bind pg [nt_caller_id task, nt_idempotency_key task]) (\<lambda>_.
     rbind (pg_fetch_one pg (pg_select_key (nt_caller_id task) (nt_idempotency_key task) db)) (\<lambda>row.
     rbind (pg_snapshot row) (\<lambda>snap.
       Inr (if affected = 1 then CtCreated snap else CtExisting snap)))))"

definition pg_create ::
  "('v, 'x) pg \<Rightarrow> (nat \<Rightarrow> string option) \<Rightarrow> time \<Rightarrow> new_task \<Rightarrow> 'x pg_db \<Rightarrow>
     (store_error + create_task_result) \<times> 'x pg_db" where
  "pg_create pg fl now task db =
     (case pg_create_insert pg fl now task db of
        Inl e \<Rightarrow> (Inl e, db)
      | Inr (affected, db1) \<Rightarrow> (pg_create_select pg fl task affected db1, db1))"

definition pg_get_snapshot ::
  "(nat \<Rightarrow> string option) \<Rightarrow> task_id \<Rightarrow> 'x pg_db \<Rightarrow> store_error + task_snapshot option" where
  "pg_get_snapshot fl t db =
     rbind (try_stmt fl 0) (\<lambda>_. transpose_opt pg_snapshot (pg_select_task t db))"

definition pg_transition_row ::
  "('v, 'x) pg \<Rightarrow> time \<Rightarrow> task_transition \<Rightarrow> nat \<Rightarrow> nat \<Rightarrow> pg_task_row \<Rightarrow> pg_task_row" where
  "pg_transition_row pg now tr revision seq row =
     row\<lparr>pt_state := pg_db_state (tr_next_state tr), pt_revision := u64_as_i64 revision,
         pt_last_seq := u64_as_i64 seq, pt_updated_at := pg_time pg now,
         pt_terminal_at := (case pt_terminal_at row of
            Some at \<Rightarrow> Some at
          | None \<Rightarrow> if terminal (tr_next_state tr) then Some (pg_time pg now) else None)\<rparr>"

definition pg_append ::
  "('v, 'x) pg \<Rightarrow> (nat \<Rightarrow> string option) \<Rightarrow> time \<Rightarrow> task_transition \<Rightarrow> 'x pg_db \<Rightarrow>
     (store_error + applied_transition) \<times> 'x pg_db" where
  "pg_append pg fl now tr db = pg_in_tx db (
     rbind (try_stmt fl 0) (\<lambda>_.
     rbind (try_stmt fl 1) (\<lambda>_.
     rbind (ok_or (pg_select_task (tr_task_id tr) db) (NotFound (tr_task_id tr))) (\<lambda>row.
     rbind (pg_snapshot row) (\<lambda>current.
     if snap_revision current \<noteq> tr_expected_revision tr then Inl Conflict
     else if snap_state current \<notin> set (tr_allowed_states tr)
     then Inl (InvalidTransition (''current='' @ debug_state (snap_state current)))
     else
       (let seq = u64_add (snap_last_seq current) 1; revision = u64_add (snap_revision current) 1 in
        rbind (try_stmt fl 2) (\<lambda>_.
        case pg_update_task (pg_transition_row pg now tr revision seq) (tr_task_id tr)
               (u64_as_i64 (snap_revision current)) db of
          (updated, db1) \<Rightarrow>
            if updated \<noteq> 1 then Inl Conflict
            else
              rbind (map_err Internal (pg_to_value pg (tr_event_kind tr))) (\<lambda>payload.
              rbind (try_stmt fl 3) (\<lambda>_.
              rbind (map_err db_error (pg_jsonb pg payload)) (\<lambda>document.
              rbind (pg_insert_event pg \<lparr>pev_task_id = tr_task_id tr, pev_seq = u64_as_i64 seq,
                       pev_event_kind_json = document, pev_created_at = pg_time pg now\<rparr> db1) (\<lambda>db2.
              rbind (try_stmt fl 4) (\<lambda>_.
              rbind (pg_fetch_one pg (pg_select_task (tr_task_id tr) db2)) (\<lambda>row.
              rbind (pg_snapshot row) (\<lambda>snap.
              rbind (try_stmt fl 5) (\<lambda>_.
                Inr (\<lparr>at_snapshot = snap,
                      at_event = \<lparr>ev_task_id = tr_task_id tr, ev_seq = seq, ev_at = now,
                                  ev_kind = tr_event_kind tr\<rparr>\<rparr>, db2))))))))))))))))"

definition pg_events_after ::
  "('v, 'x) pg \<Rightarrow> (nat \<Rightarrow> string option) \<Rightarrow> task_id \<Rightarrow> event_seq \<Rightarrow> nat \<Rightarrow> 'x pg_db \<Rightarrow>
     store_error + core_event list" where
  "pg_events_after pg fl t after limit db =
     rbind (try_stmt fl 0) (\<lambda>_.
       try_collect (pg_row_event pg t)
         (take (min limit 10000)
           (sort_key pev_seq (filter (\<lambda>r. pev_task_id r = t \<and> pev_seq r > u64_as_i64 after) (pg_events db)))))"

text \<open>Whole seconds of a duration, as \<open>i64\<close>; here \<open>now\<close> is the clock of the database.\<close>

definition as_secs_i64 :: "nat \<Rightarrow> int" where
  "as_secs_i64 d = u64_as_i64 (d div 1000000000)"

definition pg_acquire_lease ::
  "('v, 'x) pg \<Rightarrow> (nat \<Rightarrow> string option) \<Rightarrow> time \<Rightarrow> lease \<Rightarrow> 'x pg_db \<Rightarrow> (store_error + bool) \<times> 'x pg_db" where
  "pg_acquire_lease pg fl now l db =
     (case rbind (try_stmt fl 0) (\<lambda>_. rbind (pg_bind pg [lease_owner_id l]) (\<lambda>_.
             map_err db_error (pg_plus_secs pg now (as_secs_i64 (lease_expires_in l))))) of
        Inl e \<Rightarrow> (Inl e, db)
      | Inr expires_at \<Rightarrow>
          (let row = \<lparr>pl_task_id = lease_task_id l, pl_owner_id = lease_owner_id l,
                      pl_expires_at = expires_at, pl_updated_at = now\<rparr>
           in case find (\<lambda>r. pl_task_id r = lease_task_id l) (pg_leases db) of
                None \<Rightarrow>
                  if pg_select_task (lease_task_id l) db = None then (Inl (db_error (pg_constraint pg)), db)
                  else (Inr True, db\<lparr>pg_leases := pg_leases db @ [row]\<rparr>)
              | Some old \<Rightarrow>
                  if pl_expires_at old < now \<or> pl_owner_id old = lease_owner_id l
                  then (Inr True, db\<lparr>pg_leases :=
                         map (\<lambda>r. if pl_task_id r = lease_task_id l then row else r) (pg_leases db)\<rparr>)
                  else (Inr False, db)))"

text \<open>An \<open>UPDATE\<close> computes the new expiry only for the rows it changes.\<close>

definition pg_renew_lease ::
  "('v, 'x) pg \<Rightarrow> (nat \<Rightarrow> string option) \<Rightarrow> time \<Rightarrow> lease \<Rightarrow> 'x pg_db \<Rightarrow> (store_error + bool) \<times> 'x pg_db" where
  "pg_renew_lease pg fl now l db =
     (let P = (\<lambda>r. pl_task_id r = lease_task_id l \<and> pl_owner_id r = lease_owner_id l \<and> now \<le> pl_expires_at r) in
      case rbind (try_stmt fl 0) (\<lambda>_. pg_bind pg [lease_owner_id l]) of
        Inl e \<Rightarrow> (Inl e, db)
      | Inr _ \<Rightarrow>
          if filter P (pg_leases db) = [] then (Inr False, db)
          else (case pg_plus_secs pg now (as_secs_i64 (lease_expires_in l)) of
                  Inl e \<Rightarrow> (Inl (db_error e), db)
                | Inr expires_at \<Rightarrow>
                    (Inr (length (filter P (pg_leases db)) = 1),
                     db\<lparr>pg_leases := map (\<lambda>r. if P r then r\<lparr>pl_expires_at := expires_at, pl_updated_at := now\<rparr>
                          else r) (pg_leases db)\<rparr>)))"

text \<open>\<open>DELETE ... WHERE ctid IN (SELECT ctid ... LIMIT n)\<close>: without an order, which of the
  matching rows go is the choice \<open>pick\<close> of the database.\<close>

definition pg_delete :: "(nat \<Rightarrow> 'r list \<Rightarrow> 'r list) \<Rightarrow> nat \<Rightarrow> ('r \<Rightarrow> bool) \<Rightarrow> 'r list \<Rightarrow> 'r list \<times> nat" where
  "pg_delete pick n P rows =
     (let gone = pick n (filter P rows); kept = filter (\<lambda>r. r \<notin> set gone) rows
      in (kept, length rows - length kept))"

definition pg_cascade :: "'x pg_db \<Rightarrow> pg_task_row list \<Rightarrow> 'x pg_db" where
  "pg_cascade db kept =
     (let ids = map pt_task_id kept in
      \<lparr>pg_tasks = kept,
       pg_events = filter (\<lambda>r. pev_task_id r \<in> set ids) (pg_events db),
       pg_leases = filter (\<lambda>r. pl_task_id r \<in> set ids) (pg_leases db)\<rparr>)"

definition pg_cleanup ::
  "('v, 'x) pg \<Rightarrow> (nat \<Rightarrow> 'x pg_event_row list \<Rightarrow> 'x pg_event_row list) \<Rightarrow>
     (nat \<Rightarrow> pg_task_row list \<Rightarrow> pg_task_row list) \<Rightarrow> (nat \<Rightarrow> string option) \<Rightarrow> time \<Rightarrow> time \<Rightarrow>
     retention_policy \<Rightarrow> 'x pg_db \<Rightarrow> (store_error + cleanup_report) \<times> 'x pg_db" where
  "pg_cleanup pg pick_events pick_tasks fl now1 now2 policy db =
     (case rbind (try_stmt fl 0) (\<lambda>_. map_err db_error (pg_plus_secs pg now1 (- as_secs_i64 (rp_event_ttl policy)))) of
        Inl e \<Rightarrow> (Inl e, db)
      | Inr oldest_event \<Rightarrow>
          (case pg_delete pick_events (rp_cleanup_batch_size policy)
                  (\<lambda>r. pev_created_at r < oldest_event) (pg_events db) of
             (events_kept, events_deleted) \<Rightarrow>
               (let db1 = db\<lparr>pg_events := events_kept\<rparr> in
                case rbind (try_stmt fl 1) (\<lambda>_.
                       map_err db_error (pg_plus_secs pg now2 (- as_secs_i64 (rp_task_ttl policy)))) of
                  Inl e \<Rightarrow> (Inl e, db1)
                | Inr oldest_task \<Rightarrow>
                    (case pg_delete pick_tasks (rp_cleanup_batch_size policy)
                            (\<lambda>r. case pt_terminal_at r of None \<Rightarrow> False | Some at \<Rightarrow> at < oldest_task) (pg_tasks db1) of
                       (tasks_kept, tasks_deleted) \<Rightarrow>
                         (Inr \<lparr>cr_tasks_deleted = tasks_deleted, cr_events_deleted = events_deleted,
                               cr_idempotency_deleted = tasks_deleted\<rparr>,
                          pg_cascade db1 tasks_kept)))))"

section \<open>Native rows as text rows\<close>

definition enc_task :: "'x codec \<Rightarrow> pg_task_row \<Rightarrow> task_row" where
  "enc_task cd row =
     \<lparr>tk_task_id = cd_uuid cd (pt_task_id row), tk_session_id = map_option (cd_uuid cd) (pt_session_id row),
      tk_agent_id = pt_agent_id row, tk_caller_id = pt_caller_id row,
      tk_idempotency_key = pt_idempotency_key row, tk_state = pt_state row,
      tk_revision = pt_revision row, tk_last_seq = pt_last_seq row,
      tk_deadline_at = map_option (cd_time cd) (pt_deadline_at row),
      tk_created_at = cd_time cd (pt_created_at row), tk_updated_at = cd_time cd (pt_updated_at row),
      tk_terminal_at = map_option (cd_time cd) (pt_terminal_at row)\<rparr>"

definition enc_event :: "'x codec \<Rightarrow> 'x pg_event_row \<Rightarrow> 'x event_row" where
  "enc_event cd row =
     \<lparr>er_task_id = cd_uuid cd (pev_task_id row), er_seq = pev_seq row,
      er_event_kind_json = pev_event_kind_json row, er_created_at = cd_time cd (pev_created_at row)\<rparr>"

definition enc_lease :: "'x codec \<Rightarrow> pg_lease_row \<Rightarrow> lease_row" where
  "enc_lease cd row =
     \<lparr>ls_task_id = cd_uuid cd (pl_task_id row), ls_owner_id = pl_owner_id row,
      ls_expires_at = cd_time cd (pl_expires_at row), ls_updated_at = cd_time cd (pl_updated_at row)\<rparr>"

definition enc_db :: "'x codec \<Rightarrow> 'x pg_db \<Rightarrow> 'x db" where
  "enc_db cd db =
     \<lparr>db_tasks = map (enc_task cd) (pg_tasks db), db_events = map (enc_event cd) (pg_events db),
      db_leases = map (enc_lease cd) (pg_leases db)\<rparr>"

text \<open>Two deployments with the same error texts and the same event documents.\<close>

definition same_texts :: "('v, 'x) pg \<Rightarrow> 'x codec \<Rightarrow> bool" where
  "same_texts pg cd \<longleftrightarrow>
     pg_constraint pg = cd_constraint cd \<and> pg_row_not_found pg = cd_row_not_found cd \<and>
     pg_from_value pg = cd_parse_kind cd"

text \<open>PostgreSQL takes the event, and the text columns take the new task.\<close>

definition storable :: "('v, 'x) pg \<Rightarrow> 'x codec \<Rightarrow> core_event_kind \<Rightarrow> bool" where
  "storable pg cd k \<longleftrightarrow>
     (case pg_to_value pg k of Inl _ \<Rightarrow> False | Inr v \<Rightarrow> is_ok (pg_jsonb pg v) \<and> pg_jsonb pg v = cd_kind cd k)"

definition texts_fit :: "('v, 'x) pg \<Rightarrow> new_task \<Rightarrow> bool" where
  "texts_fit pg task \<longleftrightarrow>
     pg_text_error pg (nt_agent_id task) = None \<and> pg_text_error pg (nt_caller_id task) = None \<and>
     pg_text_error pg (nt_idempotency_key task) = None"

text \<open>Every row has a state the crate writes.\<close>

definition states_known :: "'x pg_db \<Rightarrow> bool" where
  "states_known db \<longleftrightarrow> (\<forall>row\<in>set (pg_tasks db). is_ok (pg_state (pt_state row)))"

lemma pg_state_roundtrip [simp]: "pg_state (pg_db_state st) = Inr st"
  by (cases st) (simp_all add: pg_state_def)

lemma pg_db_state_eq: "pg_db_state st = state_db st"
  by (cases st) simp_all

lemma pg_state_eq: "is_ok (pg_state v) \<Longrightarrow> state_of_db v = pg_state v"
  by (auto simp: pg_state_def state_of_db_def split: if_splits)

lemma enc_task_simps [simp]:
  "tk_task_id (enc_task cd row) = cd_uuid cd (pt_task_id row)"
  "tk_caller_id (enc_task cd row) = pt_caller_id row"
  "tk_idempotency_key (enc_task cd row) = pt_idempotency_key row"
  "tk_revision (enc_task cd row) = pt_revision row"
  "tk_state (enc_task cd row) = pt_state row"
  by (simp_all add: enc_task_def)

lemma enc_event_simps [simp]:
  "er_task_id (enc_event cd r) = cd_uuid cd (pev_task_id r)" "er_seq (enc_event cd r) = pev_seq r"
  by (simp_all add: enc_event_def)

lemma enc_snapshot:
  assumes "codec_ok cd" "is_ok (pg_state (pt_state row))"
  shows "row_snapshot cd (enc_task cd row) = pg_snapshot row"
proof -
  have "transpose_opt (\<lambda>v. map_err (\<lambda>e. Corrupt (''session:'' @ e)) (cd_parse_uuid cd v))
      (map_option (cd_uuid cd) s) = Inr s" for s
    using assms(1) by (cases s) (simp_all add: codec_ok_def)
  moreover have "transpose_opt (parse_time cd) (map_option (cd_time cd) a) = Inr a" for a
    using assms(1) by (cases a) (simp_all add: codec_ok_def parse_time_def)
  ultimately show ?thesis
    using assms pg_state_eq [OF assms(2)]
    by (simp add: row_snapshot_def pg_snapshot_def enc_task_def codec_ok_def parse_time_def)
qed

lemma find_map: "find P (map g xs) = map_option g (find (P \<circ> g) xs)"
  by (induction xs) auto

lemma enc_select_task:
  assumes "codec_ok cd"
  shows "select_task (cd_uuid cd t) (enc_db cd db) = map_option (enc_task cd) (pg_select_task t db)"
  by (simp add: select_task_def pg_select_task_def enc_db_def find_map comp_def codec_uuid_inj [OF assms])

lemma enc_select_key: "select_key c k (enc_db cd db) = map_option (enc_task cd) (pg_select_key c k db)"
  by (simp add: select_key_def pg_select_key_def enc_db_def find_map comp_def)

lemma pg_selected_known:
  "states_known db \<Longrightarrow> pg_select_task t db = Some row \<Longrightarrow> is_ok (pg_state (pt_state row))"
  "states_known db \<Longrightarrow> pg_select_key c k db = Some row \<Longrightarrow> is_ok (pg_state (pt_state row))"
  by (auto simp: states_known_def pg_select_task_def pg_select_key_def dest: find_Some_in)

lemma enc_new_row: "enc_task cd (pg_new_row pg now task) =
    (new_row cd (pg_time pg now) task)\<lparr>tk_deadline_at := map_option (cd_time cd \<circ> pg_time pg) (nt_deadline_at task)\<rparr>"
  by (simp add: enc_task_def pg_new_row_def new_row_def option.map_comp)

lemma enc_transition_row:
  "enc_task cd (pg_transition_row pg now tr n m row) = transition_row cd (pg_time pg now) tr n m (enc_task cd row)"
  by (cases "pt_terminal_at row") (simp_all add: enc_task_def pg_transition_row_def transition_row_def pg_db_state_eq)

lemma enc_update_task:
  assumes "codec_ok cd" "\<And>r. enc_task cd (f r) = g (enc_task cd r)"
  shows "update_task g (cd_uuid cd t) rv (enc_db cd db) = map_prod id (enc_db cd) (pg_update_task f t rv db)"
  using assms(2)
  by (simp add: update_task_def pg_update_task_def enc_db_def filter_map comp_def codec_uuid_inj [OF assms(1)])

lemma enc_insert_event:
  assumes "codec_ok cd" "same_texts pg cd"
  shows "insert_event cd (enc_event cd row) (enc_db cd db) = map_sum id (enc_db cd) (pg_insert_event pg row db)"
proof -
  have "find (\<lambda>r. er_task_id r = er_task_id (enc_event cd row) \<and> er_seq r = er_seq (enc_event cd row))
      (db_events (enc_db cd db)) =
    map_option (enc_event cd) (find (\<lambda>r. pev_task_id r = pev_task_id row \<and> pev_seq r = pev_seq row) (pg_events db))"
    by (simp add: enc_db_def find_map comp_def codec_uuid_inj [OF assms(1)])
  moreover have "enc_db cd db\<lparr>db_events := db_events (enc_db cd db) @ [enc_event cd row]\<rparr> =
      enc_db cd (db\<lparr>pg_events := pg_events db @ [row]\<rparr>)"
    by (simp add: enc_db_def)
  ultimately show ?thesis
    using assms(2) enc_select_task [OF assms(1)]
    by (simp add: insert_event_def pg_insert_event_def same_texts_def)
qed

section \<open>Agreement of the SQL backends\<close>

text \<open>The instants of an answer and of a request as a \<open>TIMESTAMPTZ\<close> column keeps them.\<close>

definition rounded_event :: "('v, 'x) pg \<Rightarrow> applied_transition \<Rightarrow> applied_transition" where
  "rounded_event pg ap = ap\<lparr>at_event := (at_event ap)\<lparr>ev_at := pg_time pg (ev_at (at_event ap))\<rparr>\<rparr>"

definition rounded_task :: "('v, 'x) pg \<Rightarrow> new_task \<Rightarrow> new_task" where
  "rounded_task pg task = task\<lparr>nt_deadline_at := map_option (pg_time pg) (nt_deadline_at task)\<rparr>"

lemma map_sum_rbind: "map_sum id h (rbind r f) = rbind r (\<lambda>a. map_sum id h (f a))"
  by (cases r) simp_all

lemma rbind_map_sum: "rbind (map_sum id g r) f = rbind r (\<lambda>a. f (g a))"
  by (cases r) simp_all

lemma enc_in_tx:
  "map_prod (map_sum id h) (enc_db cd) (pg_in_tx db r) = in_tx (enc_db cd db) (map_sum id (map_prod h (enc_db cd)) r)"
  by (auto simp: pg_in_tx_def in_tx_def split: sum.split prod.split)

lemma states_known_update:
  assumes "states_known db" "pg_update_task (pg_transition_row pg now tr n m) t rv db = (k, db1)"
  shows "states_known db1"
  using assms by (auto simp: pg_update_task_def states_known_def pg_transition_row_def)

lemma enc_fetch_snapshot:
  assumes "codec_ok cd" "same_texts pg cd" "states_known db"
  shows "rbind (fetch_one cd (select_task (cd_uuid cd t) (enc_db cd db))) (row_snapshot cd) =
    rbind (pg_fetch_one pg (pg_select_task t db)) pg_snapshot"
  using assms(2) enc_snapshot [OF assms(1)] pg_selected_known [OF assms(3)]
  by (cases "pg_select_task t db")
    (simp_all add: enc_select_task [OF assms(1)] fetch_one_def pg_fetch_one_def same_texts_def)

text \<open>What an append does after its update.\<close>

lemma enc_append_rest:
  assumes cd: "codec_ok cd" "same_texts pg cd" and known: "states_known db1"
  shows "rbind (insert_event cd (enc_event cd erow) (enc_db cd db1)) (\<lambda>db2.
      rbind (try_stmt fl 4) (\<lambda>_.
      rbind (fetch_one cd (select_task (cd_uuid cd t) db2)) (\<lambda>row.
      rbind (row_snapshot cd row) (\<lambda>snap. rbind (try_stmt fl 5) (\<lambda>_. Inr (h (F snap), db2)))))) =
    map_sum id (map_prod h (enc_db cd)) (rbind (pg_insert_event pg erow db1) (\<lambda>db2.
      rbind (try_stmt fl 4) (\<lambda>_.
      rbind (pg_fetch_one pg (pg_select_task t db2)) (\<lambda>row.
      rbind (pg_snapshot row) (\<lambda>snap. rbind (try_stmt fl 5) (\<lambda>_. Inr (F snap, db2)))))))"
proof (cases "pg_insert_event pg erow db1")
  case (Inl e)
  then show ?thesis by (simp add: enc_insert_event [OF cd])
next
  case (Inr db2)
  then have "states_known db2"
    using known by (auto simp: pg_insert_event_def states_known_def split: if_splits)
  note fetch = enc_fetch_snapshot [OF cd this, of t]
  have assoc: "rbind r (\<lambda>row. rbind (f row) g) = rbind (rbind r f) g" for r :: "store_error + 'r" and f and g
    by (cases r) simp_all
  show ?thesis
    by (cases "try_stmt fl 4") (simp_all add: enc_insert_event [OF cd] Inr assoc fetch map_sum_rbind)
qed

lemma pg_append_agrees:
  assumes cd: "codec_ok cd" "same_texts pg cd" and known: "states_known db"
    and kind: "storable pg cd (tr_event_kind tr)"
  shows "sq_append cd fl (pg_time pg now) tr (enc_db cd db) =
    map_prod (map_sum id (rounded_event pg)) (enc_db cd) (pg_append pg fl now tr db)"
proof -
  obtain v x where vx: "pg_to_value pg (tr_event_kind tr) = Inr v" "pg_jsonb pg v = Inr x"
      "cd_kind cd (tr_event_kind tr) = Inr x"
    using kind by (cases "cd_kind cd (tr_event_kind tr)") (auto simp: storable_def split: sum.splits)
  show ?thesis
  proof (cases "pg_select_task (tr_task_id tr) db")
    case None
    then show ?thesis
      by (simp add: sq_append_def pg_append_def enc_in_tx enc_select_task [OF cd(1)] map_sum_rbind)
  next
    case (Some row)
    then have ok: "is_ok (pg_state (pt_state row))" using known pg_selected_known by blast
    then obtain current where current: "pg_snapshot row = Inr current"
      by (cases "pg_state (pt_state row)") (auto simp: pg_snapshot_def)
    let ?n = "u64_add (snap_revision current) 1" and ?m = "u64_add (snap_last_seq current) 1"
    obtain k db1 where upd: "pg_update_task (pg_transition_row pg now tr ?n ?m) (tr_task_id tr)
        (u64_as_i64 (snap_revision current)) db = (k, db1)" by fastforce
    have upd': "update_task (transition_row cd (pg_time pg now) tr ?n ?m) (cd_uuid cd (tr_task_id tr))
        (u64_as_i64 (snap_revision current)) (enc_db cd db) = (k, enc_db cd db1)"
      by (subst enc_update_task [where f = "pg_transition_row pg now tr ?n ?m", OF cd(1)])
        (simp_all add: upd enc_transition_row del: One_nat_def)
    let ?erow = "\<lparr>pev_task_id = tr_task_id tr, pev_seq = u64_as_i64 ?m, pev_event_kind_json = x,
        pev_created_at = pg_time pg now\<rparr>"
    have erow: "enc_event cd ?erow = \<lparr>er_task_id = cd_uuid cd (tr_task_id tr), er_seq = u64_as_i64 ?m,
        er_event_kind_json = x, er_created_at = cd_time cd (pg_time pg now)\<rparr>"
      by (simp add: enc_event_def)
    note rest = enc_append_rest [OF cd states_known_update [OF known upd], where fl = fl and t = "tr_task_id tr"
        and h = "rounded_event pg" and F = "\<lambda>snap. \<lparr>at_snapshot = snap, at_event = \<lparr>ev_task_id = tr_task_id tr,
          ev_seq = ?m, ev_at = now, ev_kind = tr_event_kind tr\<rparr>\<rparr>" and erow = ?erow, unfolded erow]
    have out: "rounded_event pg \<lparr>at_snapshot = snap, at_event = \<lparr>ev_task_id = tr_task_id tr, ev_seq = ?m, ev_at = now,
        ev_kind = tr_event_kind tr\<rparr>\<rparr> = \<lparr>at_snapshot = snap, at_event = \<lparr>ev_task_id = tr_task_id tr, ev_seq = ?m,
        ev_at = pg_time pg now, ev_kind = tr_event_kind tr\<rparr>\<rparr>" for snap
      by (simp add: rounded_event_def)
    note [simp] = sq_append_def pg_append_def enc_in_tx enc_select_task [OF cd(1)] Some
      enc_snapshot [OF cd(1) ok] current Let_def
    consider (early) "is_ok (try_stmt fl 0) \<and> is_ok (try_stmt fl 1) \<and> is_ok (try_stmt fl 2) \<and>
        tr_expected_revision tr = snap_revision current \<and> snap_state current \<in> set (tr_allowed_states tr) \<longrightarrow> k \<noteq> 1"
      | (late) "try_stmt fl 0 = Inr ()" "try_stmt fl 1 = Inr ()" "try_stmt fl 2 = Inr ()"
        "tr_expected_revision tr = snap_revision current" "snap_state current \<in> set (tr_allowed_states tr)" "k = 1"
      by (cases "try_stmt fl 0"; cases "try_stmt fl 1"; cases "try_stmt fl 2") auto
    then show ?thesis
    proof cases
      case early
      then show ?thesis
        by (cases "tr_expected_revision tr = snap_revision current"; cases "snap_state current \<in> set (tr_allowed_states tr)";
            cases "try_stmt fl 0"; cases "try_stmt fl 1"; cases "try_stmt fl 2")
          (simp_all add: upd upd' del: One_nat_def)
    next
      case late
      then show ?thesis
        using rest upd upd' unfolding out
        by (cases "try_stmt fl 3") (simp_all add: vx del: One_nat_def)
    qed
  qed
qed

lemma pg_events_agree:
  assumes cd: "codec_ok cd" "same_texts pg cd"
  shows "sq_events_after cd fl t after limit (enc_db cd db) = pg_events_after pg fl t after limit db"
proof -
  have row: "row_event cd t (enc_event cd r) = pg_row_event pg t r" for r
    using cd by (simp add: row_event_def pg_row_event_def enc_event_def same_texts_def codec_ok_def parse_time_def)
  have rows: "try_collect (row_event cd t) (map (enc_event cd) rs) = try_collect (pg_row_event pg t) rs" for rs
    by (induction rs) (simp_all add: row cong: sum.case_cong)
  have "filter (\<lambda>r. er_task_id r = cd_uuid cd t \<and> er_seq r > u64_as_i64 after) (db_events (enc_db cd db)) =
      map (enc_event cd) (filter (\<lambda>r. pev_task_id r = t \<and> pev_seq r > u64_as_i64 after) (pg_events db))"
    by (simp add: enc_db_def filter_map comp_def codec_uuid_inj [OF cd(1)])
  moreover have "insort_key er_seq (enc_event cd r) (map (enc_event cd) rs) = map (enc_event cd) (insort_key pev_seq r rs)" for r rs
    by (induction rs) simp_all
  then have "sort_key er_seq (map (enc_event cd) rs) = map (enc_event cd) (sort_key pev_seq rs)" for rs
    by (induction rs) (simp_all add: sort_key_simps(2))
  ultimately show ?thesis
    by (simp add: sq_events_after_def pg_events_after_def rows take_map)
qed

lemma pg_create_agrees:
  assumes cd: "codec_ok cd" "same_texts pg cd" and known: "states_known db" and fit: "texts_fit pg task"
  shows "sq_create cd no_fault (pg_time pg now) (rounded_task pg task) (enc_db cd db) =
    map_prod id (enc_db cd) (pg_create pg no_fault now task db)"
proof -
  have new: "new_row cd (pg_time pg now) (rounded_task pg task) = enc_task cd (pg_new_row pg now task)"
    by (simp add: new_row_def rounded_task_def enc_task_def pg_new_row_def option.map_comp)
  have bind: "pg_bind pg [nt_agent_id task, nt_caller_id task, nt_idempotency_key task] = Inr ()"
    "pg_bind pg [nt_caller_id task, nt_idempotency_key task] = Inr ()"
    using fit by (simp_all add: pg_bind_def texts_fit_def List.map_filter_simps)
  have task: "nt_caller_id (rounded_task pg task) = nt_caller_id task"
    "nt_idempotency_key (rounded_task pg task) = nt_idempotency_key task"
    "nt_task_id (rounded_task pg task) = nt_task_id task"
    by (simp_all add: rounded_task_def)
  let ?row = "pg_new_row pg now task"
  have row: "pt_caller_id ?row = nt_caller_id task" "pt_idempotency_key ?row = nt_idempotency_key task"
    "pt_task_id ?row = nt_task_id task" "pt_state ?row = ''created''"
    by (simp_all add: pg_new_row_def)
  show ?thesis
  proof (cases "pg_select_key (nt_caller_id task) (nt_idempotency_key task) db")
    case (Some old)
    obtain snap where "pg_snapshot old = Inr snap"
      using pg_selected_known(2) [OF known Some]
      by (cases "pg_state (pt_state old)") (auto simp: pg_snapshot_def)
    then show ?thesis
      using enc_snapshot [OF cd(1) pg_selected_known(2) [OF known Some]]
      by (simp add: sq_create_def pg_create_def pg_create_insert_def pg_create_select_def pg_insert_task_def
          in_tx_def bind task row enc_select_key Some pg_fetch_one_def)
  next
    case None
    note new_key = None
    show ?thesis
    proof (cases "pg_select_task (nt_task_id task) db")
      case (Some other)
      then show ?thesis
        using cd(2)
        by (simp add: sq_create_def pg_create_def pg_create_insert_def pg_insert_task_def insert_task_def
            in_tx_def bind task row new enc_select_key enc_select_task [OF cd(1)] new_key same_texts_def)
    next
      case None
      let ?db1 = "db\<lparr>pg_tasks := pg_tasks db @ [?row]\<rparr>"
      have grow: "enc_db cd db\<lparr>db_tasks := db_tasks (enc_db cd db) @ [enc_task cd ?row]\<rparr> = enc_db cd ?db1"
        by (simp add: enc_db_def)
      have sel: "pg_select_task (nt_task_id task) ?db1 = Some ?row"
        "pg_select_key (nt_caller_id task) (nt_idempotency_key task) ?db1 = Some ?row"
        using None new_key by (simp_all add: pg_select_task_def pg_select_key_def find_append row)
      have created: "pg_state ''created'' = Inr Created" by (simp add: pg_state_def)
      then obtain snap where snap: "pg_snapshot ?row = Inr snap" by (simp add: pg_snapshot_def row)
      have "row_snapshot cd (enc_task cd ?row) = Inr snap"
        using enc_snapshot [OF cd(1), of ?row] created by (simp add: row snap)
      then show ?thesis
        using None snap
        by (simp add: sq_create_def pg_create_def pg_create_insert_def pg_create_select_def pg_insert_task_def
            insert_task_def in_tx_def bind task row new enc_select_key enc_select_task [OF cd(1)] new_key
            grow sel fetch_one_def pg_fetch_one_def)
    qed
  qed
qed

lemma states_known_append:
  assumes known: "states_known db"
  shows "states_known (snd (pg_append pg fl now tr db))"
proof -
  have keep: "states_known db2" if "pg_insert_event pg row db1 = Inr db2" "states_known db1" for row db1 db2
    using that by (auto simp: pg_insert_event_def states_known_def split: if_splits)
  have tx: "states_known (snd (pg_in_tx db r))" if "\<And>a db'. r = Inr (a, db') \<Longrightarrow> states_known db'" for r :: "store_error + applied_transition \<times> 'a pg_db"
    using that known by (cases r) (auto simp: pg_in_tx_def)
  show ?thesis
    unfolding pg_append_def
    by (rule tx) (auto simp: rbind_Inr_iff Let_def keep states_known_update [OF known] split: if_splits prod.splits)
qed

lemma states_known_create: "states_known db \<Longrightarrow> states_known (snd (pg_create pg fl now task db))"
proof -
  have "is_ok (pg_state (pt_state (pg_new_row pg now task)))" by (simp add: pg_new_row_def pg_state_def)
  then show "states_known db \<Longrightarrow> states_known (snd (pg_create pg fl now task db))"
    by (auto simp: pg_create_def pg_create_insert_def rbind_Inr_iff pg_insert_task_def states_known_def
        split: sum.split if_splits)
qed


text \<open>A deployment whose columns keep whole thousands of nanoseconds and refuse a zero byte.\<close>

definition demo_pg :: "(core_event_kind, core_event_kind) pg" where
  "demo_pg =
     \<lparr>pg_time = (\<lambda>t. t - t mod 1000), pg_to_value = Inr,
      pg_jsonb = (\<lambda>k. case k of
          EvProgress m _ \<Rightarrow> if CHR 0x00 \<in> set m then Inl ''unsupported Unicode escape sequence'' else Inr k
        | _ \<Rightarrow> Inr k),
      pg_from_value = Inr,
      pg_text_error = (\<lambda>s. if CHR 0x00 \<in> set s then Some ''invalid byte sequence'' else None),
      pg_plus_secs = (\<lambda>t n. Inr (t + n * 1000000000)),
      pg_constraint = ''constraint'', pg_row_not_found = ''no rows''\<rparr>"

definition demo_pg_db :: "core_event_kind pg_db" where
  "demo_pg_db = snd (pg_create demo_pg no_fault 0 demo_task pg_empty)"

lemma demo_pg_known: "states_known demo_pg_db"
  unfolding demo_pg_db_def by (rule states_known_create) (simp add: states_known_def pg_empty_def)


section \<open>Where the backends differ\<close>

text \<open>A failed transition leaves the tables as they were.\<close>

lemma pg_append_atomic: "pg_append pg fl now tr db = (Inl e, db') \<Longrightarrow> db' = db"
  by (auto simp: pg_append_def pg_in_tx_def split: sum.splits)

lemma pg_snapshot_new:
  "pg_snapshot (pg_new_row pg now task) = Inr (initial_snapshot (pg_time pg now) task)"
  by (simp add: pg_snapshot_def pg_new_row_def pg_state_def initial_snapshot_def i64_as_u64_def)

text \<open>
  C17: a creation is not atomic. The insertion and the query that follows it are separate
  transactions. When the query fails, the caller gets an error although the task is stored in
  its first state; and a retry with the same idempotency key, whatever task id it carries, is
  told that the task exists already. (The core starts a worker for created tasks only.)
\<close>

theorem pg_create_not_atomic:
  assumes "texts_fit pg task" "pg_select_task (nt_task_id task) db = None"
    and "pg_select_key (nt_caller_id task) (nt_idempotency_key task) db = None"
    and "fl 0 = None" "fl 1 = Some e"
    and "texts_fit pg again" "nt_caller_id again = nt_caller_id task"
    and "nt_idempotency_key again = nt_idempotency_key task"
  shows "\<exists>db'. pg_create pg fl now task db = (Inl (Unavailable e), db') \<and>
    pg_get_snapshot no_fault (nt_task_id task) db' = Inr (Some (initial_snapshot (pg_time pg now) task)) \<and>
    pg_create pg no_fault later again db' = (Inr (CtExisting (initial_snapshot (pg_time pg now) task)), db')"
proof -
  let ?row = "pg_new_row pg now task" let ?db' = "db\<lparr>pg_tasks := pg_tasks db @ [?row]\<rparr>"
  have bind: "pg_bind pg [nt_agent_id task, nt_caller_id task, nt_idempotency_key task] = Inr ()"
    "pg_bind pg [nt_agent_id again, nt_caller_id task, nt_idempotency_key task] = Inr ()"
    "pg_bind pg [nt_caller_id task, nt_idempotency_key task] = Inr ()"
    using assms(1,6-8) by (simp_all add: pg_bind_def texts_fit_def List.map_filter_simps)
  have row: "pt_caller_id (pg_new_row pg n nt) = nt_caller_id nt" "pt_task_id (pg_new_row pg n nt) = nt_task_id nt"
    "pt_idempotency_key (pg_new_row pg n nt) = nt_idempotency_key nt" for n nt
    by (simp_all add: pg_new_row_def)
  have sel: "pg_select_task (nt_task_id task) ?db' = Some ?row"
    "pg_select_key (nt_caller_id task) (nt_idempotency_key task) ?db' = Some ?row"
    using assms(2,3) by (simp_all add: pg_select_task_def pg_select_key_def find_append row)
  have "pg_create pg fl now task db = (Inl (Unavailable e), ?db')"
    using assms(2-5) bind
    by (simp add: pg_create_def pg_create_insert_def pg_create_select_def pg_insert_task_def row try_stmt_def db_error_def)
  moreover have "pg_create pg no_fault later again ?db' = (Inr (CtExisting (initial_snapshot (pg_time pg now) task)), ?db')"
    using bind assms(7,8) sel
    by (simp add: pg_create_def pg_create_insert_def pg_create_select_def pg_insert_task_def row pg_fetch_one_def
        pg_snapshot_new)
  ultimately show ?thesis
    using sel(1) by (auto simp: pg_get_snapshot_def pg_snapshot_new)
qed

theorem pg_create_not_atomic_witness:
  "\<exists>db'. pg_create demo_pg (\<lambda>i. if i = 1 then Some ''connection reset'' else None) 0 demo_task pg_empty =
       (Inl (Unavailable ''connection reset''), db') \<and>
     pg_create demo_pg no_fault 5 (demo_task\<lparr>nt_task_id := 8\<rparr>) db' =
       (Inr (CtExisting (initial_snapshot 0 demo_task)), db')"
proof -
  have "texts_fit demo_pg demo_task" "texts_fit demo_pg (demo_task\<lparr>nt_task_id := 8\<rparr>)"
    by (simp_all add: texts_fit_def demo_pg_def demo_task_def)
  then show ?thesis
    using pg_create_not_atomic [of demo_pg demo_task pg_empty "\<lambda>i. if i = 1 then Some ''connection reset'' else None"
        "''connection reset''" "demo_task\<lparr>nt_task_id := 8\<rparr>" 0 5]
    by (auto simp: pg_select_task_def pg_select_key_def pg_empty_def demo_pg_def)
qed

text \<open>
  An event that \<open>JSONB\<close> refuses, such as a text with a zero byte, cannot be stored: the
  transition fails as if the database were unavailable. SQLite stores it.
\<close>

lemma pg_unstorable_event:
  assumes "pg_select_task (tr_task_id tr) db = Some row" "pg_snapshot row = Inr snap"
    and "snap_revision snap = tr_expected_revision tr" "snap_state snap \<in> set (tr_allowed_states tr)"
    and "pg_to_value pg (tr_event_kind tr) = Inr v" "pg_jsonb pg v = Inl e"
  shows "pg_append pg no_fault now tr db = (Inl (Unavailable e), db) \<or> pg_append pg no_fault now tr db = (Inl Conflict, db)"
  using assms by (auto simp: pg_append_def pg_in_tx_def Let_def db_error_def split: prod.split)

text \<open>
  A lease keeps whole seconds only: with a duration below a second it has run out at the next
  instant of the database clock, so its owner cannot renew it and any other owner can take it.
\<close>

lemma pg_lease_subsecond:
  assumes "lease_expires_in l < 1000000000" "\<And>t n. pg_plus_secs pg t n = Inr (t + n * 1000000000)"
    and "pg_acquire_lease pg fl now l db = (Inr True, db')" "now < later"
    and "lease_task_id l' = lease_task_id l" "pg_text_error pg (lease_owner_id l') = None"
  shows "fst (pg_acquire_lease pg no_fault later l' db') = Inr True"
    and "pg_renew_lease pg no_fault later l db' = (Inr False, db')"
proof -
  let ?row = "\<lparr>pl_task_id = lease_task_id l, pl_owner_id = lease_owner_id l, pl_expires_at = now, pl_updated_at = now\<rparr>"
  have secs: "as_secs_i64 (lease_expires_in l) = 0" using assms(1) by (simp add: as_secs_i64_def u64_as_i64_def)
  have upd: "find (\<lambda>r. pl_task_id r = lease_task_id l) (map (\<lambda>r. if pl_task_id r = lease_task_id l then ?row else r) rs) =
      map_option (\<lambda>_. ?row) (find (\<lambda>r. pl_task_id r = lease_task_id l) rs)" for rs
    by (induction rs) auto
  have "find (\<lambda>r. pl_task_id r = lease_task_id l) (pg_leases db') = Some ?row"
    using assms(3)
    by (auto simp: pg_acquire_lease_def Let_def rbind_Inr_iff assms(2) secs find_append upd
        split: sum.splits option.splits if_splits)
  then show "fst (pg_acquire_lease pg no_fault later l' db') = Inr True"
    using assms(4-6) by (simp add: pg_acquire_lease_def pg_bind_def List.map_filter_simps assms(2) Let_def)
  have "r = ?row" if "r \<in> set (pg_leases db')" "pl_task_id r = lease_task_id l" for r
    using assms(3) that
    by (auto simp: pg_acquire_lease_def Let_def rbind_Inr_iff assms(2) secs find_None_iff
        split: sum.splits option.splits if_splits)
  then have "filter (\<lambda>r. pl_task_id r = lease_task_id l \<and> pl_owner_id r = lease_owner_id l \<and> later \<le> pl_expires_at r)
      (pg_leases db') = []"
    using assms(4) by (fastforce simp: filter_empty_conv)
  moreover have "pg_text_error pg (lease_owner_id l) = None"
    using assms(3) by (auto simp: pg_acquire_lease_def pg_bind_def List.map_filter_simps rbind_Inr_iff split: sum.splits option.splits)
  ultimately show "pg_renew_lease pg no_fault later l db' = (Inr False, db')"
    by (simp add: pg_renew_lease_def pg_bind_def List.map_filter_simps Let_def)
qed

end
