(* ===== verification/Reliable_Stream.thy ===== *)
theory Reliable_Stream
  imports Core_Programs
begin

text \<open>
  \<open>reliable_stream.rs\<close>: the stream that merges stored history and the live channel. The
  receiver belongs to \<open>tokio\<close>, so what its \<open>recv\<close> answers is an input: an event, a
  lag, or that the channel is closed. Each answer comes with the durable log as it is at
  that time, as the function \<open>history\<close> that a catch-up would call. A call of \<open>next\<close>
  consumes answers until it returns; with no answer left it waits.
\<close>

section \<open>Definitions\<close>

datatype recv = RecvOk core_event | RecvLagged nat | RecvClosed

type_synonym history_source = "event_seq \<Rightarrow> core_error + core_event list"

type_synonym recv_input = "recv \<times> history_source"

record reliable_stream =
  rs_last_seq :: event_seq
  rs_pending :: "core_event list"
  rs_is_terminal :: bool

definition stream_new :: "event_seq \<Rightarrow> core_event list \<Rightarrow> reliable_stream" where
  "stream_new after hist =
     \<lparr>rs_last_seq = after, rs_pending = filter (\<lambda>ev. ev_seq ev > after) hist, rs_is_terminal = False\<rparr>"

definition deliver :: "core_event \<Rightarrow> reliable_stream \<Rightarrow> reliable_stream" where
  "deliver ev s =
     s\<lparr>rs_last_seq := ev_seq ev,
       rs_is_terminal := (if is_terminal_kind (ev_kind ev) then True else rs_is_terminal s)\<rparr>"

text \<open>A \<open>BTreeMap\<close> from sequence numbers to events, as the list of its values in key order.\<close>

fun bt_insert :: "core_event \<Rightarrow> core_event list \<Rightarrow> core_event list" where
  "bt_insert ev [] = [ev]"
| "bt_insert ev (x # xs) =
     (if ev_seq ev < ev_seq x then ev # x # xs
      else if ev_seq ev = ev_seq x then ev # xs
      else x # bt_insert ev xs)"

definition bt_or_insert :: "core_event \<Rightarrow> core_event list \<Rightarrow> core_event list" where
  "bt_or_insert ev xs = (if ev_seq ev \<in> ev_seq ` set xs then xs else bt_insert ev xs)"

definition catch_up ::
  "history_source \<Rightarrow> core_event option \<Rightarrow> reliable_stream \<Rightarrow> core_error + reliable_stream" where
  "catch_up hist trailing s =
     (case hist (rs_last_seq s) of
        Inl e \<Rightarrow> Inl e
      | Inr events \<Rightarrow>
          (let merged = fold bt_insert (filter (\<lambda>ev. ev_seq ev > rs_last_seq s) events) [];
               merged' = (case trailing of
                   None \<Rightarrow> merged
                 | Some ev \<Rightarrow> if ev_seq ev > rs_last_seq s then bt_or_insert ev merged else merged)
           in Inr (s\<lparr>rs_pending := merged'\<rparr>)))"

datatype next_result = Waiting | Returned "core_error + core_event option"

function next_event_of ::
  "reliable_stream \<Rightarrow> recv_input list \<Rightarrow> next_result \<times> reliable_stream \<times> recv_input list" where
  "next_event_of s ins =
     (if rs_is_terminal s then (Returned (Inr None), s, ins)
      else case rs_pending s of
        ev # ps \<Rightarrow> (Returned (Inr (Some ev)), deliver ev (s\<lparr>rs_pending := ps\<rparr>), ins)
      | [] \<Rightarrow>
          (case ins of
             [] \<Rightarrow> (Waiting, s, [])
           | (RecvOk ev, hist) # ins' \<Rightarrow>
               if ev_seq ev \<le> rs_last_seq s then next_event_of s ins'
               else if ev_seq ev = u64_add (rs_last_seq s) 1
               then (Returned (Inr (Some ev)), deliver ev s, ins')
               else (case catch_up hist (Some ev) s of
                       Inl e \<Rightarrow> (Returned (Inl e), s, ins')
                     | Inr s' \<Rightarrow> next_event_of s' ins')
           | (RecvLagged n, hist) # ins' \<Rightarrow>
               (case catch_up hist None s of
                  Inl e \<Rightarrow> (Returned (Inl e), s, ins')
                | Inr s' \<Rightarrow> next_event_of s' ins')
           | (RecvClosed, hist) # ins' \<Rightarrow>
               (case catch_up hist None s of
                  Inl e \<Rightarrow> (Returned (Inl e), s, ins')
                | Inr s' \<Rightarrow>
                    if rs_pending s' = []
                    then (Returned (Inr None), s'\<lparr>rs_is_terminal := True\<rparr>, ins')
                    else next_event_of s' ins')))"
  by pat_completeness auto
termination
  by (relation "measure (\<lambda>(s, ins). length ins)") auto

declare next_event_of.simps [simp del]

text \<open>A consumer that calls \<open>next\<close> up to \<open>n\<close> times and stops at the end or at an error.\<close>

fun drain :: "nat \<Rightarrow> reliable_stream \<Rightarrow> recv_input list \<Rightarrow> core_event list" where
  "drain 0 s ins = []"
| "drain (Suc n) s ins =
     (case next_event_of s ins of
        (Returned (Inr (Some ev)), s', ins') \<Rightarrow> ev # drain n s' ins'
      | _ \<Rightarrow> [])"

text \<open>
  What \<open>AdapterCore::history\<close> answers while the log is \<open>log\<close>: at most 500 events
  after the position. An input is faithful to a complete log \<open>L\<close> when its history is
  that of a prefix of \<open>L\<close>, a live event is in that prefix (it was stored before it was
  published), and the channel closes only when the log is complete.
\<close>

definition history_page :: "core_event list \<Rightarrow> history_source" where
  "history_page log after = Inr (take 500 (filter (\<lambda>ev. after < ev_seq ev) log))"

definition input_ok :: "core_event list \<Rightarrow> recv_input \<Rightarrow> bool" where
  "input_ok L i \<longleftrightarrow> (\<exists>k\<le>length L. snd i = history_page (take k L) \<and>
     (case fst i of RecvOk ev \<Rightarrow> ev \<in> set (take k L) | RecvLagged n \<Rightarrow> True | RecvClosed \<Rightarrow> k = length L))"

definition numbered_event :: "nat \<Rightarrow> core_event_kind \<Rightarrow> core_event" where
  "numbered_event n k = \<lparr>ev_task_id = 1, ev_seq = n, ev_at = 0, ev_kind = k\<rparr>"

section \<open>Order, no duplicates, nothing after the end\<close>

definition stream_ok :: "reliable_stream \<Rightarrow> bool" where
  "stream_ok s \<longleftrightarrow> sorted_wrt (<) (map ev_seq (rs_pending s)) \<and>
     (\<forall>ev\<in>set (rs_pending s). rs_last_seq s < ev_seq ev)"

lemma bt_insert_set: "set (bt_insert ev xs) \<subseteq> insert ev (set xs)"
  by (induction ev xs rule: bt_insert.induct) auto

lemma bt_insert_sorted:
  "sorted_wrt (<) (map ev_seq xs) \<Longrightarrow> sorted_wrt (<) (map ev_seq (bt_insert ev xs))"
proof (induction ev xs rule: bt_insert.induct)
  case (2 ev x xs)
  then show ?case using bt_insert_set [of ev xs] by fastforce
qed simp

lemma fold_bt_insert:
  assumes "sorted_wrt (<) (map ev_seq acc)" "\<forall>ev\<in>set acc \<union> set xs. P ev"
  shows "sorted_wrt (<) (map ev_seq (fold bt_insert xs acc)) \<and> (\<forall>ev\<in>set (fold bt_insert xs acc). P ev)"
  using assms
proof (induction xs arbitrary: acc)
  case (Cons x xs)
  have "sorted_wrt (<) (map ev_seq (bt_insert x acc))" by (rule bt_insert_sorted [OF Cons.prems(1)])
  moreover have "\<forall>ev\<in>set (bt_insert x acc) \<union> set xs. P ev"
  proof
    fix ev
    assume "ev \<in> set (bt_insert x acc) \<union> set xs"
    then have "ev \<in> set acc \<union> set (x # xs)" using bt_insert_set [of x acc] by auto
    with Cons.prems(2) show "P ev" by blast
  qed
  ultimately show ?case using Cons.IH by simp
qed simp

lemma catch_up_ok:
  assumes "catch_up hist trailing s = Inr s'"
  shows "stream_ok s' \<and> rs_last_seq s' = rs_last_seq s \<and> rs_is_terminal s' = rs_is_terminal s"
proof -
  obtain events where events: "hist (rs_last_seq s) = Inr events"
    using assms by (auto simp: catch_up_def split: sum.splits)
  let ?m = "fold bt_insert (filter (\<lambda>ev. ev_seq ev > rs_last_seq s) events) []"
  have m: "sorted_wrt (<) (map ev_seq ?m) \<and> (\<forall>ev\<in>set ?m. rs_last_seq s < ev_seq ev)"
    by (rule fold_bt_insert) auto
  have "sorted_wrt (<) (map ev_seq (bt_or_insert ev ?m)) \<and> (\<forall>x\<in>set (bt_or_insert ev ?m). rs_last_seq s < ev_seq x)"
    if "rs_last_seq s < ev_seq ev" for ev
  proof (cases "ev_seq ev \<in> ev_seq ` set ?m")
    case True
    then show ?thesis using m by (simp only: bt_or_insert_def if_True) blast
  next
    case False
    have "sorted_wrt (<) (map ev_seq (bt_insert ev ?m))" using m by (intro bt_insert_sorted) (rule conjunct1)
    moreover have "rs_last_seq s < ev_seq x" if "x \<in> set (bt_insert ev ?m)" for x
      using subsetD [OF bt_insert_set that] m \<open>rs_last_seq s < ev_seq ev\<close> by blast
    ultimately show ?thesis using False by (simp only: bt_or_insert_def if_False) blast
  qed
  note step = this
  have "s' = s\<lparr>rs_pending := ?m\<rparr> \<or>
      (\<exists>ev. rs_last_seq s < ev_seq ev \<and> s' = s\<lparr>rs_pending := bt_or_insert ev ?m\<rparr>)"
    using assms events by (cases trailing) (auto simp: catch_up_def Let_def split: if_splits)
  then consider "s' = s\<lparr>rs_pending := ?m\<rparr>"
    | ev where "rs_last_seq s < ev_seq ev" "s' = s\<lparr>rs_pending := bt_or_insert ev ?m\<rparr>" by blast
  then show ?thesis
  proof cases
    case 1
    then have "rs_pending s' = ?m" "rs_last_seq s' = rs_last_seq s" "rs_is_terminal s' = rs_is_terminal s"
      by simp_all
    with m show ?thesis by (simp only: stream_ok_def) blast
  next
    case (2 ev)
    then have "rs_pending s' = bt_or_insert ev ?m" "rs_last_seq s' = rs_last_seq s"
      "rs_is_terminal s' = rs_is_terminal s"
      by simp_all
    with step [OF 2(1)] show ?thesis by (simp only: stream_ok_def) blast
  qed
qed

text \<open>The branches of \<open>next\<close>.\<close>

lemma next_terminal: "rs_is_terminal s \<Longrightarrow> next_event_of s ins = (Returned (Inr None), s, ins)"
  by (simp add: next_event_of.simps)

lemma next_pending:
  "\<not> rs_is_terminal s \<Longrightarrow> rs_pending s = ev # ps \<Longrightarrow>
     next_event_of s ins = (Returned (Inr (Some ev)), deliver ev (s\<lparr>rs_pending := ps\<rparr>), ins)"
  by (simp add: next_event_of.simps)

lemma next_idle:
  assumes "\<not> rs_is_terminal s" "rs_pending s = []"
  shows "next_event_of s [] = (Waiting, s, [])"
    "next_event_of s ((RecvOk ev, hist) # ins) =
       (if ev_seq ev \<le> rs_last_seq s then next_event_of s ins
        else if ev_seq ev = u64_add (rs_last_seq s) 1 then (Returned (Inr (Some ev)), deliver ev s, ins)
        else case catch_up hist (Some ev) s of
               Inl e \<Rightarrow> (Returned (Inl e), s, ins) | Inr s' \<Rightarrow> next_event_of s' ins)"
    "next_event_of s ((RecvLagged n, hist) # ins) =
       (case catch_up hist None s of Inl e \<Rightarrow> (Returned (Inl e), s, ins) | Inr s' \<Rightarrow> next_event_of s' ins)"
    "next_event_of s ((RecvClosed, hist) # ins) =
       (case catch_up hist None s of
          Inl e \<Rightarrow> (Returned (Inl e), s, ins)
        | Inr s' \<Rightarrow> if rs_pending s' = [] then (Returned (Inr None), s'\<lparr>rs_is_terminal := True\<rparr>, ins)
                    else next_event_of s' ins)"
  using assms by (simp_all add: next_event_of.simps [of s])

text \<open>One call of \<open>next\<close>.\<close>

definition next_ok :: "reliable_stream \<Rightarrow> next_result \<times> reliable_stream \<times> recv_input list \<Rightarrow> bool" where
  "next_ok s res \<longleftrightarrow> (case res of (r, s', ins') \<Rightarrow>
     stream_ok s' \<and> rs_last_seq s \<le> rs_last_seq s' \<and>
     (\<forall>ev. r = Returned (Inr (Some ev)) \<longrightarrow>
        rs_last_seq s < ev_seq ev \<and> rs_last_seq s' = ev_seq ev \<and> \<not> rs_is_terminal s \<and>
        rs_is_terminal s' = is_terminal_kind (ev_kind ev)))"

lemma next_ok_cong:
  "rs_last_seq s' = rs_last_seq s \<Longrightarrow> rs_is_terminal s' = rs_is_terminal s \<Longrightarrow> next_ok s' res \<Longrightarrow> next_ok s res"
  by (auto simp: next_ok_def)

lemma next_event_ok: "stream_ok s \<Longrightarrow> next_ok s (next_event_of s ins)"
proof (induction ins arbitrary: s)
  case Nil
  then show ?case
    by (cases "rs_is_terminal s"; cases "rs_pending s")
      (auto simp: next_ok_def next_terminal next_pending next_idle stream_ok_def deliver_def)
next
  case (Cons i ins)
  show ?case
  proof (cases "rs_is_terminal s \<or> rs_pending s \<noteq> []")
    case True
    with Cons.prems show ?thesis
      by (cases "rs_is_terminal s"; cases "rs_pending s")
        (auto simp: next_ok_def next_terminal next_pending stream_ok_def deliver_def)
  next
    case False
    then have idle: "\<not> rs_is_terminal s" "rs_pending s = []" by auto
    obtain rv hist where i: "i = (rv, hist)" by fastforce
    have again: "next_ok s (next_event_of s' ins)" if "catch_up hist tr s = Inr s'" for tr s'
    proof -
      have ok: "stream_ok s'" "rs_last_seq s' = rs_last_seq s" "rs_is_terminal s' = rs_is_terminal s"
        using catch_up_ok [OF that] by auto
      show ?thesis by (rule next_ok_cong [OF ok(2,3) Cons.IH [OF ok(1)]])
    qed
    have fail: "next_ok s (Returned (Inl e), s, ins)" for e using Cons.prems by (simp add: next_ok_def)
    show ?thesis
    proof (cases rv)
      case (RecvOk ev)
      have "next_ok s (Returned (Inr (Some ev)), deliver ev s, ins)" if "\<not> ev_seq ev \<le> rs_last_seq s"
        using that idle by (auto simp: next_ok_def deliver_def stream_ok_def)
      then show ?thesis
        using Cons.IH [OF Cons.prems] again fail by (auto simp: i RecvOk next_idle [OF idle] split: sum.split)
    next
      case (RecvLagged n)
      then show ?thesis using again fail by (auto simp: i next_idle [OF idle] split: sum.split)
    next
      case RecvClosed
      have "next_ok s (Returned (Inr None), s'\<lparr>rs_is_terminal := True\<rparr>, ins)"
        if "catch_up hist None s = Inr s'" for s' :: reliable_stream
        using catch_up_ok [OF that] by (auto simp: next_ok_def stream_ok_def)
      then show ?thesis using RecvClosed again fail by (auto simp: i next_idle [OF idle] split: sum.split)
    qed
  qed
qed

text \<open>
  C19: what a consumer sees. Whatever the receiver and the durable history answer, a stream
  opened at \<open>after\<close> with a history in ascending order delivers events in strictly
  ascending order of their numbers, all above \<open>after\<close>: no event twice and none that was
  acknowledged. Only the last event delivered can be terminal.
\<close>

theorem stream_ordered:
  assumes "sorted_wrt (<) (map ev_seq hist)"
  shows "sorted_wrt (<) (map ev_seq (drain n (stream_new after hist) ins)) \<and>
    (\<forall>ev\<in>set (drain n (stream_new after hist) ins). after < ev_seq ev) \<and>
    (\<forall>ev\<in>set (butlast (drain n (stream_new after hist) ins)). \<not> is_terminal_kind (ev_kind ev))"
proof -
  have main: "stream_ok s \<Longrightarrow> sorted_wrt (<) (map ev_seq (drain n s ins)) \<and>
      (\<forall>ev\<in>set (drain n s ins). rs_last_seq s < ev_seq ev) \<and>
      (rs_is_terminal s \<longrightarrow> drain n s ins = []) \<and>
      (\<forall>ev\<in>set (butlast (drain n s ins)). \<not> is_terminal_kind (ev_kind ev))" for s
  proof (induction n arbitrary: s ins)
    case (Suc n)
    obtain r s' ins' where nx: "next_event_of s ins = (r, s', ins')" by (cases "next_event_of s ins")
    from next_event_ok [OF Suc.prems, of ins] nx have ok: "stream_ok s'"
      "\<And>ev. r = Returned (Inr (Some ev)) \<Longrightarrow>
         rs_last_seq s < ev_seq ev \<and> rs_last_seq s' = ev_seq ev \<and> \<not> rs_is_terminal s \<and>
         rs_is_terminal s' = is_terminal_kind (ev_kind ev)"
      by (auto simp: next_ok_def)
    show ?case
    proof (cases "\<exists>ev. r = Returned (Inr (Some ev))")
      case True
      then obtain ev where ev: "r = Returned (Inr (Some ev))" by blast
      have head: "drain (Suc n) s ins = ev # drain n s' ins'" using nx ev by simp
      note rest = Suc.IH [OF ok(1), of ins']
      have "rs_last_seq s < ev_seq x" if "x \<in> set (drain n s' ins')" for x
        using rest ok(2) [OF ev] that by fastforce
      moreover have "\<not> is_terminal_kind (ev_kind ev)" if "drain n s' ins' \<noteq> []"
        using rest ok(2) [OF ev] that by auto
      moreover have "sorted_wrt (<) (map ev_seq (ev # drain n s' ins'))"
        using rest ok(2) [OF ev] by simp
      moreover have "\<not> is_terminal_kind (ev_kind x)" if "x \<in> set (butlast (ev # drain n s' ins'))" for x
        using that rest calculation(2) by (auto split: if_splits)
      ultimately show ?thesis using ok(2) [OF ev] unfolding head
        by (intro conjI ballI impI) (auto simp del: drain.simps)
    next
      case False
      then have "drain (Suc n) s ins = []"
        using nx by (auto split: next_result.split sum.split option.split)
      then show ?thesis by simp
    qed
  qed simp
  have "stream_ok (stream_new after hist)"
    using assms by (simp add: stream_ok_def stream_new_def sorted_wrt_map sorted_wrt_filter)
  from main [OF this] have "sorted_wrt (<) (map ev_seq (drain n (stream_new after hist) ins))"
    "\<forall>ev\<in>set (drain n (stream_new after hist) ins). rs_last_seq (stream_new after hist) < ev_seq ev"
    "\<forall>ev\<in>set (butlast (drain n (stream_new after hist) ins)). \<not> is_terminal_kind (ev_kind ev)"
    by blast+
  moreover have "rs_last_seq (stream_new after hist) = after" by (simp add: stream_new_def)
  ultimately show ?thesis by metis
qed

theorem stream_ordered_witness:
  "sorted_wrt (<) (map ev_seq (drain 4 (stream_new 1 [numbered_event 2 (EvAccepted True)])
     [(RecvOk (numbered_event 4 EvCancelled),
       \<lambda>a. Inr [numbered_event 4 EvCancelled, numbered_event 3 (EvProgress ''x'' None)])]))"
  using stream_ordered [of "[numbered_event 2 (EvAccepted True)]" 4 1
     "[(RecvOk (numbered_event 4 EvCancelled),
       \<lambda>a. Inr [numbered_event 4 EvCancelled, numbered_event 3 (EvProgress ''x'' None)])]"]
  by simp

section \<open>No gaps\<close>

lemma filter_dense: "map ev_seq xs = [1..<Suc n] \<Longrightarrow> filter (\<lambda>ev. a < ev_seq ev) xs = drop a xs"
proof (induction xs arbitrary: n rule: rev_induct)
  case (snoc x xs)
  then obtain m where n: "n = Suc m" by (cases n) auto
  with snoc.prems have xs: "map ev_seq xs = [1..<Suc m]" and x: "ev_seq x = Suc m" by auto
  from xs have "length xs = m" by (metis length_map length_upt diff_Suc_1)
  then show ?case using snoc.IH [OF xs] x by auto
qed simp

lemma bt_insert_last: "\<forall>x\<in>set xs. ev_seq x < ev_seq ev \<Longrightarrow> bt_insert ev xs = xs @ [ev]"
  by (induction xs) auto

lemma fold_bt_insert_sorted:
  "sorted_wrt (<) (map ev_seq (acc @ xs)) \<Longrightarrow> fold bt_insert xs acc = acc @ xs"
proof (induction xs arbitrary: acc)
  case (Cons x xs)
  then have "bt_insert x acc = acc @ [x]" by (intro bt_insert_last) (auto simp: sorted_wrt_append)
  with Cons show ?case by simp
qed simp

text \<open>A log numbered from 1, as the store keeps it.\<close>

definition dense :: "core_event list \<Rightarrow> bool" where
  "dense L \<longleftrightarrow> map ev_seq L = [1..<Suc (length L)]"

lemma dense_nth: "dense L \<Longrightarrow> i < length L \<Longrightarrow> ev_seq (L ! i) = Suc i"
  using nth_map [of i L ev_seq] by (simp add: dense_def del: upt_Suc)

lemma dense_take: "dense L \<Longrightarrow> dense (take k L)"
  by (auto simp: dense_def take_map [symmetric] min_def)

lemma dense_mem:
  assumes "dense L" "ev \<in> set L"
  shows "0 < ev_seq ev \<and> ev_seq ev \<le> length L \<and> ev = L ! (ev_seq ev - 1)"
proof -
  from assms(2) obtain i where "i < length L" "ev = L ! i" by (auto simp: in_set_conv_nth)
  with dense_nth [OF assms(1)] show ?thesis by auto
qed

lemma dense_sorted_drop: "dense L \<Longrightarrow> sorted_wrt (<) (map ev_seq (drop a L))"
  by (simp add: dense_def drop_map [symmetric] sorted_wrt_drop del: upt_Suc)

lemma page_dense: "dense L \<Longrightarrow> history_page L a = Inr (take 500 (drop a L))"
  by (simp add: history_page_def dense_def filter_dense)

lemma catch_up_page:
  assumes L: "dense L" and room: "length L \<le> rs_last_seq s + 500"
    and tr: "\<And>ev. trailing = Some ev \<Longrightarrow> ev \<in> set L"
  shows "catch_up (history_page L) trailing s = Inr (s\<lparr>rs_pending := drop (rs_last_seq s) L\<rparr>)"
proof -
  let ?d = "drop (rs_last_seq s) L"
  have page: "history_page L (rs_last_seq s) = Inr ?d" using room by (simp add: page_dense [OF L])
  have d: "?d = filter (\<lambda>ev. rs_last_seq s < ev_seq ev) L" using L by (simp add: dense_def filter_dense)
  have f: "filter (\<lambda>ev. rs_last_seq s < ev_seq ev) ?d = ?d" by (simp add: d)
  have merged: "fold bt_insert ?d [] = ?d"
    using fold_bt_insert_sorted [of "[]" ?d] dense_sorted_drop [OF L] by simp
  have "bt_or_insert ev ?d = ?d" if "trailing = Some ev" "rs_last_seq s < ev_seq ev" for ev
  proof -
    have "ev \<in> set ?d" using tr [OF that(1)] that(2) by (simp add: d)
    then show ?thesis by (simp add: bt_or_insert_def)
  qed
  then show ?thesis using f merged by (cases trailing) (simp_all add: catch_up_def page Let_def)
qed

definition on_track :: "core_event list \<Rightarrow> reliable_stream \<Rightarrow> bool" where
  "on_track L s \<longleftrightarrow> \<not> rs_is_terminal s \<and> rs_last_seq s \<le> length L \<and>
     length L \<le> rs_last_seq s + 500 \<and> prefix (rs_pending s) (drop (rs_last_seq s) L)"

definition covered :: "core_event list \<Rightarrow> reliable_stream \<Rightarrow> recv_input list \<Rightarrow> bool" where
  "covered L s ins \<longleftrightarrow> rs_pending s = drop (rs_last_seq s) L \<or>
     (\<exists>ins0. ins = ins0 @ [(RecvClosed, history_page L)])"

text \<open>One call of \<open>next\<close> on a stream that is on track delivers the next event of the log.\<close>

definition delivers :: "core_event list \<Rightarrow> reliable_stream \<Rightarrow> recv_input list \<Rightarrow> bool" where
  "delivers L s ins \<longleftrightarrow> (\<exists>s' ins'.
     next_event_of s ins = (Returned (Inr (Some (L ! rs_last_seq s))), s', ins') \<and>
     rs_last_seq s' = Suc (rs_last_seq s) \<and> list_all (input_ok L) ins' \<and> covered L s' ins' \<and>
     prefix (rs_pending s') (drop (Suc (rs_last_seq s)) L) \<and>
     rs_is_terminal s' = is_terminal_kind (ev_kind (L ! rs_last_seq s)))"

lemma delivers_pending:
  assumes L: "dense L" and s: "on_track L s" and p: "rs_pending s = ev # ps"
    and ins: "list_all (input_ok L) ins" "covered L s ins"
  shows "delivers L s ins"
proof -
  from s p have pre: "prefix (ev # ps) (drop (rs_last_seq s) L)" by (simp add: on_track_def)
  then have lt: "rs_last_seq s < length L" by (cases "rs_last_seq s < length L") auto
  then have d: "drop (rs_last_seq s) L = L ! rs_last_seq s # drop (Suc (rs_last_seq s)) L"
    by (rule Cons_nth_drop_Suc [symmetric])
  with pre have ev: "ev = L ! rs_last_seq s" "prefix ps (drop (Suc (rs_last_seq s)) L)" by auto
  let ?s = "deliver ev (s\<lparr>rs_pending := ps\<rparr>)"
  have seq: "rs_last_seq ?s = Suc (rs_last_seq s)" using dense_nth [OF L lt] ev by (simp add: deliver_def)
  have "covered L ?s ins" using ins(2) p d seq by (auto simp: covered_def deliver_def)
  then show ?thesis
    using s p ev ins(1) seq unfolding delivers_def
    by (intro exI [of _ ?s] exI [of _ ins]) (auto simp: next_pending on_track_def deliver_def)
qed

lemma next_delivers:
  assumes L: "dense L" "length L < u64_max"
  shows "on_track L s \<Longrightarrow> rs_last_seq s < length L \<Longrightarrow> list_all (input_ok L) ins \<Longrightarrow> covered L s ins \<Longrightarrow>
    delivers L s ins"
proof (induction ins arbitrary: s)
  case Nil
  then obtain ev ps where "rs_pending s = ev # ps" by (cases "rs_pending s") (auto simp: covered_def)
  then show ?case using delivers_pending [OF L(1) Nil.prems(1)] Nil.prems by blast
next
  case (Cons i ins)
  show ?case
  proof (cases "rs_pending s")
    case (Cons ev ps)
    then show ?thesis using delivers_pending [OF L(1) Cons.prems(1)] Cons.prems by blast
  next
    case Nil
    then have idle: "\<not> rs_is_terminal s" "rs_pending s = []" using Cons.prems(1) by (auto simp: on_track_def)
    obtain rv hist where i: "i = (rv, hist)" by fastforce
    from Cons.prems(3) i obtain k where k: "k \<le> length L" "hist = history_page (take k L)"
      "case rv of RecvOk ev \<Rightarrow> ev \<in> set (take k L) | RecvLagged n \<Rightarrow> True | RecvClosed \<Rightarrow> k = length L"
      by (auto simp: input_ok_def)
    have ins: "list_all (input_ok L) ins" using Cons.prems(3) by simp
    have cov: "covered L s' ins" if "ins \<noteq> [] \<or> rs_pending s' = drop (rs_last_seq s') L" for s'
      using Cons.prems(2,4) idle that by (auto simp: covered_def Cons_eq_append_conv)
    define s1 where "s1 = s\<lparr>rs_pending := drop (rs_last_seq s) (take k L)\<rparr>"
    have s1: "on_track L s1" "rs_last_seq s1 = rs_last_seq s"
      using Cons.prems(1) by (simp_all add: s1_def on_track_def drop_take take_is_prefix)
    have up: "catch_up hist tr s = Inr s1" if "\<And>ev. tr = Some ev \<Longrightarrow> ev \<in> set (take k L)" for tr
      unfolding k(2) s1_def using Cons.prems(1) that
      by (intro catch_up_page dense_take [OF L(1)]) (auto simp: on_track_def)
    have again: "delivers L s (i # ins)"
      if "next_event_of s (i # ins) = next_event_of s1 ins" "ins \<noteq> [] \<or> k = length L"
      using Cons.IH [OF s1(1) _ ins cov] Cons.prems(2) s1(2) that by (auto simp: delivers_def s1_def)
    have closing: "ins \<noteq> [] \<or> rv = RecvClosed"
      using Cons.prems(2,4) idle i by (auto simp: covered_def Cons_eq_append_conv)
    show ?thesis
    proof (cases rv)
      case (RecvOk ev)
      then have mem: "ev \<in> set (take k L)" using k(3) by simp
      then have evL: "ev \<in> set L" by (rule in_set_takeD)
      have nonempty: "ins \<noteq> []" using closing RecvOk by simp
      consider "ev_seq ev \<le> rs_last_seq s" | "ev_seq ev = Suc (rs_last_seq s)"
        | "Suc (rs_last_seq s) < ev_seq ev" by linarith
      then show ?thesis
      proof cases
        case 1
        then have "next_event_of s (i # ins) = next_event_of s ins" by (simp add: i RecvOk next_idle [OF idle])
        then show ?thesis using Cons.IH [OF Cons.prems(1,2) ins cov] nonempty by (simp add: delivers_def)
      next
        case 2
        have "u64_add (rs_last_seq s) 1 = Suc (rs_last_seq s)"
          using Cons.prems(1) L(2) by (simp add: u64_add_small on_track_def)
        then have "next_event_of s (i # ins) = (Returned (Inr (Some ev)), deliver ev s, ins)"
          using 2 by (simp add: i RecvOk next_idle [OF idle])
        moreover have "ev = L ! rs_last_seq s" using dense_mem [OF L(1) evL] 2 by simp
        ultimately show ?thesis using 2 idle ins cov [of "deliver ev s"] nonempty
          by (simp add: delivers_def deliver_def)
      next
        case 3
        have "u64_add (rs_last_seq s) 1 = Suc (rs_last_seq s)"
          using Cons.prems(1) L(2) by (simp add: u64_add_small on_track_def)
        then have "next_event_of s (i # ins) = next_event_of s1 ins"
          using 3 up [of "Some ev"] mem by (simp add: i RecvOk next_idle [OF idle])
        then show ?thesis using again nonempty by blast
      qed
    next
      case (RecvLagged n)
      then show ?thesis using again up [of None] closing by (simp add: i next_idle [OF idle])
    next
      case RecvClosed
      then have "k = length L" using k(3) by simp
      moreover from this have "rs_pending s1 \<noteq> []" using Cons.prems(2) by (simp add: s1_def)
      ultimately show ?thesis using again up [of None] RecvClosed by (simp add: i next_idle [OF idle])
    qed
  qed
qed

lemma next_more:
  "next_event_of s ins = (r, s', ins') \<Longrightarrow> r \<noteq> Waiting \<Longrightarrow> next_event_of s (ins @ rest) = (r, s', ins' @ rest)"
proof (induction ins arbitrary: s)
  case Nil
  then show ?case
    by (cases "rs_is_terminal s"; cases "rs_pending s") (auto simp: next_terminal next_pending next_idle)
next
  case (Cons i ins)
  obtain rv hist where i: "i = (rv, hist)" by fastforce
  show ?case
  proof (cases "rs_is_terminal s \<or> rs_pending s \<noteq> []")
    case True
    with Cons.prems show ?thesis
      by (cases "rs_is_terminal s"; cases "rs_pending s") (auto simp: next_terminal next_pending)
  next
    case False
    then have idle: "\<not> rs_is_terminal s" "rs_pending s = []" by auto
    show ?thesis
      using Cons.prems Cons.IH
      by (cases rv) (auto simp: i next_idle [OF idle] split: if_splits sum.splits)
  qed
qed

lemma drain_rest: "prefix (drain n s ins) (drain n s (ins @ rest))"
proof (induction n arbitrary: s ins)
  case (Suc n)
  obtain r s' ins' where nx: "next_event_of s ins = (r, s', ins')" by (cases "next_event_of s ins")
  show ?case
  proof (cases "\<exists>ev. r = Returned (Inr (Some ev))")
    case True
    then obtain ev where "r = Returned (Inr (Some ev))" by blast
    then show ?thesis using nx next_more [OF nx, of rest] Suc.IH by simp
  next
    case False
    then have "drain (Suc n) s ins = []" using nx by (auto split: next_result.split sum.split option.split)
    then show ?thesis by simp
  qed
qed simp

lemma drain_terminal: "rs_is_terminal s \<Longrightarrow> drain n s ins = []"
  by (cases n) (simp_all add: next_terminal)

lemma next_at_end:
  assumes L: "dense L"
  shows "on_track L s \<Longrightarrow> rs_last_seq s = length L \<Longrightarrow> list_all (input_ok L) ins \<Longrightarrow>
    fst (next_event_of s ins) \<in> {Waiting, Returned (Inr None)}"
proof (induction ins)
  case Nil
  then have "\<not> rs_is_terminal s" "rs_pending s = []" by (auto simp: on_track_def)
  then show ?case by (simp add: next_idle)
next
  case (Cons i ins)
  then have idle: "\<not> rs_is_terminal s" "rs_pending s = []" by (auto simp: on_track_def)
  obtain rv hist where i: "i = (rv, hist)" by fastforce
  from Cons.prems(3) i obtain k where k: "k \<le> length L" "hist = history_page (take k L)"
    "case rv of RecvOk ev \<Rightarrow> ev \<in> set (take k L) | RecvLagged n \<Rightarrow> True | RecvClosed \<Rightarrow> k = length L"
    by (auto simp: input_ok_def)
  have "catch_up hist None s = Inr s"
    using catch_up_page [OF dense_take [OF L, of k], of s None] Cons.prems(1,2) idle k(1,2)
    by (simp add: on_track_def)
  then show ?case
    using Cons k(3) idle dense_mem [OF L] in_set_takeD [of _ k L]
    by (cases rv) (auto simp: i next_idle [OF idle])
qed

lemma drain_dense:
  assumes L: "dense L" "length L < u64_max" "\<forall>ev\<in>set (butlast L). \<not> is_terminal_kind (ev_kind ev)"
  shows "on_track L s \<Longrightarrow> list_all (input_ok L) ins \<Longrightarrow> covered L s ins \<Longrightarrow>
    drain n s ins = take n (drop (rs_last_seq s) L)"
proof (induction n arbitrary: s ins)
  case (Suc n)
  show ?case
  proof (cases "rs_last_seq s < length L")
    case True
    then obtain s' ins' where s':
      "next_event_of s ins = (Returned (Inr (Some (L ! rs_last_seq s))), s', ins')"
      "rs_last_seq s' = Suc (rs_last_seq s)" "list_all (input_ok L) ins'" "covered L s' ins'"
      "prefix (rs_pending s') (drop (Suc (rs_last_seq s)) L)"
      "rs_is_terminal s' = is_terminal_kind (ev_kind (L ! rs_last_seq s))"
      using next_delivers [OF L(1,2) Suc.prems(1) _ Suc.prems(2,3)] by (auto simp: delivers_def)
    have "drain n s' ins' = take n (drop (Suc (rs_last_seq s)) L)"
    proof (cases "Suc (rs_last_seq s) < length L")
      case True
      then have "L ! rs_last_seq s \<in> set (butlast L)" by (metis Suc_lessD in_set_conv_nth length_butlast less_diff_conv nth_butlast Suc_eq_plus1)
      with L(3) s'(6) have "\<not> rs_is_terminal s'" by simp
      then have "on_track L s'" using s' Suc.prems(1) True by (simp add: on_track_def)
      with Suc.IH [OF this s'(3,4)] s'(2) show ?thesis by simp
    next
      case False
      with s'(2) True have last: "rs_last_seq s' = length L" by simp
      show ?thesis
      proof (cases "rs_is_terminal s'")
        case True
        then show ?thesis using False by (simp add: drain_terminal)
      next
        case False
        then have "on_track L s'" using s' last Suc.prems(1) by (simp add: on_track_def)
        from Suc.IH [OF this s'(3,4)] s'(2) show ?thesis by simp
      qed
    qed
    then show ?thesis using s'(1) Cons_nth_drop_Suc [OF True] by (simp flip: Cons_nth_drop_Suc [OF True])
  next
    case False
    then have "rs_last_seq s = length L" using Suc.prems(1) by (simp add: on_track_def)
    with next_at_end [OF L(1) Suc.prems(1) _ Suc.prems(2)] show ?thesis
      by (cases "next_event_of s ins") auto
  qed
qed simp

definition short_log :: "core_event list" where
  "short_log = [numbered_event 1 (EvAccepted True), numbered_event 2 (EvProgress ''a'' None),
     numbered_event 3 (EvCompleted [])]"

lemma drain_from_page:
  assumes L: "map ev_seq L = [1..<Suc (length L)]" "length L < u64_max"
      "\<forall>ev\<in>set (butlast L). \<not> is_terminal_kind (ev_kind ev)"
    and after: "after \<le> length L" "length L \<le> after + 500"
    and start: "history_page (take k L) after = Inr hist"
    and ins: "list_all (input_ok L) ins"
  shows "drain n (stream_new after hist) (ins @ [(RecvClosed, history_page L)]) = take n (drop after L)"
proof -
  let ?s = "stream_new after hist"
  have L': "dense L" using L(1) by (simp add: dense_def)
  have "hist = take 500 (drop after (take k L))" using start page_dense [OF dense_take [OF L']] by simp
  moreover from this have "rs_pending ?s = hist"
    using filter_dense [of "take k L" "length (take k L)" after] dense_take [OF L', of k]
    by (auto simp: stream_new_def dense_def intro!: filter_True dest!: in_set_takeD) (metis mem_Collect_eq set_filter)
  ultimately have s: "on_track L ?s"
    using after by (auto simp: on_track_def stream_new_def drop_take take_is_prefix)
  have close: "input_ok L (RecvClosed, history_page L)" by (auto simp: input_ok_def intro!: exI [of _ "length L"])
  show ?thesis
    using drain_dense [OF L' L(2,3) s, of "ins @ [(RecvClosed, history_page L)]" n] ins close
    by (simp add: covered_def stream_new_def)
qed

text \<open>
  C18: no event is skipped. Let \<open>L\<close> be the complete log of a task, numbered from 1, whose
  only terminal event is its last. Whatever order live events, duplicates and lags arrive
  in, a stream opened at \<open>after\<close>, at most 500 events before the end, delivers an initial
  segment of the log after \<open>after\<close>; once the channel has closed it has delivered all of it.
\<close>

theorem stream_no_gap:
  assumes L: "map ev_seq L = [1..<Suc (length L)]" "length L < u64_max"
      "\<forall>ev\<in>set (butlast L). \<not> is_terminal_kind (ev_kind ev)"
    and after: "after \<le> length L" "length L \<le> after + 500"
    and start: "history_page (take k L) after = Inr hist"
    and ins: "list_all (input_ok L) ins"
  shows "drain n (stream_new after hist) (ins @ [(RecvClosed, history_page L)]) = take n (drop after L) \<and>
    prefix (drain n (stream_new after hist) ins) (drop after L)"
proof -
  note full = drain_from_page [OF L after start ins, of n]
  have "prefix (drain n (stream_new after hist) ins) (take n (drop after L))"
    using drain_rest [of n "stream_new after hist" ins "[(RecvClosed, history_page L)]"] full by simp
  with full show ?thesis using prefix_order.order_trans take_is_prefix by blast
qed

theorem stream_no_gap_witness:
  "drain 5 (stream_new 0 []) ([(RecvOk (short_log ! 1), history_page (take 2 short_log)),
       (RecvLagged 7, history_page short_log)] @ [(RecvClosed, history_page short_log)]) = short_log"
proof -
  have ok: "list_all (input_ok short_log) [(RecvOk (short_log ! 1), history_page (take 2 short_log)),
      (RecvLagged 7, history_page short_log)]"
    unfolding input_ok_def list.pred_inject
    by (intro conjI exI [of _ 2] exI [of _ 3]) (simp_all add: short_log_def numbered_event_def)
  show ?thesis
    using stream_no_gap [OF _ _ _ _ _ _ ok, of 0 0 "[]" 5]
    by (simp add: short_log_def numbered_event_def history_page_def u64_max_def upt_rec)
qed

lemma drain_pending:
  "\<not> rs_is_terminal s \<Longrightarrow> rs_pending s = xs \<Longrightarrow> \<forall>ev\<in>set (butlast xs). \<not> is_terminal_kind (ev_kind ev) \<Longrightarrow>
     n \<le> length xs \<Longrightarrow> drain n s ins = take n xs"
proof (induction xs arbitrary: s n)
  case (Cons x xs)
  show ?case
  proof (cases n)
    case (Suc m)
    let ?s = "deliver x (s\<lparr>rs_pending := xs\<rparr>)"
    have "drain m ?s ins = take m xs"
    proof (cases "xs = []")
      case False
      then have "\<not> rs_is_terminal ?s" using Cons.prems(1,3) by (simp add: deliver_def)
      moreover have "rs_pending ?s = xs" by (simp add: deliver_def)
      ultimately show ?thesis using Cons.IH [of ?s m] Cons.prems(3,4) Suc False by simp
    qed (use Cons.prems(4) Suc in simp)
    then show ?thesis using Suc by (simp add: next_pending [OF Cons.prems(1,2)])
  qed simp
qed simp

lemma catch_up_behind:
  assumes L: "dense L" and far: "rs_last_seq s + 501 < length L"
  shows "catch_up (history_page L) (Some (last L)) s =
    Inr (s\<lparr>rs_pending := take 500 (drop (rs_last_seq s) L) @ [last L]\<rparr>)"
proof -
  let ?p = "take 500 (drop (rs_last_seq s) L)"
  have d: "drop (rs_last_seq s) L = filter (\<lambda>ev. rs_last_seq s < ev_seq ev) L"
    using L by (simp add: dense_def filter_dense)
  have f: "filter (\<lambda>ev. rs_last_seq s < ev_seq ev) ?p = ?p"
    by (rule filter_True) (auto simp: d dest: in_set_takeD)
  have merged: "fold bt_insert ?p [] = ?p"
    using fold_bt_insert_sorted [of "[]" ?p] sorted_wrt_take [OF dense_sorted_drop [OF L, of "rs_last_seq s"], of 500]
    by (simp add: take_map)
  have last: "ev_seq (last L) = length L"
    using far dense_nth [OF L, of "length L - 1"] by (cases "L = []") (auto simp: last_conv_nth)
  have small: "ev_seq x < length L" if "x \<in> set ?p" for x
  proof -
    from that obtain i where "i < length ?p" "x = ?p ! i" by (metis in_set_conv_nth)
    then show ?thesis using dense_nth [OF L, of "rs_last_seq s + i"] far by simp
  qed
  then have "bt_or_insert (last L) ?p = ?p @ [last L]"
    using bt_insert_last [of ?p "last L"] last small by (force simp: bt_or_insert_def)
  then show ?thesis using f merged last far by (simp add: catch_up_def page_dense [OF L])
qed

definition long_log :: "nat \<Rightarrow> core_event list" where
  "long_log n = map (\<lambda>i. numbered_event i (EvAccepted True)) [1..<Suc n]"

text \<open>
  The limit of the catch-up. It reads one page of 500 events and merges the live event
  behind it, whatever lies between. A stream that lags by more than 501 events delivers 500
  of them and then the live event: those between them are never delivered.
\<close>

theorem stream_gap_skipped:
  assumes "map ev_seq L = [1..<Suc (length L)]" "length L < u64_max"
      "\<forall>ev\<in>set (butlast L). \<not> is_terminal_kind (ev_kind ev)"
    and "after + 501 < length L"
  shows "drain 501 (stream_new after []) [(RecvOk (last L), history_page L)] =
    take 500 (drop after L) @ [last L]"
proof -
  let ?s = "stream_new after []" and ?p = "take 500 (drop after L) @ [last L]"
  have L: "dense L" using assms(1) by (simp add: dense_def)
  have idle: "\<not> rs_is_terminal ?s" "rs_pending ?s = []" "rs_last_seq ?s = after" by (simp_all add: stream_new_def)
  have last: "ev_seq (last L) = length L"
    using assms(4) dense_nth [OF L, of "length L - 1"] by (cases "L = []") (auto simp: last_conv_nth)
  have "u64_add after 1 = Suc after" using assms(2,4) by (simp add: u64_add_small)
  then have nx: "next_event_of ?s [(RecvOk (last L), history_page L)] = next_event_of (?s\<lparr>rs_pending := ?p\<rparr>) []"
    using assms(4) last idle(3) catch_up_behind [OF L, of ?s] by (simp add: next_idle [OF idle(1,2)])
  have "set (take 500 (drop after L)) \<subseteq> set (butlast L)"
  proof
    fix x
    assume "x \<in> set (take 500 (drop after L))"
    then have "x \<in> set (take (after + 500) L)"
      by (metis take_drop add.commute in_set_dropD)
    moreover have "take (after + 500) L = take (after + 500) (butlast L)"
      using assms(4) by (simp add: butlast_conv_take)
    ultimately show "x \<in> set (butlast L)" by (metis in_set_takeD)
  qed
  then have "drain 501 (?s\<lparr>rs_pending := ?p\<rparr>) [] = ?p"
    using drain_pending [of "?s\<lparr>rs_pending := ?p\<rparr>" ?p 501 "[]"] assms(3,4) idle(1) by (auto simp: butlast_append)
  moreover have "drain 501 ?s [(RecvOk (last L), history_page L)] = drain 501 (?s\<lparr>rs_pending := ?p\<rparr>) []"
    using nx by (simp add: numeral_eq_Suc)
  ultimately show ?thesis by simp
qed

theorem stream_gap_skipped_witness:
  "numbered_event 501 (EvAccepted True) \<notin>
     set (drain 501 (stream_new 0 []) [(RecvOk (last (long_log 503)), history_page (long_log 503))])"
proof -
  have log: "map ev_seq (long_log 503) = [1..<Suc 503]" "length (long_log 503) = 503"
    by (simp_all add: long_log_def numbered_event_def comp_def del: upt_Suc)
  have "\<forall>ev\<in>set (butlast (long_log 503)). \<not> is_terminal_kind (ev_kind ev)"
    by (auto simp: long_log_def numbered_event_def dest!: in_set_butlastD)
  with stream_gap_skipped [of "long_log 503" 0] log
  have "drain 501 (stream_new 0 []) [(RecvOk (last (long_log 503)), history_page (long_log 503))] =
      take 500 (long_log 503) @ [last (long_log 503)]"
    by (simp add: u64_max_def)
  then show ?thesis
    by (auto simp: long_log_def take_map last_map numbered_event_def simp del: upt_Suc)
qed

end
