(* ===== verification/Core_Service.thy ===== *)
theory Core_Service
  imports Core_Commands Reliable_Stream
begin

text \<open>
  What the protocol layers share: the three operations of the core they call (the traits
  \<open>A2aCoreService\<close> and \<open>AcpCoreService\<close>, both implemented by \<open>AdapterCore\<close>), and the
  text of identifiers. Printing and parsing a UUID is the crate \<open>uuid\<close>, so both come in
  as a record; what the protocol layers rely on is that a printed UUID parses back.
\<close>

section \<open>The text of identifiers\<close>

record uuid_format =
  uf_print :: "uuid \<Rightarrow> string"
  uf_parse :: "string \<Rightarrow> uuid option"

definition uuid_format_ok :: "uuid_format \<Rightarrow> bool" where
  "uuid_format_ok uf \<longleftrightarrow> (\<forall>u. uf_parse uf (uf_print uf u) = Some u)"

text \<open>A format in the documented shape, five groups of hexadecimal digits, to run examples.\<close>

definition hex_digit :: "nat \<Rightarrow> char" where
  "hex_digit d = (if d < 10 then char_of (48 + d) else char_of (87 + d))"

definition hex_value :: "char \<Rightarrow> nat" where
  "hex_value c = (if of_char c < (58 :: nat) then of_char c - 48 else of_char c - 87)"

definition hex_digits :: "nat \<Rightarrow> nat \<Rightarrow> string" where
  "hex_digits k n = map (\<lambda>i. hex_digit (n div 16 ^ i mod 16)) (rev [0..<k])"

definition hex_number :: "string \<Rightarrow> nat" where
  "hex_number s = foldl (\<lambda>a c. 16 * a + hex_value c) 0 s"

definition hyphenated :: uuid_format where
  "hyphenated =
     \<lparr>uf_print = (\<lambda>u. let h = hex_digits 32 (unat u) in
        take 8 h @ ''-'' @ take 4 (drop 8 h) @ ''-'' @ take 4 (drop 12 h) @ ''-'' @
        take 4 (drop 16 h) @ ''-'' @ drop 20 h),
      uf_parse = (\<lambda>s. let h = filter (\<lambda>c. c \<noteq> CHR ''-'') s in
        if length s = 36 \<and> length h = 32 then Some (of_nat (hex_number h)) else None)\<rparr>"

lemma hex_value_digit: "d < 16 \<Longrightarrow> hex_value (hex_digit d) = d"
  by (simp add: hex_value_def hex_digit_def)

lemma hex_digit_hyphen: "d < 16 \<Longrightarrow> hex_digit d \<noteq> CHR ''-''"
proof
  assume "d < 16" "hex_digit d = CHR ''-''"
  then have "(of_char (hex_digit d) :: nat) = of_char CHR ''-''" by simp
  with \<open>d < 16\<close> show False by (simp add: hex_digit_def split: if_splits)
qed

lemma hex_number_digits: "hex_number (hex_digits k n) = n mod 16 ^ k"
proof -
  have "foldl (\<lambda>a c. 16 * a + hex_value c) a (hex_digits k n) = a * 16 ^ k + n mod 16 ^ k" for a
  proof (induction k arbitrary: a)
    case (Suc k)
    have "n mod 16 ^ Suc k = n div 16 ^ k mod 16 * 16 ^ k + n mod 16 ^ k"
      by (simp add: mod_mult2_eq mult.commute [of 16])
    with Suc [of "16 * a + n div 16 ^ k mod 16"] show ?case
      by (simp add: hex_digits_def hex_value_digit algebra_simps)
  qed (simp add: hex_digits_def)
  from this [of 0] show ?thesis by (simp add: hex_number_def)
qed

lemma take_drop_join: "take i (drop j xs) @ drop (i + j) xs = drop j xs"
  by (metis append_take_drop_id drop_drop)

lemma hyphenated_ok: "uuid_format_ok hyphenated"
  unfolding uuid_format_ok_def
proof
  fix u :: uuid
  let ?h = "hex_digits 32 (unat u)"
  have len: "length ?h = 32" by (simp add: hex_digits_def)
  have hyph: "CHR ''-'' \<notin> set ?h" by (auto simp: hex_digits_def hex_digit_hyphen [symmetric])
  have plain: "filter (\<lambda>c. c \<noteq> CHR ''-'') xs = xs" if "set xs \<subseteq> set ?h" for xs
    using that hyph by (intro filter_True) auto
  have sets: "set (take i (drop j ?h)) \<subseteq> set ?h" "set (drop j ?h) \<subseteq> set ?h" "set (take i ?h) \<subseteq> set ?h" for i j
    by (meson set_take_subset set_drop_subset subset_trans)+
  have split: "take 8 ?h @ take 4 (drop 8 ?h) @ take 4 (drop 12 ?h) @ take 4 (drop 16 ?h) @ drop 20 ?h = ?h"
    using take_drop_join [of 4 8 ?h] take_drop_join [of 4 12 ?h] take_drop_join [of 4 16 ?h] by simp
  have "(of_nat (unat u mod 16 ^ 32) :: uuid) = u"
  proof -
    have "unat u < 2 ^ LENGTH(128)" by (rule unsigned_less)
    then show ?thesis by simp
  qed
  then show "uf_parse hyphenated (uf_print hyphenated u) = Some u"
    by (simp add: hyphenated_def Let_def plain sets split len hex_number_digits)
qed

text \<open>What the protocol layers assume of a format, and the consequences they use.\<close>

locale uuid_text =
  fixes uf :: uuid_format
  assumes format_ok: "uuid_format_ok uf"
begin

lemma parse_print [simp]: "uf_parse uf (uf_print uf u) = Some u"
  using format_ok by (simp add: uuid_format_ok_def)

lemma print_inj: "uf_print uf u = uf_print uf v \<longleftrightarrow> u = v"
  by (metis parse_print option.inject)

end

interpretation hyphenated: uuid_text hyphenated
  by unfold_locales (rule hyphenated_ok)

section \<open>The service\<close>

record core_service =
  cs_dispatch :: "caller \<Rightarrow> core_command \<Rightarrow> (core_error + dispatch_result) prog"
  cs_subscribe :: "task_id \<Rightarrow> event_seq \<Rightarrow> (core_error + task_subscription) prog"
  cs_history :: "task_id \<Rightarrow> event_seq \<Rightarrow> (core_error + core_event list) prog"

definition adapter_core_service :: "core_env \<Rightarrow> core_service" where
  "adapter_core_service ce =
     \<lparr>cs_dispatch = dispatch ce, cs_subscribe = subscribe, cs_history = history\<rparr>"

text \<open>An open stream: the state of the \<open>ReliableTaskStream\<close> and the receiver it reads.\<close>

type_synonym open_stream = "reliable_stream \<times> receiver"

definition open_reliable :: "event_seq \<Rightarrow> task_subscription \<Rightarrow> open_stream" where
  "open_reliable after sub = (stream_new after (ts_history sub), ts_receiver sub)"

text \<open>A call that may panic.\<close>

datatype 'a checked = Panic | Ret 'a

section \<open>Lemmas\<close>

text \<open>Reading a task through the service, for each backend that satisfies the contract.\<close>

context guarded_store
begin

lemma run_get_status:
  assumes "good_store inv view n (w_store w)" "ce_policy ce caller (GetStatus t) = Inr ()"
  shows "run (dispatch ce caller (GetStatus t)) ops ora bs w =
    (Some (case view (w_store w) t of
       None \<Rightarrow> Inl (StoreError (NotFound t))
     | Some e \<Rightarrow> Inr (DrStatus (fst e))), bs, w)"
proof (cases "view (w_store w) t")
  case None
  then show ?thesis
    using assms by (simp add: dispatch.simps run_snapshot_then_missing [OF assms(1) None])
next
  case (Some e)
  then obtain snap evs where e: "view (w_store w) t = Some (snap, evs)" by (cases e) auto
  then show ?thesis using assms by (simp add: dispatch.simps run_snapshot_then [OF assms(1) e])
qed

text \<open>What an event that a driver event stored tells of the state it left.\<close>

lemma driver_event_stored:
  assumes "good_store inv view n (w_store w)" "n < seq_limit" "view (w_store w) t = Some (snap, evs)"
    and "run (apply_driver_event ce t dv) ops ora bs w = (r, bs', w')"
    and "view (w_store w') t = Some (snap', evs @ [e])"
  shows "driver_effect (snap_state snap) dv = Moves (snap_state snap') (ev_kind e)"
proof -
  have perf: "performs ops view ora (apply_driver_event ce t dv) w t evs (driver_effect (snap_state snap) dv)"
    using assms(1-3) by (rule performs_driver_event)
  have "w' \<noteq> w" using assms(3,5) by auto
  then have eff: "driver_effect (snap_state snap) dv \<noteq> Ignored" "driver_effect (snap_state snap) dv \<noteq> Refused"
    using perf assms(4) unfolding performs_def by (auto dest!: spec [of _ bs])
  then obtain nxt kind where mv: "driver_effect (snap_state snap) dv = Moves nxt kind"
    by (cases "driver_effect (snap_state snap) dv") auto
  then obtain snap1 where "moved view w w' t evs snap1 nxt kind"
    using perf assms(4) unfolding performs_def by (auto dest!: spec [of _ bs])
  then have "snap_state snap' = nxt" "ev_kind e = kind"
    using assms(5) by (auto simp: moved_def)
  with mv show ?thesis by simp
qed

lemma driver_event_good:
  assumes "good_store inv view n (w_store w)" "n < seq_limit"
    and "run (apply_driver_event ce t dv) ops ora bs w = (r, bs', w')"
  shows "good_store inv view (Suc n) (w_store w')"
  using run_safe [OF safe_apply_driver_event all_past_empty appends_le_apply_driver_event assms(1), of ce t dv ora bs]
    assms(2,3) by simp

lemma run_history:
  assumes "good_store inv view n (w_store w)" "view (w_store w) t = Some (snap, evs)" "after \<le> seq_limit"
  shows "op_events_after ops t after 500 (w_store w) =
    Inr (take 500 (filter (\<lambda>ev. after < ev_seq ev) evs))"
  using assms by (simp add: good_store_def events_view)

lemma run_subscribe:
  assumes "good_store inv view n (w_store w)" "view (w_store w) t = Some (snap, evs)" "after \<le> seq_limit"
  shows "\<exists>sub. (\<forall>ora bs. run (subscribe t after) ops ora bs w = (Some (Inr sub), bs, w)) \<and>
    ts_history sub = take 500 (filter (\<lambda>ev. after < ev_seq ev) evs)"
  by (simp add: subscribe_def run_history [OF assms])

end

end
