(* ===== verification/A2A_Mapper.thy ===== *)
theory A2A_Mapper
  imports Core_Service
begin

text \<open>
  The crate \<open>protocol-a2a-mapper\<close>: the data of the A2A protocol, the translation of
  requests into core commands and of core events into stream events, and the four
  operations of \<open>A2aMapper\<close> over the core service. Definitions that have a namesake in
  another crate carry the prefix \<open>a2a\<close>.
\<close>

section \<open>Data\<close>

record a2a_capabilities =
  ac_streaming :: bool
  ac_push_notifications :: bool
  ac_state_transition_history :: bool

record a2a_skill =
  as_id :: string
  as_name :: string
  as_description :: string
  as_tags :: "string list"

datatype auth_scheme = Bearer string | Mtls | Oidc string string

record agent_card =
  card_protocol_version :: string
  card_name :: string
  card_description :: string
  card_url :: string
  card_version :: string
  card_capabilities :: a2a_capabilities
  card_skills :: "a2a_skill list"
  card_authentication :: "auth_scheme list"

record a2a_part =
  ap_kind :: string
  ap_text :: "string option"
  ap_data :: "json option"
  ap_uri :: "string option"
  ap_mime_type :: "string option"

record a2a_message =
  am_role :: string
  am_parts :: "a2a_part list"

record a2a_task_request =
  atr_idempotency_key :: string
  atr_context_id :: "string option"
  atr_task_id :: "string option"
  atr_target_agent_id :: "string option"
  atr_skill_id :: "string option"
  atr_message :: a2a_message
  atr_metadata :: json

record a2a_task_status =
  ats_state :: string
  ats_message :: "a2a_message option"

record a2a_artifact =
  aa_name :: string
  aa_mime_type :: string
  aa_parts :: "a2a_part list"

record a2a_task =
  at_id :: string
  at_context_id :: "string option"
  at_status :: a2a_task_status
  at_artifacts :: "a2a_artifact list"

datatype a2a_stream_event =
    TaskStatusUpdate string a2a_task_status bool
  | TaskArtifactUpdate string a2a_artifact

datatype a2a_mapper_error = A2aInvalidRequest string | A2aCore core_error

section \<open>Translation\<close>

definition a2a_parse_uuid :: "uuid_format \<Rightarrow> string \<Rightarrow> string \<Rightarrow> a2a_mapper_error + uuid" where
  "a2a_parse_uuid uf v field = ok_or (uf_parse uf v) (A2aInvalidRequest (field @ '' must be UUID''))"

definition parse_uuid_task :: "uuid_format \<Rightarrow> string \<Rightarrow> a2a_mapper_error + task_id" where
  "parse_uuid_task uf v = a2a_parse_uuid uf v ''task_id''"

definition a2a_to_core_part :: "a2a_part \<Rightarrow> a2a_mapper_error + part" where
  "a2a_to_core_part p =
     (if ap_kind p = ''text'' then Inr (PText (case ap_text p of None \<Rightarrow> [] | Some s \<Rightarrow> s))
      else if ap_kind p = ''data'' \<or> ap_kind p = ''json''
      then Inr (PJson (case ap_data p of None \<Rightarrow> JNull | Some v \<Rightarrow> v))
      else if ap_kind p = ''file'' \<or> ap_kind p = ''file_ref''
      then (case ap_uri p of
              None \<Rightarrow> Inl (A2aInvalidRequest ''file part requires uri'')
            | Some uri \<Rightarrow> Inr (PFileRef uri (ap_mime_type p)))
      else Inl (A2aInvalidRequest (''unsupported A2A part kind: '' @ ap_kind p)))"

fun a2a_from_core_part :: "part \<Rightarrow> a2a_part" where
  "a2a_from_core_part (PText text) =
     \<lparr>ap_kind = ''text'', ap_text = Some text, ap_data = None, ap_uri = None, ap_mime_type = None\<rparr>"
| "a2a_from_core_part (PJson v) =
     \<lparr>ap_kind = ''data'', ap_text = None, ap_data = Some v, ap_uri = None, ap_mime_type = None\<rparr>"
| "a2a_from_core_part (PFileRef uri mime) =
     \<lparr>ap_kind = ''file_ref'', ap_text = None, ap_data = None, ap_uri = Some uri, ap_mime_type = mime\<rparr>"

definition text_message :: "string \<Rightarrow> a2a_message" where
  "text_message text =
     \<lparr>am_role = ''agent'',
      am_parts = [\<lparr>ap_kind = ''text'', ap_text = Some text, ap_data = None, ap_uri = None,
                   ap_mime_type = None\<rparr>]\<rparr>"

definition a2a_to_core_invoke :: "uuid_format \<Rightarrow> a2a_task_request \<Rightarrow> a2a_mapper_error + invoke_request" where
  "a2a_to_core_invoke uf request =
     (if blank (atr_idempotency_key request)
      then Inl (A2aInvalidRequest ''idempotency_key is required'')
      else rbind (try_collect a2a_to_core_part (am_parts (atr_message request))) (\<lambda>input.
        rbind (transpose_opt (\<lambda>v. a2a_parse_uuid uf v ''context_id'') (atr_context_id request)) (\<lambda>session_id.
        rbind (transpose_opt (parse_uuid_task uf) (atr_task_id request)) (\<lambda>task_id.
          Inr \<lparr>rq_task_id = task_id, rq_agent_id = atr_target_agent_id request,
               rq_skill_id = atr_skill_id request, rq_idempotency_key = atr_idempotency_key request,
               rq_session_id = session_id, rq_input = input, rq_context = atr_metadata request,
               rq_deadline = None\<rparr>))))"

fun a2a_event_status :: "core_event_kind \<Rightarrow> (string \<times> a2a_message option \<times> bool) option" where
  "a2a_event_status (EvAccepted queued) = Some (''submitted'', None, False)"
| "a2a_event_status (EvProgress message percent) = Some (''working'', Some (text_message message), False)"
| "a2a_event_status (EvInputRequired request) =
     Some (''input-required'', Some (text_message (ir_question request)), False)"
| "a2a_event_status (EvCompleted output) =
     Some (''completed'', Some \<lparr>am_role = ''agent'', am_parts = map a2a_from_core_part output\<rparr>, True)"
| "a2a_event_status (EvFailed error) = Some (''failed'', Some (text_message (pe_message error)), True)"
| "a2a_event_status (EvCancelRequested reason) =
     Some (''working'', Some (text_message ''cancellation requested''), False)"
| "a2a_event_status EvCancelled = Some (''canceled'', None, True)"
| "a2a_event_status (EvArtifact artifact) = None"

definition a2a_map_event :: "uuid_format \<Rightarrow> core_event \<Rightarrow> a2a_stream_event" where
  "a2a_map_event uf event =
     (case ev_kind event of
        EvArtifact artifact \<Rightarrow>
          TaskArtifactUpdate (uf_print uf (ev_task_id event))
            \<lparr>aa_name = art_name artifact, aa_mime_type = art_mime_type artifact,
             aa_parts = [\<lparr>ap_kind = ''file_ref'', ap_text = None, ap_data = None,
                          ap_uri = art_uri artifact, ap_mime_type = None\<rparr>]\<rparr>
      | kind \<Rightarrow>
          (case a2a_event_status kind of
             Some (state, message, final_update) \<Rightarrow>
               TaskStatusUpdate (uf_print uf (ev_task_id event))
                 \<lparr>ats_state = state, ats_message = message\<rparr> final_update))"

fun a2a_state :: "task_state \<Rightarrow> string" where
  "a2a_state Created = ''submitted''"
| "a2a_state Accepted = ''submitted''"
| "a2a_state Running = ''working''"
| "a2a_state CancelRequested = ''working''"
| "a2a_state WaitingForInput = ''input-required''"
| "a2a_state Completed = ''completed''"
| "a2a_state Failed = ''failed''"
| "a2a_state Cancelled = ''canceled''"

definition status_from_snapshot :: "task_snapshot \<Rightarrow> a2a_task_status" where
  "status_from_snapshot snap = \<lparr>ats_state = a2a_state (snap_state snap), ats_message = None\<rparr>"

section \<open>Operations\<close>

text \<open>The operator \<open>?\<close> on an answer of the core, and on a translation.\<close>

definition a2a_core :: "(core_error + 'a) prog \<Rightarrow> ('a \<Rightarrow> (a2a_mapper_error + 'b) prog) \<Rightarrow>
    (a2a_mapper_error + 'b) prog" where
  "a2a_core p f = bindp p (\<lambda>r. case r of Inl e \<Rightarrow> Done (Inl (A2aCore e)) | Inr a \<Rightarrow> f a)"

definition a2a_try :: "a2a_mapper_error + 'a \<Rightarrow> ('a \<Rightarrow> (a2a_mapper_error + 'b) prog) \<Rightarrow>
    (a2a_mapper_error + 'b) prog" where
  "a2a_try r f = (case r of Inl e \<Rightarrow> Done (Inl e) | Inr a \<Rightarrow> f a)"

definition a2a_task_of :: "uuid_format \<Rightarrow> task_snapshot \<Rightarrow> a2a_task" where
  "a2a_task_of uf snap =
     \<lparr>at_id = uf_print uf (snap_task_id snap), at_context_id = map_option (uf_print uf) (snap_session_id snap),
      at_status = status_from_snapshot snap, at_artifacts = []\<rparr>"

definition send_task ::
  "uuid_format \<Rightarrow> core_service \<Rightarrow> caller \<Rightarrow> a2a_task_request \<Rightarrow> (a2a_mapper_error + a2a_task) prog" where
  "send_task uf core caller request =
     a2a_try (a2a_to_core_invoke uf request) (\<lambda>invoke.
     a2a_core (cs_dispatch core caller (Invoke invoke)) (\<lambda>result.
       case result of
         DrCreated snap \<Rightarrow> Done (Inr (a2a_task_of uf snap))
       | DrExisting snap \<Rightarrow> Done (Inr (a2a_task_of uf snap))
       | _ \<Rightarrow> Done (Inl (A2aInvalidRequest ''unexpected core result for invoke''))))"

definition get_task ::
  "uuid_format \<Rightarrow> core_service \<Rightarrow> caller \<Rightarrow> string \<Rightarrow> (a2a_mapper_error + a2a_task) prog" where
  "get_task uf core caller task_id =
     a2a_try (a2a_parse_uuid uf task_id ''task_id'') (\<lambda>t.
     a2a_core (cs_dispatch core caller (GetStatus t)) (\<lambda>result.
       case result of
         DrStatus snap \<Rightarrow> Done (Inr (a2a_task_of uf snap))
       | _ \<Rightarrow> Done (Inl (A2aInvalidRequest ''unexpected core result for status''))))"

definition cancel_task ::
  "uuid_format \<Rightarrow> core_service \<Rightarrow> caller \<Rightarrow> string \<Rightarrow> (a2a_mapper_error + a2a_task) prog" where
  "cancel_task uf core caller task_id =
     a2a_try (a2a_parse_uuid uf task_id ''task_id'') (\<lambda>t.
     a2a_core (cs_dispatch core caller (Cancel t None)) (\<lambda>result.
       case result of
         DrCancelRequested snap \<Rightarrow> Done (Inr (a2a_task_of uf snap))
       | _ \<Rightarrow> Done (Inl (A2aInvalidRequest ''unexpected core result for cancel''))))"

definition subscribe_task ::
  "uuid_format \<Rightarrow> core_service \<Rightarrow> caller \<Rightarrow> string \<Rightarrow> event_seq \<Rightarrow> (a2a_mapper_error + open_stream) prog" where
  "subscribe_task uf core caller task_id after =
     a2a_try (a2a_parse_uuid uf task_id ''task_id'') (\<lambda>t.
     a2a_core (cs_dispatch core caller (GetStatus t)) (\<lambda>_.
     a2a_core (cs_subscribe core t after) (\<lambda>sub.
       Done (Inr (open_reliable after sub)))))"

text \<open>\<open>A2aTaskEventStream::next\<close> and \<open>last_seq\<close>.\<close>

definition a2a_next ::
  "uuid_format \<Rightarrow> reliable_stream \<Rightarrow> recv_input list \<Rightarrow>
     (a2a_mapper_error + a2a_stream_event option) option \<times> reliable_stream \<times> recv_input list" where
  "a2a_next uf s ins =
     (case next_event_of s ins of
        (Waiting, s', ins') \<Rightarrow> (None, s', ins')
      | (Returned (Inl e), s', ins') \<Rightarrow> (Some (Inl (A2aCore e)), s', ins')
      | (Returned (Inr None), s', ins') \<Rightarrow> (Some (Inr None), s', ins')
      | (Returned (Inr (Some ev)), s', ins') \<Rightarrow> (Some (Inr (Some (a2a_map_event uf ev))), s', ins'))"

fun is_final :: "a2a_stream_event \<Rightarrow> bool" where
  "is_final (TaskStatusUpdate t st f) = f"
| "is_final (TaskArtifactUpdate t a) = False"

text \<open>A consumer that calls \<open>next\<close> up to \<open>n\<close> times.\<close>

fun a2a_drain :: "uuid_format \<Rightarrow> nat \<Rightarrow> reliable_stream \<Rightarrow> recv_input list \<Rightarrow> a2a_stream_event list" where
  "a2a_drain uf 0 s ins = []"
| "a2a_drain uf (Suc n) s ins =
     (case a2a_next uf s ins of
        (Some (Inr (Some ev)), s', ins') \<Rightarrow> ev # a2a_drain uf n s' ins'
      | _ \<Rightarrow> [])"

section \<open>Lemmas\<close>

lemma a2a_to_from_part: "a2a_to_core_part (a2a_from_core_part p) = Inr p"
  by (cases p) (simp_all add: a2a_to_core_part_def)

lemma a2a_drain_eq: "a2a_drain uf n s ins = map (a2a_map_event uf) (drain n s ins)"
proof (induction n arbitrary: s ins)
  case (Suc n)
  obtain r s' ins' where "next_event_of s ins = (r, s', ins')" by (cases "next_event_of s ins")
  then show ?case
    using Suc by (auto simp: a2a_next_def split: next_result.split sum.split option.split)
qed simp

lemma a2a_event_status_None: "a2a_event_status k = None \<longleftrightarrow> (\<exists>a. k = EvArtifact a)"
  by (cases k) auto

lemma a2a_final: "is_final (a2a_map_event uf ev) \<longleftrightarrow> is_terminal_kind (ev_kind ev)"
  by (cases "ev_kind ev") (simp_all add: a2a_map_event_def)

lemma run_a2a_try:
  "run (a2a_try r f) ops ora bs w = (case r of Inl e \<Rightarrow> (Some (Inl e), bs, w) | Inr a \<Rightarrow> run (f a) ops ora bs w)"
  by (simp add: a2a_try_def split: sum.split)

lemma run_a2a_core:
  assumes "run p ops ora bs w = (Some r, bs', w')"
  shows "run (a2a_core p f) ops ora bs w =
    (case r of Inl e \<Rightarrow> (Some (Inl (A2aCore e)), bs', w') | Inr a \<Rightarrow> run (f a) ops ora bs' w')"
  using assms by (simp add: a2a_core_def run_bindp split: sum.split)

lemma run_denied:
  "ce_policy ce caller command = Inl e \<Longrightarrow> run (dispatch ce caller command) ops ora bs w = (Some (Inl e), bs, w)"
  by (simp add: dispatch.simps)

section \<open>Properties\<close>

text \<open>
  Content survives the translation. The parts of a core message, sent as A2A parts and
  read back, are the same parts; reading any A2A part twice gives what reading it once
  gives, errors included.
\<close>

theorem a2a_parts_roundtrip:
  "try_collect a2a_to_core_part (map a2a_from_core_part ps) = Inr ps \<and>
   rbind (a2a_to_core_part q) (\<lambda>p. a2a_to_core_part (a2a_from_core_part p)) = a2a_to_core_part q"
proof
  show "try_collect a2a_to_core_part (map a2a_from_core_part ps) = Inr ps"
    by (induction ps) (simp_all add: a2a_to_from_part)
  show "rbind (a2a_to_core_part q) (\<lambda>p. a2a_to_core_part (a2a_from_core_part p)) = a2a_to_core_part q"
    by (cases "a2a_to_core_part q") (simp_all add: a2a_to_from_part)
qed

text \<open>
  Reading a task through A2A, on every branch: a malformed id is an invalid request, a
  refusal of the policy is passed on, an unknown task is \<open>NotFound\<close>, any other is
  answered with its id, its session and its state. Nothing changes. The answer does not
  depend on who owns the task: a caller the policy lets read one task can read every task.
\<close>

theorem a2a_get_task_correct:
  assumes "guarded_store ops iv view keyed allow" "good_store iv view n (w_store w)"
  shows "run (get_task uf (adapter_core_service ce) caller txt) ops ora bs w =
    (Some (case uf_parse uf txt of
       None \<Rightarrow> Inl (A2aInvalidRequest ''task_id must be UUID'')
     | Some t \<Rightarrow>
         (case ce_policy ce caller (GetStatus t) of
            Inl e \<Rightarrow> Inl (A2aCore e)
          | Inr _ \<Rightarrow>
              (case view (w_store w) t of
                 None \<Rightarrow> Inl (A2aCore (StoreError (NotFound t)))
               | Some (snap, evs) \<Rightarrow>
                   Inr \<lparr>at_id = uf_print uf t, at_context_id = map_option (uf_print uf) (snap_session_id snap),
                        at_status = \<lparr>ats_state = a2a_state (snap_state snap), ats_message = None\<rparr>,
                        at_artifacts = []\<rparr>))), bs, w)"
proof (cases "uf_parse uf txt")
  case None
  then show ?thesis by (simp add: get_task_def a2a_parse_uuid_def run_a2a_try)
next
  case (Some t)
  show ?thesis
  proof (cases "ce_policy ce caller (GetStatus t)")
    case (Inl e)
    then show ?thesis
      using Some by (simp add: run_a2a_core [OF run_denied [OF Inl]] get_task_def a2a_parse_uuid_def run_a2a_try adapter_core_service_def)
  next
    case (Inr u)
    note get = guarded_store.run_get_status [OF assms, of ce caller t]
    show ?thesis
      using Some Inr good_store_dense(1) [OF assms(2)]
      by (auto simp: run_a2a_core [OF get] get_task_def a2a_parse_uuid_def run_a2a_try adapter_core_service_def
          a2a_task_of_def status_from_snapshot_def split: option.split)
  qed
qed

text \<open>
  An A2A subscriber gets the whole log. A subscription to a stored task at \<open>after\<close>
  opens a stream. Let \<open>L\<close> be the log the task will have had when its channel closes. If
  that is at most 500 events later, the subscriber receives the translation of exactly the
  events after \<open>after\<close>, in order, and only the last can be marked final, which it is
  exactly when it ends the task.
\<close>

theorem a2a_subscribe_delivers:
  assumes "guarded_store ops iv view keyed allow" "good_store iv view m (w_store w)"
    and "uf_parse uf txt = Some t" "ce_policy ce caller (GetStatus t) = Inr ()"
    and "view (w_store w) t = Some (snap, evs)"
    and "dense_log t (snap', L)" "closed_log (snap', L)" "prefix evs L" "length L < seq_limit"
    and "after \<le> length L" "length L \<le> after + 500" "list_all (input_ok L) ins"
  shows "\<exists>s rx. run (subscribe_task uf (adapter_core_service ce) caller txt after) ops ora bs w =
      (Some (Inr (s, rx)), bs, w) \<and>
    a2a_drain uf n s (ins @ [(RecvClosed, history_page L)]) = map (a2a_map_event uf) (take n (drop after L)) \<and>
    (\<forall>x\<in>set (map (a2a_map_event uf) (butlast L)). \<not> is_final x) \<and>
    (L \<noteq> [] \<longrightarrow> is_final (a2a_map_event uf (last L)) = terminal (snap_state snap'))"
proof -
  have after: "after \<le> seq_limit" using assms(9,10) by simp
  obtain sub where sub: "\<forall>ora bs. run (subscribe t after) ops ora bs w = (Some (Inr sub), bs, w)"
    "ts_history sub = take 500 (filter (\<lambda>ev. after < ev_seq ev) evs)"
    using guarded_store.run_subscribe [OF assms(1,2,5) after] by blast
  note get = guarded_store.run_get_status [OF assms(1,2,4), of ora]
  have opened: "run (subscribe_task uf (adapter_core_service ce) caller txt after) ops ora bs w =
      (Some (Inr (open_reliable after sub)), bs, w)"
    using assms(3,5)
    by (simp add: run_a2a_core [OF get] run_a2a_core [OF sub(1) [rule_format]] subscribe_task_def a2a_parse_uuid_def run_a2a_try adapter_core_service_def)
  have evs: "take (length evs) L = evs" using assms(8) by (auto simp: prefix_def)
  have L: "map ev_seq L = [1..<Suc (length L)]" "length L < u64_max"
    "\<forall>ev\<in>set (butlast L). \<not> is_terminal_kind (ev_kind ev)"
    using assms(6,7,9) by (auto simp: dense_log_def closed_log_def seq_limit_def u64_max_def)
  have "drain n (stream_new after (ts_history sub)) (ins @ [(RecvClosed, history_page L)]) = take n (drop after L)"
    by (rule drain_from_page [OF L assms(10,11) _ assms(12), of "length evs"])
      (simp add: history_page_def evs sub(2))
  with opened L(3) assms(7) show ?thesis
    by (auto simp: open_reliable_def a2a_drain_eq a2a_final closed_log_def)
qed

text \<open>
  Polling and streaming agree. When the core applies a driver event and stores an event
  for it, the stream event it becomes carries the id of the task, and either it is an
  artifact, or it carries the state that \<open>get_task\<close> reports from then on and is marked
  final exactly when the task has ended.
\<close>

theorem a2a_status_agrees:
  assumes "guarded_store ops iv view keyed allow"
    and "good_store iv view n (w_store w)" "n < seq_limit" "view (w_store w) t = Some (snap, evs)"
    and "run (apply_driver_event ce t dv) ops ora bs w = (r, bs', w')"
    and "view (w_store w') t = Some (snap', evs @ [e])"
  shows "case a2a_map_event uf e of
      TaskStatusUpdate i st final_update \<Rightarrow>
        i = uf_print uf (ev_task_id e) \<and> ats_state st = ats_state (status_from_snapshot snap') \<and>
        final_update = terminal (snap_state snap')
    | TaskArtifactUpdate i a \<Rightarrow> i = uf_print uf (ev_task_id e) \<and> snap_state snap' = Running"
proof -
  have "driver_effect (snap_state snap) dv = Moves (snap_state snap') (ev_kind e)"
    using assms by (rule guarded_store.driver_event_stored)
  then show ?thesis
    by (cases "ev_kind e"; cases dv) (auto simp: a2a_map_event_def status_from_snapshot_def split: if_splits)
qed

section \<open>Witnesses\<close>

theorem a2a_get_task_correct_witness:
  "run (get_task hyphenated (adapter_core_service demo_env) \<lparr>caller_id_of = ''mallory'', caller_scopes = []\<rparr>
       (uf_print hyphenated 7)) mem_ops demo_answers [] demo_world =
   (Some (Inr \<lparr>at_id = uf_print hyphenated 7, at_context_id = None,
      at_status = \<lparr>ats_state = ''submitted'', ats_message = None\<rparr>, at_artifacts = []\<rparr>), [], demo_world)"
  using a2a_get_task_correct [OF memg.guarded_store_axioms demo_world_good, of hyphenated demo_env
      "\<lparr>caller_id_of = ''mallory'', caller_scopes = []\<rparr>" "uf_print hyphenated 7" demo_answers "[]"]
  by (simp add: demo_world_def demo_created_view demo_env_def core_new_def allow_all_policy_def demo_task_def)

theorem a2a_subscribe_delivers_witness:
  "\<exists>s rx. run (subscribe_task hyphenated (adapter_core_service demo_env) demo_caller (uf_print hyphenated 7) 0)
       mem_ops demo_answers [] demo_world = (Some (Inr (s, rx)), [], demo_world) \<and>
     a2a_drain hyphenated 3 s [(RecvClosed, history_page [])] = []"
  using a2a_subscribe_delivers [OF memg.guarded_store_axioms demo_world_good hyphenated.parse_print,
      of demo_env demo_caller 7 "initial_snapshot 0 demo_task" "[]" "initial_snapshot 0 demo_task" "[]" 0 "[]"
         demo_answers "[]" 3]
  by (simp add: demo_world_def demo_created_view demo_env_def core_new_def allow_all_policy_def demo_task_def
      dense_log_def closed_log_def seq_limit_def)

theorem a2a_status_agrees_witness:
  "\<exists>w' snap' e. run (apply_driver_event demo_env 7 (DvFailed \<lparr>pe_code = [], pe_message = ''x'', pe_retryable = True\<rparr>))
       mem_ops demo_answers [] demo_world = (Some (Inr ()), [], w') \<and>
     mem_view (w_store w') 7 = Some (snap', [e]) \<and> is_final (a2a_map_event hyphenated e) = terminal (snap_state snap')"
proof -
  let ?dv = "DvFailed \<lparr>pe_code = [], pe_message = ''x'', pe_retryable = True\<rparr>"
  have view: "mem_view (w_store demo_world) 7 = Some (initial_snapshot 0 demo_task, [])"
    by (simp add: demo_world_def demo_created_view)
  have small: "0 < seq_limit" by (simp add: seq_limit_def)
  obtain nxt kind w' snap' where
    run: "run (apply_driver_event demo_env 7 ?dv) mem_ops demo_answers [] demo_world = (Some (Inr ()), [], w')"
    and mv: "moved mem_view demo_world w' 7 [] snap' nxt kind"
    using guarded_store.performs_driver_event [OF memg.guarded_store_axioms demo_world_good small view,
        of demo_answers demo_env ?dv]
    by (auto simp: performs_def dest!: spec [of _ "[]"])
  obtain e where e: "mem_view (w_store w') 7 = Some (snap', [] @ [e])" using mv by (auto simp: moved_def)
  have "is_final (a2a_map_event hyphenated e) = terminal (snap_state snap')"
    using a2a_status_agrees [OF memg.guarded_store_axioms demo_world_good small view run e, of hyphenated]
    by (cases "a2a_map_event hyphenated e") auto
  with run e show ?thesis by auto
qed

end
