(* ===== verification/ACP_Mapper.thy ===== *)
theory ACP_Mapper
  imports Core_Service
begin

text \<open>
  The crate \<open>protocol-acp-mapper\<close>: the data of the ACP protocol, the translation of
  content blocks and events, and the operations of \<open>AcpMapper\<close> over the core service.
  Definitions that have a namesake in another crate carry the prefix \<open>acp\<close>. An
  assignment through an index of a JSON value panics when the value is neither an object
  nor null, so \<open>prompt\<close> returns a checked result.
\<close>

section \<open>Data\<close>

record acp_agent_capabilities =
  acc_filesystem :: bool
  acc_terminal :: bool
  acc_streaming :: bool
  acc_cancellation :: bool
  acc_session_resume :: bool

record acp_initialize_result =
  air_protocol_version :: string
  air_agent_name :: string
  air_agent_version :: string
  air_capabilities :: acp_agent_capabilities

datatype acp_content_block =
    AcpText string
  | AcpJson json
  | AcpResource string "string option"

record acp_session_prompt =
  asp_session_id :: "string option"
  asp_request_id :: string
  asp_agent_id :: "string option"
  asp_skill_id :: "string option"
  asp_prompt :: "acp_content_block list"
  asp_workspace :: "string option"
  asp_metadata :: json

datatype acp_update =
    AgentMessage "acp_content_block list"
  | AcpProgress string "u8 option"
  | RequestInput string string "json option"
  | AcpArtifact string "string option" string nat
  | AcpCompleted
  | AcpFailed string string
  | AcpCancelled

record acp_session_update =
  asu_session_id :: string
  asu_task_id :: string
  asu_update :: acp_update

record acp_task_ref =
  atf_session_id :: string
  atf_task_id :: string

datatype acp_mapper_error = AcpInvalidRequest string | AcpCore core_error

section \<open>Translation\<close>

definition acp_parse_uuid :: "uuid_format \<Rightarrow> string \<Rightarrow> acp_mapper_error + uuid" where
  "acp_parse_uuid uf v = ok_or (uf_parse uf v) (AcpInvalidRequest ''expected UUID'')"

fun acp_to_core_part :: "acp_content_block \<Rightarrow> acp_mapper_error + part" where
  "acp_to_core_part (AcpText text) = Inr (PText text)"
| "acp_to_core_part (AcpJson v) = Inr (PJson v)"
| "acp_to_core_part (AcpResource uri mime) = Inr (PFileRef uri mime)"

fun acp_from_core_part :: "part \<Rightarrow> acp_content_block" where
  "acp_from_core_part (PText text) = AcpText text"
| "acp_from_core_part (PJson v) = AcpJson v"
| "acp_from_core_part (PFileRef uri mime) = AcpResource uri mime"

text \<open>\<open>fresh\<close> is the identifier that \<open>Uuid::new_v4\<close> draws.\<close>

definition acp_map_event :: "uuid_format \<Rightarrow> uuid \<Rightarrow> core_event \<Rightarrow> acp_session_update list" where
  "acp_map_event uf fresh event =
     (let upd = (\<lambda>u. \<lparr>asu_session_id = ''unknown'', asu_task_id = uf_print uf (ev_task_id event),
                      asu_update = u\<rparr>) in
      case ev_kind event of
        EvAccepted queued \<Rightarrow> [upd (AcpProgress ''task accepted'' None)]
      | EvProgress message percent \<Rightarrow> [upd (AcpProgress message percent)]
      | EvInputRequired request \<Rightarrow>
          [upd (RequestInput (uf_print uf fresh) (ir_question request) (ir_schema request))]
      | EvArtifact artifact \<Rightarrow>
          [upd (AcpArtifact (art_name artifact) (art_uri artifact) (art_mime_type artifact)
                  (art_size_bytes artifact))]
      | EvCompleted output \<Rightarrow> [upd (AgentMessage (map acp_from_core_part output)), upd AcpCompleted]
      | EvFailed error \<Rightarrow> [upd (AcpFailed (pe_code error) (pe_message error))]
      | EvCancelRequested reason \<Rightarrow> [upd (AcpProgress ''cancellation requested'' None)]
      | EvCancelled \<Rightarrow> [upd AcpCancelled])"

text \<open>\<open>context[key] = value\<close> of \<open>serde_json\<close>: null becomes an object, anything else that
  is not an object panics.\<close>

fun set_index :: "string \<Rightarrow> json \<Rightarrow> json \<Rightarrow> json option" where
  "set_index k v JNull = Some (JObject [(k, v)])"
| "set_index k v (JObject kvs) = Some (JObject (obj_insert k v kvs))"
| "set_index k v _ = None"

definition prompt_context :: "acp_session_prompt \<Rightarrow> json option" where
  "prompt_context p =
     (case asp_workspace p of
        None \<Rightarrow> Some (asp_metadata p)
      | Some workspace \<Rightarrow> set_index ''workspace'' (JString workspace) (asp_metadata p))"

section \<open>Operations\<close>

definition acp_core :: "(core_error + 'a) prog \<Rightarrow> ('a \<Rightarrow> (acp_mapper_error + 'b) prog) \<Rightarrow>
    (acp_mapper_error + 'b) prog" where
  "acp_core p f = bindp p (\<lambda>r. case r of Inl e \<Rightarrow> Done (Inl (AcpCore e)) | Inr a \<Rightarrow> f a)"

definition acp_try :: "acp_mapper_error + 'a \<Rightarrow> ('a \<Rightarrow> (acp_mapper_error + 'b) prog) \<Rightarrow>
    (acp_mapper_error + 'b) prog" where
  "acp_try r f = (case r of Inl e \<Rightarrow> Done (Inl e) | Inr a \<Rightarrow> f a)"

definition acp_task_ref_of :: "uuid_format \<Rightarrow> task_snapshot \<Rightarrow> (acp_mapper_error + acp_task_ref) prog" where
  "acp_task_ref_of uf snap =
     (case snap_session_id snap of
        Some s \<Rightarrow> Done (Inr \<lparr>atf_session_id = uf_print uf s, atf_task_id = uf_print uf (snap_task_id snap)\<rparr>)
      | None \<Rightarrow> FreshId (\<lambda>u. Done (Inr \<lparr>atf_session_id = uf_print uf u,
                                       atf_task_id = uf_print uf (snap_task_id snap)\<rparr>)))"

definition prompt_request :: "acp_session_prompt \<Rightarrow> session_id option \<Rightarrow> part list \<Rightarrow> json \<Rightarrow> invoke_request" where
  "prompt_request p session_id input context =
     \<lparr>rq_task_id = None, rq_agent_id = asp_agent_id p, rq_skill_id = asp_skill_id p,
      rq_idempotency_key = ''acp:'' @ asp_request_id p, rq_session_id = session_id,
      rq_input = input, rq_context = context, rq_deadline = None\<rparr>"

definition acp_prompt ::
  "uuid_format \<Rightarrow> core_service \<Rightarrow> caller \<Rightarrow> acp_session_prompt \<Rightarrow>
     (acp_mapper_error + acp_task_ref) checked prog" where
  "acp_prompt uf core caller p =
     (if blank (asp_request_id p)
      then Done (Ret (Inl (AcpInvalidRequest ''request_id is required for idempotency'')))
      else case transpose_opt (acp_parse_uuid uf) (asp_session_id p) of
        Inl e \<Rightarrow> Done (Ret (Inl e))
      | Inr session_id \<Rightarrow>
          (case prompt_context p of
             None \<Rightarrow> Done Panic
           | Some context \<Rightarrow>
               bindp (acp_try (try_collect acp_to_core_part (asp_prompt p)) (\<lambda>input.
                 acp_core (cs_dispatch core caller (Invoke (prompt_request p session_id input context)))
                   (\<lambda>result. case result of
                      DrCreated snap \<Rightarrow> acp_task_ref_of uf snap
                    | DrExisting snap \<Rightarrow> acp_task_ref_of uf snap
                    | _ \<Rightarrow> Done (Inl (AcpInvalidRequest ''unexpected core result for prompt'')))))
                 (\<lambda>r. Done (Ret r))))"

definition acp_cancel ::
  "uuid_format \<Rightarrow> core_service \<Rightarrow> caller \<Rightarrow> string \<Rightarrow> (acp_mapper_error + unit) prog" where
  "acp_cancel uf core caller task_id =
     acp_try (acp_parse_uuid uf task_id) (\<lambda>t.
     acp_core (cs_dispatch core caller (Cancel t (Some ''ACP client cancellation''))) (\<lambda>_.
       Done (Inr ())))"

definition acp_provide_input ::
  "uuid_format \<Rightarrow> core_service \<Rightarrow> caller \<Rightarrow> string \<Rightarrow> acp_content_block list \<Rightarrow> (acp_mapper_error + unit) prog" where
  "acp_provide_input uf core caller task_id content =
     acp_try (acp_parse_uuid uf task_id) (\<lambda>t.
     acp_try (try_collect acp_to_core_part content) (\<lambda>input.
     acp_core (cs_dispatch core caller (ProvideInput t input)) (\<lambda>_.
       Done (Inr ()))))"

definition acp_subscribe ::
  "uuid_format \<Rightarrow> core_service \<Rightarrow> caller \<Rightarrow> string \<Rightarrow> event_seq \<Rightarrow>
     (acp_mapper_error + string \<times> open_stream) prog" where
  "acp_subscribe uf core caller task_id after =
     acp_try (acp_parse_uuid uf task_id) (\<lambda>t.
     acp_core (cs_dispatch core caller (GetStatus t)) (\<lambda>_.
     acp_core (cs_subscribe core t after) (\<lambda>sub.
       Done (Inr (uf_print uf t, open_reliable after sub)))))"

definition acp_next ::
  "uuid_format \<Rightarrow> uuid \<Rightarrow> reliable_stream \<Rightarrow> recv_input list \<Rightarrow>
     (acp_mapper_error + acp_session_update list option) option \<times> reliable_stream \<times> recv_input list" where
  "acp_next uf fresh s ins =
     (case next_event_of s ins of
        (Waiting, s', ins') \<Rightarrow> (None, s', ins')
      | (Returned (Inl e), s', ins') \<Rightarrow> (Some (Inl (AcpCore e)), s', ins')
      | (Returned (Inr None), s', ins') \<Rightarrow> (Some (Inr None), s', ins')
      | (Returned (Inr (Some ev)), s', ins') \<Rightarrow> (Some (Inr (Some (acp_map_event uf fresh ev))), s', ins'))"

section \<open>Properties\<close>

lemma acp_to_from_part [simp]: "acp_to_core_part (acp_from_core_part p) = Inr p"
  by (cases p) simp_all

lemma acp_from_to_part: "acp_to_core_part b = Inr p \<Longrightarrow> acp_from_core_part p = b"
  by (cases b) auto

lemma acp_to_core_part_ok: "\<exists>p. acp_to_core_part b = Inr p"
  by (cases b) auto

lemma acp_parts_ok: "try_collect acp_to_core_part bs = Inr (map (projr \<circ> acp_to_core_part) bs)"
  by (rule try_collect_total) (metis acp_to_core_part_ok comp_apply sum.sel(2))

lemma set_index_None: "set_index k v j = None \<longleftrightarrow> j \<noteq> JNull \<and> as_object j = None"
  by (cases j) auto

text \<open>The updates that end a session.\<close>

fun ends :: "acp_update \<Rightarrow> bool" where
  "ends AcpCompleted = True"
| "ends (AcpFailed c m) = True"
| "ends AcpCancelled = True"
| "ends _ = False"

text \<open>
  What an ACP client sees of an event. Every event becomes a non-empty batch of
  updates for its task; only the last update of a batch can end the session, and it does
  exactly when the event is terminal. The output of a completed task is carried whole: the
  content blocks read back as the parts the agent returned.
\<close>

theorem acp_updates_faithful:
  "acp_map_event uf fresh ev \<noteq> [] \<and>
   (\<forall>u\<in>set (acp_map_event uf fresh ev). asu_task_id u = uf_print uf (ev_task_id ev)) \<and>
   (\<forall>u\<in>set (butlast (acp_map_event uf fresh ev)). \<not> ends (asu_update u)) \<and>
   (ends (asu_update (last (acp_map_event uf fresh ev))) \<longleftrightarrow> is_terminal_kind (ev_kind ev)) \<and>
   (\<forall>out. ev_kind ev = EvCompleted out \<longrightarrow>
      (\<exists>content. asu_update (hd (acp_map_event uf fresh ev)) = AgentMessage content \<and>
         try_collect acp_to_core_part content = Inr out))"
proof -
  have "try_collect acp_to_core_part (map acp_from_core_part out) = Inr out" for out
    by (induction out) simp_all
  then show ?thesis by (cases "ev_kind ev") (simp_all add: acp_map_event_def)
qed

theorem acp_updates_faithful_witness:
  "ends (asu_update (last (acp_map_event hyphenated 3 \<lparr>ev_task_id = 7, ev_seq = 1, ev_at = 0,
      ev_kind = EvCompleted [PText ''done'']\<rparr>)))"
  using acp_updates_faithful [of hyphenated 3 "\<lparr>ev_task_id = 7, ev_seq = 1, ev_at = 0,
      ev_kind = EvCompleted [PText ''done'']\<rparr>"]
  by simp

text \<open>
  Prompting, on every branch. A blank request id and a malformed session id are
  refused; a workspace together with metadata that is neither an object nor null makes the
  call panic; in these cases the core is not called. Otherwise exactly one invocation is
  dispatched, under the key \<open>acp:\<close> followed by the request id, with the workspace added
  to the context.
\<close>

theorem acp_prompt_cases:
  "acp_prompt uf core caller p =
     (if blank (asp_request_id p)
      then Done (Ret (Inl (AcpInvalidRequest ''request_id is required for idempotency'')))
      else if \<exists>s. asp_session_id p = Some s \<and> uf_parse uf s = None
      then Done (Ret (Inl (AcpInvalidRequest ''expected UUID'')))
      else if asp_workspace p \<noteq> None \<and> asp_metadata p \<noteq> JNull \<and> as_object (asp_metadata p) = None
      then Done Panic
      else bindp (cs_dispatch core caller (Invoke
               \<lparr>rq_task_id = None, rq_agent_id = asp_agent_id p, rq_skill_id = asp_skill_id p,
                rq_idempotency_key = ''acp:'' @ asp_request_id p,
                rq_session_id = Option.bind (asp_session_id p) (uf_parse uf),
                rq_input = map (projr \<circ> acp_to_core_part) (asp_prompt p),
                rq_context = (case asp_workspace p of
                    None \<Rightarrow> asp_metadata p
                  | Some ws \<Rightarrow> JObject (obj_insert ''workspace'' (JString ws)
                      (case as_object (asp_metadata p) of None \<Rightarrow> [] | Some kvs \<Rightarrow> kvs))),
                rq_deadline = None\<rparr>))
             (\<lambda>r. bindp (case r of
                    Inl e \<Rightarrow> Done (Inl (AcpCore e))
                  | Inr (DrCreated snap) \<Rightarrow> acp_task_ref_of uf snap
                  | Inr (DrExisting snap) \<Rightarrow> acp_task_ref_of uf snap
                  | Inr _ \<Rightarrow> Done (Inl (AcpInvalidRequest ''unexpected core result for prompt'')))
                (\<lambda>r. Done (Ret r))))"
proof -
  have session: "transpose_opt (acp_parse_uuid uf) (asp_session_id p) =
      (if \<exists>s. asp_session_id p = Some s \<and> uf_parse uf s = None
       then Inl (AcpInvalidRequest ''expected UUID'')
       else Inr (Option.bind (asp_session_id p) (uf_parse uf)))"
    by (cases "asp_session_id p") (auto simp: acp_parse_uuid_def split: sum.split)
  have ctx: "prompt_context p =
      (if asp_workspace p \<noteq> None \<and> asp_metadata p \<noteq> JNull \<and> as_object (asp_metadata p) = None then None
       else Some (case asp_workspace p of
           None \<Rightarrow> asp_metadata p
         | Some ws \<Rightarrow> JObject (obj_insert ''workspace'' (JString ws)
             (case as_object (asp_metadata p) of None \<Rightarrow> [] | Some kvs \<Rightarrow> kvs))))"
    by (cases "asp_workspace p"; cases "asp_metadata p") (simp_all add: prompt_context_def)
  let ?bad = "\<exists>s. asp_session_id p = Some s \<and> uf_parse uf s = None"
  let ?panic = "asp_workspace p \<noteq> None \<and> asp_metadata p \<noteq> JNull \<and> as_object (asp_metadata p) = None"
  consider "blank (asp_request_id p)" | "\<not> blank (asp_request_id p)" ?bad
    | "\<not> blank (asp_request_id p)" "\<not> ?bad" ?panic | "\<not> blank (asp_request_id p)" "\<not> ?bad" "\<not> ?panic"
    by blast
  then show ?thesis
  proof cases
    case 4
    show ?thesis
      unfolding acp_prompt_def session ctx if_not_P [OF 4(1)] if_not_P [OF 4(2)] if_not_P [OF 4(3)]
      by (simp only: sum.case option.case acp_parts_ok acp_try_def acp_core_def bindp_assoc prompt_request_def)
  qed (simp_all add: acp_prompt_def session ctx)
qed

end
