(* ===== verification/ANP_Profile.thy ===== *)
theory ANP_Profile
  imports Core_Service
begin

text \<open>
  The crate \<open>protocol-anp-profile\<close>: the wire messages of the profile
  \<open>agent-connector.anp-task.v1\<close> (\<open>dto.rs\<close>), their JSON form as the derived
  \<open>Serialize\<close> and \<open>Deserialize\<close> of \<open>serde\<close> give it, the validation rules
  (\<open>validation.rs\<close>), and the mapping to core commands and events (\<open>mapper.rs\<close>). The size
  of a serialized payload is \<open>serde_json\<close>'s, so \<open>size_of\<close> is a parameter.
\<close>

section \<open>Messages\<close>

definition profile_id :: string where
  "profile_id = ''agent-connector.anp-task.v1''"

definition profile_version :: nat where
  "profile_version = 1"

definition max_payload_bytes :: nat where
  "max_payload_bytes = 1024 * 1024"

record message_envelope =
  me_profile :: string
  me_version :: nat
  me_task_id :: string
  me_operation_id :: string
  me_message_id :: string

definition envelope_new :: "string \<Rightarrow> string \<Rightarrow> string \<Rightarrow> message_envelope" where
  "envelope_new task_id operation_id message_id =
     \<lparr>me_profile = profile_id, me_version = profile_version, me_task_id = task_id,
      me_operation_id = operation_id, me_message_id = message_id\<rparr>"

record anp_artifact_ref =
  anr_uri :: string
  anr_mime_type :: "string option"

datatype anp_task_state = StCompleted | StFailed | StCancelled

record task_invoke =
  ti_envelope :: message_envelope
  ti_agent :: string
  ti_payload :: json

record task_cancel =
  tc_envelope :: message_envelope
  tc_payload :: json

record task_get_status =
  tg_envelope :: message_envelope
  tg_payload :: json

record task_events_request =
  te_envelope :: message_envelope
  te_after_seq :: nat
  te_payload :: json

record task_provide_input =
  tp_envelope :: message_envelope
  tp_input_request_id :: string
  tp_payload :: json

record task_accepted =
  ta_envelope :: message_envelope
  ta_payload :: json

record task_status =
  tst_envelope :: message_envelope
  tst_seq :: nat
  tst_state :: anp_task_state
  tst_payload :: json

record task_input_required =
  tir_envelope :: message_envelope
  tir_seq :: nat
  tir_input_request_id :: string
  tir_prompt :: string
  tir_payload :: json

record task_progress =
  tpr_envelope :: message_envelope
  tpr_seq :: nat
  tpr_payload :: json

record task_artifact =
  tar_envelope :: message_envelope
  tar_seq :: nat
  tar_artifact :: anp_artifact_ref
  tar_payload :: json

record task_completed =
  tco_envelope :: message_envelope
  tco_seq :: nat
  tco_is_final :: bool
  tco_artifacts :: "anp_artifact_ref list"
  tco_payload :: json

record task_failed =
  tf_envelope :: message_envelope
  tf_seq :: nat
  tf_is_final :: bool
  tf_error :: string
  tf_payload :: json

record task_cancelled =
  tca_envelope :: message_envelope
  tca_seq :: nat
  tca_is_final :: bool
  tca_payload :: json

datatype message_type =
    MtInvoke | MtCancel | MtGetStatus | MtEvents | MtProvideInput | MtAccepted | MtStatus
  | MtInputRequired | MtProgress | MtArtifact | MtCompleted | MtFailed | MtCancelled

fun message_type_str :: "message_type \<Rightarrow> string" where
  "message_type_str MtInvoke = ''task.invoke''"
| "message_type_str MtCancel = ''task.cancel''"
| "message_type_str MtGetStatus = ''task.get_status''"
| "message_type_str MtEvents = ''task.events''"
| "message_type_str MtProvideInput = ''task.provide_input''"
| "message_type_str MtAccepted = ''task.accepted''"
| "message_type_str MtStatus = ''task.status''"
| "message_type_str MtInputRequired = ''task.input_required''"
| "message_type_str MtProgress = ''task.progress''"
| "message_type_str MtArtifact = ''task.artifact''"
| "message_type_str MtCompleted = ''task.completed''"
| "message_type_str MtFailed = ''task.failed''"
| "message_type_str MtCancelled = ''task.cancelled''"

datatype anp_event =
    TaskInvoke task_invoke
  | TaskCancel task_cancel
  | TaskGetStatus task_get_status
  | TaskEvents task_events_request
  | TaskProvideInput task_provide_input
  | TaskAccepted task_accepted
  | TaskStatus task_status
  | TaskInputRequired task_input_required
  | TaskProgress task_progress
  | TaskArtifact task_artifact
  | TaskCompleted task_completed
  | TaskFailed task_failed
  | TaskCancelled task_cancelled

fun event_message_type :: "anp_event \<Rightarrow> message_type" where
  "event_message_type (TaskInvoke e) = MtInvoke"
| "event_message_type (TaskCancel e) = MtCancel"
| "event_message_type (TaskGetStatus e) = MtGetStatus"
| "event_message_type (TaskEvents e) = MtEvents"
| "event_message_type (TaskProvideInput e) = MtProvideInput"
| "event_message_type (TaskAccepted e) = MtAccepted"
| "event_message_type (TaskStatus e) = MtStatus"
| "event_message_type (TaskInputRequired e) = MtInputRequired"
| "event_message_type (TaskProgress e) = MtProgress"
| "event_message_type (TaskArtifact e) = MtArtifact"
| "event_message_type (TaskCompleted e) = MtCompleted"
| "event_message_type (TaskFailed e) = MtFailed"
| "event_message_type (TaskCancelled e) = MtCancelled"

fun envelope :: "anp_event \<Rightarrow> message_envelope" where
  "envelope (TaskInvoke e) = ti_envelope e"
| "envelope (TaskCancel e) = tc_envelope e"
| "envelope (TaskGetStatus e) = tg_envelope e"
| "envelope (TaskEvents e) = te_envelope e"
| "envelope (TaskProvideInput e) = tp_envelope e"
| "envelope (TaskAccepted e) = ta_envelope e"
| "envelope (TaskStatus e) = tst_envelope e"
| "envelope (TaskInputRequired e) = tir_envelope e"
| "envelope (TaskProgress e) = tpr_envelope e"
| "envelope (TaskArtifact e) = tar_envelope e"
| "envelope (TaskCompleted e) = tco_envelope e"
| "envelope (TaskFailed e) = tf_envelope e"
| "envelope (TaskCancelled e) = tca_envelope e"

fun anp_seq :: "anp_event \<Rightarrow> nat option" where
  "anp_seq (TaskStatus e) = Some (tst_seq e)"
| "anp_seq (TaskInputRequired e) = Some (tir_seq e)"
| "anp_seq (TaskProgress e) = Some (tpr_seq e)"
| "anp_seq (TaskArtifact e) = Some (tar_seq e)"
| "anp_seq (TaskCompleted e) = Some (tco_seq e)"
| "anp_seq (TaskFailed e) = Some (tf_seq e)"
| "anp_seq (TaskCancelled e) = Some (tca_seq e)"
| "anp_seq _ = None"

fun anp_is_terminal :: "anp_event \<Rightarrow> bool" where
  "anp_is_terminal (TaskCompleted e) = True"
| "anp_is_terminal (TaskFailed e) = True"
| "anp_is_terminal (TaskCancelled e) = True"
| "anp_is_terminal _ = False"

section \<open>The JSON form\<close>

definition envelope_fields :: "message_envelope \<Rightarrow> (string \<times> json) list" where
  "envelope_fields env =
     [(''profile'', JString (me_profile env)), (''version'', JNumber (PosInt (me_version env))),
      (''task_id'', JString (me_task_id env)), (''operation_id'', JString (me_operation_id env)),
      (''message_id'', JString (me_message_id env))]"

definition anp_artifact_json :: "anp_artifact_ref \<Rightarrow> json" where
  "anp_artifact_json a =
     JObject [(''uri'', JString (anr_uri a)),
       (''mime_type'', case anr_mime_type a of None \<Rightarrow> JNull | Some s \<Rightarrow> JString s)]"

fun anp_state_json :: "anp_task_state \<Rightarrow> json" where
  "anp_state_json StCompleted = JString ''completed''"
| "anp_state_json StFailed = JString ''failed''"
| "anp_state_json StCancelled = JString ''cancelled''"

definition seq_json :: "nat \<Rightarrow> json" where
  "seq_json n = JNumber (PosInt n)"

text \<open>The fields of a message struct, the envelope flattened into it.\<close>

fun struct_fields :: "anp_event \<Rightarrow> (string \<times> json) list" where
  "struct_fields (TaskInvoke e) = envelope_fields (ti_envelope e) @
     [(''agent'', JString (ti_agent e)), (''payload'', ti_payload e)]"
| "struct_fields (TaskCancel e) = envelope_fields (tc_envelope e) @
     [(''payload'', tc_payload e)]"
| "struct_fields (TaskGetStatus e) = envelope_fields (tg_envelope e) @
     [(''payload'', tg_payload e)]"
| "struct_fields (TaskEvents e) = envelope_fields (te_envelope e) @
     [(''after_seq'', seq_json (te_after_seq e)), (''payload'', te_payload e)]"
| "struct_fields (TaskProvideInput e) = envelope_fields (tp_envelope e) @
     [(''input_request_id'', JString (tp_input_request_id e)), (''payload'', tp_payload e)]"
| "struct_fields (TaskAccepted e) = envelope_fields (ta_envelope e) @
     [(''payload'', ta_payload e)]"
| "struct_fields (TaskStatus e) = envelope_fields (tst_envelope e) @
     [(''seq'', seq_json (tst_seq e)), (''state'', anp_state_json (tst_state e)), (''payload'', tst_payload e)]"
| "struct_fields (TaskInputRequired e) = envelope_fields (tir_envelope e) @
     [(''seq'', seq_json (tir_seq e)), (''input_request_id'', JString (tir_input_request_id e)), (''prompt'', JString (tir_prompt e)), (''payload'', tir_payload e)]"
| "struct_fields (TaskProgress e) = envelope_fields (tpr_envelope e) @
     [(''seq'', seq_json (tpr_seq e)), (''payload'', tpr_payload e)]"
| "struct_fields (TaskArtifact e) = envelope_fields (tar_envelope e) @
     [(''seq'', seq_json (tar_seq e)), (''artifact'', anp_artifact_json (tar_artifact e)), (''payload'', tar_payload e)]"
| "struct_fields (TaskCompleted e) = envelope_fields (tco_envelope e) @
     [(''seq'', seq_json (tco_seq e)), (''final'', JBool (tco_is_final e)), (''artifacts'', JArray (map anp_artifact_json (tco_artifacts e))), (''payload'', tco_payload e)]"
| "struct_fields (TaskFailed e) = envelope_fields (tf_envelope e) @
     [(''seq'', seq_json (tf_seq e)), (''final'', JBool (tf_is_final e)), (''error'', JString (tf_error e)), (''payload'', tf_payload e)]"
| "struct_fields (TaskCancelled e) = envelope_fields (tca_envelope e) @
     [(''seq'', seq_json (tca_seq e)), (''final'', JBool (tca_is_final e)), (''payload'', tca_payload e)]"

definition anp_event_json :: "anp_event \<Rightarrow> json" where
  "anp_event_json ev =
     JObject ((''message_type'', JString (message_type_str (event_message_type ev))) # struct_fields ev)"

text \<open>Reading. A missing or mistyped field is an error; unknown fields are ignored; an absent
  optional field is none, and an absent \<open>final\<close> is true.\<close>

definition get_u32 :: "string \<Rightarrow> json \<Rightarrow> nat option" where
  "get_u32 k v = Option.bind (Option.bind (jget k v) as_u64) (\<lambda>n. if n < 4294967296 then Some n else None)"

definition get_u64 :: "string \<Rightarrow> json \<Rightarrow> nat option" where
  "get_u64 k v = Option.bind (jget k v) as_u64"

definition get_final :: "json \<Rightarrow> bool option" where
  "get_final v =
     (case jget ''final'' v of None \<Rightarrow> Some True | Some (JBool b) \<Rightarrow> Some b | Some _ \<Rightarrow> None)"

definition envelope_of_json :: "json \<Rightarrow> message_envelope option" where
  "envelope_of_json v =
     Option.bind (jget_str ''profile'' v) (\<lambda>profile.
     Option.bind (get_u32 ''version'' v) (\<lambda>version.
     Option.bind (jget_str ''task_id'' v) (\<lambda>task_id.
     Option.bind (jget_str ''operation_id'' v) (\<lambda>operation_id.
     Option.bind (jget_str ''message_id'' v) (\<lambda>message_id.
       Some \<lparr>me_profile = profile, me_version = version, me_task_id = task_id,
             me_operation_id = operation_id, me_message_id = message_id\<rparr>)))))"

definition anp_artifact_of_json :: "json \<Rightarrow> anp_artifact_ref option" where
  "anp_artifact_of_json v =
     Option.bind (jget_str ''uri'' v) (\<lambda>uri.
       case jget ''mime_type'' v of
         None \<Rightarrow> Some \<lparr>anr_uri = uri, anr_mime_type = None\<rparr>
       | Some JNull \<Rightarrow> Some \<lparr>anr_uri = uri, anr_mime_type = None\<rparr>
       | Some (JString s) \<Rightarrow> Some \<lparr>anr_uri = uri, anr_mime_type = Some s\<rparr>
       | Some _ \<Rightarrow> None)"

fun those :: "'a option list \<Rightarrow> 'a list option" where
  "those [] = Some []"
| "those (x # xs) = Option.bind x (\<lambda>a. Option.bind (those xs) (\<lambda>as. Some (a # as)))"

definition anp_state_of_json :: "json \<Rightarrow> anp_task_state option" where
  "anp_state_of_json v =
     (if v = JString ''completed'' then Some StCompleted
      else if v = JString ''failed'' then Some StFailed
      else if v = JString ''cancelled'' then Some StCancelled
      else None)"

fun struct_of_json :: "message_type \<Rightarrow> json \<Rightarrow> anp_event option" where
  "struct_of_json MtInvoke v =
     Option.bind (envelope_of_json v) (\<lambda>env.
     Option.bind (jget_str ''agent'' v) (\<lambda>agent.
     Option.bind (jget ''payload'' v) (\<lambda>payload.
       Some (TaskInvoke \<lparr>ti_envelope = env, ti_agent = agent, ti_payload = payload\<rparr>))))"
| "struct_of_json MtCancel v =
     Option.bind (envelope_of_json v) (\<lambda>env.
     Option.bind (jget ''payload'' v) (\<lambda>payload.
       Some (TaskCancel \<lparr>tc_envelope = env, tc_payload = payload\<rparr>)))"
| "struct_of_json MtGetStatus v =
     Option.bind (envelope_of_json v) (\<lambda>env.
     Option.bind (jget ''payload'' v) (\<lambda>payload.
       Some (TaskGetStatus \<lparr>tg_envelope = env, tg_payload = payload\<rparr>)))"
| "struct_of_json MtEvents v =
     Option.bind (envelope_of_json v) (\<lambda>env.
     Option.bind (get_u64 ''after_seq'' v) (\<lambda>after.
     Option.bind (jget ''payload'' v) (\<lambda>payload.
       Some (TaskEvents \<lparr>te_envelope = env, te_after_seq = after, te_payload = payload\<rparr>))))"
| "struct_of_json MtProvideInput v =
     Option.bind (envelope_of_json v) (\<lambda>env.
     Option.bind (jget_str ''input_request_id'' v) (\<lambda>rid.
     Option.bind (jget ''payload'' v) (\<lambda>payload.
       Some (TaskProvideInput \<lparr>tp_envelope = env, tp_input_request_id = rid, tp_payload = payload\<rparr>))))"
| "struct_of_json MtAccepted v =
     Option.bind (envelope_of_json v) (\<lambda>env.
     Option.bind (jget ''payload'' v) (\<lambda>payload.
       Some (TaskAccepted \<lparr>ta_envelope = env, ta_payload = payload\<rparr>)))"
| "struct_of_json MtStatus v =
     Option.bind (envelope_of_json v) (\<lambda>env.
     Option.bind (get_u64 ''seq'' v) (\<lambda>n.
     Option.bind (Option.bind (jget ''state'' v) anp_state_of_json) (\<lambda>st.
     Option.bind (jget ''payload'' v) (\<lambda>payload.
       Some (TaskStatus \<lparr>tst_envelope = env, tst_seq = n, tst_state = st, tst_payload = payload\<rparr>)))))"
| "struct_of_json MtInputRequired v =
     Option.bind (envelope_of_json v) (\<lambda>env.
     Option.bind (get_u64 ''seq'' v) (\<lambda>n.
     Option.bind (jget_str ''input_request_id'' v) (\<lambda>rid.
     Option.bind (jget_str ''prompt'' v) (\<lambda>prompt.
     Option.bind (jget ''payload'' v) (\<lambda>payload.
       Some (TaskInputRequired \<lparr>tir_envelope = env, tir_seq = n, tir_input_request_id = rid, tir_prompt = prompt, tir_payload = payload\<rparr>))))))"
| "struct_of_json MtProgress v =
     Option.bind (envelope_of_json v) (\<lambda>env.
     Option.bind (get_u64 ''seq'' v) (\<lambda>n.
     Option.bind (jget ''payload'' v) (\<lambda>payload.
       Some (TaskProgress \<lparr>tpr_envelope = env, tpr_seq = n, tpr_payload = payload\<rparr>))))"
| "struct_of_json MtArtifact v =
     Option.bind (envelope_of_json v) (\<lambda>env.
     Option.bind (get_u64 ''seq'' v) (\<lambda>n.
     Option.bind (Option.bind (jget ''artifact'' v) anp_artifact_of_json) (\<lambda>art.
     Option.bind (jget ''payload'' v) (\<lambda>payload.
       Some (TaskArtifact \<lparr>tar_envelope = env, tar_seq = n, tar_artifact = art, tar_payload = payload\<rparr>)))))"
| "struct_of_json MtCompleted v =
     Option.bind (envelope_of_json v) (\<lambda>env.
     Option.bind (get_u64 ''seq'' v) (\<lambda>n.
     Option.bind (get_final v) (\<lambda>fin.
     Option.bind (Option.bind (Option.bind (jget ''artifacts'' v) as_array) (\<lambda>xs. those (map anp_artifact_of_json xs))) (\<lambda>arts.
     Option.bind (jget ''payload'' v) (\<lambda>payload.
       Some (TaskCompleted \<lparr>tco_envelope = env, tco_seq = n, tco_is_final = fin, tco_artifacts = arts, tco_payload = payload\<rparr>))))))"
| "struct_of_json MtFailed v =
     Option.bind (envelope_of_json v) (\<lambda>env.
     Option.bind (get_u64 ''seq'' v) (\<lambda>n.
     Option.bind (get_final v) (\<lambda>fin.
     Option.bind (jget_str ''error'' v) (\<lambda>err.
     Option.bind (jget ''payload'' v) (\<lambda>payload.
       Some (TaskFailed \<lparr>tf_envelope = env, tf_seq = n, tf_is_final = fin, tf_error = err, tf_payload = payload\<rparr>))))))"
| "struct_of_json MtCancelled v =
     Option.bind (envelope_of_json v) (\<lambda>env.
     Option.bind (get_u64 ''seq'' v) (\<lambda>n.
     Option.bind (get_final v) (\<lambda>fin.
     Option.bind (jget ''payload'' v) (\<lambda>payload.
       Some (TaskCancelled \<lparr>tca_envelope = env, tca_seq = n, tca_is_final = fin, tca_payload = payload\<rparr>)))))"

definition message_types :: "message_type list" where
  "message_types =
     [MtInvoke, MtCancel, MtGetStatus, MtEvents, MtProvideInput, MtAccepted, MtStatus, MtInputRequired,
      MtProgress, MtArtifact, MtCompleted, MtFailed, MtCancelled]"

definition anp_event_of_json :: "json \<Rightarrow> anp_event option" where
  "anp_event_of_json v =
     Option.bind (jget_str ''message_type'' v) (\<lambda>tag.
     Option.bind (find (\<lambda>mt. message_type_str mt = tag) message_types) (\<lambda>mt.
       struct_of_json mt v))"

section \<open>Validation\<close>

datatype profile_error =
    UnsupportedProfileId string
  | VersionMismatch nat nat
  | PayloadTooLarge nat nat
  | InvalidField string string
  | DuplicateMessageId string
  | InvalidSequence string
  | TerminalRuleViolation string

definition ensure :: "bool \<Rightarrow> profile_error \<Rightarrow> profile_error + unit" where
  "ensure b e = (if b then Inr () else Inl e)"

definition andthen :: "profile_error + unit \<Rightarrow> profile_error + unit \<Rightarrow> profile_error + unit" where
  "andthen r s = (case r of Inl e \<Rightarrow> Inl e | Inr _ \<Rightarrow> s)"

definition validate_profile :: "string \<Rightarrow> nat \<Rightarrow> profile_error + unit" where
  "validate_profile pid version =
     (if pid \<noteq> profile_id then Inl (UnsupportedProfileId pid)
      else if version \<noteq> profile_version then Inl (VersionMismatch profile_version version)
      else Inr ())"

definition not_blank :: "string \<Rightarrow> string \<Rightarrow> profile_error + unit" where
  "not_blank field s = ensure (\<not> blank s) (InvalidField field ''must not be empty'')"

definition validate_task_id :: "string \<Rightarrow> profile_error + unit" where
  "validate_task_id t = not_blank ''task_id'' t"

definition validate_operation_id :: "string \<Rightarrow> profile_error + unit" where
  "validate_operation_id t = not_blank ''operation_id'' t"

definition validate_message_id :: "string \<Rightarrow> profile_error + unit" where
  "validate_message_id t = not_blank ''message_id'' t"

definition validate_payload :: "(json \<Rightarrow> nat) \<Rightarrow> json \<Rightarrow> profile_error + unit" where
  "validate_payload size_of payload =
     ensure (size_of payload \<le> max_payload_bytes) (PayloadTooLarge (size_of payload) max_payload_bytes)"

definition validate_seq :: "nat \<Rightarrow> profile_error + unit" where
  "validate_seq n = ensure (n \<noteq> 0) (InvalidSequence ''seq must be >= 1'')"

definition validate_envelope :: "(json \<Rightarrow> nat) \<Rightarrow> message_envelope \<Rightarrow> json \<Rightarrow> profile_error + unit" where
  "validate_envelope size_of env payload =
     andthen (validate_profile (me_profile env) (me_version env))
     (andthen (validate_task_id (me_task_id env))
     (andthen (validate_operation_id (me_operation_id env))
     (andthen (validate_message_id (me_message_id env))
       (validate_payload size_of payload))))"

definition validate_invoke :: "(json \<Rightarrow> nat) \<Rightarrow> task_invoke \<Rightarrow> profile_error + unit" where
  "validate_invoke size_of iv =
     andthen (validate_envelope size_of (ti_envelope iv) (ti_payload iv)) (not_blank ''agent'' (ti_agent iv))"

definition validate_provide_input :: "(json \<Rightarrow> nat) \<Rightarrow> task_provide_input \<Rightarrow> string \<Rightarrow> profile_error + unit" where
  "validate_provide_input size_of p rid =
     andthen (validate_envelope size_of (tp_envelope p) (tp_payload p))
       (ensure (tp_input_request_id p = rid)
          (InvalidField ''input_request_id'' (''does not match expected input request `'' @ rid @ ''`'')))"

definition validate_events_request :: "(json \<Rightarrow> nat) \<Rightarrow> task_events_request \<Rightarrow> profile_error + unit" where
  "validate_events_request size_of rq = validate_envelope size_of (te_envelope rq) (te_payload rq)"

fun validate_body :: "(json \<Rightarrow> nat) \<Rightarrow> anp_event \<Rightarrow> profile_error + unit" where
  "validate_body sz (TaskInvoke e) = validate_invoke sz e"
| "validate_body sz (TaskCancel e) = validate_envelope sz (tc_envelope e) (tc_payload e)"
| "validate_body sz (TaskGetStatus e) = validate_envelope sz (tg_envelope e) (tg_payload e)"
| "validate_body sz (TaskEvents e) = validate_events_request sz e"
| "validate_body sz (TaskProvideInput e) = validate_provide_input sz e (tp_input_request_id e)"
| "validate_body sz (TaskAccepted e) = validate_envelope sz (ta_envelope e) (ta_payload e)"
| "validate_body sz (TaskStatus e) = validate_envelope sz (tst_envelope e) (tst_payload e)"
| "validate_body sz (TaskInputRequired e) =
     andthen (validate_envelope sz (tir_envelope e) (tir_payload e))
     (andthen (not_blank ''input_request_id'' (tir_input_request_id e)) (not_blank ''prompt'' (tir_prompt e)))"
| "validate_body sz (TaskProgress e) = validate_envelope sz (tpr_envelope e) (tpr_payload e)"
| "validate_body sz (TaskArtifact e) =
     andthen (validate_envelope sz (tar_envelope e) (tar_payload e))
       (not_blank ''artifacts[].uri'' (anr_uri (tar_artifact e)))"
| "validate_body sz (TaskCompleted e) =
     andthen (validate_envelope sz (tco_envelope e) (tco_payload e))
     (andthen (ensure (tco_is_final e) (TerminalRuleViolation ''task.completed must set final=true''))
       (ensure (\<not> list_ex (\<lambda>a. blank (anr_uri a)) (tco_artifacts e))
          (InvalidField ''artifacts[].uri'' ''must not be empty'')))"
| "validate_body sz (TaskFailed e) =
     andthen (validate_envelope sz (tf_envelope e) (tf_payload e))
     (andthen (ensure (tf_is_final e) (TerminalRuleViolation ''task.failed must set final=true''))
       (not_blank ''error'' (tf_error e)))"
| "validate_body sz (TaskCancelled e) =
     andthen (validate_envelope sz (tca_envelope e) (tca_payload e))
       (ensure (tca_is_final e) (TerminalRuleViolation ''task.cancelled must set final=true''))"

definition validate_event :: "(json \<Rightarrow> nat) \<Rightarrow> anp_event \<Rightarrow> profile_error + unit" where
  "validate_event sz ev =
     andthen (validate_task_id (me_task_id (envelope ev)))
     (andthen (validate_operation_id (me_operation_id (envelope ev)))
     (andthen (validate_message_id (me_message_id (envelope ev)))
     (andthen (case anp_seq ev of None \<Rightarrow> Inr () | Some n \<Rightarrow> validate_seq n)
       (validate_body sz ev))))"

definition check_monotonic :: "nat option \<Rightarrow> nat \<Rightarrow> profile_error + unit" where
  "check_monotonic prev nxt =
     (case prev of
        None \<Rightarrow> validate_seq nxt
      | Some p \<Rightarrow>
          if nxt > p then Inr ()
          else Inl (InvalidSequence (''seq '' @ nat_str nxt @ '' must be strictly greater than previous '' @ nat_str p)))"

definition ensure_not_after_terminal :: "bool \<Rightarrow> profile_error + unit" where
  "ensure_not_after_terminal prev_terminal =
     ensure (\<not> prev_terminal) (TerminalRuleViolation ''event after terminal event'')"

section \<open>Mapping to the core\<close>

datatype mapped_command =
    MInvoke invoke_request
  | MCancel task_id "string option"
  | MProvideInput task_id "part list"

definition invoke_to_command ::
  "uuid_format \<Rightarrow> (json \<Rightarrow> nat) \<Rightarrow> task_invoke \<Rightarrow> caller_id \<Rightarrow> profile_error + mapped_command" where
  "invoke_to_command uf sz iv caller =
     rbind (validate_invoke sz iv) (\<lambda>_.
       Inr (MInvoke
         \<lparr>rq_task_id = uf_parse uf (me_task_id (ti_envelope iv)), rq_agent_id = Some (ti_agent iv),
          rq_skill_id = None, rq_idempotency_key = me_operation_id (ti_envelope iv), rq_session_id = None,
          rq_input = [PJson (ti_payload iv)],
          rq_context = JObject [(''anp'', JObject [(''task_id'', JString (me_task_id (ti_envelope iv))),
              (''operation_id'', JString (me_operation_id (ti_envelope iv))),
              (''message_id'', JString (me_message_id (ti_envelope iv)))]),
            (''caller'', JString caller)],
          rq_deadline = None\<rparr>))"

definition local_task :: "uuid_format \<Rightarrow> message_envelope \<Rightarrow> profile_error + task_id" where
  "local_task uf env =
     ok_or (uf_parse uf (me_task_id env)) (InvalidField ''task_id'' ''must be a UUID to target a local core task'')"

definition cancel_to_command ::
  "uuid_format \<Rightarrow> (json \<Rightarrow> nat) \<Rightarrow> task_cancel \<Rightarrow> profile_error + mapped_command" where
  "cancel_to_command uf sz c =
     rbind (validate_event sz (TaskCancel c)) (\<lambda>_.
     rbind (local_task uf (tc_envelope c)) (\<lambda>t. Inr (MCancel t None)))"

definition provide_input_to_command ::
  "uuid_format \<Rightarrow> (json \<Rightarrow> nat) \<Rightarrow> task_provide_input \<Rightarrow> string \<Rightarrow> profile_error + mapped_command" where
  "provide_input_to_command uf sz p rid =
     rbind (validate_provide_input sz p rid) (\<lambda>_.
     rbind (local_task uf (tp_envelope p)) (\<lambda>t. Inr (MProvideInput t [PJson (tp_payload p)])))"

text \<open>\<open>uri.rsplit('/').next()\<close>: what follows the last slash.\<close>

definition last_segment :: "string \<Rightarrow> string" where
  "last_segment s = rev (takeWhile (\<lambda>c. c \<noteq> CHR ''/'') (rev s))"

definition to_core_artifact :: "anp_artifact_ref \<Rightarrow> artifact_ref" where
  "to_core_artifact a =
     \<lparr>art_id = anr_uri a, art_name = last_segment (anr_uri a),
      art_mime_type = (case anr_mime_type a of None \<Rightarrow> ''application/octet-stream'' | Some m \<Rightarrow> m),
      art_size_bytes = 0, art_uri = Some (anr_uri a)\<rparr>"

definition anp_to_core_part :: "anp_artifact_ref \<Rightarrow> part" where
  "anp_to_core_part a = PFileRef (anr_uri a) (anr_mime_type a)"

definition anp_failure :: "string \<Rightarrow> public_error" where
  "anp_failure m = \<lparr>pe_code = ''anp.task_failed'', pe_message = m, pe_retryable = False\<rparr>"

fun anp_event_kind :: "anp_event \<Rightarrow> profile_error + core_event_kind" where
  "anp_event_kind (TaskAccepted e) = Inr (EvAccepted False)"
| "anp_event_kind (TaskStatus e) =
     Inr (case tst_state e of
            StCompleted \<Rightarrow> EvCompleted []
          | StFailed \<Rightarrow> EvFailed (anp_failure ''remote task failed'')
          | StCancelled \<Rightarrow> EvCancelled)"
| "anp_event_kind (TaskInputRequired e) = Inr (EvInputRequired \<lparr>ir_question = tir_prompt e, ir_schema = None\<rparr>)"
| "anp_event_kind (TaskProgress e) =
     Inr (EvProgress (case jget_str ''message'' (tpr_payload e) of None \<Rightarrow> ''progress'' | Some m \<Rightarrow> m) None)"
| "anp_event_kind (TaskArtifact e) = Inr (EvArtifact (to_core_artifact (tar_artifact e)))"
| "anp_event_kind (TaskCompleted e) = Inr (EvCompleted (map anp_to_core_part (tco_artifacts e)))"
| "anp_event_kind (TaskFailed e) = Inr (EvFailed (anp_failure (tf_error e)))"
| "anp_event_kind (TaskCancelled e) = Inr EvCancelled"
| "anp_event_kind _ = Inl (InvalidField ''message_type'' ''outbound operation is not a core event'')"

definition event_to_core_event ::
  "(json \<Rightarrow> nat) \<Rightarrow> anp_event \<Rightarrow> task_id \<Rightarrow> time \<Rightarrow> profile_error + core_event" where
  "event_to_core_event sz ev t at =
     rbind (validate_event sz ev) (\<lambda>_.
     rbind (anp_event_kind ev) (\<lambda>kind.
       Inr \<lparr>ev_task_id = t, ev_seq = (case anp_seq ev of None \<Rightarrow> 0 | Some n \<Rightarrow> n), ev_at = at, ev_kind = kind\<rparr>))"

section \<open>Lemmas\<close>

lemma ensure_ok [simp]: "ensure b e = Inr u \<longleftrightarrow> b"
  by (simp add: ensure_def)

lemma andthen_ok [simp]: "andthen r s = Inr u \<longleftrightarrow> r = Inr () \<and> s = Inr u"
  by (auto simp: andthen_def split: sum.split)

lemma not_blank_ok [simp]: "not_blank f s = Inr u \<longleftrightarrow> \<not> blank s"
  by (simp add: not_blank_def)

lemma validate_profile_ok [simp]: "validate_profile p v = Inr u \<longleftrightarrow> p = profile_id \<and> v = profile_version"
  by (auto simp: validate_profile_def)

lemma find_message_type: "find (\<lambda>mt'. message_type_str mt' = message_type_str mt) message_types = Some mt"
  by (cases mt) (simp_all add: message_types_def)

lemma artifact_roundtrip [simp]: "anp_artifact_of_json (anp_artifact_json a) = Some a"
  by (cases a) (simp add: anp_artifact_of_json_def anp_artifact_json_def jget_str_def split: option.split)

lemma artifacts_roundtrip [simp]: "those (map (anp_artifact_of_json \<circ> anp_artifact_json) as) = Some as"
  by (induction "as") simp_all

lemma anp_state_roundtrip [simp]: "anp_state_of_json (anp_state_json st) = Some st"
  by (cases st) (simp_all add: anp_state_of_json_def)

section \<open>Properties\<close>

text \<open>What the schema asks of a message.\<close>

definition envelope_valid :: "message_envelope \<Rightarrow> bool" where
  "envelope_valid env \<longleftrightarrow> me_profile env = profile_id \<and> me_version env = profile_version \<and>
     \<not> blank (me_task_id env) \<and> \<not> blank (me_operation_id env) \<and> \<not> blank (me_message_id env)"

definition payload_of :: "anp_event \<Rightarrow> json" where
  "payload_of ev = the (map_of (struct_fields ev) ''payload'')"

fun final_flag :: "anp_event \<Rightarrow> bool option" where
  "final_flag (TaskCompleted e) = Some (tco_is_final e)"
| "final_flag (TaskFailed e) = Some (tf_is_final e)"
| "final_flag (TaskCancelled e) = Some (tca_is_final e)"
| "final_flag _ = None"

text \<open>The texts a message of the given type must not leave blank.\<close>

fun required_texts :: "anp_event \<Rightarrow> string list" where
  "required_texts (TaskInvoke e) = [ti_agent e]"
| "required_texts (TaskInputRequired e) = [tir_input_request_id e, tir_prompt e]"
| "required_texts (TaskArtifact e) = [anr_uri (tar_artifact e)]"
| "required_texts (TaskCompleted e) = map anr_uri (tco_artifacts e)"
| "required_texts (TaskFailed e) = [tf_error e]"
| "required_texts _ = []"

lemma validate_envelope_ok [simp]:
  "validate_envelope sz env payload = Inr u \<longleftrightarrow> envelope_valid env \<and> sz payload \<le> max_payload_bytes"
  by (auto simp: validate_envelope_def envelope_valid_def validate_task_id_def validate_operation_id_def
      validate_message_id_def validate_payload_def)

text \<open>
  Validation accepts exactly the messages of the schema: the profile and its version,
  identifiers that are not blank, a payload within the limit, a positive sequence number
  where the type has one, the final flag set on a terminal message, and no blank text where
  the type requires one. The id of the request that a \<open>task.provide_input\<close> answers is the
  exception: it is compared with itself, so a blank one passes.
\<close>

theorem anp_validate_exact:
  "validate_event sz ev = Inr () \<longleftrightarrow>
     envelope_valid (envelope ev) \<and> sz (payload_of ev) \<le> max_payload_bytes \<and>
     anp_seq ev \<noteq> Some 0 \<and> final_flag ev \<noteq> Some False \<and> list_all (\<lambda>s. \<not> blank s) (required_texts ev)"
proof -
  have payload: "sz (payload_of ev) \<le> max_payload_bytes \<longleftrightarrow>
      sz (the (map_of (struct_fields ev) ''payload'')) \<le> max_payload_bytes"
    by (simp add: payload_of_def)
  show ?thesis
    unfolding payload
    by (cases ev)
      (auto simp: validate_event_def validate_task_id_def validate_operation_id_def validate_message_id_def
        validate_seq_def validate_invoke_def validate_provide_input_def validate_events_request_def
        envelope_valid_def envelope_fields_def list_all_iff list_ex_iff)
qed

text \<open>
  C26: the wire format loses nothing. Every message whose version fits the wire type, written
  as JSON and read back, is the same message.
\<close>

theorem anp_wire_roundtrip:
  assumes "me_version (envelope ev) < 4294967296"
  shows "anp_event_of_json (anp_event_json ev) = Some ev"
proof -
  have env: "envelope_of_json (JObject ((''message_type'', tag) # envelope_fields env @ rest)) = Some env"
    if "me_version env < 4294967296" for tag env rest
    using that by (simp add: envelope_of_json_def envelope_fields_def jget_str_def get_u32_def)
  have field: "jget k (JObject ((''message_type'', tag) # envelope_fields env @ rest)) = map_of rest k"
    if "k \<notin> {''message_type'', ''profile'', ''version'', ''task_id'', ''operation_id'', ''message_id''}"
    for k tag env rest
    using that by (auto simp: envelope_fields_def)
  have tag: "jget_str ''message_type'' (anp_event_json ev) = Some (message_type_str (event_message_type ev))"
    by (simp add: anp_event_json_def jget_str_def)
  have "struct_of_json (event_message_type ev) (anp_event_json ev) = Some ev"
    using assms
    by (cases ev)
      (auto simp: anp_event_json_def env field jget_str_def get_u64_def get_final_def seq_json_def
        simp del: jget.simps)
  then show ?thesis by (simp add: anp_event_of_json_def tag find_message_type)
qed

definition sample_failed :: anp_event where
  "sample_failed = TaskFailed \<lparr>tf_envelope = envelope_new ''t'' ''o'' ''m'', tf_seq = 3, tf_is_final = True,
     tf_error = ''boom'', tf_payload = JNull\<rparr>"

theorem anp_wire_roundtrip_witness: "anp_event_of_json (anp_event_json sample_failed) = Some sample_failed"
  using anp_wire_roundtrip [of sample_failed]
  by (simp add: sample_failed_def envelope_new_def profile_version_def)

lemma anp_validate_seq: "validate_event sz ev = Inr () \<Longrightarrow> anp_seq ev \<noteq> Some 0"
  unfolding validate_event_def by (simp add: validate_seq_def split: option.splits)

lemma kind_terminal:
  "anp_event_kind ev = Inr k \<Longrightarrow> is_terminal_kind k \<longleftrightarrow> anp_is_terminal ev \<or> event_message_type ev = MtStatus"
  by (cases ev) (auto split: anp_task_state.split)

lemma kind_seq: "anp_event_kind ev = Inr k \<Longrightarrow> anp_seq ev = None \<longleftrightarrow> event_message_type ev = MtAccepted"
  by (cases ev) auto

text \<open>
  What a message of a peer becomes in the core. An accepted message becomes an event of
  the local task with the peer's sequence number, or 0 for an acceptance, which has none.
  The event is terminal exactly for the terminal messages and for every status report,
  which the profile itself does not count as terminal.
\<close>

theorem anp_core_event_faithful:
  assumes "event_to_core_event sz ev t at = Inr ce"
  shows "ev_task_id ce = t \<and> ev_at ce = at \<and> validate_event sz ev = Inr () \<and>
    (ev_seq ce = 0 \<longleftrightarrow> event_message_type ev = MtAccepted) \<and>
    anp_seq ev = (if event_message_type ev = MtAccepted then None else Some (ev_seq ce)) \<and>
    (is_terminal_kind (ev_kind ce) \<longleftrightarrow> anp_is_terminal ev \<or> event_message_type ev = MtStatus)"
proof -
  obtain kind where ok: "validate_event sz ev = Inr ()" "anp_event_kind ev = Inr kind"
    "ce = \<lparr>ev_task_id = t, ev_seq = (case anp_seq ev of None \<Rightarrow> 0 | Some n \<Rightarrow> n), ev_at = at, ev_kind = kind\<rparr>"
    using assms by (auto simp: event_to_core_event_def rbind_Inr_iff)
  have "anp_seq ev \<noteq> Some 0" using ok(1) by (simp add: anp_validate_seq)
  then show ?thesis
    using ok kind_terminal [OF ok(2)] kind_seq [OF ok(2)] by (cases "anp_seq ev") simp_all
qed

theorem anp_core_event_faithful_witness:
  "\<exists>ce. event_to_core_event (\<lambda>_. 4) sample_failed 7 0 = Inr ce \<and> is_terminal_kind (ev_kind ce)"
proof -
  have "\<not> blank ''t''" "\<not> blank ''o''" "\<not> blank ''m''" "\<not> blank ''boom''" by code_simp+
  then have "validate_event (\<lambda>_. 4) sample_failed = Inr ()"
    by (simp add: validate_event_def sample_failed_def envelope_valid_def envelope_new_def validate_task_id_def
        validate_operation_id_def validate_message_id_def validate_seq_def max_payload_bytes_def)
  then have ok: "event_to_core_event (\<lambda>_. 4) sample_failed 7 0 =
      Inr \<lparr>ev_task_id = 7, ev_seq = 3, ev_at = 0, ev_kind = EvFailed (anp_failure ''boom'')\<rparr>"
    by (simp add: event_to_core_event_def sample_failed_def)
  from anp_core_event_faithful [OF ok] ok show ?thesis by (simp add: sample_failed_def)
qed

end
