(* ===== verification/ANP_Transport.thy ===== *)
theory ANP_Transport
  imports ANP_Profile "HOL-Library.Char_ord" "HOL-Library.List_Lexorder"
begin

text \<open>
  The crate \<open>anp-transport\<close>: peers and their identities, capabilities, profile
  negotiation, the trait \<open>AnpTransport\<close>, and the in-memory transport of the crate. The
  trait is a record of operations; what a client may rely on (a negotiated profile is one
  it offered) is the locale \<open>anp_transport\<close>, interpreted on the in-memory transport.
  The clock and the drawn negotiation id are arguments.
\<close>

section \<open>Data\<close>

record anp_capabilities =
  caps_raw :: "string list"

record peer_identity =
  pi_did :: string
  pi_key_fingerprint :: string

record peer_ref =
  pr_endpoint :: string
  pr_expected_did :: "string option"
  pr_expected_key_fingerprint :: "string option"

datatype trust_level = Verified | InsecureDev

record verified_peer =
  vp_identity :: peer_identity
  vp_trust :: trust_level

datatype anp_error =
    IdentityVerificationFailed string
  | NoCommonProfile "string list" "string list"
  | TransportFailure string
  | Rejected string
  | AnpUnsupported string
  | InvalidPayload string
  | AnpNotConnected
  | AnpTimeout

datatype anp_message_body = Json json | Binary "u8 list"

record anp_message =
  msg_id :: string
  msg_kind :: string
  msg_body :: anp_message_body

record profile_offer =
  po_profiles :: "string list"

record profile_capabilities =
  pc_version :: nat
  pc_supports_resume :: bool

record negotiated_profile =
  np_profile_id :: string
  np_capabilities :: profile_capabilities
  np_negotiation_id :: string
  np_valid_until :: time

fun is_identity_failure :: "anp_error \<Rightarrow> bool" where
  "is_identity_failure (IdentityVerificationFailed d) = True"
| "is_identity_failure _ = False"

fun is_no_common_profile :: "anp_error \<Rightarrow> bool" where
  "is_no_common_profile (NoCommonProfile p off) = True"
| "is_no_common_profile _ = False"

section \<open>Capabilities and identities\<close>

definition caps_parse :: "string list \<Rightarrow> anp_capabilities" where
  "caps_parse raw =
     \<lparr>caps_raw = remdups_adj (sort (filter (\<lambda>s. s \<noteq> []) (map trim raw)))\<rparr>"

definition caps_contains :: "anp_capabilities \<Rightarrow> string \<Rightarrow> bool" where
  "caps_contains caps c \<longleftrightarrow> list_ex (\<lambda>s. s = c) (caps_raw caps)"

definition caps_intersection :: "anp_capabilities \<Rightarrow> string list \<Rightarrow> string list" where
  "caps_intersection caps wanted = filter (caps_contains caps) wanted"

definition identity_is_empty :: "peer_identity \<Rightarrow> bool" where
  "identity_is_empty i \<longleftrightarrow> blank (pi_did i) \<and> blank (pi_key_fingerprint i)"

definition matches_expected :: "peer_identity \<Rightarrow> peer_identity \<Rightarrow> bool" where
  "matches_expected i expected \<longleftrightarrow>
     (if identity_is_empty expected then False
      else if \<not> blank (pi_did expected) \<and> pi_did expected \<noteq> pi_did i then False
      else if \<not> blank (pi_key_fingerprint expected) \<and> pi_key_fingerprint expected \<noteq> pi_key_fingerprint i
      then False
      else True)"

section \<open>Negotiation\<close>

definition is_valid :: "negotiated_profile \<Rightarrow> time \<Rightarrow> bool" where
  "is_valid n now \<longleftrightarrow> now < np_valid_until n"

definition is_expired :: "negotiated_profile \<Rightarrow> time \<Rightarrow> bool" where
  "is_expired n now \<longleftrightarrow> \<not> is_valid n now"

definition peer_caps_has_resume :: "anp_capabilities \<Rightarrow> string \<Rightarrow> bool" where
  "peer_caps_has_resume caps profile \<longleftrightarrow>
     list_ex (\<lambda>s. s = profile @ ''#resume'' \<or> s = profile @ ''.resume'') (caps_raw caps)"

definition profile_selection ::
  "profile_offer \<Rightarrow> anp_capabilities \<Rightarrow> anp_error + (string \<times> profile_capabilities) option" where
  "profile_selection offer caps =
     (if po_profiles offer = [] then Inl (InvalidPayload ''empty profile offer'')
      else Inr (map_option
        (\<lambda>p. (p, \<lparr>pc_version = 1, pc_supports_resume = peer_caps_has_resume caps p\<rparr>))
        (find (caps_contains caps) (po_profiles offer))))"

definition build_negotiated ::
  "string \<Rightarrow> profile_capabilities \<Rightarrow> string \<Rightarrow> time \<Rightarrow> int \<Rightarrow> negotiated_profile" where
  "build_negotiated profile caps nid now validity =
     \<lparr>np_profile_id = profile, np_capabilities = caps, np_negotiation_id = nid, np_valid_until = now + validity\<rparr>"

definition no_common_profile :: "profile_offer \<Rightarrow> anp_capabilities \<Rightarrow> anp_error" where
  "no_common_profile offer caps = NoCommonProfile (caps_raw caps) (po_profiles offer)"

definition negotiate_deterministic ::
  "string \<Rightarrow> profile_offer \<Rightarrow> anp_capabilities \<Rightarrow> bool \<Rightarrow> time \<Rightarrow> int \<Rightarrow> anp_error + negotiated_profile" where
  "negotiate_deterministic nid offer caps accepts now validity =
     (if \<not> accepts then Inl (no_common_profile offer caps)
      else rbind (profile_selection offer caps) (\<lambda>sel.
        case sel of
          Some (profile, pc) \<Rightarrow> Inr (build_negotiated profile pc nid now validity)
        | None \<Rightarrow> Inl (no_common_profile offer caps)))"

section \<open>Transports\<close>

record transport_ops =
  tr_connect :: "peer_ref \<Rightarrow> anp_error + verified_peer"
  tr_capabilities :: "verified_peer \<Rightarrow> anp_error + anp_capabilities"
  tr_negotiate :: "time \<Rightarrow> string \<Rightarrow> verified_peer \<Rightarrow> profile_offer \<Rightarrow> anp_error + negotiated_profile"
  tr_send :: "verified_peer \<Rightarrow> anp_message \<Rightarrow> anp_error + string"

record fake_peer_spec =
  fp_endpoint :: string
  fp_did :: string
  fp_capabilities :: anp_capabilities
  fp_accepts_offer :: bool
  fp_negotiation_validity :: int

definition fake_peer_new :: "string \<Rightarrow> string \<Rightarrow> fake_peer_spec" where
  "fake_peer_new endpoint did =
     \<lparr>fp_endpoint = endpoint, fp_did = did, fp_capabilities = \<lparr>caps_raw = []\<rparr>, fp_accepts_offer = False,
      fp_negotiation_validity = int (secs (5 * 60))\<rparr>"

lemma fake_peer_new_code [code]:
  "fake_peer_new endpoint did =
     \<lparr>fp_endpoint = endpoint, fp_did = did, fp_capabilities = \<lparr>caps_raw = []\<rparr>, fp_accepts_offer = False,
      fp_negotiation_validity = 300000000000\<rparr>"
  by (simp add: fake_peer_new_def secs_def)

definition with_capabilities :: "string list \<Rightarrow> fake_peer_spec \<Rightarrow> fake_peer_spec" where
  "with_capabilities caps p = p\<lparr>fp_capabilities := caps_parse caps\<rparr>"

definition with_accepts_offer :: "bool \<Rightarrow> fake_peer_spec \<Rightarrow> fake_peer_spec" where
  "with_accepts_offer accepts p = p\<lparr>fp_accepts_offer := accepts\<rparr>"

definition with_negotiation_validity :: "int \<Rightarrow> fake_peer_spec \<Rightarrow> fake_peer_spec" where
  "with_negotiation_validity v p = p\<lparr>fp_negotiation_validity := v\<rparr>"

text \<open>The catalog is a hash map from endpoints to peers; the list holds its values in the
  order in which \<open>values()\<close> visits them.\<close>

record fake_transport =
  ft_peers :: "fake_peer_spec list"
  ft_expected_identity :: peer_identity

definition fake_transport_new :: "fake_peer_spec list \<Rightarrow> peer_identity \<Rightarrow> fake_transport" where
  "fake_transport_new peers expected =
     \<lparr>ft_peers = fold (\<lambda>p ps. filter (\<lambda>q. fp_endpoint q \<noteq> fp_endpoint p) ps @ [p]) peers [],
      ft_expected_identity = expected\<rparr>"

definition fingerprint :: "string \<Rightarrow> string" where
  "fingerprint did = ''fake-key:'' @ did"

definition presented_identity :: "fake_peer_spec \<Rightarrow> peer_identity" where
  "presented_identity spec = \<lparr>pi_did = fp_did spec, pi_key_fingerprint = fingerprint (fp_did spec)\<rparr>"

definition is_localhost :: "string \<Rightarrow> bool" where
  "is_localhost endpoint \<longleftrightarrow> starts_with endpoint ''http://127.0.0.1'' \<or>
     starts_with endpoint ''http://localhost'' \<or> starts_with endpoint ''did:anp:local:''"

definition fake_connect :: "fake_transport \<Rightarrow> peer_ref \<Rightarrow> anp_error + verified_peer" where
  "fake_connect ft peer =
     (case find (\<lambda>p. fp_endpoint p = pr_endpoint peer) (ft_peers ft) of
        None \<Rightarrow> Inl (TransportFailure (''unknown peer '' @ pr_endpoint peer))
      | Some spec \<Rightarrow>
          if \<not> is_localhost (pr_endpoint peer)
          then Inl (IdentityVerificationFailed
                 (''fake transport refuses non-localhost endpoint '' @ pr_endpoint peer))
          else if pr_expected_did peer \<noteq> None \<or> pr_expected_key_fingerprint peer \<noteq> None
          then Inl (IdentityVerificationFailed
                 ''production trust pins are not supported by the fake transport'')
          else if \<not> matches_expected (presented_identity spec) (ft_expected_identity ft)
          then Inl (IdentityVerificationFailed
                 (''presented identity '' @ fp_did spec @ '' does not match configured expected identity '' @
                  pi_did (ft_expected_identity ft)))
          else Inr \<lparr>vp_identity = presented_identity spec, vp_trust = InsecureDev\<rparr>)"

definition fake_spec :: "fake_transport \<Rightarrow> verified_peer \<Rightarrow> anp_error + fake_peer_spec" where
  "fake_spec ft peer = ok_or (find (\<lambda>p. fp_did p = pi_did (vp_identity peer)) (ft_peers ft)) AnpNotConnected"

definition fake_capabilities :: "fake_transport \<Rightarrow> verified_peer \<Rightarrow> anp_error + anp_capabilities" where
  "fake_capabilities ft peer = rbind (fake_spec ft peer) (\<lambda>spec. Inr (fp_capabilities spec))"

definition fake_negotiate ::
  "fake_transport \<Rightarrow> time \<Rightarrow> string \<Rightarrow> verified_peer \<Rightarrow> profile_offer \<Rightarrow> anp_error + negotiated_profile" where
  "fake_negotiate ft now nid peer offer =
     rbind (fake_spec ft peer) (\<lambda>spec.
       negotiate_deterministic nid offer (fp_capabilities spec) (fp_accepts_offer spec) now
         (fp_negotiation_validity spec))"

definition fake_send :: "fake_transport \<Rightarrow> verified_peer \<Rightarrow> anp_message \<Rightarrow> anp_error + string" where
  "fake_send ft peer message = rbind (fake_spec ft peer) (\<lambda>_. Inr (msg_id message))"

definition fake_ops :: "fake_transport \<Rightarrow> transport_ops" where
  "fake_ops ft =
     \<lparr>tr_connect = fake_connect ft, tr_capabilities = fake_capabilities ft, tr_negotiate = fake_negotiate ft,
      tr_send = fake_send ft\<rparr>"

section \<open>What a client relies on\<close>

locale anp_transport =
  fixes tr :: transport_ops
  assumes negotiates_offer: "tr_negotiate tr now nid peer offer = Inr n \<Longrightarrow> np_profile_id n \<in> set (po_profiles offer)"

lemma profile_selection_Some:
  assumes "profile_selection offer caps = Inr (Some (p, pc))"
  shows "\<exists>i<length (po_profiles offer). po_profiles offer ! i = p \<and> caps_contains caps p \<and>
    (\<forall>j<i. \<not> caps_contains caps (po_profiles offer ! j)) \<and> pc_supports_resume pc = peer_caps_has_resume caps p"
  using assms by (auto simp: profile_selection_def find_Some_iff split: if_splits)

lemma profile_selection_None:
  "profile_selection offer caps = Inr None \<longleftrightarrow>
     po_profiles offer \<noteq> [] \<and> (\<forall>p\<in>set (po_profiles offer). \<not> caps_contains caps p)"
  by (auto simp: profile_selection_def find_None_iff)

lemma negotiate_ok:
  assumes "negotiate_deterministic nid offer caps accepts now validity = Inr n"
  shows "accepts \<and> profile_selection offer caps = Inr (Some (np_profile_id n, np_capabilities n)) \<and>
    np_valid_until n = now + validity"
  using assms
  by (auto simp: negotiate_deterministic_def rbind_Inr_iff build_negotiated_def split: if_splits option.splits)

lemma fake_transport_offer:
  assumes "fake_negotiate ft now nid peer offer = Inr n"
  shows "np_profile_id n \<in> set (po_profiles offer)"
proof -
  obtain spec :: fake_peer_spec where "negotiate_deterministic nid offer (fp_capabilities spec) (fp_accepts_offer spec) now
      (fp_negotiation_validity spec) = Inr n"
    using assms by (auto simp: fake_negotiate_def rbind_Inr_iff)
  from profile_selection_Some [OF conjunct1 [OF conjunct2 [OF negotiate_ok [OF this]]]]
  show ?thesis by (metis nth_mem)
qed

interpretation fake: anp_transport "fake_ops ft" for ft
  by unfold_locales (simp add: fake_ops_def fake_transport_offer)

end
