(* ===== verification/ANP_Client.thy ===== *)
theory ANP_Client
  imports ANP_Transport
begin

text \<open>
  The crate \<open>driver-anp-client\<close>: the connection state machine (\<open>state.rs\<close>) and the
  driver (\<open>lib.rs\<close>). The locks of the driver are separate, so \<open>connect\<close> is a sequence
  of atomic steps: each changes one lock or calls the transport, and several calls of
  \<open>connect\<close> can interleave. \<open>connect\<close> itself runs the steps to the end.
\<close>

section \<open>The state machine\<close>

datatype anp_client_state =
    Disconnected
  | Connecting
  | IdentityVerified
  | Negotiating
  | MessagingOnly
  | TaskProfileReady
  | ClientFailed

definition allows_task_commands :: "anp_client_state \<Rightarrow> bool" where
  "allows_task_commands s \<longleftrightarrow> s = TaskProfileReady"

definition is_failed :: "anp_client_state \<Rightarrow> bool" where
  "is_failed s \<longleftrightarrow> s = ClientFailed"

fun client_state_str :: "anp_client_state \<Rightarrow> string" where
  "client_state_str Disconnected = ''Disconnected''"
| "client_state_str Connecting = ''Connecting''"
| "client_state_str IdentityVerified = ''IdentityVerified''"
| "client_state_str Negotiating = ''Negotiating''"
| "client_state_str MessagingOnly = ''MessagingOnly''"
| "client_state_str TaskProfileReady = ''TaskProfileReady''"
| "client_state_str ClientFailed = ''Failed''"

definition legal_transitions :: "(anp_client_state \<times> anp_client_state) list" where
  "legal_transitions =
     [(Disconnected, Connecting), (Connecting, IdentityVerified), (Connecting, ClientFailed),
      (IdentityVerified, Negotiating), (IdentityVerified, MessagingOnly), (IdentityVerified, ClientFailed),
      (Negotiating, TaskProfileReady), (Negotiating, MessagingOnly), (Negotiating, ClientFailed),
      (TaskProfileReady, Connecting), (MessagingOnly, Connecting), (TaskProfileReady, MessagingOnly),
      (TaskProfileReady, ClientFailed), (MessagingOnly, ClientFailed), (ClientFailed, Disconnected)]"

definition client_transition :: "anp_client_state \<Rightarrow> anp_client_state \<Rightarrow> string + anp_client_state" where
  "client_transition from to =
     (if (from, to) \<in> set legal_transitions then Inr to
      else Inl (''illegal ANP state transition '' @ client_state_str from @ '' -> '' @ client_state_str to))"

section \<open>The driver\<close>

datatype anp_client_error =
    ClientTransport anp_error
  | ClientProfile profile_error
  | UnsupportedCapability anp_client_state
  | NegotiationExpired string time
  | IllegalState anp_client_state anp_client_state
  | ClientCore core_error
  | NotConnected

record anp_client_config =
  acf_endpoint :: string
  acf_expected_did :: "string option"
  acf_expected_key_fingerprint :: "string option"
  acf_local_agent :: string

record anp_driver =
  ad_config :: anp_client_config
  ad_state :: anp_client_state
  ad_peer :: "verified_peer option"
  ad_capabilities :: "anp_capabilities option"
  ad_negotiated :: "negotiated_profile option"
  ad_remote_task_ids :: "(task_id \<times> string) list"
  ad_id :: string

definition anp_driver_new :: "anp_client_config \<Rightarrow> anp_driver" where
  "anp_driver_new config =
     \<lparr>ad_config = config, ad_state = Disconnected, ad_peer = None, ad_capabilities = None,
      ad_negotiated = None, ad_remote_task_ids = [], ad_id = ''anp:'' @ acf_endpoint config\<rparr>"

definition apply_transition ::
  "anp_client_state \<Rightarrow> anp_driver \<Rightarrow> (anp_client_error + unit) \<times> anp_driver" where
  "apply_transition to d =
     (case client_transition (ad_state d) to of
        Inl _ \<Rightarrow> (Inl (IllegalState (ad_state d) to), d)
      | Inr nxt \<Rightarrow> (Inr (), d\<lparr>ad_state := nxt\<rparr>))"

text \<open>The points of \<open>connect\<close> between two effects.\<close>

datatype stage =
    Start
  | CallConnect
  | ConnectFailed anp_error
  | PeerVerified verified_peer
  | StorePeer verified_peer
  | CallCapabilities verified_peer
  | StoreCapabilities verified_peer anp_capabilities
  | EnterNegotiating verified_peer
  | CallNegotiate verified_peer
  | StoreNegotiated negotiated_profile
  | EnterReady
  | ClearNegotiated
  | EnterMessaging
  | NegotiateFailed anp_error
  | Concluded "anp_client_error + anp_client_state"

definition goto ::
  "anp_client_state \<Rightarrow> stage \<Rightarrow> anp_driver \<Rightarrow> stage \<times> anp_driver" where
  "goto to nxt d =
     (case apply_transition to d of
        (Inl e, d') \<Rightarrow> (Concluded (Inl e), d')
      | (Inr _, d') \<Rightarrow> (nxt, d'))"

fun connect_step ::
  "transport_ops \<Rightarrow> time \<Rightarrow> string \<Rightarrow> stage \<Rightarrow> anp_driver \<Rightarrow> stage \<times> anp_driver" where
  "connect_step tr now nid Start d = goto Connecting CallConnect d"
| "connect_step tr now nid CallConnect d =
     (case tr_connect tr \<lparr>pr_endpoint = acf_endpoint (ad_config d),
             pr_expected_did = acf_expected_did (ad_config d),
             pr_expected_key_fingerprint = acf_expected_key_fingerprint (ad_config d)\<rparr> of
        Inr peer \<Rightarrow> (PeerVerified peer, d)
      | Inl e \<Rightarrow> (ConnectFailed e, d))"
| "connect_step tr now nid (ConnectFailed e) d = goto ClientFailed (Concluded (Inl (ClientTransport e))) d"
| "connect_step tr now nid (PeerVerified peer) d = goto IdentityVerified (StorePeer peer) d"
| "connect_step tr now nid (StorePeer peer) d = (CallCapabilities peer, d\<lparr>ad_peer := Some peer\<rparr>)"
| "connect_step tr now nid (CallCapabilities peer) d =
     (case tr_capabilities tr peer of
        Inl e \<Rightarrow> (Concluded (Inl (ClientTransport e)), d)
      | Inr caps \<Rightarrow> (StoreCapabilities peer caps, d))"
| "connect_step tr now nid (StoreCapabilities peer caps) d =
     (EnterNegotiating peer, d\<lparr>ad_capabilities := Some caps\<rparr>)"
| "connect_step tr now nid (EnterNegotiating peer) d = goto Negotiating (CallNegotiate peer) d"
| "connect_step tr now nid (CallNegotiate peer) d =
     (case tr_negotiate tr now nid peer \<lparr>po_profiles = [profile_id]\<rparr> of
        Inr n \<Rightarrow> (StoreNegotiated n, d)
      | Inl e \<Rightarrow> (if is_no_common_profile e then (ClearNegotiated, d) else (NegotiateFailed e, d)))"
| "connect_step tr now nid (StoreNegotiated n) d = (EnterReady, d\<lparr>ad_negotiated := Some n\<rparr>)"
| "connect_step tr now nid EnterReady d =
     goto TaskProfileReady (Concluded (Inr TaskProfileReady)) d"
| "connect_step tr now nid ClearNegotiated d = (EnterMessaging, d\<lparr>ad_negotiated := None\<rparr>)"
| "connect_step tr now nid EnterMessaging d = goto MessagingOnly (Concluded (Inr MessagingOnly)) d"
| "connect_step tr now nid (NegotiateFailed e) d = goto ClientFailed (Concluded (Inl (ClientTransport e))) d"
| "connect_step tr now nid (Concluded r) d = (Concluded r, d)"

text \<open>How many steps are left at most.\<close>

fun steps_left :: "stage \<Rightarrow> nat" where
  "steps_left Start = 11"
| "steps_left CallConnect = 10"
| "steps_left (ConnectFailed e) = 1"
| "steps_left (PeerVerified p) = 9"
| "steps_left (StorePeer p) = 8"
| "steps_left (CallCapabilities p) = 7"
| "steps_left (StoreCapabilities p c) = 6"
| "steps_left (EnterNegotiating p) = 5"
| "steps_left (CallNegotiate p) = 4"
| "steps_left (StoreNegotiated n) = 2"
| "steps_left EnterReady = 1"
| "steps_left ClearNegotiated = 2"
| "steps_left EnterMessaging = 1"
| "steps_left (NegotiateFailed e) = 1"
| "steps_left (Concluded r) = 0"

fun stage_result :: "stage \<Rightarrow> (anp_client_error + anp_client_state) option" where
  "stage_result (Concluded r) = Some r"
| "stage_result _ = None"

lemma steps_left_decreases:
  "stage_result st = None \<Longrightarrow> steps_left (fst (connect_step tr now nid st d)) < steps_left st"
  by (cases st) (auto simp: goto_def apply_transition_def split: sum.split)

function finish_connect ::
  "transport_ops \<Rightarrow> time \<Rightarrow> string \<Rightarrow> stage \<Rightarrow> anp_driver \<Rightarrow>
     (anp_client_error + anp_client_state) \<times> anp_driver" where
  "finish_connect tr now nid st d =
     (case stage_result st of
        Some r \<Rightarrow> (r, d)
      | None \<Rightarrow> (let p = connect_step tr now nid st d in finish_connect tr now nid (fst p) (snd p)))"
  by pat_completeness auto
termination
  by (relation "measure (\<lambda>(tr, now, nid, st, d). steps_left st)") (simp_all add: steps_left_decreases split_beta)

declare finish_connect.simps [simp del]

definition anp_connect ::
  "transport_ops \<Rightarrow> time \<Rightarrow> string \<Rightarrow> anp_driver \<Rightarrow> (anp_client_error + anp_client_state) \<times> anp_driver" where
  "anp_connect tr now nid d = finish_connect tr now nid Start d"

section \<open>Task commands\<close>

definition require_task_profile :: "time \<Rightarrow> anp_driver \<Rightarrow> anp_client_error + unit" where
  "require_task_profile now d =
     (if \<not> allows_task_commands (ad_state d) then Inl (UnsupportedCapability (ad_state d))
      else case ad_negotiated d of
        None \<Rightarrow> Inl (UnsupportedCapability (ad_state d))
      | Some n \<Rightarrow>
          if is_expired n now then Inl (NegotiationExpired (np_profile_id n) (np_valid_until n))
          else Inr ())"

definition peer_checked :: "anp_driver \<Rightarrow> anp_client_error + verified_peer" where
  "peer_checked d = ok_or (ad_peer d) NotConnected"

definition invoke_message :: "anp_driver \<Rightarrow> string \<Rightarrow> string \<Rightarrow> string \<Rightarrow> json \<Rightarrow> anp_message" where
  "invoke_message d mid anp_task operation payload =
     \<lparr>msg_id = mid, msg_kind = ''task.invoke'',
      msg_body = Json (JObject (struct_fields (TaskInvoke
        \<lparr>ti_envelope = envelope_new anp_task operation mid, ti_agent = acf_local_agent (ad_config d),
         ti_payload = payload\<rparr>)))\<rparr>"

definition cancel_message :: "string \<Rightarrow> string \<Rightarrow> string \<Rightarrow> anp_message" where
  "cancel_message mid anp_task operation =
     \<lparr>msg_id = mid, msg_kind = ''task.cancel'',
      msg_body = Json (JObject (struct_fields (TaskCancel
        \<lparr>tc_envelope = envelope_new anp_task operation mid, tc_payload = JObject []\<rparr>)))\<rparr>"

definition send_checked ::
  "transport_ops \<Rightarrow> time \<Rightarrow> anp_driver \<Rightarrow> anp_message \<Rightarrow> anp_client_error + string" where
  "send_checked tr now d msg =
     rbind (require_task_profile now d) (\<lambda>_.
     rbind (peer_checked d) (\<lambda>peer.
     rbind (map_err ClientTransport (tr_send tr peer msg)) (\<lambda>_. Inr (msg_id msg))))"

definition send_invoke ::
  "transport_ops \<Rightarrow> time \<Rightarrow> string \<Rightarrow> anp_driver \<Rightarrow> string \<Rightarrow> string \<Rightarrow> json \<Rightarrow> anp_client_error + string" where
  "send_invoke tr now mid d anp_task operation payload =
     send_checked tr now d (invoke_message d mid anp_task operation payload)"

definition send_cancel ::
  "transport_ops \<Rightarrow> time \<Rightarrow> string \<Rightarrow> anp_driver \<Rightarrow> string \<Rightarrow> string \<Rightarrow> anp_client_error + string" where
  "send_cancel tr now mid d anp_task operation =
     send_checked tr now d (cancel_message mid anp_task operation)"

definition record_remote_task_id :: "task_id \<Rightarrow> string \<Rightarrow> anp_driver \<Rightarrow> anp_driver" where
  "record_remote_task_id t remote d = d\<lparr>ad_remote_task_ids := AList.update t remote (ad_remote_task_ids d)\<rparr>"

fun translate_event :: "anp_event \<Rightarrow> driver_event option" where
  "translate_event (TaskAccepted e) = None"
| "translate_event (TaskStatus e) =
     Some (case tst_state e of
             StCompleted \<Rightarrow> DvCompleted []
           | StFailed \<Rightarrow> DvFailed (anp_failure ''remote task failed'')
           | StCancelled \<Rightarrow> DvCancelled)"
| "translate_event (TaskInputRequired e) =
     Some (DvInputRequired \<lparr>ir_question = tir_prompt e, ir_schema = None\<rparr>)"
| "translate_event (TaskProgress e) =
     Some (DvProgress (case jget_str ''message'' (tpr_payload e) of None \<Rightarrow> ''progress'' | Some m \<Rightarrow> m) None)"
| "translate_event (TaskArtifact e) = Some (DvArtifact (to_core_artifact (tar_artifact e)))"
| "translate_event (TaskCompleted e) =
     Some (DvCompleted (map (\<lambda>a. PFileRef (anr_uri a) (anr_mime_type a)) (tco_artifacts e)))"
| "translate_event (TaskFailed e) = Some (DvFailed (anp_failure (tf_error e)))"
| "translate_event (TaskCancelled e) = Some DvCancelled"
| "translate_event _ = None"

text \<open>\<open>forward_events\<close>: the events of the source up to its end or its error, the driver
  events forwarded, and the result; \<open>room\<close> is how many sends succeed before the consumer
  is gone.\<close>

fun forward_events ::
  "(json \<Rightarrow> nat) \<Rightarrow> nat \<Rightarrow> (anp_client_error + anp_event) list \<Rightarrow> driver_event list \<times> (anp_client_error + unit)" where
  "forward_events sz room [] = ([], Inr ())"
| "forward_events sz room (Inl e # evs) = ([], Inl e)"
| "forward_events sz room (Inr ev # evs) =
     (case validate_event sz ev of
        Inl e \<Rightarrow> ([], Inl (ClientProfile e))
      | Inr _ \<Rightarrow>
          (case translate_event ev of
             None \<Rightarrow> forward_events sz room evs
           | Some dv \<Rightarrow>
               (case room of
                  0 \<Rightarrow> ([], Inr ())
                | Suc room' \<Rightarrow> map_prod ((#) dv) id (forward_events sz room' evs))))"

section \<open>The driver interface\<close>

definition anp_driver_capabilities :: driver_capabilities where
  "anp_driver_capabilities = \<lparr>cap_cancellation = True, cap_provide_input = True\<rparr>"

definition anp_health :: "anp_driver \<Rightarrow> core_error + unit" where
  "anp_health d =
     (if ad_state d = TaskProfileReady then Inr ()
      else Inl (DriverError (''ANP driver not ready (state '' @ client_state_str (ad_state d) @ '')'')))"

definition profile_required :: "string \<Rightarrow> anp_driver \<Rightarrow> core_error" where
  "profile_required what d =
     DriverError (''ANP '' @ what @ '' requires `'' @ profile_id @ ''`; state is '' @ client_state_str (ad_state d))"

definition anp_invoke :: "anp_driver \<Rightarrow> core_error + driver_stream" where
  "anp_invoke d =
     (if \<not> allows_task_commands (ad_state d) then Inl (profile_required ''task invoke'' d)
      else Inr (DriverStream [DvAccepted] True))"

definition anp_cancel :: "uuid_format \<Rightarrow> anp_driver \<Rightarrow> task_id \<Rightarrow> core_error + unit" where
  "anp_cancel uf d t =
     (if \<not> allows_task_commands (ad_state d) then Inl (profile_required ''task cancel'' d)
      else Inl (DriverError (''ANP cancel not yet wired for local task '' @ uf_print uf t)))"

definition anp_provide_input :: "uuid_format \<Rightarrow> anp_driver \<Rightarrow> task_id \<Rightarrow> part list \<Rightarrow> core_error + unit" where
  "anp_provide_input uf d t input =
     (if \<not> allows_task_commands (ad_state d) then Inl (profile_required ''provide_input'' d)
      else Inl (DriverError (''ANP provide_input not yet wired for local task '' @ uf_print uf t)))"

section \<open>Interleaved connections\<close>

text \<open>A driver with the calls of \<open>connect\<close> in progress. A step starts a call, or lets one
  call make one step with whatever the transport answers at that time.\<close>

inductive conn_reach :: "anp_client_config \<Rightarrow> anp_driver \<Rightarrow> stage list \<Rightarrow> bool" for config where
  conn_init: "conn_reach config (anp_driver_new config) []"
| conn_start: "conn_reach config d sts \<Longrightarrow> conn_reach config d (sts @ [Start])"
| conn_step: "conn_reach config d sts \<Longrightarrow> i < length sts \<Longrightarrow> anp_transport tr \<Longrightarrow>
    connect_step tr now nid (sts ! i) d = (st', d') \<Longrightarrow> conn_reach config d' (sts[i := st'])"

text \<open>The state of the driver while a call is at a point; none before its first step and
  after its last.\<close>

fun stage_state :: "stage \<Rightarrow> anp_client_state option" where
  "stage_state Start = None"
| "stage_state CallConnect = Some Connecting"
| "stage_state (ConnectFailed e) = Some Connecting"
| "stage_state (PeerVerified p) = Some Connecting"
| "stage_state (StorePeer p) = Some IdentityVerified"
| "stage_state (CallCapabilities p) = Some IdentityVerified"
| "stage_state (StoreCapabilities p c) = Some IdentityVerified"
| "stage_state (EnterNegotiating p) = Some IdentityVerified"
| "stage_state (CallNegotiate p) = Some Negotiating"
| "stage_state (StoreNegotiated n) = Some Negotiating"
| "stage_state EnterReady = Some Negotiating"
| "stage_state ClearNegotiated = Some Negotiating"
| "stage_state EnterMessaging = Some Negotiating"
| "stage_state (NegotiateFailed e) = Some Negotiating"
| "stage_state (Concluded r) = None"

definition running :: "stage \<Rightarrow> bool" where
  "running st \<longleftrightarrow> stage_state st \<noteq> None"

text \<open>What is known of the driver at a point of a call.\<close>

fun stage_ok :: "stage \<Rightarrow> anp_driver \<Rightarrow> bool" where
  "stage_ok (StoreNegotiated n) d \<longleftrightarrow> ad_peer d \<noteq> None \<and> np_profile_id n = profile_id"
| "stage_ok EnterReady d \<longleftrightarrow>
     ad_peer d \<noteq> None \<and> (\<exists>n. ad_negotiated d = Some n \<and> np_profile_id n = profile_id)"
| "stage_ok (CallCapabilities p) d \<longleftrightarrow> ad_peer d \<noteq> None"
| "stage_ok (StoreCapabilities p c) d \<longleftrightarrow> ad_peer d \<noteq> None"
| "stage_ok (EnterNegotiating p) d \<longleftrightarrow> ad_peer d \<noteq> None"
| "stage_ok (CallNegotiate p) d \<longleftrightarrow> ad_peer d \<noteq> None"
| "stage_ok _ d \<longleftrightarrow> True"

definition ready_ok :: "anp_driver \<Rightarrow> bool" where
  "ready_ok d \<longleftrightarrow> (ad_state d = TaskProfileReady \<longrightarrow>
     ad_peer d \<noteq> None \<and> (\<exists>n. ad_negotiated d = Some n \<and> np_profile_id n = profile_id))"

definition conn_inv :: "anp_driver \<Rightarrow> stage list \<Rightarrow> bool" where
  "conn_inv d sts \<longleftrightarrow> ready_ok d \<and> length (filter running sts) \<le> 1 \<and>
     (\<forall>st\<in>set sts. running st \<longrightarrow> stage_state st = Some (ad_state d) \<and> stage_ok st d)"

lemma transition_cases:
  "client_transition from to = Inr x \<longleftrightarrow> (from, to) \<in> set legal_transitions \<and> x = to"
  by (auto simp: client_transition_def)

lemma start_excludes:
  assumes "client_transition (ad_state d) Connecting = Inr x" "conn_inv d sts"
  shows "\<forall>st\<in>set sts. \<not> running st"
proof
  fix st
  assume "st \<in> set sts"
  have "ad_state d \<in> {Disconnected, TaskProfileReady, MessagingOnly}"
    using assms(1) by (auto simp: transition_cases legal_transitions_def)
  with assms(2) \<open>st \<in> set sts\<close> show "\<not> running st"
    by (cases st) (auto simp: conn_inv_def running_def)
qed

lemma step_ok:
  assumes "anp_transport tr" "connect_step tr now nid st d = (st', d')" "running st"
    "stage_state st = Some (ad_state d)" "stage_ok st d"
  shows "ready_ok d' \<and> (running st' \<longrightarrow> stage_state st' = Some (ad_state d') \<and> stage_ok st' d')"
proof (cases st)
  case (CallNegotiate peer)
  then show ?thesis
    using assms anp_transport.negotiates_offer [OF assms(1), of now nid peer "\<lparr>po_profiles = [profile_id]\<rparr>"]
    by (auto simp: ready_ok_def running_def split: sum.splits if_splits)
qed (use assms in \<open>auto simp: goto_def apply_transition_def transition_cases legal_transitions_def running_def
      ready_ok_def split: sum.splits\<close>)

lemma running_update:
  assumes "i < length sts" "length (filter running sts) \<le> 1" "running (sts ! i)"
  shows "\<forall>j<length sts. running (sts ! j) \<longrightarrow> j = i"
proof (intro allI impI)
  fix j
  assume j: "j < length sts" "running (sts ! j)"
  show "j = i"
  proof (rule ccontr)
    assume "j \<noteq> i"
    with assms(1,3) j have "card {i, j} \<le> card {k. k < length sts \<and> running (sts ! k)}"
      by (intro card_mono) auto
    with assms(2) \<open>j \<noteq> i\<close> show False by (simp add: length_filter_conv_card)
  qed
qed

lemma filter_le_one:
  assumes "\<And>j k. j < length sts \<Longrightarrow> k < length sts \<Longrightarrow> running (sts ! j) \<Longrightarrow> running (sts ! k) \<Longrightarrow> j = k"
  shows "length (filter running sts) \<le> 1"
proof -
  have "card {k. k < length sts \<and> running (sts ! k)} \<le> Suc 0"
    using assms by (intro card_le_Suc0_iff_eq [THEN iffD2]) auto
  then show ?thesis by (simp add: length_filter_conv_card)
qed

lemma conn_inv_step:
  assumes iv: "conn_inv d sts" and i: "i < length sts" and tr: "anp_transport tr"
    and step: "connect_step tr now nid (sts ! i) d = (st', d')"
  shows "conn_inv d' (sts[i := st'])"
proof -
  have known: "ready_ok d" "length (filter running sts) \<le> 1"
    "\<And>st. st \<in> set sts \<Longrightarrow> running st \<Longrightarrow> stage_state st = Some (ad_state d) \<and> stage_ok st d"
    using iv by (auto simp: conn_inv_def)
  consider (run) "running (sts ! i)" | (start) "sts ! i = Start" | (ended) "\<exists>r. sts ! i = Concluded r"
    by (cases "sts ! i") (auto simp: running_def)
  then show ?thesis
  proof cases
    case run
    note alone = running_update [OF i known(2) run]
    have ok: "ready_ok d'" "running st' \<Longrightarrow> stage_state st' = Some (ad_state d') \<and> stage_ok st' d'"
      using step_ok [OF tr step run] known(3) [OF nth_mem [OF i] run] by auto
    have "length (filter running (sts[i := st'])) \<le> 1"
      using alone by (intro filter_le_one) (metis length_list_update nth_list_update_neq)
    moreover have "st = st'" if "st \<in> set (sts[i := st'])" "running st" for st
    proof -
      from that(1) obtain j where "j < length sts" "st = sts[i := st'] ! j" by (auto simp: in_set_conv_nth)
      with alone that(2) i show ?thesis by (metis nth_list_update_eq nth_list_update_neq)
    qed
    ultimately show ?thesis using ok by (auto simp: conn_inv_def)
  next
    case start
    show ?thesis
    proof (cases "client_transition (ad_state d) Connecting")
      case (Inl e)
      then have st': "\<not> running st'" "d' = d"
        using step start by (auto simp: goto_def apply_transition_def running_def)
      have "length (filter running (sts[i := st'])) \<le> 1"
      proof (rule filter_le_one)
        fix j k
        assume "j < length (sts[i := st'])" "k < length (sts[i := st'])"
          "running (sts[i := st'] ! j)" "running (sts[i := st'] ! k)"
        then show "j = k"
          using st'(1) i running_update [OF _ known(2)]
          by (metis length_list_update nth_list_update_eq nth_list_update_neq)
      qed
      then show ?thesis
        using known st' set_update_subset_insert [of sts i st'] by (auto simp: conn_inv_def)
    next
      case (Inr x)
      then have "x = Connecting" by (simp add: transition_cases)
      with Inr have st': "st' = CallConnect" "d' = d\<lparr>ad_state := Connecting\<rparr>"
        using step start by (auto simp: goto_def apply_transition_def)
      have none: "\<forall>st\<in>set sts. \<not> running st" by (rule start_excludes [OF Inr iv])
      then have "length (filter running (sts[i := st'])) \<le> 1"
        by (intro filter_le_one) (metis length_list_update nth_list_update_neq nth_mem)
      moreover have "stage_state st = Some (ad_state d') \<and> stage_ok st d'"
        if "st \<in> set (sts[i := st'])" "running st" for st
      proof -
        have "st = CallConnect" using that none st'(1) set_update_subset_insert [of sts i st'] by auto
        then show ?thesis using st'(2) by simp
      qed
      ultimately show ?thesis using st' by (auto simp: conn_inv_def ready_ok_def)
    qed
  next
    case ended
    then have "st' = sts ! i" "d' = d" using step by auto
    then show ?thesis using iv by simp
  qed
qed

lemma conn_reach_inv: "conn_reach config d sts \<Longrightarrow> conn_inv d sts"
proof (induction rule: conn_reach.induct)
  case conn_init
  show ?case by (simp add: conn_inv_def ready_ok_def anp_driver_new_def)
next
  case (conn_start d sts)
  then show ?case by (auto simp: conn_inv_def running_def)
next
  case (conn_step d sts i tr now nid st' d')
  then show ?case by (intro conn_inv_step)
qed


lemma finish_connect_reach:
  "anp_transport tr \<Longrightarrow> conn_reach config d [st] \<Longrightarrow> finish_connect tr now nid st d = (r, d') \<Longrightarrow>
    conn_reach config d' [Concluded r]"
proof (induction tr now nid st d rule: finish_connect.induct)
  case (1 tr now nid st d)
  show ?case
  proof (cases "stage_result st")
    case None
    obtain st1 d1 where step: "connect_step tr now nid st d = (st1, d1)" by fastforce
    with "1.prems"(3) None have "finish_connect tr now nid st1 d1 = (r, d')"
      by (subst (asm) finish_connect.simps) simp
    moreover have "conn_reach config d1 [st1]"
      using conn_step [OF "1.prems"(2), of 0 tr now nid st1 d1] step "1.prems"(1) by simp
    ultimately show ?thesis using "1.IH" [OF None refl] step "1.prems"(1) by simp
  next
    case (Some r')
    then have "st = Concluded r'" by (cases st) auto
    with "1.prems" show ?thesis by (simp add: finish_connect.simps)
  qed
qed

definition demo_peer :: fake_peer_spec where
  "demo_peer = with_accepts_offer True (with_capabilities [profile_id]
     (fake_peer_new ''http://127.0.0.1:9901'' ''did:anp:local:peer-a''))"

definition demo_transport :: transport_ops where
  "demo_transport = fake_ops (fake_transport_new [demo_peer]
     \<lparr>pi_did = ''did:anp:local:peer-a'', pi_key_fingerprint = []\<rparr>)"

definition demo_config :: anp_client_config where
  "demo_config = \<lparr>acf_endpoint = ''http://127.0.0.1:9901'', acf_expected_did = None,
     acf_expected_key_fingerprint = None, acf_local_agent = ''a''\<rparr>"

definition demo_driver :: anp_driver where
  "demo_driver = snd (anp_connect demo_transport 0 ''n'' (anp_driver_new demo_config))"

lemma demo_connected:
  "case anp_connect demo_transport 0 ''n'' (anp_driver_new demo_config) of
     (r, d) \<Rightarrow> r = Inr TaskProfileReady \<and> send_invoke demo_transport 5 ''m'' d ''t'' ''o'' JNull = Inr ''m''"
  by code_simp

lemma demo_transport_ok: "anp_transport demo_transport"
  unfolding demo_transport_def by (rule fake.anp_transport_axioms)


section \<open>No way back\<close>

text \<open>The states from which \<open>connect\<close> cannot start.\<close>

lemma connect_refused:
  "(ad_state d, Connecting) \<notin> set legal_transitions \<Longrightarrow>
     anp_connect tr now nid d = (Inl (IllegalState (ad_state d) Connecting), d)"
  by (simp add: anp_connect_def finish_connect.simps goto_def apply_transition_def client_transition_def)

definition stuck :: "anp_driver \<Rightarrow> bool" where
  "stuck d \<longleftrightarrow> (ad_state d, Connecting) \<notin> set legal_transitions"

lemma step_error_stuck:
  assumes "running st" "stage_state st = Some (ad_state d)"
    "connect_step tr now nid st d = (Concluded (Inl e), d')"
  shows "stuck d'"
  using assms
  by (cases st) (auto simp: goto_def apply_transition_def client_transition_def legal_transitions_def
      stuck_def running_def split: sum.splits if_splits)

lemma step_state:
  assumes "running st" "stage_state st = Some (ad_state d)" "connect_step tr now nid st d = (st', d')"
  shows "stage_result st' \<noteq> None \<or> running st' \<and> stage_state st' = Some (ad_state d')"
  using assms
  by (cases st) (auto simp: goto_def apply_transition_def client_transition_def legal_transitions_def
      running_def split: sum.splits if_splits)

lemma finish_error_stuck:
  "running st \<Longrightarrow> stage_state st = Some (ad_state d) \<Longrightarrow> finish_connect tr now nid st d = (Inl e, d') \<Longrightarrow> stuck d'"
proof (induction tr now nid st d rule: finish_connect.induct)
  case (1 tr now nid st d)
  from "1.prems"(1) have None: "stage_result st = None" by (cases st) (auto simp: running_def)
  obtain st1 d1 where step: "connect_step tr now nid st d = (st1, d1)" by fastforce
  with "1.prems"(3) None have rest: "finish_connect tr now nid st1 d1 = (Inl e, d')"
    by (subst (asm) finish_connect.simps) simp
  show ?case
  proof (cases "stage_result st1")
    case None': None
    then show ?thesis
      using "1.IH" [OF None refl] step step_state [OF "1.prems"(1,2) step] rest by simp
  next
    case (Some r)
    then have "st1 = Concluded (Inl e)" "d1 = d'"
      using rest by (cases st1; simp add: finish_connect.simps)+
    with step_error_stuck [OF "1.prems"(1,2)] step show ?thesis by simp
  qed
qed

text \<open>
  A driver never recovers. Once a call of \<open>connect\<close> has returned an error, whatever it
  was, every later call returns an error and changes nothing: the state machine has an edge
  out of the failed state, but nothing takes it.
\<close>

theorem anp_connect_no_recovery:
  assumes "anp_connect tr now nid d = (Inl e, d')"
  shows "anp_connect tr' now' nid' d' = (Inl (IllegalState (ad_state d') Connecting), d')"
proof -
  have "stuck d'"
  proof (cases "stuck d")
    case True
    then show ?thesis using connect_refused [of d tr now nid] assms by (simp add: stuck_def)
  next
    case False
    then have "finish_connect tr now nid CallConnect (d\<lparr>ad_state := Connecting\<rparr>) = (Inl e, d')"
      using assms
      by (simp add: anp_connect_def finish_connect.simps [of _ _ _ Start] goto_def apply_transition_def
          client_transition_def stuck_def)
    from finish_error_stuck [OF _ _ this] show ?thesis by (simp add: running_def)
  qed
  then show ?thesis using connect_refused by (simp add: stuck_def)
qed

theorem anp_connect_no_recovery_witness:
  "\<exists>e d'. anp_connect (fake_ops (fake_transport_new [] \<lparr>pi_did = ''x'', pi_key_fingerprint = []\<rparr>)) 0 ''n''
       (anp_driver_new demo_config) = (Inl e, d') \<and>
     anp_connect demo_transport 1 ''n'' d' = (Inl (IllegalState (ad_state d') Connecting), d')"
proof -
  let ?c = "anp_connect (fake_ops (fake_transport_new [] \<lparr>pi_did = ''x'', pi_key_fingerprint = []\<rparr>)) 0 ''n''
       (anp_driver_new demo_config)"
  have "case ?c of (Inl e, d') \<Rightarrow> True | _ \<Rightarrow> False" by code_simp
  then obtain e d' where "?c = (Inl e, d')" by (cases ?c; cases "fst ?c") auto
  with anp_connect_no_recovery [OF this] show ?thesis by auto
qed

text \<open>
  The messages that \<open>send_invoke\<close> and \<open>send_cancel\<close> put on the wire lack the field
  \<open>message_type\<close>: the profile's own reader rejects them.
\<close>

theorem anp_sent_untagged:
  "case msg_body (invoke_message d mid t op payload) of Json v \<Rightarrow> anp_event_of_json v = None | Binary b \<Rightarrow> True"
  "case msg_body (cancel_message mid t op) of Json v \<Rightarrow> anp_event_of_json v = None | Binary b \<Rightarrow> True"
  by (simp_all add: invoke_message_def cancel_message_def anp_event_of_json_def jget_str_def envelope_fields_def)

text \<open>
  A task given to the driver fails: its stream carries one acceptance and closes, so the
  worker of the core ends with the error of a stream closed too early.
\<close>

theorem anp_invoke_fails:
  assumes "guarded_store ops iv view keyed allow" "good_store iv view n (w_store w)"
    and "view (w_store w) t = Some (snap, evs)" "\<not> terminal (snap_state snap)"
    and "ad_state d = TaskProfileReady" "o_stream ora = anp_invoke d"
  shows "run (run_driver ce agent t rq) ops ora bs w =
    (Some (Inl (DriverError ''driver stream closed before terminal event'')), bs, w)"
proof -
  have stream: "o_stream ora = Inr (DriverStream [DvAccepted] True)"
    using assms(5,6) by (simp add: anp_invoke_def allows_task_commands_def)
  note then_simp = guarded_store.run_snapshot_then [OF assms(1-3)]
  have accepted: "run (apply_driver_event ce t DvAccepted) ops ora bs w = (Some (Inr ()), bs, w)" for bs
    by (simp add: apply_driver_event.simps then_simp)
  have rest: "run (thenp (snapshot t) f) ops ora bs w = run (f snap) ops ora bs w" for f :: "_ \<Rightarrow> (core_error + unit) prog" and bs
    by (rule then_simp)
  have "run (thenp (apply_driver_event ce t DvAccepted) g) ops ora bs w = run (g ()) ops ora bs w"
    for g :: "unit \<Rightarrow> (core_error + unit) prog"
    using accepted by (simp add: thenp_def run_bindp)
  then show ?thesis using assms(4) by (simp add: run_driver_def stream rest)
qed

end
