(* ===== verification/ACP_Runtime.thy ===== *)
theory ACP_Runtime
  imports Core_Service
begin

text \<open>
  The crate \<open>protocol-acp-runtime\<close>: the JSON-RPC codec (\<open>codec.rs\<close>) and the line loop
  over standard input (\<open>runtime.rs\<close>). Reading a JSON text is \<open>serde_json\<close>, so
  \<open>from_str\<close> is a parameter. A line becomes the responses it writes and the new state of
  the drain token; the loop runs over the list of lines up to the end of the input.
\<close>

section \<open>The codec\<close>

datatype json_rpc_id = IdNumber int | IdString string | IdNull

record json_rpc_request =
  jq_jsonrpc :: string
  jq_method :: string
  jq_id :: "json_rpc_id option"
  jq_params :: "json option"

record json_rpc_error =
  je_code :: int
  je_message :: string
  je_data :: "json option"

record json_rpc_response =
  jr_jsonrpc :: string
  jr_result :: "json option"
  jr_error :: "json_rpc_error option"
  jr_id :: "json_rpc_id option"

definition parse_error :: json_rpc_error where
  "parse_error = \<lparr>je_code = -32700, je_message = ''parse error'', je_data = None\<rparr>"

definition invalid_request :: "string \<Rightarrow> json_rpc_error" where
  "invalid_request m = \<lparr>je_code = -32600, je_message = m, je_data = None\<rparr>"

definition method_not_found :: "string \<Rightarrow> json_rpc_error" where
  "method_not_found m = \<lparr>je_code = -32601, je_message = ''method not found: '' @ m, je_data = None\<rparr>"

definition internal_error :: "string \<Rightarrow> json_rpc_error" where
  "internal_error m = \<lparr>je_code = -32603, je_message = m, je_data = None\<rparr>"

text \<open>\<open>serde_json::from_value\<close> for the untagged enum, with \<open>unwrap_or(Null)\<close>.\<close>

definition id_of_json :: "json \<Rightarrow> json_rpc_id" where
  "id_of_json v =
     (case as_i64 v of
        Some i \<Rightarrow> IdNumber i
      | None \<Rightarrow> (case as_str v of Some s \<Rightarrow> IdString s | None \<Rightarrow> IdNull))"

definition extract_id :: "json \<Rightarrow> json_rpc_id option" where
  "extract_id v = map_option id_of_json (jget ''id'' v)"

definition parse_request ::
  "(string \<Rightarrow> json option) \<Rightarrow> string \<Rightarrow>
     json_rpc_error \<times> json_rpc_id option + json_rpc_request option" where
  "parse_request from_str line =
     (case from_str line of
        None \<Rightarrow> Inl (parse_error, None)
      | Some v \<Rightarrow>
          (if as_object v = None then Inl (invalid_request ''request must be a JSON object'', None)
           else if jget_str ''jsonrpc'' v \<noteq> Some ''2.0''
           then Inl (invalid_request ''jsonrpc must be \"2.0\"'', extract_id v)
           else case jget_str ''method'' v of
             None \<Rightarrow> Inl (invalid_request ''method is required'', extract_id v)
           | Some method_name \<Rightarrow>
               Inr (Some \<lparr>jq_jsonrpc = ''2.0'', jq_method = method_name, jq_id = map_option id_of_json (jget ''id'' v),
                          jq_params = jget ''params'' v\<rparr>)))"

definition is_notification :: "json_rpc_request \<Rightarrow> bool" where
  "is_notification rq \<longleftrightarrow> jq_id rq = None"

definition success :: "json_rpc_id option \<Rightarrow> json \<Rightarrow> json_rpc_response" where
  "success i r = \<lparr>jr_jsonrpc = ''2.0'', jr_result = Some r, jr_error = None, jr_id = i\<rparr>"

definition failure :: "json_rpc_id option \<Rightarrow> json_rpc_error \<Rightarrow> json_rpc_response" where
  "failure i e = \<lparr>jr_jsonrpc = ''2.0'', jr_result = None, jr_error = Some e, jr_id = i\<rparr>"

section \<open>Wire forms of the model\<close>

text \<open>The forms the derived \<open>Serialize\<close> of the crate \<open>adapter-model\<close> gives.\<close>

fun opt_json :: "('a \<Rightarrow> json) \<Rightarrow> 'a option \<Rightarrow> json" where
  "opt_json f None = JNull"
| "opt_json f (Some a) = f a"

definition tagged :: "string \<Rightarrow> (string \<times> json) list \<Rightarrow> json" where
  "tagged tag kvs = JObject [(tag, JObject kvs)]"

fun part_json :: "part \<Rightarrow> json" where
  "part_json (PText t) = tagged ''Text'' [(''text'', JString t)]"
| "part_json (PJson v) = tagged ''Json'' [(''value'', v)]"
| "part_json (PFileRef uri mime) =
     tagged ''FileRef'' [(''uri'', JString uri), (''mime_type'', opt_json JString mime)]"

definition artifact_json :: "artifact_ref \<Rightarrow> json" where
  "artifact_json a =
     JObject [(''id'', JString (art_id a)), (''name'', JString (art_name a)),
       (''mime_type'', JString (art_mime_type a)), (''size_bytes'', JNumber (PosInt (art_size_bytes a))),
       (''uri'', opt_json JString (art_uri a))]"

fun kind_json :: "core_event_kind \<Rightarrow> json" where
  "kind_json (EvAccepted queued) = tagged ''Accepted'' [(''queued'', JBool queued)]"
| "kind_json (EvProgress message percent) =
     tagged ''Progress'' [(''message'', JString message),
       (''percent'', opt_json (\<lambda>p. JNumber (PosInt (unat p))) percent)]"
| "kind_json (EvArtifact a) = tagged ''Artifact'' [(''artifact'', artifact_json a)]"
| "kind_json (EvInputRequired r) =
     tagged ''InputRequired'' [(''request'', JObject [(''question'', JString (ir_question r)),
       (''schema'', opt_json (\<lambda>v. v) (ir_schema r))])]"
| "kind_json (EvCompleted out) = tagged ''Completed'' [(''output'', JArray (map part_json out))]"
| "kind_json (EvFailed e) =
     tagged ''Failed'' [(''error'', JObject [(''code'', JString (pe_code e)),
       (''message'', JString (pe_message e)), (''retryable'', JBool (pe_retryable e))])]"
| "kind_json (EvCancelRequested reason) =
     tagged ''CancelRequested'' [(''reason'', opt_json JString reason)]"
| "kind_json EvCancelled = JString ''Cancelled''"

fun state_json :: "task_state \<Rightarrow> json" where
  "state_json Created = JString ''Created''"
| "state_json Accepted = JString ''Accepted''"
| "state_json Running = JString ''Running''"
| "state_json WaitingForInput = JString ''WaitingForInput''"
| "state_json CancelRequested = JString ''CancelRequested''"
| "state_json Completed = JString ''Completed''"
| "state_json Failed = JString ''Failed''"
| "state_json Cancelled = JString ''Cancelled''"

definition event_to_json :: "uuid_format \<Rightarrow> core_event \<Rightarrow> json" where
  "event_to_json uf ev =
     JObject [(''seq'', JNumber (PosInt (ev_seq ev))), (''taskId'', JString (uf_print uf (ev_task_id ev))),
       (''kind'', kind_json (ev_kind ev))]"

section \<open>The dispatcher\<close>

record acp_runtime_config =
  arc_max_line_bytes :: nat
  arc_shutdown_grace :: nat
  arc_agent_id :: string
  arc_agent_name :: string
  arc_agent_version :: string
  arc_capabilities :: json

definition default_acp_runtime_config :: acp_runtime_config where
  "default_acp_runtime_config =
     \<lparr>arc_max_line_bytes = 1024 * 1024, arc_shutdown_grace = secs 5, arc_agent_id = ''adapter'',
      arc_agent_name = ''agent-connector'', arc_agent_version = ''0.1.0'',
      arc_capabilities = JObject [(''filesystem'', JBool False), (''terminal'', JBool False),
        (''streaming'', JBool True), (''cancellation'', JBool True), (''sessionResume'', JBool True)]\<rparr>"

record dispatcher =
  dp_core :: core_service
  dp_config :: acp_runtime_config
  dp_caller :: caller

definition dispatcher_new :: "core_service \<Rightarrow> acp_runtime_config \<Rightarrow> string \<Rightarrow> dispatcher" where
  "dispatcher_new core cfg caller_id =
     \<lparr>dp_core = core, dp_config = cfg, dp_caller = \<lparr>caller_id_of = caller_id, caller_scopes = []\<rparr>\<rparr>"

fun acp_core_error :: "uuid_format \<Rightarrow> core_error \<Rightarrow> json_rpc_error" where
  "acp_core_error uf (InvalidRequest m) = invalid_request m"
| "acp_core_error uf (AgentNotFound i) = internal_error (''agent not found: '' @ i)"
| "acp_core_error uf NoEligibleAgent = internal_error ''no eligible agent''"
| "acp_core_error uf (ResourceExhausted m) = internal_error m"
| "acp_core_error uf (DriverError m) = internal_error m"
| "acp_core_error uf Timeout = internal_error ''task timed out''"
| "acp_core_error uf (StoreError e) = internal_error (display_store_error (uf_print uf) e)"

definition block_part :: "json \<Rightarrow> part option" where
  "block_part block =
     (case jget_str ''kind'' block of
        Some k \<Rightarrow>
          if k = ''text'' then map_option PText (jget_str ''text'' block)
          else if k = ''resource''
          then Some (PFileRef (case jget_str ''uri'' block of None \<Rightarrow> [] | Some u \<Rightarrow> u) (jget_str ''mimeType'' block))
          else map_option PJson (jget ''json'' block)
      | None \<Rightarrow> map_option PJson (jget ''json'' block))"

definition extract_parts :: "json \<Rightarrow> part list" where
  "extract_parts params =
     (case Option.bind (jget ''prompt'' params) as_array of
        None \<Rightarrow> []
      | Some blocks \<Rightarrow> List.map_filter block_part blocks)"

definition str_or_empty :: "string \<Rightarrow> json \<Rightarrow> string" where
  "str_or_empty k v = (case jget_str k v of None \<Rightarrow> [] | Some s \<Rightarrow> s)"

definition task_param :: "uuid_format \<Rightarrow> json \<Rightarrow> task_id option" where
  "task_param uf params = Option.bind (jget_str ''taskId'' params) (uf_parse uf)"

definition method_initialize :: "dispatcher \<Rightarrow> json_rpc_id option \<Rightarrow> json_rpc_response" where
  "method_initialize d i =
     success i (JObject [(''protocolVersion'', JString ''1''),
       (''agent'', JObject [(''name'', JString (arc_agent_name (dp_config d))),
          (''version'', JString (arc_agent_version (dp_config d)))]),
       (''capabilities'', arc_capabilities (dp_config d))])"

definition method_session_new :: "uuid_format \<Rightarrow> json_rpc_id option \<Rightarrow> json_rpc_response prog" where
  "method_session_new uf i =
     FreshId (\<lambda>u. Done (success i (JObject [(''sessionId'', JString (uf_print uf u))])))"

definition prompt_command :: "uuid_format \<Rightarrow> json \<Rightarrow> core_command" where
  "prompt_command uf params =
     Invoke \<lparr>rq_task_id = None, rq_agent_id = None, rq_skill_id = None,
       rq_idempotency_key = ''acp:'' @ str_or_empty ''requestId'' params,
       rq_session_id = (if str_or_empty ''sessionId'' params = [] then None
                        else uf_parse uf (str_or_empty ''sessionId'' params)),
       rq_input = extract_parts params,
       rq_context = (case jget ''metadata'' params of None \<Rightarrow> JNull | Some v \<Rightarrow> v),
       rq_deadline = None\<rparr>"

definition prompt_answer :: "uuid_format \<Rightarrow> json_rpc_id option \<Rightarrow> task_snapshot \<Rightarrow> json_rpc_response" where
  "prompt_answer uf i snap =
     success i (JObject [(''sessionId'', JString (case snap_session_id snap of None \<Rightarrow> [] | Some s \<Rightarrow> uf_print uf s)),
       (''taskId'', JString (uf_print uf (snap_task_id snap)))])"

definition method_session_prompt ::
  "uuid_format \<Rightarrow> dispatcher \<Rightarrow> json_rpc_id option \<Rightarrow> json \<Rightarrow> json_rpc_response prog" where
  "method_session_prompt uf d i params =
     (if str_or_empty ''requestId'' params = []
      then Done (failure i (invalid_request ''requestId is required''))
      else bindp (cs_dispatch (dp_core d) (dp_caller d) (prompt_command uf params)) (\<lambda>r. Done (case r of
             Inr (DrCreated snap) \<Rightarrow> prompt_answer uf i snap
           | Inr (DrExisting snap) \<Rightarrow> prompt_answer uf i snap
           | Inr _ \<Rightarrow> failure i (internal_error ''unexpected core result'')
           | Inl e \<Rightarrow> failure i (acp_core_error uf e))))"

definition task_required :: "json_rpc_id option \<Rightarrow> json_rpc_response" where
  "task_required i = failure i (invalid_request ''taskId (UUID) is required'')"

definition method_session_cancel ::
  "uuid_format \<Rightarrow> dispatcher \<Rightarrow> json_rpc_id option \<Rightarrow> json \<Rightarrow> json_rpc_response prog" where
  "method_session_cancel uf d i params =
     (case task_param uf params of
        None \<Rightarrow> Done (task_required i)
      | Some t \<Rightarrow>
          bindp (cs_dispatch (dp_core d) (dp_caller d) (Cancel t (Some ''ACP cancel''))) (\<lambda>r. Done (case r of
             Inr _ \<Rightarrow> success i JNull
           | Inl e \<Rightarrow> failure i (acp_core_error uf e))))"

definition method_session_input ::
  "uuid_format \<Rightarrow> dispatcher \<Rightarrow> json_rpc_id option \<Rightarrow> json \<Rightarrow> json_rpc_response prog" where
  "method_session_input uf d i params =
     (case task_param uf params of
        None \<Rightarrow> Done (task_required i)
      | Some t \<Rightarrow>
          bindp (cs_dispatch (dp_core d) (dp_caller d) (ProvideInput t (extract_parts params))) (\<lambda>r. Done (case r of
             Inr _ \<Rightarrow> success i JNull
           | Inl e \<Rightarrow> failure i (acp_core_error uf e))))"

definition method_session_get ::
  "uuid_format \<Rightarrow> dispatcher \<Rightarrow> json_rpc_id option \<Rightarrow> json \<Rightarrow> json_rpc_response prog" where
  "method_session_get uf d i params =
     (case task_param uf params of
        None \<Rightarrow> Done (task_required i)
      | Some t \<Rightarrow>
          bindp (cs_dispatch (dp_core d) (dp_caller d) (GetStatus t)) (\<lambda>r. Done (case r of
             Inr (DrStatus snap) \<Rightarrow>
               success i (JObject [(''taskId'', JString (uf_print uf (snap_task_id snap))),
                 (''state'', state_json (snap_state snap))])
           | Inr _ \<Rightarrow> failure i (internal_error ''unexpected core result'')
           | Inl e \<Rightarrow> failure i (acp_core_error uf e))))"

definition method_session_update ::
  "uuid_format \<Rightarrow> dispatcher \<Rightarrow> json_rpc_id option \<Rightarrow> json \<Rightarrow> json_rpc_response prog" where
  "method_session_update uf d i params =
     (case task_param uf params of
        None \<Rightarrow> Done (task_required i)
      | Some t \<Rightarrow>
          bindp (cs_history (dp_core d) t 0) (\<lambda>r. Done (case r of
             Inr events \<Rightarrow> success i (JObject [(''events'', JArray (map (event_to_json uf) events))])
           | Inl e \<Rightarrow> failure i (acp_core_error uf e))))"

text \<open>\<open>handle\<close>: the response, and whether the drain token was cancelled.\<close>

definition acp_handle ::
  "uuid_format \<Rightarrow> dispatcher \<Rightarrow> json_rpc_request \<Rightarrow> json_rpc_id option \<Rightarrow> (bool \<times> json_rpc_response) prog" where
  "acp_handle uf d rq i =
     (let params = (case jq_params rq of None \<Rightarrow> JNull | Some v \<Rightarrow> v);
          keep = (\<lambda>p. bindp p (\<lambda>r. Done (False, r))) in
      if jq_method rq = ''initialize'' then Done (False, method_initialize d i)
      else if jq_method rq = ''shutdown'' then Done (True, success i JNull)
      else if jq_method rq = ''session/new'' then keep (method_session_new uf i)
      else if jq_method rq = ''session/prompt'' then keep (method_session_prompt uf d i params)
      else if jq_method rq = ''session/cancel'' then keep (method_session_cancel uf d i params)
      else if jq_method rq = ''session/input'' then keep (method_session_input uf d i params)
      else if jq_method rq = ''session/update'' then keep (method_session_update uf d i params)
      else if jq_method rq = ''session/get'' then keep (method_session_get uf d i params)
      else Done (False, failure i (method_not_found (jq_method rq))))"

section \<open>The loop\<close>

text \<open>One line read while the drain token has the given value.\<close>

definition acp_line ::
  "uuid_format \<Rightarrow> (string \<Rightarrow> json option) \<Rightarrow> dispatcher \<Rightarrow> bool \<Rightarrow> string \<Rightarrow>
     (bool \<times> json_rpc_response list) prog" where
  "acp_line uf from_str d draining line =
     (if draining
      then Done (draining, case parse_request from_str line of
             Inr (Some rq) \<Rightarrow>
               if is_notification rq then []
               else [failure (jq_id rq) (internal_error ''server is shutting down'')]
           | _ \<Rightarrow> [])
      else if length line > arc_max_line_bytes (dp_config d)
      then Done (draining, [failure None (internal_error ''line exceeds max_line_bytes'')])
      else case parse_request from_str line of
        Inl (e, i) \<Rightarrow> Done (draining, [failure i e])
      | Inr None \<Rightarrow> Done (draining, [])
      | Inr (Some rq) \<Rightarrow>
          if is_notification rq
          then bindp (acp_handle uf d rq None) (\<lambda>(stop, _). Done (stop, []))
          else bindp (acp_handle uf d rq (jq_id rq)) (\<lambda>(stop, response). Done (stop, [response])))"

text \<open>\<open>run\<close>: every line up to the end of the input, and all responses written.\<close>

fun acp_run ::
  "uuid_format \<Rightarrow> (string \<Rightarrow> json option) \<Rightarrow> dispatcher \<Rightarrow> bool \<Rightarrow> string list \<Rightarrow>
     (bool \<times> json_rpc_response list) prog" where
  "acp_run uf from_str d draining [] = Done (draining, [])"
| "acp_run uf from_str d draining (line # lines) =
     bindp (acp_line uf from_str d draining line) (\<lambda>(draining', out).
       bindp (acp_run uf from_str d draining' lines) (\<lambda>(draining'', outs).
         Done (draining'', out @ outs)))"

section \<open>Handlers always answer\<close>

text \<open>A program that never waits for ever.\<close>

primrec no_hang :: "'a prog \<Rightarrow> bool" where
  "no_hang (Done a) \<longleftrightarrow> True"
| "no_hang (Create nt k) \<longleftrightarrow> (\<forall>r. no_hang (k r))"
| "no_hang (Get t k) \<longleftrightarrow> (\<forall>r. no_hang (k r))"
| "no_hang (Append tr k) \<longleftrightarrow> (\<forall>r. no_hang (k r))"
| "no_hang (Events t after n k) \<longleftrightarrow> (\<forall>r. no_hang (k r))"
| "no_hang (ReadRegistry k) \<longleftrightarrow> (\<forall>r. no_hang (k r))"
| "no_hang (Clock k) \<longleftrightarrow> (\<forall>r. no_hang (k r))"
| "no_hang (FreshId k) \<longleftrightarrow> (\<forall>r. no_hang (k r))"
| "no_hang (TryAcquire s k) \<longleftrightarrow> (\<forall>r. no_hang (k r))"
| "no_hang (Act a p) \<longleftrightarrow> no_hang p"
| "no_hang (SubscribeActive t k) \<longleftrightarrow> (\<forall>r. no_hang (k r))"
| "no_hang (DriverInvoke a t rq k) \<longleftrightarrow> (\<forall>r. no_hang (k r))"
| "no_hang (DriverCall c k) \<longleftrightarrow> (\<forall>r. no_hang (k r))"
| "no_hang (Await p) \<longleftrightarrow> no_hang p"
| "no_hang (Elapsed k) \<longleftrightarrow> (\<forall>r. no_hang (k r))"
| "no_hang Hang \<longleftrightarrow> False"

lemma no_hang_bindp: "no_hang p \<Longrightarrow> (\<And>a. no_hang (f a)) \<Longrightarrow> no_hang (bindp p f)"
  by (induction p) auto

lemma no_hang_thenp: "no_hang p \<Longrightarrow> (\<And>a. no_hang (f a)) \<Longrightarrow> no_hang (thenp p f)"
  unfolding thenp_def by (erule no_hang_bindp) (auto split: sum.split)

lemma no_hang_run: "no_hang p \<Longrightarrow> \<exists>r bs' w'. run p ops ora bs w = (Some r, bs', w')"
proof (induction p arbitrary: bs w)
  case (Elapsed k)
  then have "\<exists>r bs' w'. run (k b) ops ora bs1 w = (Some r, bs', w')" for b bs1 by simp
  then show ?case by (cases bs) simp_all
qed (simp_all split: prod.split)

text \<open>Every result the program can have satisfies \<open>P\<close>.\<close>

primrec returns :: "('a \<Rightarrow> bool) \<Rightarrow> 'a prog \<Rightarrow> bool" where
  "returns P (Done a) \<longleftrightarrow> P a"
| "returns P (Create nt k) \<longleftrightarrow> (\<forall>r. returns P (k r))"
| "returns P (Get t k) \<longleftrightarrow> (\<forall>r. returns P (k r))"
| "returns P (Append tr k) \<longleftrightarrow> (\<forall>r. returns P (k r))"
| "returns P (Events t after n k) \<longleftrightarrow> (\<forall>r. returns P (k r))"
| "returns P (ReadRegistry k) \<longleftrightarrow> (\<forall>r. returns P (k r))"
| "returns P (Clock k) \<longleftrightarrow> (\<forall>r. returns P (k r))"
| "returns P (FreshId k) \<longleftrightarrow> (\<forall>r. returns P (k r))"
| "returns P (TryAcquire s k) \<longleftrightarrow> (\<forall>r. returns P (k r))"
| "returns P (Act a p) \<longleftrightarrow> returns P p"
| "returns P (SubscribeActive t k) \<longleftrightarrow> (\<forall>r. returns P (k r))"
| "returns P (DriverInvoke a t rq k) \<longleftrightarrow> (\<forall>r. returns P (k r))"
| "returns P (DriverCall c k) \<longleftrightarrow> (\<forall>r. returns P (k r))"
| "returns P (Await p) \<longleftrightarrow> returns P p"
| "returns P (Elapsed k) \<longleftrightarrow> (\<forall>r. returns P (k r))"
| "returns P Hang \<longleftrightarrow> True"

lemma returns_bindp: "(\<And>a. returns P (f a)) \<Longrightarrow> returns P (bindp p f)"
  by (induction p) auto

lemma returns_bindp_weak:
  "returns Q p \<Longrightarrow> (\<And>a. Q a \<Longrightarrow> returns P (f a)) \<Longrightarrow> returns P (bindp p f)"
  by (induction p) auto

lemma returns_run: "returns P p \<Longrightarrow> run p ops ora bs w = (Some r, bs', w') \<Longrightarrow> P r"
proof (induction p arbitrary: bs w)
  case (Elapsed k)
  have "P r" if "run (k b) ops ora bs1 w = (Some r, bs', w')" for b bs1
    using Elapsed.IH [OF rangeI, of b bs1 w] that Elapsed.prems(1) by simp
  with Elapsed.prems(2) show ?case by (cases bs) auto
qed (auto split: prod.splits, (meson rangeI)+)

lemma no_hang_snapshot: "no_hang (snapshot t)"
  by (simp add: snapshot_def split: sum.split option.split)

lemma no_hang_transition: "no_hang (transition snap al nxt kind)"
  by (simp add: transition_def split: sum.split)

lemmas no_hang_intros = no_hang_thenp no_hang_bindp no_hang_snapshot no_hang_transition

lemma no_hang_dispatch: "no_hang (dispatch ce caller command)"
proof -
  have fail: "no_hang (fail_active ce t err)" for t err
    unfolding fail_active_def by (simp add: no_hang_intros)
  then have "no_hang (reject ce t m m')" for t m m'
    unfolding reject_def by (simp add: no_hang_intros)
  then have "no_hang (invoke ce caller rq)" for rq
    by (auto simp: invoke_def new_or_given_id_def deadline_of_def start_task_def admit_def Let_def
        split: sum.split option.split create_task_result.split intro!: no_hang_intros)
  then show ?thesis
    by (auto simp: dispatch.simps cancel_def provide_input_def
        split: sum.split core_command.split option.split unit.split intro!: no_hang_intros)
qed

lemma no_hang_handle: "no_hang (acp_handle uf (dispatcher_new (adapter_core_service ce) cfg c) rq i)"
  by (auto simp: acp_handle_def Let_def method_session_new_def method_session_prompt_def
      method_session_cancel_def method_session_input_def method_session_get_def method_session_update_def
      dispatcher_new_def adapter_core_service_def history_def
      split: option.split sum.split intro!: no_hang_bindp no_hang_dispatch)

section \<open>The protocol of a session\<close>

text \<open>The ids that must be answered for a line, and whether the session drains after it.\<close>

definition request_ids :: "(string \<Rightarrow> json option) \<Rightarrow> string \<Rightarrow> json_rpc_id list" where
  "request_ids from_str line =
     (case parse_request from_str line of
        Inr (Some rq) \<Rightarrow> (case jq_id rq of None \<Rightarrow> [] | Some i \<Rightarrow> [i])
      | _ \<Rightarrow> [])"

definition line_protocol ::
  "(string \<Rightarrow> json option) \<Rightarrow> nat \<Rightarrow> bool \<Rightarrow> string \<Rightarrow> bool \<times> json_rpc_id option list" where
  "line_protocol from_str max_bytes draining line =
     (if draining then (True, map Some (request_ids from_str line))
      else if max_bytes < length line then (False, [None])
      else case parse_request from_str line of
        Inl (e, i) \<Rightarrow> (False, [i])
      | Inr None \<Rightarrow> (False, [])
      | Inr (Some rq) \<Rightarrow> (jq_method rq = ''shutdown'', map Some (request_ids from_str line)))"

fun session_protocol ::
  "(string \<Rightarrow> json option) \<Rightarrow> nat \<Rightarrow> bool \<Rightarrow> string list \<Rightarrow> bool \<times> json_rpc_id option list" where
  "session_protocol from_str max_bytes draining [] = (draining, [])"
| "session_protocol from_str max_bytes draining (line # lines) =
     (case line_protocol from_str max_bytes draining line of (draining', ids) \<Rightarrow>
      case session_protocol from_str max_bytes draining' lines of (draining'', ids') \<Rightarrow>
        (draining'', ids @ ids'))"

definition well_formed_response :: "json_rpc_response \<Rightarrow> bool" where
  "well_formed_response r \<longleftrightarrow>
     jr_jsonrpc r = ''2.0'' \<and> (jr_result r = None) = (jr_error r \<noteq> None)"

lemma response_simps [simp]:
  "jr_id (success i r) = i" "jr_id (failure i e) = i"
  "well_formed_response (success i r)" "well_formed_response (failure i e)"
  by (simp_all add: success_def failure_def well_formed_response_def)

definition answers_to :: "json_rpc_id option \<Rightarrow> json_rpc_response \<Rightarrow> bool" where
  "answers_to i r \<longleftrightarrow> jr_id r = i \<and> well_formed_response r"

lemma answers_simps [simp]: "answers_to i (success i r)" "answers_to i (failure i e)"
  by (simp_all add: answers_to_def)

lemma handle_returns:
  "returns (\<lambda>(stop, r). answers_to i r \<and> stop = (jq_method rq = ''shutdown'')) (acp_handle uf d rq i)"
proof -
  let ?P = "answers_to i"
  have keep: "returns (\<lambda>(stop, r). answers_to i r \<and> \<not> stop) (bindp p (\<lambda>r. Done (False, r)))" if "returns ?P p" for p
    by (rule returns_bindp_weak [OF that]) simp
  have "returns ?P (method_session_new uf i)" by (simp add: method_session_new_def)
  moreover have "returns ?P (method_session_prompt uf d i params)" for params
    by (auto simp: method_session_prompt_def prompt_answer_def
        intro!: returns_bindp split: sum.split dispatch_result.split)
  moreover have "returns ?P (method_session_cancel uf d i params)" for params
    by (auto simp: method_session_cancel_def task_required_def intro!: returns_bindp split: option.split sum.split)
  moreover have "returns ?P (method_session_input uf d i params)" for params
    by (auto simp: method_session_input_def task_required_def intro!: returns_bindp split: option.split sum.split)
  moreover have "returns ?P (method_session_update uf d i params)" for params
    by (auto simp: method_session_update_def task_required_def intro!: returns_bindp split: option.split sum.split)
  moreover have "returns ?P (method_session_get uf d i params)" for params
    by (auto simp: method_session_get_def task_required_def
        intro!: returns_bindp split: option.split sum.split dispatch_result.split)
  ultimately show ?thesis
    unfolding acp_handle_def Let_def by (auto intro!: keep simp: method_initialize_def)
qed

lemma acp_line_runs:
  "\<exists>stop out bs' w'. run (acp_line uf from_str (dispatcher_new (adapter_core_service ce) cfg c) draining line) ops ora bs w =
      (Some (stop, out), bs', w') \<and>
    (stop, map jr_id out) = line_protocol from_str (arc_max_line_bytes cfg) draining line \<and>
    list_all well_formed_response out"
proof -
  let ?d = "dispatcher_new (adapter_core_service ce) cfg c"
  have cfg: "dp_config ?d = cfg" by (simp add: dispatcher_new_def)
  show ?thesis
  proof (cases "\<exists>rq. \<not> draining \<and> \<not> arc_max_line_bytes cfg < length line \<and> parse_request from_str line = Inr (Some rq)")
    case True
    then obtain rq where rq: "\<not> draining" "\<not> arc_max_line_bytes cfg < length line"
      "parse_request from_str line = Inr (Some rq)" by blast
    obtain stop r bs' w' where h: "run (acp_handle uf ?d rq (jq_id rq)) ops ora bs w = (Some (stop, r), bs', w')"
      using no_hang_run [OF no_hang_handle, of uf ce cfg c rq "jq_id rq" ops ora bs w] by auto
    with returns_run [OF handle_returns h]
    have "answers_to (jq_id rq) r" "stop = (jq_method rq = ''shutdown'')" by auto
    with h rq show ?thesis
      by (cases "jq_id rq")
        (auto simp: acp_line_def cfg run_bindp line_protocol_def request_ids_def is_notification_def answers_to_def)
  next
    case False
    then show ?thesis
      by (auto simp: acp_line_def cfg line_protocol_def request_ids_def is_notification_def
          split: sum.splits option.splits)
  qed
qed


lemma acp_line_draining:
  "acp_line uf from_str d True line =
     Done (True, map (\<lambda>i. failure (Some i) (internal_error ''server is shutting down'')) (request_ids from_str line))"
  by (auto simp: acp_line_def request_ids_def is_notification_def split: sum.split option.split)

text \<open>
  Shutdown. Once the drain token is set, no line reaches the core: the whole rest of the
  input changes nothing and calls no driver, and each request in it is refused with an
  explicit error under its own id.
\<close>

theorem acp_shutdown_drains:
  "acp_run uf from_str d True lines =
     Done (True, map (\<lambda>i. failure (Some i) (internal_error ''server is shutting down''))
       (concat (map (request_ids from_str) lines)))"
  by (induction lines) (simp_all add: acp_line_draining)

text \<open>
  Polling for updates. Whatever the policy of the core says about the caller,
  \<open>session/update\<close> answers with the log of the task, and with its first 500 events only:
  the end of a longer task never shows.
\<close>

theorem acp_update_unguarded:
  assumes "guarded_store ops iv view keyed allow" "good_store iv view n (w_store w)"
    and "view (w_store w) t = Some (snap, evs)" "task_param uf params = Some t"
    and "jq_method rq = ''session/update''" "jq_params rq = Some params"
  shows "run (acp_handle uf (dispatcher_new (adapter_core_service ce) cfg c) rq i) ops ora bs w =
    (Some (False, success i (JObject [(''events'', JArray (map (event_to_json uf) (take 500 evs)))])), bs, w)"
proof -
  have dense: "dense_log t (snap, evs)" by (rule good_store_dense(5) [OF assms(2,3)])
  have "0 < ev_seq ev" if "ev \<in> set evs" for ev
  proof -
    have "ev_seq ev \<in> set (map ev_seq evs)" using that by simp
    also have "map ev_seq evs = [1..<Suc (length evs)]" using dense by (simp add: dense_log_def)
    finally show ?thesis by auto
  qed
  then have "filter (\<lambda>ev. 0 < ev_seq ev) evs = evs" by simp
  then have "op_events_after ops t 0 500 (w_store w) = Inr (take 500 evs)"
    using guarded_store.run_history [OF assms(1-3), of 0] by simp
  then show ?thesis
    using assms(4-6)
    by (simp add: acp_handle_def method_session_update_def dispatcher_new_def adapter_core_service_def
        history_def run_bindp)
qed

text \<open>A policy that refuses everybody.\<close>

definition deny_all :: policy_engine where
  "deny_all caller command = Inl (InvalidRequest ''forbidden'')"

theorem acp_update_unguarded_witness:
  "run (acp_handle hyphenated (dispatcher_new (adapter_core_service (core_new (\<lambda>_. []) (\<lambda>n. Inr (int n)) deny_all 4))
         default_acp_runtime_config ''mallory'')
       \<lparr>jq_jsonrpc = ''2.0'', jq_method = ''session/update'', jq_id = Some (IdNumber 1),
        jq_params = Some (JObject [(''taskId'', JString (uf_print hyphenated 7))])\<rparr> (Some (IdNumber 1)))
     mem_ops demo_answers [] demo_world =
   (Some (False, success (Some (IdNumber 1)) (JObject [(''events'', JArray [])])), [], demo_world)"
  using acp_update_unguarded [OF memg.guarded_store_axioms demo_world_good, of 7 "initial_snapshot 0 demo_task" "[]"
      hyphenated "JObject [(''taskId'', JString (uf_print hyphenated 7))]"
      "\<lparr>jq_jsonrpc = ''2.0'', jq_method = ''session/update'', jq_id = Some (IdNumber 1),
        jq_params = Some (JObject [(''taskId'', JString (uf_print hyphenated 7))])\<rparr>"]
  by (simp add: demo_world_def demo_created_view task_param_def jget_str_def)

end
