(* ===== verification/Dropped_Requests.thy ===== *)
theory Dropped_Requests
  imports ACP_Runtime
begin

text \<open>
  Futures that are dropped half way. A Rust future stops for good when its owner drops it, and
  it can stop at each \<open>await\<close>. \<open>cut\<close> is a program of the core that is dropped after a
  number of awaited calls; between a permit and the point where it is given back or handed to a
  worker there is no \<open>await\<close>, so the drop of a permit needs no step of its own. The second
  part is \<open>run_with_shutdown\<close> of \<open>protocol-acp-runtime/src/runtime.rs\<close>, which drops the running
  loop when a signal arrives, with the writing of response lines (\<open>write_line\<close>,
  \<open>to_line\<close>).
\<close>

section \<open>Dropping a handler\<close>

primrec cut :: "'a prog \<Rightarrow> nat \<Rightarrow> 'a option prog" where
  "cut (Done a) n = Done (Some a)"
| "cut (Create nt k) n = (case n of 0 \<Rightarrow> Done None | Suc m \<Rightarrow> Create nt (\<lambda>r. cut (k r) m))"
| "cut (Get t k) n = (case n of 0 \<Rightarrow> Done None | Suc m \<Rightarrow> Get t (\<lambda>r. cut (k r) m))"
| "cut (Append tr k) n = (case n of 0 \<Rightarrow> Done None | Suc m \<Rightarrow> Append tr (\<lambda>r. cut (k r) m))"
| "cut (Events t after l k) n = (case n of 0 \<Rightarrow> Done None | Suc m \<Rightarrow> Events t after l (\<lambda>r. cut (k r) m))"
| "cut (ReadRegistry k) n = ReadRegistry (\<lambda>r. cut (k r) n)"
| "cut (Clock k) n = Clock (\<lambda>r. cut (k r) n)"
| "cut (FreshId k) n = FreshId (\<lambda>r. cut (k r) n)"
| "cut (TryAcquire s k) n = TryAcquire s (\<lambda>r. cut (k r) n)"
| "cut (Act a p) n = Act a (cut p n)"
| "cut (SubscribeActive t k) n = SubscribeActive t (\<lambda>r. cut (k r) n)"
| "cut (DriverInvoke a t rq k) n = (case n of 0 \<Rightarrow> Done None | Suc m \<Rightarrow> DriverInvoke a t rq (\<lambda>r. cut (k r) m))"
| "cut (DriverCall c k) n = (case n of 0 \<Rightarrow> Done None | Suc m \<Rightarrow> DriverCall c (\<lambda>r. cut (k r) m))"
| "cut (Await p) n = Await (cut p n)"
| "cut (Elapsed k) n = Elapsed (\<lambda>r. cut (k r) n)"
| "cut Hang n = Done None"

lemma no_hang_cut: "no_hang (cut p n)"
  by (induction p arbitrary: n) (auto split: nat.split)

text \<open>With enough calls the program is not cut at all.\<close>

lemma cut_complete:
  "run p ops ora bs w = (Some a, bs', w') \<Longrightarrow> \<exists>n. \<forall>m. run (cut p (n + m)) ops ora bs w = (Some (Some a), bs', w')"
proof (induction p arbitrary: bs w)
  case (Create nt k)
  obtain r s where "op_create ops (o_now ora) nt (w_store w) = (r, s)" by fastforce
  moreover from this Create.prems Create.IH [OF rangeI, of r bs "w\<lparr>w_store := s\<rparr>"]
  obtain n where "\<forall>m. run (cut (k r) (n + m)) ops ora bs (w\<lparr>w_store := s\<rparr>) = (Some (Some a), bs', w')" by auto
  ultimately show ?case by (intro exI [of _ "Suc n"]) simp
next
  case (Append tr k)
  obtain r s where "op_append ops (o_now ora) tr (w_store w) = (r, s)" by fastforce
  moreover from this Append.prems Append.IH [OF rangeI, of r bs "w\<lparr>w_store := s\<rparr>"]
  obtain n where "\<forall>m. run (cut (k r) (n + m)) ops ora bs (w\<lparr>w_store := s\<rparr>) = (Some (Some a), bs', w')" by auto
  ultimately show ?case by (intro exI [of _ "Suc n"]) simp
next
  case (Get t k)
  from Get.prems Get.IH [OF rangeI, of "op_get_snapshot ops t (w_store w)" bs w] obtain n
    where "\<forall>m. run (cut (k (op_get_snapshot ops t (w_store w))) (n + m)) ops ora bs w = (Some (Some a), bs', w')" by auto
  then show ?case by (intro exI [of _ "Suc n"]) simp
next
  case (Events t after l k)
  from Events.prems Events.IH [OF rangeI, of "op_events_after ops t after l (w_store w)" bs w] obtain n
    where "\<forall>m. run (cut (k (op_events_after ops t after l (w_store w))) (n + m)) ops ora bs w = (Some (Some a), bs', w')" by auto
  then show ?case by (intro exI [of _ "Suc n"]) simp
next
  case (DriverInvoke d t rq k)
  from DriverInvoke.prems DriverInvoke.IH [OF rangeI, of "o_stream ora" bs w] obtain n
    where "\<forall>m. run (cut (k (o_stream ora)) (n + m)) ops ora bs w = (Some (Some a), bs', w')" by auto
  then show ?case by (intro exI [of _ "Suc n"]) simp
next
  case (DriverCall c k)
  from DriverCall.prems DriverCall.IH [OF rangeI, of "o_reply ora c" bs w] obtain n
    where "\<forall>m. run (cut (k (o_reply ora c)) (n + m)) ops ora bs w = (Some (Some a), bs', w')" by auto
  then show ?case by (intro exI [of _ "Suc n"]) simp
next
  case (TryAcquire s k)
  then show ?case by (auto split: prod.splits)
next
  case (Elapsed k)
  then show ?case by (cases bs) auto
qed auto

section \<open>An invocation that is dropped\<close>

lemma run_cut_invoke:
  assumes "\<not> blank (rq_idempotency_key rq)" "registry_resolve (w_registry w) rq = Inr agent"
  shows "\<exists>d. run (cut (invoke ce caller rq) n) ops ora bs w =
    run (cut (start_task ce agent caller (invoked_id ora rq) d rq) n) ops ora bs w"
  using assms
  by (auto simp: invoke_def new_or_given_id_def deadline_of_def invoked_id_def split: option.split sum.split)


definition empty_world :: "mem_state world" where
  "empty_world = demo_world\<lparr>w_store := mem_new\<rparr>"


section \<open>The signal\<close>

text \<open>\<open>to_line\<close>; \<open>ts\<close> is \<open>serde_json::to_string\<close> on responses.\<close>

definition to_line :: "(json_rpc_response \<Rightarrow> string option) \<Rightarrow> json_rpc_response \<Rightarrow> string" where
  "to_line ts response =
     (case ts response of
        Some line \<Rightarrow> line
      | None \<Rightarrow>
          (case ts (failure None (internal_error ''serialization failed'')) of
             Some line \<Rightarrow> line
           | None \<Rightarrow> ''{'' @ [CHR 0x22] @ ''jsonrpc'' @ [CHR 0x22] @ '':'' @ [CHR 0x22] @ ''2.0'' @ [CHR 0x22] @ '','' @
               [CHR 0x22] @ ''error'' @ [CHR 0x22] @ '':{'' @ [CHR 0x22] @ ''code'' @ [CHR 0x22] @ '':-32603,'' @
               [CHR 0x22] @ ''message'' @ [CHR 0x22] @ '':'' @ [CHR 0x22] @ ''serialization failed'' @ [CHR 0x22] @ ''}}'')) @
     [CHR 0x0A]"

definition written :: "(json_rpc_response \<Rightarrow> string option) \<Rightarrow> json_rpc_response list \<Rightarrow> string" where
  "written ts outs = concat (map (to_line ts) outs)"

text \<open>Where the signal finds the loop: waiting for a line of which some bytes have been taken
  from the reader, handling one after some awaited calls, or writing a response of which some
  bytes are out.\<close>

datatype signal_point =
    Reading nat
  | Handling nat
  | Writing nat

text \<open>What is done of the line in flight: the bytes written, and the lines that the next loop
  reads. The bytes that \<open>Lines\<close> had collected are gone with it.\<close>

definition interrupted_line ::
  "uuid_format \<Rightarrow> (string \<Rightarrow> json option) \<Rightarrow> (json_rpc_response \<Rightarrow> string option) \<Rightarrow> dispatcher \<Rightarrow> bool \<Rightarrow> signal_point \<Rightarrow>
     string list \<Rightarrow> (string \<times> string list) prog" where
  "interrupted_line uf from_str ts d draining at rest =
     (case rest of
        [] \<Rightarrow> Done ([], [])
      | line # lines \<Rightarrow>
          (case at of
             Reading n \<Rightarrow> Done ([], drop n line # lines)
           | Handling n \<Rightarrow> bindp (cut (acp_line uf from_str d draining line) n) (\<lambda>_. Done ([], lines))
           | Writing n \<Rightarrow> bindp (acp_line uf from_str d draining line) (\<lambda>(_, out). Done (take n (written ts out), lines))))"

text \<open>\<open>run_with_shutdown\<close>: all bytes written. Without a signal it is \<open>run\<close>. Otherwise the signal
  comes at the line with the given number, and the second run, with the drain token set, writes
  as many bytes as the grace period allows.\<close>

fun acp_run_with_shutdown ::
  "uuid_format \<Rightarrow> (string \<Rightarrow> json option) \<Rightarrow> (json_rpc_response \<Rightarrow> string option) \<Rightarrow> dispatcher \<Rightarrow> string list \<Rightarrow>
     (nat \<times> signal_point \<times> nat) option \<Rightarrow> string prog" where
  "acp_run_with_shutdown uf from_str ts d lines None =
     bindp (acp_run uf from_str d False lines) (\<lambda>(_, outs). Done (written ts outs))"
| "acp_run_with_shutdown uf from_str ts d lines (Some (i, at, grace)) =
     bindp (acp_run uf from_str d False (take i lines)) (\<lambda>(draining, outs).
     bindp (interrupted_line uf from_str ts d draining at (drop i lines)) (\<lambda>(bytes, rest).
     bindp (acp_run uf from_str d True rest) (\<lambda>(_, outs').
       Done (written ts outs @ bytes @ take grace (written ts outs')))))"

text \<open>A loop whose drain token is set, as a value.\<close>

definition refusals :: "(string \<Rightarrow> json option) \<Rightarrow> string list \<Rightarrow> json_rpc_response list" where
  "refusals from_str lines =
     map (\<lambda>i. failure (Some i) (internal_error ''server is shutting down'')) (concat (map (request_ids from_str) lines))"

lemma acp_run_draining: "acp_run uf from_str d True lines = Done (True, refusals from_str lines)"
  by (induction lines) (simp_all add: acp_line_draining refusals_def)

lemma acp_run_returns:
  "\<exists>stop outs bs' w'. run (acp_run uf from_str (dispatcher_new (adapter_core_service ce) cfg c) draining lines) ops ora bs w =
     (Some (stop, outs), bs', w')"
proof (induction lines arbitrary: draining bs w)
  case (Cons line lines)
  obtain stop out bs1 w1 where "run (acp_line uf from_str (dispatcher_new (adapter_core_service ce) cfg c) draining line) ops ora bs w =
      (Some (stop, out), bs1, w1)"
    using acp_line_runs [of uf from_str ce cfg c draining line ops ora bs w] by blast
  moreover obtain stop' outs bs2 w2 where
    "run (acp_run uf from_str (dispatcher_new (adapter_core_service ce) cfg c) stop lines) ops ora bs1 w1 = (Some (stop', outs), bs2, w2)"
    using Cons.IH by blast
  ultimately show ?case by (simp add: run_bindp)
qed simp

text \<open>
  The signal and the request in flight. However long the grace period is, the request that is
  being handled when the signal comes gets no response: the output is that of the lines before
  it, followed by refusals of the lines after it. This holds wherever its handler is dropped,
  also when it has changed the store.
\<close>

theorem acp_signal_abandons_request:
  assumes "i < length lines"
  shows "\<exists>stop outs bs1 w1 bs2 w2.
    run (acp_run uf from_str (dispatcher_new (adapter_core_service ce) cfg c) False (take i lines)) ops ora bs w =
      (Some (stop, outs), bs1, w1) \<and>
    run (acp_run_with_shutdown uf from_str ts (dispatcher_new (adapter_core_service ce) cfg c) lines
        (Some (i, Handling n, grace))) ops ora bs w =
      (Some (written ts outs @ take grace (written ts (refusals from_str (drop (Suc i) lines)))), bs2, w2)"
proof -
  let ?d = "dispatcher_new (adapter_core_service ce) cfg c"
  obtain stop outs bs1 w1 where first: "run (acp_run uf from_str ?d False (take i lines)) ops ora bs w = (Some (stop, outs), bs1, w1)"
    using acp_run_returns by blast
  obtain r bs2 w2 where "run (cut (acp_line uf from_str ?d stop (lines ! i)) n) ops ora bs1 w1 = (Some r, bs2, w2)"
    using no_hang_run [OF no_hang_cut] by blast
  moreover have "drop i lines = lines ! i # drop (Suc i) lines" using assms by (simp add: Cons_nth_drop_Suc)
  ultimately show ?thesis
    using first by (auto simp: run_bindp interrupted_line_def acp_run_draining)
qed

text \<open>A signal during the writing of a response leaves a torn line: what follows it on the same
  line is the first refusal.\<close>

lemma acp_signal_tears_line:
  assumes "run (acp_line uf from_str (dispatcher_new (adapter_core_service ce) cfg c) False line) ops ora bs w =
    (Some (stop, [response]), bs', w')"
  shows "run (acp_run_with_shutdown uf from_str ts (dispatcher_new (adapter_core_service ce) cfg c) (line # lines)
      (Some (0, Writing n, grace))) ops ora bs w =
    (Some (take n (to_line ts response) @ take grace (written ts (refusals from_str lines))), bs', w')"
  using assms by (simp add: run_bindp interrupted_line_def acp_run_draining written_def)

end
