(* ===== verification/Worker_Streams.thy ===== *)
theory Worker_Streams
  imports Core_Commands
begin

text \<open>
  What a worker makes of a whole stream. The state machine of the driver events
  (\<open>driver_effect\<close>) is lifted to streams: \<open>stream_log\<close> is the list of events that a
  worker stores for a stream that a driver closes. The drivers' theories use it to say what
  becomes of a task that they run.
\<close>

section \<open>The log of a stream\<close>

definition closed_early :: core_error where
  "closed_early = DriverError ''driver stream closed before terminal event''"

definition runtime_failure :: "(uuid \<Rightarrow> string) \<Rightarrow> core_error \<Rightarrow> core_event_kind" where
  "runtime_failure us e =
     EvFailed \<lparr>pe_code = (if e = Timeout then ''timeout'' else ''runtime_error''),
       pe_message = display_core_error us e, pe_retryable = False\<rparr>"

text \<open>\<open>msg\<close> is the text with which the store refuses a transition.\<close>

fun stream_log :: "(uuid \<Rightarrow> string) \<Rightarrow> string \<Rightarrow> task_state \<Rightarrow> driver_event list \<Rightarrow> core_event_kind list" where
  "stream_log us msg st [] = [runtime_failure us closed_early]"
| "stream_log us msg st (e # es) =
     (case driver_effect st e of
        Ignored \<Rightarrow> stream_log us msg st es
      | Moves nxt kind \<Rightarrow> kind # (if terminal nxt then [] else stream_log us msg nxt es)
      | Refused \<Rightarrow> [runtime_failure us (StoreError (InvalidTransition msg))])"

section \<open>The worker stores it\<close>

lemma run_untimed: "run p ops ora [] w = (Some a, bs', w') \<Longrightarrow>
    bs' = [] \<and> run (with_timeout p) ops ora [] w = (Some (Some a), [], w')"
  by (induction p arbitrary: w) (auto split: prod.splits)

lemma performs_moves:
  assumes "performs ops view ora p w t evs (Moves nxt kind)"
  obtains w' snap' ev where "run p ops ora bs w = (Some (Inr ()), bs, w')" "ev_kind ev = kind"
    "view (w_store w') t = Some (snap', evs @ [ev])" "snap_state snap' = nxt"
proof -
  obtain w' snap' where "run p ops ora bs w = (Some (Inr ()), bs, w')" "moved view w w' t evs snap' nxt kind"
    using assms unfolding performs_def effect.case by blast
  with that show thesis by (auto simp: moved_def)
qed

text \<open>What the loop returns: nothing when a terminal event ended it, the error otherwise; then
  the task has not ended.\<close>

definition consumed ::
  "(uuid \<Rightarrow> string) \<Rightarrow> string \<Rightarrow> core_event_kind list \<Rightarrow> core_event_kind list \<Rightarrow> task_state \<Rightarrow>
     core_error + unit \<Rightarrow> bool" where
  "consumed us msg spec new st r \<longleftrightarrow>
     (case r of
        Inr u \<Rightarrow> new = spec \<and> terminal st
      | Inl e \<Rightarrow> e \<noteq> Timeout \<and> spec = new @ [runtime_failure us e] \<and> \<not> terminal st)"

context guarded_store
begin

lemma run_consume_closed:
  assumes "good_store inv view n (w_store w)" "n + length events < seq_limit"
    and "view (w_store w) t = Some (snap, evs)" "\<not> terminal (snap_state snap)"
  shows "\<exists>r w' snap' new msg. run (consume ce t events True) ops ora [] w = (Some r, [], w') \<and>
    view (w_store w') t = Some (snap', evs @ new) \<and>
    good_store inv view (n + length events) (w_store w') \<and>
    consumed (ce_uuid_str ce) msg (stream_log (ce_uuid_str ce) msg (snap_state snap) events)
      (map ev_kind new) (snap_state snap') r"
  using assms
proof (induction events arbitrary: n w snap evs)
  case Nil
  then have "run (consume ce t [] True) ops ora [] w = (Some (Inl closed_early), [], w)"
    by (simp add: run_snapshot_then closed_early_def)
  with Nil show ?case
    by (intro exI [of _ "Inl closed_early"] exI [of _ w] exI [of _ snap] exI [of _ "[]"])
      (simp add: consumed_def closed_early_def)
next
  case (Cons e es)
  let ?us = "ce_uuid_str ce"
  have perf: "performs ops view ora (apply_driver_event ce t e) w t evs (driver_effect (snap_state snap) e)"
    using Cons.prems(2) performs_driver_event [OF Cons.prems(1) _ Cons.prems(3)] by simp
  have step: "run (consume ce t (e # es) True) ops ora [] w =
      (case run (apply_driver_event ce t e) ops ora [] w of
         (Some (Inr u), bs', w') \<Rightarrow> run (thenp (snapshot t) (\<lambda>snap.
            if terminal (snap_state snap) then Done (Inr ()) else consume ce t es True)) ops ora bs' w'
       | (Some (Inl err), bs', w') \<Rightarrow> (Some (Inl err), bs', w')
       | (None, bs', w') \<Rightarrow> (None, bs', w'))"
    by (simp add: thenp_def run_bindp split: prod.split option.split sum.split)
  show ?case
  proof (cases "driver_effect (snap_state snap) e")
    case Ignored
    then have "run (apply_driver_event ce t e) ops ora [] w = (Some (Inr ()), [], w)"
      using perf by (simp add: performs_def)
    then have "run (consume ce t (e # es) True) ops ora [] w = run (consume ce t es True) ops ora [] w"
      using Cons.prems(4) step by (simp add: run_snapshot_then [OF Cons.prems(1,3)])
    moreover have "good_store inv view (Suc n) (w_store w)"
      using Cons.prems(1) good_store_mono [of inv view n] by simp
    ultimately show ?thesis
      using Cons.IH [of "Suc n" w snap evs] Cons.prems Ignored by simp
  next
    case Refused
    then obtain msg where "run (apply_driver_event ce t e) ops ora [] w =
        (Some (Inl (StoreError (InvalidTransition msg))), [], w)"
      using perf by (auto simp: performs_def)
    moreover have "good_store inv view (n + length (e # es)) (w_store w)"
      using Cons.prems(1) good_store_mono [of inv view n] by simp
    ultimately show ?thesis
      using Cons.prems step Refused
      by (intro exI [of _ "Inl (StoreError (InvalidTransition msg))"] exI [of _ w] exI [of _ snap]
          exI [of _ "[]"] exI [of _ msg]) (simp add: consumed_def)
  next
    case (Moves nxt kind)
    then obtain w1 snap1 ev where one: "run (apply_driver_event ce t e) ops ora [] w = (Some (Inr ()), [], w1)"
      and ev: "ev_kind ev = kind" "view (w_store w1) t = Some (snap1, evs @ [ev])" "snap_state snap1 = nxt"
      using performs_moves [of ops view ora _ w t evs nxt kind "[]"] perf by metis
    have good1: "good_store inv view (Suc n) (w_store w1)"
      using run_safe [OF safe_apply_driver_event all_past_empty appends_le_apply_driver_event Cons.prems(1),
          of ce t e ora "[]"] Cons.prems(2) one by simp
    have run1: "run (consume ce t (e # es) True) ops ora [] w =
        (if terminal nxt then (Some (Inr ()), [], w1) else run (consume ce t es True) ops ora [] w1)"
      using step one ev(3) by (simp add: run_snapshot_then [OF good1 ev(2)])
    show ?thesis
    proof (cases "terminal nxt")
      case True
      moreover have "good_store inv view (n + length (e # es)) (w_store w1)"
        using good1 good_store_mono [of inv view "Suc n"] by simp
      ultimately show ?thesis
        using run1 ev Moves
        by (intro exI [of _ "Inr ()"] exI [of _ w1] exI [of _ snap1] exI [of _ "[ev]"])
          (simp add: consumed_def)
    next
      case False
      then obtain r w' snap' new msg where rest: "run (consume ce t es True) ops ora [] w1 = (Some r, [], w')"
        "view (w_store w') t = Some (snap', (evs @ [ev]) @ new)"
        "good_store inv view (Suc n + length es) (w_store w')"
        "consumed ?us msg (stream_log ?us msg nxt es) (map ev_kind new) (snap_state snap') r"
        using Cons.IH [OF good1 _ ev(2)] Cons.prems(2) ev(3) by auto
      then show ?thesis
        using run1 False Moves ev(1)
        by (intro exI [of _ r] exI [of _ w'] exI [of _ snap'] exI [of _ "ev # new"] exI [of _ msg])
          (auto simp: consumed_def split: sum.splits)
    qed
  qed
qed

lemma run_worker_stream:
  assumes good: "good_store inv view n (w_store w)" and n: "n + length events < seq_limit"
    and view: "view (w_store w) (wk_task wk) = Some (snap, evs)" and live: "\<not> terminal (snap_state snap)"
    and stream: "o_stream ora = Inr (DriverStream events True)"
  shows "\<exists>w' snap' new msg. run (worker_body ce wk) ops ora [] w = (Some (), [], w') \<and>
    view (w_store w') (wk_task wk) = Some (snap', evs @ new) \<and> terminal (snap_state snap') \<and>
    map ev_kind new = stream_log (ce_uuid_str ce) msg (snap_state snap) events"
proof -
  let ?t = "wk_task wk" and ?us = "ce_uuid_str ce"
  obtain r w1 snap1 new msg where one: "run (consume ce ?t events True) ops ora [] w = (Some r, [], w1)"
    "view (w_store w1) ?t = Some (snap1, evs @ new)" "good_store inv view (n + length events) (w_store w1)"
    "consumed ?us msg (stream_log ?us msg (snap_state snap) events) (map ev_kind new) (snap_state snap1) r"
    using run_consume_closed [OF good n view live] by blast
  have "run (run_driver ce (wk_agent wk) ?t (wk_request wk)) ops ora [] w = (Some r, [], w1)"
    using one(1) stream by (simp add: run_driver_def)
  then have timed: "run (with_timeout (run_driver ce (wk_agent wk) ?t (wk_request wk))) ops ora [] w =
      (Some (Some r), [], w1)"
    by (simp add: run_untimed)
  let ?fin = "\<lambda>w. perform (Release (wk_caller_permit wk)) (perform (Release (wk_global_permit wk))
      (perform (Release (wk_agent_permit wk)) (perform (ActiveRemove ?t) w)))"
  show ?thesis
  proof (cases r)
    case (Inr u)
    then have "run (worker_body ce wk) ops ora [] w = (Some (), [], ?fin w1)"
      using timed by (simp add: worker_body_def run_bindp release_permits_def)
    moreover have "w_store (?fin w1) = w_store w1" by simp
    moreover have "map ev_kind new = stream_log ?us msg (snap_state snap) events" "terminal (snap_state snap1)"
      using one(4) Inr by (simp_all add: consumed_def)
    ultimately show ?thesis using one(2) by metis
  next
    case (Inl err)
    with one(4) have err: "err \<noteq> Timeout" "stream_log ?us msg (snap_state snap) events =
        map ev_kind new @ [runtime_failure ?us err]" "\<not> terminal (snap_state snap1)"
      by (auto simp: consumed_def)
    have "performs ops view ora (fail_active ce ?t err) w1 ?t (evs @ new) (Moves Failed (runtime_failure ?us err))"
      using performs_fail_active [OF one(3) n one(2), of ora ce err] err(3) by (simp add: runtime_failure_def)
    then obtain w2 snap2 ev where two: "run (fail_active ce ?t err) ops ora [] w1 = (Some (Inr ()), [], w2)"
      and ev: "ev_kind ev = runtime_failure ?us err" "view (w_store w2) ?t = Some (snap2, (evs @ new) @ [ev])"
      "snap_state snap2 = Failed"
      using performs_moves [of ops view ora _ w1 ?t "evs @ new" Failed "runtime_failure ?us err" "[]"] by metis
    have "run (worker_body ce wk) ops ora [] w = (Some (), [], ?fin w2)"
      using timed two Inl by (simp add: worker_body_def run_bindp release_permits_def)
    moreover have "w_store (?fin w2) = w_store w2" by simp
    moreover have "map ev_kind (new @ [ev]) = stream_log ?us msg (snap_state snap) events"
      using err(2) ev(1) by simp
    moreover have "view (w_store w2) ?t = Some (snap2, evs @ (new @ [ev]))" "terminal (snap_state snap2)"
      using ev(2,3) by simp_all
    ultimately show ?thesis by metis
  qed
qed

end

text \<open>
  C28: a worker refines the state machine of driver events over whole streams. When the
  timer does not fire and the driver closes its stream, the worker ends the task, and the
  events it stores are exactly those that the machine gives for the stream: each event's
  own up to the first terminal one, and, when there is none or an event is refused, a
  failure that names the reason.
\<close>

theorem worker_stores_stream:
  assumes "guarded_store ops iv view keyed allow" "good_store iv view n (w_store w)"
    and "n + length events < seq_limit" "view (w_store w) (wk_task wk) = Some (snap, evs)"
    and "\<not> terminal (snap_state snap)" "o_stream ora = Inr (DriverStream events True)"
  shows "\<exists>w' snap' new msg. run (worker_body ce wk) ops ora [] w = (Some (), [], w') \<and>
    view (w_store w') (wk_task wk) = Some (snap', evs @ new) \<and> terminal (snap_state snap') \<and>
    map ev_kind new = stream_log (ce_uuid_str ce) msg (snap_state snap) events"
  using assms by (rule guarded_store.run_worker_stream)

definition demo_failing :: answers where
  "demo_failing = demo_answers\<lparr>o_stream := Inr (DriverStream
     [DvAccepted, DvFailed \<lparr>pe_code = ''x'', pe_message = ''busy'', pe_retryable = True\<rparr>, DvAccepted] True)\<rparr>"

theorem worker_stores_stream_witness:
  "\<exists>w' snap' new. run (worker_body demo_env demo_worker) mem_ops demo_failing [] demo_world = (Some (), [], w') \<and>
     mem_view (w_store w') 7 = Some (snap', new) \<and> terminal (snap_state snap') \<and>
     map ev_kind new = [EvFailed \<lparr>pe_code = ''runtime_error'', pe_message = ''driver error: busy'', pe_retryable = False\<rparr>]"
  using worker_stores_stream [OF memg.guarded_store_axioms demo_world_good, of
      "[DvAccepted, DvFailed \<lparr>pe_code = ''x'', pe_message = ''busy'', pe_retryable = True\<rparr>, DvAccepted]"
      demo_worker "initial_snapshot 0 demo_task" "[]" demo_failing demo_env] demo_created_view
  by (simp add: demo_world_def demo_worker_def demo_failing_def seq_limit_def)

text \<open>A world with an accepted task, for the examples of the drivers.\<close>

definition demo_accepted :: "mem_state world" where
  "demo_accepted = snd (snd (run (thenp (transition (initial_snapshot 0 demo_task) [Created] Accepted (EvAccepted False))
     (\<lambda>_. Done (Inr ()) :: (core_error + unit) prog)) mem_ops demo_answers [] demo_world))"

lemma demo_accepted_facts:
  "good_store mem_inv mem_view 1 (w_store demo_accepted) \<and>
   (\<exists>snap ev. mem_view (w_store demo_accepted) 7 = Some (snap, [ev]) \<and> snap_state snap = Accepted)"
proof -
  let ?snap = "initial_snapshot 0 demo_task"
  let ?p = "thenp (transition ?snap [Created] Accepted (EvAccepted False)) (\<lambda>_. Done (Inr ()) :: (core_error + unit) prog)"
  have view: "mem_view (w_store demo_world) 7 = Some (?snap, [])" using demo_created_view by (simp add: demo_world_def)
  obtain w' snap' where one: "run ?p mem_ops demo_answers [] demo_world = (Some (Inr ()), [], w')"
    "moved mem_view demo_world w' 7 [] snap' Accepted (EvAccepted False)"
    "core_transition (transition_of ?snap [Created] Accepted (EvAccepted False)) \<longrightarrow>
       good_store mem_inv mem_view (Suc 0) (w_store w')"
    using guarded_store.run_transition_then [OF memg.guarded_store_axioms demo_world_good _ view, of "[Created]" Accepted "EvAccepted False"
        "\<lambda>_. Done (Inr ()) :: (core_error + unit) prog" demo_answers "[]"]
    by (auto simp: seq_limit_def)
  have "core_transition (transition_of ?snap [Created] Accepted (EvAccepted False))"
    by (simp add: core_transition_def transition_of_def)
  with one show ?thesis by (auto simp: demo_accepted_def moved_def)
qed

end
