(* ===== verification/Text_Bytes.thy ===== *)
theory Text_Bytes
  imports Prelude
begin

text \<open>
  The functions of Rust's standard library on bytes and text that the servers and drivers
  call: \<open>str::from_utf8\<close>, \<open>String::from_utf8_lossy\<close>, \<open>str::lines\<close> and
  \<open>u64::from_str\<close>. A \<open>Vec<u8>\<close> is a list of bytes like a \<open>String\<close>, but need not
  be well-formed UTF-8.
\<close>

section \<open>UTF-8\<close>

definition in_range :: "nat \<Rightarrow> nat \<Rightarrow> string \<Rightarrow> bool" where
  "in_range lo hi s = (case s of [] \<Rightarrow> False | c # cs \<Rightarrow> lo \<le> of_char c \<and> of_char c \<le> hi)"

abbreviation cont_byte :: "string \<Rightarrow> bool" where
  "cont_byte \<equiv> in_range 0x80 0xBF"

text \<open>The second byte that a lead byte of three or four bytes admits.\<close>

definition second_ok :: "nat \<Rightarrow> string \<Rightarrow> bool" where
  "second_ok b s =
     (if b = 0xE0 then in_range 0xA0 0xBF s
      else if b = 0xED then in_range 0x80 0x9F s
      else if b = 0xF0 then in_range 0x90 0xBF s
      else if b = 0xF4 then in_range 0x80 0x8F s
      else cont_byte s)"

text \<open>
  The first chunk of a non-empty byte string: whether it is a well-formed character, and
  its length; an ill-formed chunk is the longest prefix that could begin a character.
\<close>

definition utf8_chunk :: "char \<Rightarrow> string \<Rightarrow> bool \<times> nat" where
  "utf8_chunk c s =
     (let b = of_char c in
      if b < (0x80 :: nat) then (True, 1)
      else if 0xC2 \<le> b \<and> b \<le> 0xDF then (if cont_byte s then (True, 2) else (False, 1))
      else if 0xE0 \<le> b \<and> b \<le> 0xEF
      then (if \<not> second_ok b s then (False, 1)
            else if \<not> cont_byte (drop 1 s) then (False, 2) else (True, 3))
      else if 0xF0 \<le> b \<and> b \<le> 0xF4
      then (if \<not> second_ok b s then (False, 1)
            else if \<not> cont_byte (drop 1 s) then (False, 2)
            else if \<not> cont_byte (drop 2 s) then (False, 3) else (True, 4))
      else (False, 1))"

lemma utf8_chunk_pos: "utf8_chunk c s = (ok, n) \<Longrightarrow> 0 < n"
  by (auto simp: utf8_chunk_def Let_def split: if_splits)

function utf8_chunks :: "string \<Rightarrow> (bool \<times> string) list" where
  "utf8_chunks [] = []"
| "utf8_chunks (c # s) =
     (let n = snd (utf8_chunk c s)
      in (fst (utf8_chunk c s), take n (c # s)) # utf8_chunks (drop n (c # s)))"
  by pat_completeness auto
termination
proof (relation "measure length", goal_cases)
  case (2 c s n)
  then have "0 < n" using utf8_chunk_pos [of c s "fst (utf8_chunk c s)"] by simp
  then show ?case by simp
qed simp

declare utf8_chunks.simps(2) [simp del]

definition from_utf8 :: "string \<Rightarrow> string option" where
  "from_utf8 s = (if list_all fst (utf8_chunks s) then Some s else None)"

definition from_utf8_lossy :: "string \<Rightarrow> string" where
  "from_utf8_lossy s =
     concat (map (\<lambda>(ok, x). if ok then x else [CHR 0xEF, CHR 0xBF, CHR 0xBD]) (utf8_chunks s))"

lemma utf8_chunks_concat: "concat (map snd (utf8_chunks s)) = s"
proof (induction s rule: utf8_chunks.induct)
  case (2 c s)
  then show ?case by (simp add: utf8_chunks.simps(2) Let_def)
qed simp

lemma ascii_chunks: "list_all (\<lambda>c. of_char c < (0x80 :: nat)) s \<Longrightarrow> utf8_chunks s = map (\<lambda>c. (True, [c])) s"
  by (induction s) (auto simp: utf8_chunks.simps(2) utf8_chunk_def)

lemma from_utf8_ascii: "list_all (\<lambda>c. of_char c < (0x80 :: nat)) s \<Longrightarrow> from_utf8 s = Some s"
  by (simp add: from_utf8_def ascii_chunks list_all_iff)

text \<open>Decoding with replacement is the identity on well-formed text.\<close>

lemma from_utf8_lossy_id: "from_utf8 s = Some s' \<Longrightarrow> from_utf8_lossy s = s' \<and> s' = s"
proof -
  assume "from_utf8 s = Some s'"
  then have ok: "list_all fst (utf8_chunks s)" "s' = s" by (auto simp: from_utf8_def split: if_splits)
  then have "map (\<lambda>(ok, x). if ok then x else [CHR 0xEF, CHR 0xBF, CHR 0xBD]) (utf8_chunks s) =
      map snd (utf8_chunks s)"
    by (auto simp: list_all_iff)
  then have "from_utf8_lossy s = s" unfolding from_utf8_lossy_def by (simp only: utf8_chunks_concat)
  with ok(2) show ?thesis by simp
qed

section \<open>Lines\<close>

text \<open>\<open>str::lines\<close>: a line ends with a line feed, or a carriage return and a line feed;
  the text after the last line feed is a line only when it is not empty.\<close>

definition strip_cr :: "string \<Rightarrow> string" where
  "strip_cr l = (if l \<noteq> [] \<and> last l = CHR 0x0D then butlast l else l)"

function lines_of :: "string \<Rightarrow> string list" where
  "lines_of s =
     (if s = [] then []
      else case dropWhile (\<lambda>c. c \<noteq> CHR 0x0A) s of
             [] \<Rightarrow> [s]
           | lf # rest \<Rightarrow> strip_cr (takeWhile (\<lambda>c. c \<noteq> CHR 0x0A) s) # lines_of rest)"
  by pat_completeness auto
termination
proof (relation "measure length", goal_cases)
  case (2 s lf rest)
  then have "length (lf # rest) \<le> length s" by (metis length_dropWhile_le)
  then show ?case by simp
qed simp

declare lines_of.simps [simp del]

lemma lines_of_Nil [simp]: "lines_of [] = []"
  by (simp add: lines_of.simps)

lemma lines_of_line:
  "CHR 0x0A \<notin> set l \<Longrightarrow> lines_of (l @ CHR 0x0A # rest) = strip_cr l # lines_of rest"
  using lines_of.simps [of "l @ CHR 0x0A # rest"] by (auto simp: dropWhile_append takeWhile_append)

lemma lines_of_last: "CHR 0x0A \<notin> set l \<Longrightarrow> l \<noteq> [] \<Longrightarrow> lines_of l = [l]"
proof -
  assume l: "CHR 0x0A \<notin> set l" "l \<noteq> []"
  then have "dropWhile (\<lambda>c. c \<noteq> CHR 0x0A) l = []" by (auto simp: dropWhile_eq_Nil_conv)
  then show ?thesis unfolding lines_of.simps [of l] using l(2) by (simp only: if_False list.case)
qed

lemma split_at_lf: "CHR 0x0A \<in> set s \<Longrightarrow> \<exists>l rest. s = l @ CHR 0x0A # rest \<and> CHR 0x0A \<notin> set l"
  by (rule split_list_first)

lemma lines_of_no_lf: "l \<in> set (lines_of s) \<Longrightarrow> CHR 0x0A \<notin> set l"
proof (induction s rule: length_induct)
  case (1 s)
  show ?case
  proof (cases "CHR 0x0A \<in> set s")
    case True
    then obtain k rest where s: "s = k @ CHR 0x0A # rest" "CHR 0x0A \<notin> set k" using split_at_lf by blast
    have "set (strip_cr k) \<subseteq> set k" by (auto simp: strip_cr_def dest: in_set_butlastD)
    with s 1 show ?thesis by (auto simp: lines_of_line)
  next
    case False
    with 1(2) show ?thesis by (cases "s = []") (auto simp: lines_of_last)
  qed
qed

section \<open>Numbers\<close>

text \<open>\<open>u64::from_str\<close>: an optional plus sign, at least one decimal digit, no overflow.\<close>

definition is_digit :: "char \<Rightarrow> bool" where
  "is_digit c \<longleftrightarrow> 48 \<le> (of_char c :: nat) \<and> (of_char c :: nat) \<le> 57"

definition decimal :: "string \<Rightarrow> nat" where
  "decimal s = foldl (\<lambda>a c. 10 * a + (of_char c - 48)) 0 s"

definition parse_u64 :: "string \<Rightarrow> nat option" where
  "parse_u64 s =
     (let d = (case s of c # cs \<Rightarrow> if c = CHR ''+'' then cs else s | [] \<Rightarrow> s) in
      if d \<noteq> [] \<and> list_all is_digit d \<and> decimal d \<le> u64_max then Some (decimal d) else None)"

lemma digit_simps [simp]: "is_digit (digit n)" "(of_char (digit n) :: nat) - 48 = n mod 10"
  by (simp_all add: is_digit_def)

lemma nat_str_acc_append: "nat_str_acc n acc = nat_str_acc n [] @ acc"
proof (induction n arbitrary: acc rule: less_induct)
  case (less n)
  show ?case
  proof (cases "n < 10")
    case True
    then show ?thesis by (simp add: nat_str_acc.simps)
  next
    case False
    then have "n div 10 < n" by simp
    then show ?thesis
      using less [of "n div 10" "digit n # acc"] less [of "n div 10" "[digit n]"] False
      by (simp add: nat_str_acc.simps [of n])
  qed
qed

lemma nat_str_step: "nat_str n = (if n < 10 then [digit n] else nat_str (n div 10) @ [digit n])"
  by (simp add: nat_str_def nat_str_acc.simps [of n] nat_str_acc_append [of _ "[_]"])

lemma nat_str_decimal: "nat_str n \<noteq> [] \<and> list_all is_digit (nat_str n) \<and> decimal (nat_str n) = n"
proof (induction n rule: less_induct)
  case (less n)
  show ?case
  proof (cases "n < 10")
    case True
    then show ?thesis by (simp add: nat_str_step [of n] decimal_def del: digit.simps)
  next
    case False
    then have "n div 10 < n" by simp
    from less [OF this] False show ?thesis
      by (simp add: nat_str_step [of n] decimal_def del: digit.simps)
  qed
qed

lemma parse_u64_print: "n \<le> u64_max \<Longrightarrow> parse_u64 (nat_str n) = Some n"
proof -
  assume n: "n \<le> u64_max"
  have d: "nat_str n \<noteq> []" "list_all is_digit (nat_str n)" "decimal (nat_str n) = n"
    using nat_str_decimal by auto
  obtain c cs where c: "nat_str n = c # cs" using d(1) by (cases "nat_str n") auto
  then have "c \<noteq> CHR ''+''" using d(2) by (auto simp: is_digit_def)
  with c n d show ?thesis by (simp add: parse_u64_def)
qed

end
