(* ===== verification/A2A_Client.thy ===== *)
theory A2A_Client
  imports Worker_Streams Core_Service Text_Bytes
begin

text \<open>
  The crate \<open>driver-a2a-client\<close>: a driver that calls a remote A2A agent over JSON-RPC, in
  one of two dialects (\<open>wire/sdk.rs\<close>, \<open>wire/spec.rs\<close>) that it can find out by a probe
  (\<open>dialect_probe.rs\<close>). HTTP is third-party code: the remote agent is a state machine
  \<open>srv\<close>, an argument, that answers each request with a body or a transport error. The
  printed form of a JSON value (\<open>Value::to_string\<close>) and of a UUID are arguments too.
\<close>

section \<open>Normalized tasks\<close>

datatype normalized_state =
    NsSubmitted | NsWorking | NsInputRequired | NsAuthRequired | NsCompleted | NsFailed | NsCanceled | NsRejected

record normalized_part =
  npt_text :: "string option"
  npt_raw :: "u8 list option"
  npt_uri :: "string option"
  npt_mime_type :: "string option"

definition default_part :: normalized_part where
  "default_part = \<lparr>npt_text = None, npt_raw = None, npt_uri = None, npt_mime_type = None\<rparr>"

definition text_part :: "string \<Rightarrow> normalized_part" where
  "text_part s = default_part\<lparr>npt_text := Some s\<rparr>"

record normalized_task =
  ntk_id :: string
  ntk_context_id :: "string option"
  ntk_state :: normalized_state
  ntk_status_message :: "string option"
  ntk_output_parts :: "normalized_part list"

datatype a2a_operation =
    SendMessage "normalized_part list" "string option" "string option"
  | GetTask string
  | CancelTask string

section \<open>Errors\<close>

datatype a2a_client_error =
    AcHttp string
  | AcProtocolError string
  | AcMethodNotFound string string int string
  | AcContextLost string
  | AcRemoteError int string

abbreviation em_dash :: string where "em_dash \<equiv> [CHR 0xE2, CHR 0x80, CHR 0x94]"
abbreviation both_ways :: string where "both_ways \<equiv> [CHR 0xE2, CHR 0x86, CHR 0x94]"

definition int_str :: "int \<Rightarrow> string" where
  "int_str i = (if i < 0 then ''-'' @ nat_str (nat (- i)) else nat_str (nat i))"

fun display_a2a_error :: "a2a_client_error \<Rightarrow> string" where
  "display_a2a_error (AcHttp msg) = ''A2A transport error: '' @ msg"
| "display_a2a_error (AcProtocolError msg) = ''A2A protocol error: '' @ msg"
| "display_a2a_error (AcMethodNotFound method wire_format code msg) =
     ''Method '' @ [CHR 0x27] @ method @ [CHR 0x27] @ '' not recognized by server (wire_format='' @ wire_format @
     '', server_code='' @ int_str code @ ''). Hint: check that the endpoint'' @ [CHR 0x27] @ ''s wire_format '' @
     ''matches the server'' @ [CHR 0x27] @ ''s expected JSON-RPC dialect (sdk '' @ both_ways @ '' SendMessage/GetTask/ '' @
     ''CancelTask, spec '' @ both_ways @ '' message/send/tasks/get/tasks/cancel). Note: servers may '' @
     ''report this as -32601 (unknown agent path) or as a generic application error '' @
     ''(e.g. -32000) with '' @ [CHR 0x27] @ ''method_not_found:'' @ [CHR 0x27] @ '' in the message '' @ em_dash @
     '' both are treated as the same class of error here. Server said: '' @ msg"
| "display_a2a_error (AcContextLost msg) =
     ''A2A context lost (-32010), likely due to agent restart behind the gateway. Retry with a fresh context_id '' @
     ''(do not reuse task_id). Server said: '' @ msg"
| "display_a2a_error (AcRemoteError code msg) = ''A2A remote error ['' @ int_str code @ '']: '' @ msg"

definition method_not_found_marker :: string where
  "method_not_found_marker = ''method_not_found:''"

definition from_jsonrpc_error :: "int \<Rightarrow> string \<Rightarrow> string \<Rightarrow> string \<Rightarrow> a2a_client_error" where
  "from_jsonrpc_error code message method wire_format =
     (if code = -32601 \<or> contains_str method_not_found_marker message
      then AcMethodNotFound method wire_format code message
      else if code = -32010 then AcContextLost message
      else AcRemoteError code message)"

definition send_error_to_a2a_code :: "a2a_client_error \<Rightarrow> string" where
  "send_error_to_a2a_code e =
     (case e of
        AcProtocolError msg \<Rightarrow>
          if contains_str ''result'' msg \<or> contains_str ''task'' msg then ''a2a_no_task'' else ''a2a_remote_error''
      | _ \<Rightarrow> ''a2a_remote_error'')"

section \<open>The dialects\<close>

text \<open>\<open>Value::pointer\<close>: a token selects a field of an object or an element of an array.\<close>

definition parse_index :: "string \<Rightarrow> nat option" where
  "parse_index s = (if prefix ''+'' s \<or> (prefix ''0'' s \<and> length s \<noteq> 1) then None else parse_u64 s)"

fun jpointer :: "string list \<Rightarrow> json \<Rightarrow> json option" where
  "jpointer [] v = Some v"
| "jpointer (k # ks) (JObject kvs) = Option.bind (map_of kvs k) (jpointer ks)"
| "jpointer (k # ks) (JArray xs) =
     (case parse_index k of Some i \<Rightarrow> if i < length xs then jpointer ks (xs ! i) else None | None \<Rightarrow> None)"
| "jpointer (k # ks) _ = None"

definition jpointer_str :: "string list \<Rightarrow> json \<Rightarrow> string option" where
  "jpointer_str ks v = Option.bind (jpointer ks v) as_str"

definition json_opt_str :: "string option \<Rightarrow> json" where
  "json_opt_str x = (case x of None \<Rightarrow> JNull | Some s \<Rightarrow> JString s)"

definition json_bytes :: "u8 list \<Rightarrow> json" where
  "json_bytes bs = JArray (map (\<lambda>b. JNumber (PosInt (unat b))) bs)"

datatype a2a_wire = SdkWire | SpecWire

fun wire_name :: "a2a_wire \<Rightarrow> string" where
  "wire_name SdkWire = ''sdk''"
| "wire_name SpecWire = ''spec''"

subsection \<open>SDK\<close>

definition part_to_sdk :: "normalized_part \<Rightarrow> json" where
  "part_to_sdk p =
     (case npt_text p of Some text \<Rightarrow> JObject [(''text'', JString text)]
      | None \<Rightarrow>
          (case npt_uri p of
             Some uri \<Rightarrow> JObject [(''url'', JString uri), (''media_type'', json_opt_str (npt_mime_type p))]
           | None \<Rightarrow>
               (case npt_raw p of Some raw \<Rightarrow> JObject [(''raw'', json_bytes raw)]
                | None \<Rightarrow> JObject [(''text'', JString [])])))"

definition sdk_part_to_normalized :: "json \<Rightarrow> normalized_part" where
  "sdk_part_to_normalized p =
     (case jget_str ''text'' p of Some text \<Rightarrow> text_part text
      | None \<Rightarrow>
          (case jget_str ''url'' p of
             Some url \<Rightarrow> \<lparr>npt_text = None, npt_raw = None, npt_uri = Some url,
                         npt_mime_type = jget_str ''media_type'' p\<rparr>
           | None \<Rightarrow> default_part))"

fun sdk_method :: "a2a_operation \<Rightarrow> string" where
  "sdk_method (SendMessage parts cid tid) = ''SendMessage''"
| "sdk_method (GetTask tid) = ''GetTask''"
| "sdk_method (CancelTask tid) = ''CancelTask''"

definition opt_field :: "string \<Rightarrow> string option \<Rightarrow> (string \<times> json) list" where
  "opt_field k x = (case x of None \<Rightarrow> [] | Some s \<Rightarrow> [(k, JString s)])"

fun sdk_params :: "a2a_operation \<Rightarrow> json" where
  "sdk_params (SendMessage parts cid tid) =
     JObject ([(''message'', JObject [(''role'', JString ''ROLE_USER''), (''parts'', JArray (map part_to_sdk parts))])] @
       opt_field ''contextId'' cid @ opt_field ''taskId'' tid)"
| "sdk_params (GetTask tid) = JObject [(''name'', JString (''tasks/'' @ tid))]"
| "sdk_params (CancelTask tid) = JObject [(''name'', JString (''tasks/'' @ tid))]"

definition sdk_state :: "string \<Rightarrow> a2a_client_error + normalized_state" where
  "sdk_state s =
     (case map_of [(''TASK_STATE_SUBMITTED'', NsSubmitted), (''TASK_STATE_WORKING'', NsWorking),
        (''TASK_STATE_INPUT_REQUIRED'', NsInputRequired), (''TASK_STATE_AUTH_REQUIRED'', NsAuthRequired),
        (''TASK_STATE_COMPLETED'', NsCompleted), (''TASK_STATE_FAILED'', NsFailed),
        (''TASK_STATE_CANCELLED'', NsCanceled), (''TASK_STATE_REJECTED'', NsRejected)] s of
        Some st \<Rightarrow> Inr st
      | None \<Rightarrow> Inl (AcProtocolError (''sdk wire: unknown task state '' @ [CHR 0x27] @ s @ [CHR 0x27] @ '' '' @ em_dash @
          '' verify against a2a/src/types.rs TaskState serde before treating this as terminal'')))"

text \<open>The parts of every artifact that has an array of parts, in order.\<close>

definition artifact_parts :: "(json list \<Rightarrow> normalized_part list) \<Rightarrow> json \<Rightarrow> normalized_part list" where
  "artifact_parts decode task =
     (case Option.bind (jget ''artifacts'' task) as_array of
        None \<Rightarrow> []
      | Some artifacts \<Rightarrow>
          concat (map (\<lambda>a. case Option.bind (jget ''parts'' a) as_array of None \<Rightarrow> [] | Some ps \<Rightarrow> decode ps) artifacts))"

definition sdk_parse_task :: "json \<Rightarrow> a2a_client_error + normalized_task" where
  "sdk_parse_task result =
     rbind (ok_or (jget ''task'' result)
              (AcProtocolError (''sdk wire: expected '' @ [CHR 0x27] @ ''result.task'' @ [CHR 0x27] @ '' wrapper, field missing'')))
       (\<lambda>task.
     rbind (ok_or (jget_str ''id'' task) (AcProtocolError ''sdk wire: task.id missing'')) (\<lambda>tid.
     rbind (sdk_state (case jpointer_str [''status'', ''state''] task of Some s \<Rightarrow> s | None \<Rightarrow> ''TASK_STATE_UNSPECIFIED''))
       (\<lambda>state.
     Inr \<lparr>ntk_id = tid, ntk_context_id = jget_str ''contextId'' task, ntk_state = state,
          ntk_status_message =
            map_option (\<lambda>parts. concat (List.map_filter (jget_str ''text'') parts))
              (Option.bind (jpointer [''status'', ''message'', ''parts''] task) as_array),
          ntk_output_parts = artifact_parts (map sdk_part_to_normalized) task\<rparr>)))"

subsection \<open>Spec\<close>

definition part_to_spec :: "normalized_part \<Rightarrow> json" where
  "part_to_spec p =
     (case npt_text p of Some text \<Rightarrow> JObject [(''kind'', JString ''text''), (''text'', JString text)]
      | None \<Rightarrow>
          (case npt_uri p of
             Some uri \<Rightarrow> JObject [(''kind'', JString ''file''),
               (''file'', JObject [(''uri'', JString uri), (''mimeType'', json_opt_str (npt_mime_type p))])]
           | None \<Rightarrow>
               (case npt_raw p of Some raw \<Rightarrow> JObject [(''kind'', JString ''data''), (''data'', json_bytes raw)]
                | None \<Rightarrow> JObject [(''kind'', JString ''text''), (''text'', JString [])])))"

definition spec_part_to_normalized :: "json \<Rightarrow> normalized_part option" where
  "spec_part_to_normalized p =
     (if jget_str ''kind'' p = Some ''text'' then map_option text_part (jget_str ''text'' p)
      else if jget_str ''kind'' p = Some ''file''
      then map_option (\<lambda>uri. \<lparr>npt_text = None, npt_raw = None, npt_uri = Some uri,
               npt_mime_type = jpointer_str [''file'', ''mimeType''] p\<rparr>)
             (jpointer_str [''file'', ''uri''] p)
      else None)"

fun spec_method :: "a2a_operation \<Rightarrow> string" where
  "spec_method (SendMessage parts cid tid) = ''message/send''"
| "spec_method (GetTask tid) = ''tasks/get''"
| "spec_method (CancelTask tid) = ''tasks/cancel''"

fun spec_params :: "a2a_operation \<Rightarrow> json" where
  "spec_params (SendMessage parts cid tid) =
     JObject [(''message'', JObject ([(''role'', JString ''user''), (''parts'', JArray (map part_to_spec parts))] @
       opt_field ''contextId'' cid))]"
| "spec_params (GetTask tid) = JObject [(''id'', JString tid)]"
| "spec_params (CancelTask tid) = JObject [(''id'', JString tid)]"

definition spec_state :: "string \<Rightarrow> a2a_client_error + normalized_state" where
  "spec_state s =
     (case map_of [(''submitted'', NsSubmitted), (''working'', NsWorking), (''input_required'', NsInputRequired),
        (''auth_required'', NsAuthRequired), (''completed'', NsCompleted), (''failed'', NsFailed),
        (''canceled'', NsCanceled), (''rejected'', NsRejected)] s of
        Some st \<Rightarrow> Inr st
      | None \<Rightarrow> Inl (AcProtocolError (''spec wire: unknown task state '' @ [CHR 0x27] @ s @ [CHR 0x27] @ '' '' @ em_dash @
          '' verify against protocol/src/a2a.rs kebab-case state list'')))"

definition spec_parse_task :: "json \<Rightarrow> a2a_client_error + normalized_task" where
  "spec_parse_task result =
     rbind (ok_or (jget_str ''id'' result) (AcProtocolError ''spec wire: task.id missing'')) (\<lambda>tid.
     rbind (spec_state (case jpointer_str [''status'', ''state''] result of Some s \<Rightarrow> s | None \<Rightarrow> ''submitted'')) (\<lambda>state.
     Inr \<lparr>ntk_id = tid, ntk_context_id = jget_str ''context_id'' result, ntk_state = state,
          ntk_status_message = jpointer_str [''status'', ''message'', ''parts'', ''0'', ''text''] result,
          ntk_output_parts = artifact_parts (List.map_filter spec_part_to_normalized) result\<rparr>))"

fun jsonrpc_method :: "a2a_wire \<Rightarrow> a2a_operation \<Rightarrow> string" where
  "jsonrpc_method SdkWire op = sdk_method op"
| "jsonrpc_method SpecWire op = spec_method op"

fun build_params :: "a2a_wire \<Rightarrow> a2a_operation \<Rightarrow> json" where
  "build_params SdkWire op = sdk_params op"
| "build_params SpecWire op = spec_params op"

fun parse_task :: "a2a_wire \<Rightarrow> json \<Rightarrow> a2a_client_error + normalized_task" where
  "parse_task SdkWire result = sdk_parse_task result"
| "parse_task SpecWire result = spec_parse_task result"

section \<open>Requests\<close>

datatype a2a_wire_format = WfSdk | WfSpec | WfAuto

record a2a_client_config =
  acc_endpoint :: string
  acc_token :: "string option"
  acc_wire_format :: a2a_wire_format
  acc_timeout_secs :: nat
  acc_agent_card_url :: "string option"

definition a2a_client_config_default :: a2a_client_config where
  "a2a_client_config_default =
     \<lparr>acc_endpoint = [], acc_token = None, acc_wire_format = WfSdk, acc_timeout_secs = 30, acc_agent_card_url = None\<rparr>"

record a2a_http_request =
  ahr_endpoint :: string
  ahr_bearer :: "string option"
  ahr_payload :: json

type_synonym 's a2a_remote = "'s \<Rightarrow> a2a_http_request \<Rightarrow> (string + json) \<times> 's"

definition a2a_payload :: "string \<Rightarrow> json \<Rightarrow> json" where
  "a2a_payload method params =
     JObject [(''jsonrpc'', JString ''2.0''), (''id'', JNumber (PosInt 1)), (''method'', JString method),
       (''params'', params)]"

definition a2a_post ::
  "a2a_client_config \<Rightarrow> 's a2a_remote \<Rightarrow> a2a_wire \<Rightarrow> a2a_operation \<Rightarrow> 's \<Rightarrow> (a2a_client_error + json) \<times> 's" where
  "a2a_post cfg srv wire op s =
     (case srv s \<lparr>ahr_endpoint = acc_endpoint cfg, ahr_bearer = acc_token cfg,
                 ahr_payload = a2a_payload (jsonrpc_method wire op) (build_params wire op)\<rparr> of
        (reply, s') \<Rightarrow> (map_err AcHttp reply, s'))"

text \<open>The members of a JSON-RPC error, with the defaults the caller gives.\<close>

definition error_code :: "json \<Rightarrow> int" where
  "error_code err = (case Option.bind (jget ''code'' err) as_i64 of Some c \<Rightarrow> c | None \<Rightarrow> -32000)"

definition error_message :: "string \<Rightarrow> json \<Rightarrow> string" where
  "error_message dflt err = (case jget_str ''message'' err of Some m \<Rightarrow> m | None \<Rightarrow> dflt)"

subsection \<open>The probe\<close>

text \<open>
  \<open>to_lowercase\<close>, as far as the search for an ASCII phrase without \<open>i\<close> and \<open>k\<close> can
  tell: no other character than an ASCII capital has a lower case with one of its letters.
\<close>

definition ascii_lower :: "string \<Rightarrow> string" where
  "ascii_lower s =
     map (\<lambda>c. if 65 \<le> (of_char c :: nat) \<and> (of_char c :: nat) \<le> 90 then char_of (of_char c + 32 :: nat) else c) s"

definition looks_like_method_not_found :: "int \<Rightarrow> string \<Rightarrow> bool" where
  "looks_like_method_not_found code message =
     (if code = -32601 then True
      else contains_str ''method not found''
             (map (\<lambda>c. if c = CHR ''_'' then CHR '' '' else c) (ascii_lower message)))"

definition probe_recognizes ::
  "a2a_client_config \<Rightarrow> 's a2a_remote \<Rightarrow> a2a_wire \<Rightarrow> a2a_operation \<Rightarrow> 's \<Rightarrow> (a2a_client_error + bool) \<times> 's" where
  "probe_recognizes cfg srv wire op s =
     (case a2a_post cfg srv wire op s of
        (Inl e, s') \<Rightarrow> (Inl e, s')
      | (Inr body, s') \<Rightarrow>
          (Inr (case jget ''error'' body of
                  Some err \<Rightarrow> \<not> looks_like_method_not_found (error_code err) (error_message [] err)
                | None \<Rightarrow> True), s'))"

definition detect_from_agent_card :: "string \<Rightarrow> a2a_wire option" where
  "detect_from_agent_card agent_card_url = None"

definition probe_wire_format ::
  "a2a_client_config \<Rightarrow> 's a2a_remote \<Rightarrow> string \<Rightarrow> 's \<Rightarrow> (a2a_client_error + a2a_wire) \<times> 's" where
  "probe_wire_format cfg srv probe_id s =
     (case probe_recognizes cfg srv SdkWire (GetTask probe_id) s of
        (Inl e, s') \<Rightarrow> (Inl e, s')
      | (Inr True, s') \<Rightarrow> (Inr SdkWire, s')
      | (Inr False, s') \<Rightarrow>
          (case probe_recognizes cfg srv SpecWire (GetTask probe_id) s' of
             (Inl e, s2) \<Rightarrow> (Inl e, s2)
           | (Inr True, s2) \<Rightarrow> (Inr SpecWire, s2)
           | (Inr False, s2) \<Rightarrow>
               (Inl (AcProtocolError (''dialect probe: endpoint did not recognize SDK or Spec GetTask/tasks-get '' @
                  em_dash @ '' cannot auto-detect wire_format, specify it explicitly in config'')), s2)))"

subsection \<open>Calls\<close>

text \<open>The client: the configuration, the wire it fixes, and the cache of the probe
  (\<open>OnceCell\<close>).\<close>

record a2a_client =
  acl_config :: a2a_client_config
  acl_wire :: "a2a_wire option"
  acl_cache :: "a2a_wire option"

definition a2a_client_new :: "a2a_client_config \<Rightarrow> string + unit \<Rightarrow> a2a_client_error + a2a_client" where
  "a2a_client_new cfg built =
     (case built of
        Inl e \<Rightarrow> Inl (AcHttp e)
      | Inr _ \<Rightarrow>
          Inr \<lparr>acl_config = cfg,
            acl_wire = (case acc_wire_format cfg of WfSdk \<Rightarrow> Some SdkWire | WfSpec \<Rightarrow> Some SpecWire | WfAuto \<Rightarrow> None),
            acl_cache = None\<rparr>)"

definition resolve_auto_wire ::
  "'s a2a_remote \<Rightarrow> string \<Rightarrow> a2a_client \<Rightarrow> 's \<Rightarrow> (a2a_client_error + a2a_wire) \<times> 's" where
  "resolve_auto_wire srv probe_id d s =
     (case Option.bind (acc_agent_card_url (acl_config d)) detect_from_agent_card of
        Some wire \<Rightarrow> (Inr wire, s)
      | None \<Rightarrow> probe_wire_format (acl_config d) srv probe_id s)"

definition resolved_wire ::
  "'s a2a_remote \<Rightarrow> string \<Rightarrow> a2a_client \<Rightarrow> 's \<Rightarrow> ((a2a_client_error + a2a_wire) \<times> a2a_client) \<times> 's" where
  "resolved_wire srv probe_id d s =
     (case acl_wire d of
        Some w \<Rightarrow> ((Inr w, d), s)
      | None \<Rightarrow>
          (case acl_cache d of
             Some w \<Rightarrow> ((Inr w, d), s)
           | None \<Rightarrow>
               (case resolve_auto_wire srv probe_id d s of
                  (Inl e, s') \<Rightarrow> ((Inl e, d), s')
                | (Inr w, s') \<Rightarrow> ((Inr w, d\<lparr>acl_cache := Some w\<rparr>), s'))))"

text \<open>The body of a reply: an error, a missing result, or a task. \<open>note\<close> is what the
  text of a missing result ends with.\<close>

definition read_reply :: "a2a_wire \<Rightarrow> a2a_operation \<Rightarrow> string \<Rightarrow> json \<Rightarrow> a2a_client_error + normalized_task" where
  "read_reply wire op note body =
     (case jget ''error'' body of
        Some err \<Rightarrow>
          Inl (from_jsonrpc_error (error_code err) (error_message ''unknown error'' err) (jsonrpc_method wire op)
                 (wire_name wire))
      | None \<Rightarrow>
          rbind (ok_or (jget ''result'' body)
              (AcProtocolError (''missing '' @ [CHR 0x27] @ ''result'' @ [CHR 0x27] @ '' in JSON-RPC response'' @ note)))
            (parse_task wire))"

fun is_method_not_found :: "a2a_client_error + 'a \<Rightarrow> bool" where
  "is_method_not_found (Inl (AcMethodNotFound m w c msg)) = True"
| "is_method_not_found _ = False"

definition execute_retry ::
  "'s a2a_remote \<Rightarrow> string \<Rightarrow> a2a_operation \<Rightarrow> a2a_client \<Rightarrow> 's \<Rightarrow> (a2a_client_error + normalized_task) \<times> 's" where
  "execute_retry srv probe_id op d s =
     (case resolve_auto_wire srv probe_id d s of
        (Inl e, s') \<Rightarrow> (Inl e, s')
      | (Inr wire, s') \<Rightarrow>
          (case a2a_post (acl_config d) srv wire op s' of
             (Inl e, s2) \<Rightarrow> (Inl e, s2)
           | (Inr body, s2) \<Rightarrow> (read_reply wire op '' (retry)'' body, s2)))"

definition a2a_execute ::
  "'s a2a_remote \<Rightarrow> string \<Rightarrow> string \<Rightarrow> a2a_operation \<Rightarrow> a2a_client \<Rightarrow> 's \<Rightarrow>
     ((a2a_client_error + normalized_task) \<times> a2a_client) \<times> 's" where
  "a2a_execute srv id1 id2 op d s =
     (case resolved_wire srv id1 d s of
        ((Inl e, d'), s') \<Rightarrow> ((Inl e, d'), s')
      | ((Inr wire, d'), s') \<Rightarrow>
          (case a2a_post (acl_config d) srv wire op s' of
             (Inl e, s2) \<Rightarrow> ((Inl e, d'), s2)
           | (Inr body, s2) \<Rightarrow>
               (let first = read_reply wire op [] body in
                if acl_wire d = None \<and> jget ''error'' body \<noteq> None \<and> is_method_not_found first
                then (case execute_retry srv id2 op d' s2 of (r, s3) \<Rightarrow> ((r, d'), s3))
                else ((first, d'), s2))))"

section \<open>Events\<close>

definition core_part_to_normalized :: "(json \<Rightarrow> string) \<Rightarrow> part \<Rightarrow> normalized_part" where
  "core_part_to_normalized json_str p =
     (case p of
        PText text \<Rightarrow> text_part text
      | PJson v \<Rightarrow> text_part (json_str v)
      | PFileRef uri mime \<Rightarrow> \<lparr>npt_text = None, npt_raw = None, npt_uri = Some uri, npt_mime_type = mime\<rparr>)"

definition core_parts_to_normalized :: "(json \<Rightarrow> string) \<Rightarrow> part list \<Rightarrow> normalized_part list" where
  "core_parts_to_normalized json_str parts = map (core_part_to_normalized json_str) parts"

definition normalized_to_part :: "normalized_part \<Rightarrow> part" where
  "normalized_to_part p =
     (case npt_text p of Some text \<Rightarrow> PText text
      | None \<Rightarrow> (case npt_uri p of Some uri \<Rightarrow> PFileRef uri (npt_mime_type p) | None \<Rightarrow> PText []))"

definition unwrap_or :: "'a \<Rightarrow> 'a option \<Rightarrow> 'a" where
  "unwrap_or dflt x = (case x of None \<Rightarrow> dflt | Some a \<Rightarrow> a)"

definition task_to_terminal :: "normalized_task \<Rightarrow> driver_event" where
  "task_to_terminal task =
     (case ntk_state task of
        NsCompleted \<Rightarrow> DvCompleted (map normalized_to_part (ntk_output_parts task))
      | NsFailed \<Rightarrow> DvFailed \<lparr>pe_code = ''a2a_remote_error'',
          pe_message = unwrap_or ''A2A task failed'' (ntk_status_message task), pe_retryable = False\<rparr>
      | NsRejected \<Rightarrow> DvFailed \<lparr>pe_code = ''a2a_remote_error'',
          pe_message = unwrap_or ''A2A task failed'' (ntk_status_message task), pe_retryable = False\<rparr>
      | NsCanceled \<Rightarrow> DvCancelled
      | NsInputRequired \<Rightarrow> DvInputRequired
          \<lparr>ir_question = unwrap_or ''input required'' (ntk_status_message task), ir_schema = None\<rparr>
      | NsAuthRequired \<Rightarrow> DvInputRequired
          \<lparr>ir_question = unwrap_or ''input required'' (ntk_status_message task), ir_schema = None\<rparr>
      | _ \<Rightarrow> DvProgress (unwrap_or [] (ntk_status_message task)) None)"

fun ns_terminal :: "normalized_state \<Rightarrow> bool" where
  "ns_terminal NsCompleted = True"
| "ns_terminal NsFailed = True"
| "ns_terminal NsCanceled = True"
| "ns_terminal NsRejected = True"
| "ns_terminal _ = False"

text \<open>What the spawned task sends when the call returns.\<close>

definition send_outcome_event :: "a2a_client_error + normalized_task \<Rightarrow> driver_event" where
  "send_outcome_event r =
     (case r of
        Inl e \<Rightarrow> DvFailed \<lparr>pe_code = send_error_to_a2a_code e, pe_message = display_a2a_error e, pe_retryable = False\<rparr>
      | Inr task \<Rightarrow> task_to_terminal task)"

text \<open>The channel of an invocation: an acceptance, the outcome of the one call, and the end.\<close>

definition a2a_invoke_stream :: "a2a_client_error + normalized_task \<Rightarrow> core_error + driver_stream" where
  "a2a_invoke_stream r = Inr (DriverStream [DvAccepted, send_outcome_event r] True)"

section \<open>The driver\<close>

text \<open>
  The shared tables of the driver (\<open>remote_task_ids\<close>, \<open>cancellation_tokens\<close>) and its
  invocations. The token of an invocation is its index; \<open>ads_cancelled\<close> holds the tokens
  that have been cancelled, \<open>ads_cancels\<close> the calls of \<open>cancel\<close> that wait for the remote
  agent. An invocation is in its \<open>select!\<close>, has sent its outcome and
  is about to clear its entries (of the remote ids, of the tokens), or is over.
\<close>

datatype flight = InCall | Clearing bool bool | Over

record a2a_driver =
  ads_remote :: "task_id \<Rightarrow> string option"
  ads_tokens :: "task_id \<Rightarrow> nat option"
  ads_cancelled :: "nat list"
  ads_flights :: "(task_id \<times> flight) list"
  ads_sent :: "(nat \<times> driver_event) list"
  ads_cancels :: "task_id list"

definition a2a_driver_new :: a2a_driver where
  "a2a_driver_new = \<lparr>ads_remote = (\<lambda>_. None), ads_tokens = (\<lambda>_. None), ads_cancelled = [], ads_flights = [],
     ads_sent = [], ads_cancels = []\<rparr>"

definition no_active_task :: "uuid_format \<Rightarrow> task_id \<Rightarrow> core_error" where
  "no_active_task uf t = DriverError (''no active A2A task for core task_id='' @ uf_print uf t)"

definition a2a_invoke :: "task_id \<Rightarrow> a2a_driver \<Rightarrow> a2a_driver" where
  "a2a_invoke t d =
     (let k = length (ads_flights d) in
      d\<lparr>ads_tokens := (ads_tokens d)(t \<mapsto> k), ads_flights := ads_flights d @ [(t, InCall)],
        ads_sent := ads_sent d @ [(k, DvAccepted)]\<rparr>)"

text \<open>The first branch of the \<open>select!\<close>: the call has returned.\<close>

definition a2a_returned :: "nat \<Rightarrow> a2a_client_error + normalized_task \<Rightarrow> a2a_driver \<Rightarrow> a2a_driver" where
  "a2a_returned k r d =
     (let t = fst (ads_flights d ! k);
          d' = d\<lparr>ads_sent := ads_sent d @ [(k, send_outcome_event r)]\<rparr> in
      case r of
        Inr task \<Rightarrow>
          d'\<lparr>ads_remote := (ads_remote d)(t \<mapsto> ntk_id task),
             ads_flights := (ads_flights d)[k := (t, Clearing (ns_terminal (ntk_state task)) (ns_terminal (ntk_state task)))]\<rparr>
      | Inl e \<Rightarrow> d'\<lparr>ads_flights := (ads_flights d)[k := (t, Clearing False True)]\<rparr>)"

text \<open>The second branch: the token was cancelled.\<close>

definition a2a_interrupted :: "nat \<Rightarrow> a2a_driver \<Rightarrow> a2a_driver" where
  "a2a_interrupted k d =
     d\<lparr>ads_sent := ads_sent d @ [(k, DvCancelled)],
       ads_flights := (ads_flights d)[k := (fst (ads_flights d ! k), Clearing True True)]\<rparr>"

definition a2a_clear :: "nat \<Rightarrow> bool \<Rightarrow> bool \<Rightarrow> a2a_driver \<Rightarrow> a2a_driver" where
  "a2a_clear k rem tok d =
     (let t = fst (ads_flights d ! k) in
      d\<lparr>ads_remote := (if rem then (ads_remote d)(t := None) else ads_remote d),
        ads_tokens := (if tok then (ads_tokens d)(t := None) else ads_tokens d),
        ads_flights := (ads_flights d)[k := (t, Over)]\<rparr>)"

text \<open>\<open>cancel\<close> up to its request, and what follows the answer.\<close>

definition a2a_cancel_begin :: "uuid_format \<Rightarrow> task_id \<Rightarrow> a2a_driver \<Rightarrow> (core_error + string) \<times> a2a_driver" where
  "a2a_cancel_begin uf t d =
     (case ads_remote d t of
        None \<Rightarrow> (Inl (no_active_task uf t), d)
      | Some remote_id \<Rightarrow>
          (Inr remote_id,
           (case ads_tokens d t of None \<Rightarrow> d | Some k \<Rightarrow> d\<lparr>ads_cancelled := ads_cancelled d @ [k]\<rparr>)
             \<lparr>ads_cancels := ads_cancels d @ [t]\<rparr>))"

definition a2a_cancel_end :: "task_id \<Rightarrow> a2a_client_error + normalized_task \<Rightarrow> a2a_driver \<Rightarrow> (core_error + unit) \<times> a2a_driver" where
  "a2a_cancel_end t r d =
     (case r of Inl e \<Rightarrow> Inl (DriverError (display_a2a_error e)) | Inr _ \<Rightarrow> Inr (),
      d\<lparr>ads_remote := (ads_remote d)(t := None), ads_tokens := (ads_tokens d)(t := None),
        ads_cancels := remove1 t (ads_cancels d)\<rparr>)"

text \<open>\<open>provide_input\<close>, and the health check, which sends an empty message.\<close>

definition a2a_provide_input ::
  "'s a2a_remote \<Rightarrow> uuid_format \<Rightarrow> (json \<Rightarrow> string) \<Rightarrow> string \<Rightarrow> string \<Rightarrow> task_id \<Rightarrow> part list \<Rightarrow> a2a_driver \<Rightarrow>
     a2a_client \<Rightarrow> 's \<Rightarrow> ((core_error + unit) \<times> a2a_client) \<times> 's" where
  "a2a_provide_input srv uf json_str id1 id2 t input d c s =
     (case ads_remote d t of
        None \<Rightarrow> ((Inl (no_active_task uf t), c), s)
      | Some remote_id \<Rightarrow>
          (case a2a_execute srv id1 id2 (SendMessage (core_parts_to_normalized json_str input) None (Some remote_id)) c s of
             ((Inl e, c'), s') \<Rightarrow> ((Inl (DriverError (''A2A provide_input failed: '' @ display_a2a_error e)), c'), s')
           | ((Inr _, c'), s') \<Rightarrow> ((Inr (), c'), s')))"

definition a2a_health ::
  "'s a2a_remote \<Rightarrow> string \<Rightarrow> string \<Rightarrow> a2a_client \<Rightarrow> 's \<Rightarrow> ((core_error + unit) \<times> a2a_client) \<times> 's" where
  "a2a_health srv id1 id2 c s =
     (case a2a_execute srv id1 id2 (SendMessage [text_part []] None None) c s of
        ((Inl e, c'), s') \<Rightarrow> ((Inl (DriverError (''A2A health check failed: '' @ display_a2a_error e)), c'), s')
      | ((Inr _, c'), s') \<Rightarrow> ((Inr (), c'), s'))"

text \<open>The call of an invocation, made by a clone of the client: what the probe finds is kept
  in the clone and dropped with it.\<close>

definition a2a_invoke_call ::
  "'s a2a_remote \<Rightarrow> uuid_format \<Rightarrow> (json \<Rightarrow> string) \<Rightarrow> string \<Rightarrow> string \<Rightarrow> invoke_request \<Rightarrow> a2a_client \<Rightarrow> 's \<Rightarrow>
     ((a2a_client_error + normalized_task) \<times> a2a_client) \<times> 's" where
  "a2a_invoke_call srv uf json_str id1 id2 request c s =
     (case a2a_execute srv id1 id2 (SendMessage (core_parts_to_normalized json_str (rq_input request))
              (map_option (uf_print uf) (rq_session_id request)) None) c s of
        ((r, clone), s') \<Rightarrow> ((r, c), s'))"

section \<open>Interleavings\<close>

datatype a2a_label =
    LInvoke task_id
  | LReturned nat "a2a_client_error + normalized_task"
  | LInterrupted nat
  | LClear nat
  | LCancel task_id
  | LCancelled task_id "a2a_client_error + normalized_task"

fun a2a_step :: "uuid_format \<Rightarrow> a2a_label \<Rightarrow> a2a_driver \<Rightarrow> a2a_driver option" where
  "a2a_step uf (LInvoke t) d = Some (a2a_invoke t d)"
| "a2a_step uf (LReturned k r) d =
     (if k < length (ads_flights d) \<and> snd (ads_flights d ! k) = InCall then Some (a2a_returned k r d) else None)"
| "a2a_step uf (LInterrupted k) d =
     (if k < length (ads_flights d) \<and> snd (ads_flights d ! k) = InCall \<and> k \<in> set (ads_cancelled d)
      then Some (a2a_interrupted k d) else None)"
| "a2a_step uf (LClear k) d =
     (if k < length (ads_flights d)
      then (case snd (ads_flights d ! k) of Clearing rem tok \<Rightarrow> Some (a2a_clear k rem tok d) | _ \<Rightarrow> None)
      else None)"
| "a2a_step uf (LCancel t) d = Some (snd (a2a_cancel_begin uf t d))"
| "a2a_step uf (LCancelled t r) d =
     (if t \<in> set (ads_cancels d) then Some (snd (a2a_cancel_end t r d)) else None)"

fun a2a_run :: "uuid_format \<Rightarrow> a2a_label list \<Rightarrow> a2a_driver \<Rightarrow> a2a_driver option" where
  "a2a_run uf [] d = Some d"
| "a2a_run uf (l # ls) d = Option.bind (a2a_step uf l d) (a2a_run uf ls)"

fun invoked :: "a2a_label \<Rightarrow> task_id list" where
  "invoked (LInvoke t) = [t]"
| "invoked _ = []"

text \<open>No invocation in its call has a remote id or a cancelled token.\<close>

definition a2a_inv :: "a2a_driver \<Rightarrow> bool" where
  "a2a_inv d \<longleftrightarrow>
     (\<forall>k < length (ads_flights d). snd (ads_flights d ! k) = InCall \<longrightarrow>
        ads_remote d (fst (ads_flights d ! k)) = None \<and> k \<notin> set (ads_cancelled d)) \<and>
     (\<forall>t k. ads_tokens d t = Some k \<longrightarrow> k < length (ads_flights d) \<and> fst (ads_flights d ! k) = t) \<and>
     (\<forall>t. ads_remote d t \<noteq> None \<longrightarrow> t \<in> fst ` set (ads_flights d)) \<and>
     (\<forall>k\<in>set (ads_cancelled d). k < length (ads_flights d))"

definition flight_tasks :: "a2a_driver \<Rightarrow> task_id list" where
  "flight_tasks d = map fst (ads_flights d)"

lemma map_fst_update [simp]: "(map fst xs)[k := fst (xs ! k)] = map fst xs"
  by (cases "k < length xs") (auto intro: nth_equalityI simp: nth_list_update)

lemma flight_tasks_step: "a2a_step uf l d = Some d' \<Longrightarrow> flight_tasks d' = flight_tasks d @ invoked l"
  by (cases l)
    (auto simp: flight_tasks_def a2a_invoke_def a2a_returned_def a2a_interrupted_def a2a_clear_def Let_def
      a2a_cancel_begin_def a2a_cancel_end_def map_update
      split: if_splits sum.splits flight.splits option.splits)

lemma flight_task_unique:
  "distinct (flight_tasks d) \<Longrightarrow> i < length (ads_flights d) \<Longrightarrow> j < length (ads_flights d) \<Longrightarrow>
     fst (ads_flights d ! i) = fst (ads_flights d ! j) \<Longrightarrow> i = j"
  by (simp add: flight_tasks_def distinct_conv_nth) metis

lemma a2a_inv_flight:
  assumes "a2a_inv d" "k < length (ads_flights d)" "f \<noteq> InCall"
    and "ads_flights d' = (ads_flights d)[k := (fst (ads_flights d ! k), f)]" "ads_cancelled d' = ads_cancelled d"
    and "\<And>t. ads_tokens d' t = ads_tokens d t \<or> ads_tokens d' t = None"
    and "\<And>t. t \<noteq> fst (ads_flights d ! k) \<Longrightarrow> ads_remote d' t = ads_remote d t \<or> ads_remote d' t = None"
    and "distinct (flight_tasks d)"
  shows "a2a_inv d'"
proof -
  let ?t = "fst (ads_flights d ! k)"
  have fst_eq: "fst (ads_flights d' ! j) = fst (ads_flights d ! j)" if "j < length (ads_flights d)" for j
    using that assms(4) by (cases "j = k") simp_all
  have "ads_remote d' (fst (ads_flights d' ! j)) = None \<and> j \<notin> set (ads_cancelled d')"
    if j: "j < length (ads_flights d')" "snd (ads_flights d' ! j) = InCall" for j
  proof -
    have jd: "j < length (ads_flights d)" using j(1) assms(4) by simp
    have "j \<noteq> k" using j(2) assms(2-4) by (auto simp: nth_list_update)
    then have "snd (ads_flights d ! j) = InCall" using j(2) assms(4) by simp
    then have old: "ads_remote d (fst (ads_flights d ! j)) = None" "j \<notin> set (ads_cancelled d)"
      using assms(1) jd by (auto simp: a2a_inv_def)
    have "fst (ads_flights d ! j) \<noteq> ?t"
      using flight_task_unique [OF assms(8) jd assms(2)] \<open>j \<noteq> k\<close> by blast
    with old assms(5,7) fst_eq [OF jd] show ?thesis by metis
  qed
  moreover have "j < length (ads_flights d') \<and> fst (ads_flights d' ! j) = t" if "ads_tokens d' t = Some j" for t j
  proof -
    have "ads_tokens d t = Some j" using that assms(6) [of t] by auto
    then have "j < length (ads_flights d)" "fst (ads_flights d ! j) = t" using assms(1) by (auto simp: a2a_inv_def)
    with fst_eq assms(4) show ?thesis by simp
  qed
  moreover have "t \<in> fst ` set (ads_flights d')" if "ads_remote d' t \<noteq> None" for t
  proof -
    have "t \<in> fst ` set (ads_flights d)"
    proof (cases "t = ?t")
      case True
      with assms(2) show ?thesis by simp
    next
      case False
      then have "ads_remote d t \<noteq> None" using that assms(7) [of t] by auto
      with assms(1) show ?thesis by (simp add: a2a_inv_def)
    qed
    moreover have "map fst (ads_flights d') = map fst (ads_flights d)" using assms(4) by (simp add: map_update)
    ultimately show ?thesis by (metis list.set_map)
  qed
  moreover have "k < length (ads_flights d')" if "k \<in> set (ads_cancelled d')" for k
    using that assms(1,4,5) by (simp add: a2a_inv_def)
  ultimately show ?thesis unfolding a2a_inv_def by blast
qed

lemma a2a_inv_step:
  assumes "a2a_inv d" "distinct (flight_tasks d @ invoked l)" "a2a_step uf l d = Some d'"
  shows "a2a_inv d'"
proof (cases l)
  case (LInvoke t)
  with assms have d': "d' = a2a_invoke t d" and fresh: "t \<notin> fst ` set (ads_flights d)"
    by (auto simp: flight_tasks_def)
  have "ads_remote d t = None" using assms(1) fresh by (auto simp: a2a_inv_def)
  with assms(1) show ?thesis
    unfolding d' a2a_inv_def a2a_invoke_def Let_def by (auto simp: nth_append less_Suc_eq)
next
  case (LReturned k r)
  with assms show ?thesis
    by (intro a2a_inv_flight [OF assms(1), of k "snd (ads_flights d' ! k)"])
      (auto simp: a2a_returned_def Let_def split: if_splits sum.splits)
next
  case (LInterrupted k)
  with assms show ?thesis
    by (intro a2a_inv_flight [OF assms(1), of k "Clearing True True"])
      (auto simp: a2a_interrupted_def split: if_splits)
next
  case (LClear k)
  with assms show ?thesis
    by (intro a2a_inv_flight [OF assms(1), of k Over])
      (auto simp: a2a_clear_def Let_def split: if_splits flight.splits)
next
  case (LCancel t)
  with assms have d': "d' = snd (a2a_cancel_begin uf t d)" by simp
  have "snd (ads_flights d ! k) \<noteq> InCall" if "ads_tokens d t = Some k" "ads_remote d t \<noteq> None" for k
    using assms(1) that unfolding a2a_inv_def by metis
  then show ?thesis
    using assms(1) unfolding d' a2a_inv_def a2a_cancel_begin_def by (auto split: option.splits)
next
  case (LCancelled t r)
  with assms have "d' = snd (a2a_cancel_end t r d)" by (simp split: if_splits)
  then show ?thesis using assms(1) by (auto simp: a2a_inv_def a2a_cancel_end_def)
qed

lemma a2a_inv_run:
  "a2a_run uf ls d = Some d' \<Longrightarrow> a2a_inv d \<Longrightarrow> distinct (flight_tasks d @ concat (map invoked ls)) \<Longrightarrow> a2a_inv d'"
proof (induction ls arbitrary: d)
  case (Cons l ls)
  then obtain d1 where d1: "a2a_step uf l d = Some d1" "a2a_run uf ls d1 = Some d'"
    by (auto simp: bind_eq_Some_conv)
  have "distinct (flight_tasks d1 @ concat (map invoked ls))"
    using Cons.prems(3) flight_tasks_step [OF d1(1)] by simp
  moreover have "a2a_inv d1" using Cons.prems by (intro a2a_inv_step [OF _ _ d1(1)]) auto
  ultimately show ?case using Cons.IH d1(2) by blast
qed simp

section \<open>Cancellation\<close>

text \<open>
  A call to the remote agent cannot be cancelled. Over all interleavings of
  invocations, answers and cancellations in which no task is invoked twice: while the call
  of a task is under way, \<open>cancel\<close> is refused and changes nothing, since the remote id it
  asks for is only known when the call has returned; so no token is ever cancelled in time,
  and the branch of the \<open>select!\<close> that would report a local cancellation cannot run.
\<close>

theorem a2a_call_not_cancellable:
  assumes "a2a_run uf ls a2a_driver_new = Some d" "distinct (concat (map invoked ls))"
    and "k < length (ads_flights d)" "ads_flights d ! k = (t, InCall)"
  shows "a2a_cancel_begin uf t d = (Inl (no_active_task uf t), d) \<and> a2a_step uf (LInterrupted k) d = None"
proof -
  have "a2a_inv a2a_driver_new" by (simp add: a2a_inv_def a2a_driver_new_def)
  then have "a2a_inv d"
    using a2a_inv_run [OF assms(1)] assms(2) by (simp add: flight_tasks_def a2a_driver_new_def)
  then have "ads_remote d t = None" "k \<notin> set (ads_cancelled d)"
    using assms(3,4) unfolding a2a_inv_def by (metis fst_conv snd_conv)+
  then show ?thesis by (simp add: a2a_cancel_begin_def)
qed

theorem a2a_call_not_cancellable_witness:
  "a2a_cancel_begin hyphenated 7 (a2a_invoke 7 a2a_driver_new) =
     (Inl (no_active_task hyphenated 7), a2a_invoke 7 a2a_driver_new) \<and>
   a2a_step hyphenated (LInterrupted 0) (a2a_invoke 7 a2a_driver_new) = None"
  by (rule a2a_call_not_cancellable [of hyphenated "[LInvoke 7]"])
    (simp_all add: a2a_invoke_def a2a_driver_new_def Let_def)

section \<open>What becomes of a task\<close>

text \<open>The events a task of the core ends with, by the answer of the remote agent.\<close>

definition a2a_outcome :: "(uuid \<Rightarrow> string) \<Rightarrow> a2a_client_error + normalized_task \<Rightarrow> core_event_kind list" where
  "a2a_outcome us r =
     (case r of
        Inl e \<Rightarrow> [runtime_failure us (DriverError (display_a2a_error e))]
      | Inr task \<Rightarrow>
          (case ntk_state task of
             NsCompleted \<Rightarrow> [EvCompleted (map normalized_to_part (ntk_output_parts task))]
           | NsCanceled \<Rightarrow> [EvCancelled]
           | NsInputRequired \<Rightarrow>
               [EvInputRequired \<lparr>ir_question = unwrap_or ''input required'' (ntk_status_message task), ir_schema = None\<rparr>,
                runtime_failure us closed_early]
           | NsAuthRequired \<Rightarrow>
               [EvInputRequired \<lparr>ir_question = unwrap_or ''input required'' (ntk_status_message task), ir_schema = None\<rparr>,
                runtime_failure us closed_early]
           | NsSubmitted \<Rightarrow> [EvProgress (unwrap_or [] (ntk_status_message task)) None, runtime_failure us closed_early]
           | NsWorking \<Rightarrow> [EvProgress (unwrap_or [] (ntk_status_message task)) None, runtime_failure us closed_early]
           | _ \<Rightarrow> [runtime_failure us (DriverError (unwrap_or ''A2A task failed'' (ntk_status_message task)))]))"

lemma a2a_stream_log:
  "stream_log us msg Accepted [DvAccepted, send_outcome_event r] = a2a_outcome us r"
proof (cases r)
  case (Inr task)
  then show ?thesis
    by (cases "ntk_state task")
      (simp_all add: send_outcome_event_def task_to_terminal_def a2a_outcome_def runtime_failure_def)
qed (simp add: send_outcome_event_def a2a_outcome_def runtime_failure_def)

text \<open>
  The driver asks the remote agent once. A task accepted by the core and run by this
  driver ends with the outcome of the first answer: completed with the parts of the
  artifacts, cancelled, or failed with the text of the error. When the first answer says
  that the task is submitted, working or waiting for input, the core stores that and then
  fails the task, since the driver never asks again and closes the stream.
\<close>

theorem a2a_task_outcome:
  assumes "guarded_store ops iv view keyed allow" "good_store iv view n (w_store w)" "n + 2 < seq_limit"
    and "view (w_store w) (wk_task wk) = Some (snap, evs)" "snap_state snap = Accepted"
    and "o_stream ora = a2a_invoke_stream r"
  shows "\<exists>w' snap' new. run (worker_body ce wk) ops ora [] w = (Some (), [], w') \<and>
    view (w_store w') (wk_task wk) = Some (snap', evs @ new) \<and> terminal (snap_state snap') \<and>
    map ev_kind new = a2a_outcome (ce_uuid_str ce) r"
  using guarded_store.run_worker_stream [OF assms(1,2) _ assms(4), of "[DvAccepted, send_outcome_event r]" ora ce]
    assms(3,5,6) by (auto simp: a2a_stream_log a2a_invoke_stream_def simp del: stream_log.simps)

definition demo_working :: normalized_task where
  "demo_working = \<lparr>ntk_id = ''r'', ntk_context_id = None, ntk_state = NsWorking, ntk_status_message = Some ''hm'',
     ntk_output_parts = []\<rparr>"

definition demo_a2a_answers :: answers where
  "demo_a2a_answers = demo_answers\<lparr>o_stream := a2a_invoke_stream (Inr demo_working)\<rparr>"

theorem a2a_task_outcome_witness:
  "\<exists>w' snap' ev new. run (worker_body demo_env demo_worker) mem_ops demo_a2a_answers [] demo_accepted = (Some (), [], w') \<and>
     mem_view (w_store w') 7 = Some (snap', ev # new) \<and> terminal (snap_state snap') \<and>
     map ev_kind new = [EvProgress ''hm'' None, runtime_failure (ce_uuid_str demo_env) closed_early]"
proof -
  obtain snap ev where acc: "mem_view (w_store demo_accepted) 7 = Some (snap, [ev])" "snap_state snap = Accepted"
    using demo_accepted_facts by blast
  have "wk_task demo_worker = 7" by (simp add: demo_worker_def)
  with a2a_task_outcome [OF memg.guarded_store_axioms conjunct1 [OF demo_accepted_facts], of demo_worker snap "[ev]"
      demo_a2a_answers "Inr demo_working" demo_env] acc
  show ?thesis
    by (simp add: demo_a2a_answers_def a2a_outcome_def demo_working_def unwrap_or_def seq_limit_def) metis
qed

section \<open>The dialects agree on parts\<close>

text \<open>What the client asks of a dialect: the parts it makes of core parts come back from a
  message, and the output of a task is what its artifacts decode to.\<close>

definition sendable :: "normalized_part \<Rightarrow> bool" where
  "sendable p \<longleftrightarrow> npt_raw p = None \<and>
     (npt_text p \<noteq> None \<and> npt_uri p = None \<and> npt_mime_type p = None \<or> npt_text p = None \<and> npt_uri p \<noteq> None)"

locale a2a_dialect =
  fixes encode :: "normalized_part \<Rightarrow> json"
    and decode :: "json list \<Rightarrow> normalized_part list"
    and parse :: "json \<Rightarrow> a2a_client_error + normalized_task"
    and body :: "json \<Rightarrow> json"
  assumes decode_encode: "list_all sendable ps \<Longrightarrow> decode (map encode ps) = ps"
    and parse_parts: "parse r = Inr task \<Longrightarrow> ntk_output_parts task = artifact_parts decode (body r)"
begin

lemma core_parts_sendable: "list_all sendable (core_parts_to_normalized js ps)"
  by (simp add: core_parts_to_normalized_def list_all_iff core_part_to_normalized_def sendable_def text_part_def
      default_part_def split: part.split)

text \<open>An agent that answers with the parts it was sent gives them back; JSON returns as text.\<close>

lemma parts_return:
  assumes "parse r = Inr task"
    and "jget ''artifacts'' (body r) =
      Some (JArray [JObject [(''parts'', JArray (map encode (core_parts_to_normalized js ps)))]])"
  shows "map normalized_to_part (ntk_output_parts task) = map (\<lambda>p. case p of PJson v \<Rightarrow> PText (js v) | _ \<Rightarrow> p) ps"
proof -
  have "ntk_output_parts task = core_parts_to_normalized js ps"
    using parse_parts [OF assms(1)] assms(2) decode_encode [OF core_parts_sendable] by (simp add: artifact_parts_def)
  then show ?thesis
    by (auto simp: core_parts_to_normalized_def core_part_to_normalized_def normalized_to_part_def text_part_def
        default_part_def split: part.split)
qed

end

lemma map_filter_total: "(\<And>x. x \<in> set xs \<Longrightarrow> f (g x) = Some x) \<Longrightarrow> List.map_filter f (map g xs) = xs"
  by (induction xs) (auto simp: List.map_filter_def)

lemma sendable_cases:
  assumes "sendable p"
  obtains str where "p = text_part str" | uri mime where "p = \<lparr>npt_text = None, npt_raw = None, npt_uri = Some uri, npt_mime_type = mime\<rparr>"
  using assms by (cases p) (auto simp: sendable_def text_part_def default_part_def)

lemma sdk_part_roundtrip: "sendable p \<Longrightarrow> sdk_part_to_normalized (part_to_sdk p) = p"
  by (erule sendable_cases)
    (auto simp: sdk_part_to_normalized_def part_to_sdk_def text_part_def default_part_def jget_str_def
      json_opt_str_def split: option.split)

lemma spec_part_roundtrip: "sendable p \<Longrightarrow> spec_part_to_normalized (part_to_spec p) = Some p"
  by (erule sendable_cases)
    (auto simp: spec_part_to_normalized_def part_to_spec_def text_part_def default_part_def jget_str_def
      json_opt_str_def jpointer_str_def split: option.split)

interpretation sdk_wire: a2a_dialect part_to_sdk "map sdk_part_to_normalized" sdk_parse_task
  "\<lambda>r. case jget ''task'' r of Some task \<Rightarrow> task | None \<Rightarrow> JNull"
  by unfold_locales
    (auto simp: list_all_iff sdk_part_roundtrip comp_def sdk_parse_task_def rbind_Inr_iff intro!: map_idI)

interpretation spec_wire: a2a_dialect part_to_spec "List.map_filter spec_part_to_normalized" spec_parse_task "\<lambda>r. r"
  by unfold_locales
    (auto simp: list_all_iff spec_part_roundtrip spec_parse_task_def rbind_Inr_iff intro!: map_filter_total)

fun wire_part :: "a2a_wire \<Rightarrow> normalized_part \<Rightarrow> json" where
  "wire_part SdkWire p = part_to_sdk p"
| "wire_part SpecWire p = part_to_spec p"

fun wire_task :: "a2a_wire \<Rightarrow> json \<Rightarrow> json" where
  "wire_task SdkWire r = (case jget ''task'' r of Some task \<Rightarrow> task | None \<Rightarrow> JNull)"
| "wire_task SpecWire r = r"

text \<open>
  In both dialects the parts of a message survive the way to an agent that echoes
  them in an artifact and back: text and file references return unchanged, a JSON part
  returns as the text of its value.
\<close>

theorem a2a_parts_echo:
  assumes "parse_task w r = Inr task" "ntk_state task = NsCompleted"
    and "jget ''artifacts'' (wire_task w r) =
      Some (JArray [JObject [(''parts'', JArray (map (wire_part w) (core_parts_to_normalized js ps)))]])"
  shows "send_outcome_event (Inr task) = DvCompleted (map (\<lambda>p. case p of PJson v \<Rightarrow> PText (js v) | _ \<Rightarrow> p) ps)"
proof (cases w)
  case SdkWire
  with assms have "map normalized_to_part (ntk_output_parts task) = map (\<lambda>p. case p of PJson v \<Rightarrow> PText (js v) | _ \<Rightarrow> p) ps"
    by (intro sdk_wire.parts_return [of r]) (simp_all add: comp_def)
  with assms(2) show ?thesis by (simp add: send_outcome_event_def task_to_terminal_def)
next
  case SpecWire
  with assms have "map normalized_to_part (ntk_output_parts task) = map (\<lambda>p. case p of PJson v \<Rightarrow> PText (js v) | _ \<Rightarrow> p) ps"
    by (intro spec_wire.parts_return [of r]) (simp_all add: comp_def)
  with assms(2) show ?thesis by (simp add: send_outcome_event_def task_to_terminal_def)
qed

definition demo_echo :: json where
  "demo_echo = JObject [(''id'', JString ''r''), (''status'', JObject [(''state'', JString ''completed'')]),
     (''artifacts'', JArray [JObject [(''parts'', JArray (map part_to_spec
        (core_parts_to_normalized (\<lambda>_. ''{}'') [PText ''a'', PJson JNull, PFileRef ''u'' (Some ''m'')])))]])]"

theorem a2a_parts_echo_witness:
  "case parse_task SpecWire demo_echo of
     Inl e \<Rightarrow> False
   | Inr task \<Rightarrow> send_outcome_event (Inr task) = DvCompleted [PText ''a'', PText ''{}'', PFileRef ''u'' (Some ''m'')]"
proof -
  obtain task where task: "parse_task SpecWire demo_echo = Inr task" "ntk_state task = NsCompleted"
    by (simp add: demo_echo_def spec_parse_task_def jget_str_def jpointer_str_def spec_state_def)
  with a2a_parts_echo [OF task, of "\<lambda>_. ''{}''" "[PText ''a'', PJson JNull, PFileRef ''u'' (Some ''m'')]"]
  show ?thesis by (simp add: demo_echo_def)
qed

section \<open>Requests per call\<close>

definition counts :: "('s \<Rightarrow> nat) \<Rightarrow> 's a2a_remote \<Rightarrow> bool" where
  "counts \<mu> srv \<longleftrightarrow> (\<forall>s rq. \<mu> (snd (srv s rq)) = Suc (\<mu> s))"

lemma a2a_post_count:
  assumes "counts \<mu> srv" "a2a_post cfg srv w op s = (r, s')"
  shows "\<mu> s' = Suc (\<mu> s)"
  using assms by (auto simp: a2a_post_def counts_def split: prod.splits) (metis snd_conv)

lemma probe_count:
  assumes count: "counts \<mu> srv" and run: "probe_wire_format cfg srv pid s = (r, s')"
  shows "\<mu> s' \<le> \<mu> s + 2"
proof -
  have one: "\<mu> s2 = Suc (\<mu> s1)" if "probe_recognizes cfg srv w op s1 = (r1, s2)" for w op s1 r1 s2
    using that a2a_post_count [OF count] by (auto simp: probe_recognizes_def split: prod.splits sum.splits)
  show ?thesis
    using run one by (fastforce simp: probe_wire_format_def split: prod.splits sum.splits bool.splits)
qed

lemma resolve_count:
  assumes "counts \<mu> srv" "resolve_auto_wire srv pid d s = (r, s')"
  shows "\<mu> s' \<le> \<mu> s + 2"
  using assms(2) probe_count [OF assms(1)]
  by (auto simp: resolve_auto_wire_def detect_from_agent_card_def split: option.splits Option.bind_splits)

lemma retry_count:
  assumes "counts \<mu> srv" "execute_retry srv pid op d s = (r, s')"
  shows "\<mu> s' \<le> \<mu> s + 3"
  using assms(2) resolve_count [OF assms(1)] a2a_post_count [OF assms(1)]
  by (fastforce simp: execute_retry_def split: prod.splits sum.splits)

text \<open>
  C29: a call of the client costs a bounded number of requests. \<open>\<mu>\<close> counts the requests
  that the remote agent has seen. With a configured dialect a call is one request; with
  automatic detection it is at most six, two probes and the call, and once more, after an
  answer that the method is unknown.
\<close>

theorem a2a_requests_bounded:
  assumes "counts \<mu> srv" "a2a_execute srv id1 id2 op d s = ((r, d'), s')"
  shows "\<mu> s' \<le> \<mu> s + 6 \<and> (if acl_wire d = None then acl_cache d = None \<or> \<mu> s' \<le> \<mu> s + 4 else \<mu> s' = Suc (\<mu> s))"
proof -
  obtain wr d1 s1 where one: "resolved_wire srv id1 d s = ((wr, d1), s1)" by (metis prod.exhaust)
  have s1: "\<mu> s1 \<le> \<mu> s + (if acl_wire d = None \<and> acl_cache d = None then 2 else 0)" "acl_wire d \<noteq> None \<Longrightarrow> is_ok wr \<and> s1 = s"
    using one resolve_count [OF assms(1)] by (auto simp: resolved_wire_def split: option.splits prod.splits sum.splits)
  show ?thesis
  proof (cases wr)
    case (Inl e)
    then have "s' = s1" using assms(2) one by (simp add: a2a_execute_def)
    with s1 Inl show ?thesis by (cases "acl_wire d") (auto split: if_splits)
  next
    case (Inr w)
    obtain b s2 where two: "a2a_post (acl_config d) srv w op s1 = (b, s2)" by (metis prod.exhaust)
    note s2 = a2a_post_count [OF assms(1) two]
    have "s' = s2 \<or> acl_wire d = None \<and> (\<exists>x. execute_retry srv id2 op d1 s2 = (x, s'))"
      using assms(2) one two Inr by (auto simp: a2a_execute_def Let_def split: sum.splits if_splits prod.splits)
    then have "\<mu> s' = \<mu> s2 \<or> acl_wire d = None \<and> \<mu> s' \<le> \<mu> s2 + 3"
      using retry_count [OF assms(1)] by blast
    with s1 s2 show ?thesis by (auto split: if_splits)
  qed
qed

text \<open>An agent that knows no method: it is probed twice, and the call fails.\<close>

definition demo_unknown :: "nat a2a_remote" where
  "demo_unknown n rq = (Inr (JObject [(''error'', JObject [(''code'', JNumber (NegInt (-32601)))])]), Suc n)"

definition demo_auto :: a2a_client where
  "demo_auto = \<lparr>acl_config = a2a_client_config_default\<lparr>acc_wire_format := WfAuto\<rparr>, acl_wire = None, acl_cache = Some SdkWire\<rparr>"

theorem a2a_requests_bounded_witness:
  "snd (a2a_execute demo_unknown ''p'' ''q'' (GetTask ''t'') demo_auto 0) \<le> 4"
proof -
  obtain r d' s' where run: "a2a_execute demo_unknown ''p'' ''q'' (GetTask ''t'') demo_auto 0 = ((r, d'), s')"
    by (metis prod.exhaust)
  have "counts id demo_unknown" by (simp add: counts_def demo_unknown_def)
  from a2a_requests_bounded [OF this run] run show ?thesis by (simp add: demo_auto_def)
qed

section \<open>Error codes\<close>

text \<open>Every protocol error of a call, a failed dialect probe and an unknown state included, is
  reported with the code \<open>a2a_no_task\<close>.\<close>

lemma contains_str_append: "contains_str p a \<Longrightarrow> contains_str p (a @ b)" "contains_str p b \<Longrightarrow> contains_str p (a @ b)"
  by (metis contains_str_iff append.assoc)+

lemma state_errors:
  "sdk_state x = Inl e \<Longrightarrow> send_error_to_a2a_code e = ''a2a_no_task''"
  "spec_state x = Inl e \<Longrightarrow> send_error_to_a2a_code e = ''a2a_no_task''"
  by (auto simp: sdk_state_def spec_state_def send_error_to_a2a_code_def split: option.splits if_splits)

lemma parse_task_error: "parse_task w r = Inl e \<Longrightarrow> send_error_to_a2a_code e = ''a2a_no_task''"
  by (cases w)
    (auto simp: sdk_parse_task_def spec_parse_task_def rbind_Inl_iff dest: state_errors,
      simp_all add: send_error_to_a2a_code_def)

end
