(* ===== verification/Http_Sse.thy ===== *)
theory Http_Sse
  imports Core_Service Text_Bytes
begin

text \<open>
  The crate \<open>driver-http-sse\<close>: a driver that posts UAIC commands and reads task events
  from a server-sent-event stream, reconnecting when the stream breaks. HTTP
  (\<open>reqwest\<close>), URLs and the JSON reader are third-party, so a reply is an input: the
  function \<open>send\<close> from requests to replies for the commands, and for a stream the list of
  what its body delivers. The JSON reader of an event is the argument \<open>read_event\<close>. The
  receiver of the task's channel may go away at any time: \<open>alive sent\<close> says whether it is
  there when the events \<open>sent\<close> have been sent.
\<close>

section \<open>Data\<close>

definition uaic_protocol :: string where
  "uaic_protocol = ''uaic/1''"

datatype credential = CredNone | CredBearer string

text \<open>A base URL, as what the driver asks of it.\<close>

record base_url =
  bu_scheme :: string
  bu_join :: "string \<Rightarrow> string + string"

record http_sse_config =
  hs_id :: string
  hs_base_url :: base_url
  hs_credential :: credential
  hs_connect_timeout :: nat
  hs_request_timeout :: nat
  hs_first_event_timeout :: nat
  hs_idle_stream_timeout :: nat
  hs_max_event_bytes :: nat
  hs_reconnect_initial_backoff :: nat
  hs_reconnect_max_backoff :: nat
  hs_reconnect_attempts :: nat
  hs_require_https :: bool

definition http_sse_config_new :: "base_url \<Rightarrow> http_sse_config" where
  "http_sse_config_new url =
     \<lparr>hs_id = ''http-sse-agent'', hs_base_url = url, hs_credential = CredNone,
      hs_connect_timeout = secs 5, hs_request_timeout = secs 15, hs_first_event_timeout = secs 30,
      hs_idle_stream_timeout = secs 60, hs_max_event_bytes = 262144,
      hs_reconnect_initial_backoff = 250000000, hs_reconnect_max_backoff = secs 30,
      hs_reconnect_attempts = 8, hs_require_https = True\<rparr>"

record uaic_capabilities =
  uc_streaming :: bool
  uc_cancellation :: bool
  uc_provide_input :: bool
  uc_status :: bool
  uc_resume :: bool
  uc_artifacts :: bool

record uaic_agent_identity =
  ui_name :: string
  ui_version :: string
  ui_description :: string

record uaic_manifest =
  um_protocol :: string
  um_agent :: uaic_agent_identity
  um_capabilities :: uaic_capabilities

record uaic_event =
  ue_protocol :: string
  ue_message_type :: string
  ue_task_id :: task_id
  ue_seq :: "nat option"
  ue_message :: "string option"
  ue_percent :: "u8 option"
  ue_artifact :: "artifact_ref option"
  ue_request :: "input_request option"
  ue_output :: "part list option"
  ue_error :: "public_error option"

text \<open>The bodies, as the JSON that their \<open>Serialize\<close> writes; an absent option is null.\<close>

definition opt_json :: "('a \<Rightarrow> json) \<Rightarrow> 'a option \<Rightarrow> json" where
  "opt_json f x = (case x of None \<Rightarrow> JNull | Some a \<Rightarrow> f a)"

fun uaic_part :: "part \<Rightarrow> json" where
  "uaic_part (PText text) = JObject [(''kind'', JString ''text''), (''text'', JString text)]"
| "uaic_part (PJson v) = JObject [(''kind'', JString ''json''), (''value'', v)]"
| "uaic_part (PFileRef uri mime) =
     JObject [(''kind'', JString ''file_ref''), (''uri'', JString uri), (''mime_type'', opt_json JString mime)]"

definition duration_millis :: "nat \<Rightarrow> nat" where
  "duration_millis d = (d div 1000000) mod 18446744073709551616"

definition invoke_body :: "uuid_format \<Rightarrow> task_id \<Rightarrow> invoke_request \<Rightarrow> json" where
  "invoke_body uf t request =
     JObject [(''protocol'', JString uaic_protocol), (''type'', JString ''invoke''),
       (''task_id'', JString (uf_print uf t)), (''idempotency_key'', JString (rq_idempotency_key request)),
       (''session_id'', opt_json (\<lambda>s. JString (uf_print uf s)) (rq_session_id request)),
       (''input'', JArray (map uaic_part (rq_input request))), (''context'', rq_context request),
       (''deadline_ms'', opt_json (\<lambda>d. JNumber (PosInt (duration_millis d))) (rq_deadline request))]"

definition input_body :: "uuid_format \<Rightarrow> task_id \<Rightarrow> part list \<Rightarrow> json" where
  "input_body uf t input =
     JObject [(''protocol'', JString uaic_protocol), (''type'', JString ''provide_input''),
       (''task_id'', JString (uf_print uf t)), (''input'', JArray (map uaic_part input))]"

definition cancel_body :: "uuid_format \<Rightarrow> task_id \<Rightarrow> json" where
  "cancel_body uf t =
     JObject [(''protocol'', JString uaic_protocol), (''type'', JString ''cancel''),
       (''task_id'', JString (uf_print uf t))]"

section \<open>Requests\<close>

record http_request =
  hq_method :: string
  hq_url :: string
  hq_bearer :: "string option"
  hq_headers :: "(string \<times> string) list"
  hq_body :: "json option"

text \<open>A reply: a transport error, or a status and the body read as a manifest (or the error of
  reading it so).\<close>

type_synonym http_send = "http_request \<Rightarrow> string + nat \<times> (string + uaic_manifest)"

definition http_sse_new :: "http_sse_config \<Rightarrow> string + unit \<Rightarrow> core_error + uaic_manifest option" where
  "http_sse_new cfg built =
     (if hs_require_https cfg \<and> bu_scheme (hs_base_url cfg) \<noteq> ''https''
      then Inl (InvalidRequest ''remote HTTP/SSE driver requires https'')
      else case built of
             Inl error \<Rightarrow> Inl (DriverError (''cannot build HTTP client: '' @ error))
           | Inr _ \<Rightarrow> Inr None)"

definition sse_endpoint :: "http_sse_config \<Rightarrow> string \<Rightarrow> core_error + string" where
  "sse_endpoint cfg path =
     map_err (\<lambda>error. DriverError (''invalid endpoint path: '' @ error)) (bu_join (hs_base_url cfg) path)"

definition authenticated :: "http_sse_config \<Rightarrow> http_request \<Rightarrow> http_request" where
  "authenticated cfg request =
     (case hs_credential cfg of
        CredNone \<Rightarrow> request
      | CredBearer token \<Rightarrow> request\<lparr>hq_bearer := Some token\<rparr>)"

definition http_get :: "string \<Rightarrow> http_request" where
  "http_get url = \<lparr>hq_method = ''GET'', hq_url = url, hq_bearer = None, hq_headers = [], hq_body = None\<rparr>"

definition http_post :: "string \<Rightarrow> json \<Rightarrow> http_request" where
  "http_post url body =
     \<lparr>hq_method = ''POST'', hq_url = url, hq_bearer = None, hq_headers = [(''X-UAIC-Version'', ''1'')],
      hq_body = Some body\<rparr>"

definition http_error :: "string \<Rightarrow> core_error" where
  "http_error error = DriverError (''HTTP transport failure: '' @ error)"

text \<open>\<open>StatusCode\<close> prints as its number and its canonical reason; the text is the argument
  \<open>status_str\<close>.\<close>

definition ensure_success :: "(nat \<Rightarrow> string) \<Rightarrow> nat \<Rightarrow> string \<Rightarrow> core_error + unit" where
  "ensure_success status_str status operation =
     (if 200 \<le> status \<and> status < 300 then Inr ()
      else
        let code =
          (if status = 401 \<or> status = 403 then ''authorization''
           else if status = 429 then ''rate_limited''
           else if 500 \<le> status \<and> status < 600 then ''remote_server_error''
           else ''remote_request_error'')
        in Inl (DriverError (operation @ '': '' @ code @ '' ('' @ status_str status @ '')'')))"

definition load_manifest ::
  "(nat \<Rightarrow> string) \<Rightarrow> http_sse_config \<Rightarrow> http_send \<Rightarrow> uaic_manifest option \<Rightarrow>
     (core_error + uaic_manifest) \<times> uaic_manifest option" where
  "load_manifest status_str cfg send cache =
     (case cache of
        Some manifest \<Rightarrow> (Inr manifest, cache)
      | None \<Rightarrow>
          (case sse_endpoint cfg ''v1/uaic/manifest'' of
             Inl e \<Rightarrow> (Inl e, cache)
           | Inr url \<Rightarrow>
               (case send ((authenticated cfg (http_get url))\<lparr>hq_headers := [(''X-UAIC-Version'', ''1'')]\<rparr>) of
                  Inl error \<Rightarrow> (Inl (http_error error), cache)
                | Inr (status, body) \<Rightarrow>
                    (case ensure_success status_str status ''manifest'' of
                       Inl e \<Rightarrow> (Inl e, cache)
                     | Inr _ \<Rightarrow>
                         (case body of
                            Inl error \<Rightarrow> (Inl (DriverError (''invalid UAIC manifest: '' @ error)), cache)
                          | Inr manifest \<Rightarrow>
                              if um_protocol manifest \<noteq> uaic_protocol
                              then (Inl (DriverError (''unsupported UAIC protocol: '' @ um_protocol manifest)), cache)
                              else (Inr manifest, Some manifest))))))"

definition sse_health ::
  "(nat \<Rightarrow> string) \<Rightarrow> http_sse_config \<Rightarrow> http_send \<Rightarrow> uaic_manifest option \<Rightarrow>
     (core_error + unit) \<times> uaic_manifest option" where
  "sse_health status_str cfg send cache =
     (case sse_endpoint cfg ''v1/uaic/health'' of
        Inl e \<Rightarrow> (Inl e, cache)
      | Inr url \<Rightarrow>
          (case send (authenticated cfg (http_get url)) of
             Inl error \<Rightarrow> (Inl (http_error error), cache)
           | Inr (status, body) \<Rightarrow>
               (case ensure_success status_str status ''health'' of
                  Inl e \<Rightarrow> (Inl e, cache)
                | Inr _ \<Rightarrow>
                    (case load_manifest status_str cfg send cache of
                       (Inl e, cache') \<Rightarrow> (Inl e, cache')
                     | (Inr m, cache') \<Rightarrow> (Inr (), cache')))))"

text \<open>\<open>invoke\<close> up to the spawn of the stream reader; 200 and 202 are both a success.\<close>

definition sse_invoke ::
  "(nat \<Rightarrow> string) \<Rightarrow> uuid_format \<Rightarrow> http_sse_config \<Rightarrow> http_send \<Rightarrow> task_id \<Rightarrow> invoke_request \<Rightarrow>
     uaic_manifest option \<Rightarrow> (core_error + unit) \<times> uaic_manifest option" where
  "sse_invoke status_str uf cfg send t request cache =
     (case load_manifest status_str cfg send cache of
        (Inl e, cache') \<Rightarrow> (Inl e, cache')
      | (Inr m, cache') \<Rightarrow>
          (case sse_endpoint cfg ''v1/uaic/tasks'' of
             Inl e \<Rightarrow> (Inl e, cache')
           | Inr url \<Rightarrow>
               (case send ((authenticated cfg (http_post url (invoke_body uf t request)))
                        \<lparr>hq_headers := [(''X-UAIC-Version'', ''1''), (''Idempotency-Key'', rq_idempotency_key request)]\<rparr>) of
                  Inl error \<Rightarrow> (Inl (http_error error), cache')
                | Inr (status, body) \<Rightarrow>
                    if status \<noteq> 202 \<and> status \<noteq> 200
                    then (ensure_success status_str status ''invoke'', cache')
                    else (Inr (), cache'))))"

text \<open>What \<open>cancel\<close> and \<open>provide_input\<close> share: the capability of the manifest, the
  endpoint, the request and its status.\<close>

definition sse_command ::
  "(nat \<Rightarrow> string) \<Rightarrow> http_sse_config \<Rightarrow> http_send \<Rightarrow> (uaic_capabilities \<Rightarrow> bool) \<Rightarrow> string \<Rightarrow> string \<Rightarrow>
     string \<Rightarrow> json \<Rightarrow> uaic_manifest option \<Rightarrow> (core_error + unit) \<times> uaic_manifest option" where
  "sse_command status_str cfg send capability unsupported path operation body cache =
     (case load_manifest status_str cfg send cache of
        (Inl e, cache') \<Rightarrow> (Inl e, cache')
      | (Inr manifest, cache') \<Rightarrow>
          if \<not> capability (um_capabilities manifest) then (Inl (InvalidRequest unsupported), cache')
          else
            (case sse_endpoint cfg path of
               Inl e \<Rightarrow> (Inl e, cache')
             | Inr url \<Rightarrow>
                 (case send (authenticated cfg (http_post url body)) of
                    Inl error \<Rightarrow> (Inl (http_error error), cache')
                  | Inr (status, _) \<Rightarrow> (ensure_success status_str status operation, cache'))))"

definition sse_cancel where
  "sse_cancel status_str uf cfg send t cache =
     sse_command status_str cfg send uc_cancellation ''agent does not support cancellation''
       (''v1/uaic/tasks/'' @ uf_print uf t @ ''/cancel'') ''cancel'' (cancel_body uf t) cache"

definition sse_provide_input where
  "sse_provide_input status_str uf cfg send t input cache =
     sse_command status_str cfg send uc_provide_input ''agent does not support provide_input''
       (''v1/uaic/tasks/'' @ uf_print uf t @ ''/input'') ''provide_input'' (input_body uf t input) cache"

definition sse_capabilities :: driver_capabilities where
  "sse_capabilities = \<lparr>cap_cancellation = True, cap_provide_input = True\<rparr>"

section \<open>Frames\<close>

text \<open>\<open>buffer.windows(n).position(|w| w == pattern)\<close>.\<close>

fun position_of :: "string \<Rightarrow> string \<Rightarrow> nat option" where
  "position_of p [] = (if p = [] then Some 0 else None)"
| "position_of p (c # s) = (if prefix p (c # s) then Some 0 else map_option Suc (position_of p s))"

abbreviation lf2 :: string where "lf2 \<equiv> [CHR 0x0A, CHR 0x0A]"
abbreviation crlf2 :: string where "crlf2 \<equiv> [CHR 0x0D, CHR 0x0A, CHR 0x0D, CHR 0x0A]"

definition find_sse_boundary :: "string \<Rightarrow> nat option" where
  "find_sse_boundary buffer =
     (case position_of lf2 buffer of Some i \<Rightarrow> Some i | None \<Rightarrow> position_of crlf2 buffer)"

definition drain_boundary :: "string \<Rightarrow> string" where
  "drain_boundary buffer =
     (if prefix lf2 buffer then drop 2 buffer else if prefix crlf2 buffer then drop 4 buffer else buffer)"

definition sse_line :: "string \<Rightarrow> string option \<times> string \<Rightarrow> string option \<times> string" where
  "sse_line line acc =
     (case strip_prefix ''id:'' line of
        Some v \<Rightarrow> (Some (trim v), snd acc)
      | None \<Rightarrow>
          (case strip_prefix ''data:'' line of
             Some v \<Rightarrow> (fst acc, snd acc @ (if snd acc = [] then [] else [CHR 0x0A]) @ trim_start v)
           | None \<Rightarrow> acc))"

definition parse_sse_frame :: "string \<Rightarrow> (string option \<times> string) option" where
  "parse_sse_frame frame =
     (case from_utf8 frame of
        None \<Rightarrow> None
      | Some text \<Rightarrow>
          (let acc = fold sse_line (lines_of text) (None, []) in
           if snd acc \<noteq> [] then Some acc else None))"

section \<open>Events\<close>

fun dv_terminal :: "driver_event \<Rightarrow> bool" where
  "dv_terminal (DvCompleted out) = True"
| "dv_terminal (DvFailed err) = True"
| "dv_terminal DvCancelled = True"
| "dv_terminal _ = False"

text \<open>The event a message stands for; \<open>None\<close> for a type the driver does not know.\<close>

definition uaic_driver_event :: "uaic_event \<Rightarrow> core_error + driver_event option" where
  "uaic_driver_event event =
     (if ue_message_type event = ''accepted'' then Inr (Some DvAccepted)
      else if ue_message_type event = ''progress''
      then Inr (Some (DvProgress (case ue_message event of None \<Rightarrow> [] | Some m \<Rightarrow> m) (ue_percent event)))
      else if ue_message_type event = ''artifact''
      then (case ue_artifact event of
              None \<Rightarrow> Inl (DriverError ''artifact event without artifact'')
            | Some a \<Rightarrow> Inr (Some (DvArtifact a)))
      else if ue_message_type event = ''input_required''
      then (case ue_request event of
              None \<Rightarrow> Inl (DriverError ''input_required without request'')
            | Some r \<Rightarrow> Inr (Some (DvInputRequired r)))
      else if ue_message_type event = ''completed''
      then Inr (Some (DvCompleted (case ue_output event of None \<Rightarrow> [] | Some out \<Rightarrow> out)))
      else if ue_message_type event = ''failed''
      then Inr (Some (DvFailed (case ue_error event of
             Some err \<Rightarrow> err
           | None \<Rightarrow> \<lparr>pe_code = ''agent_failed'',
               pe_message = (case ue_message event of None \<Rightarrow> ''agent failed'' | Some m \<Rightarrow> m),
               pe_retryable = False\<rparr>)))
      else if ue_message_type event = ''cancelled'' then Inr (Some DvCancelled)
      else Inr None)"

text \<open>The channel: the events sent so far, each with the sequence number it came with.\<close>

type_synonym sent = "(nat option \<times> driver_event) list"

definition map_uaic_event ::
  "(sent \<Rightarrow> bool) \<Rightarrow> nat option \<Rightarrow> uaic_event \<Rightarrow> sent \<Rightarrow> (core_error + bool) \<times> sent" where
  "map_uaic_event alive seq event tx =
     (case uaic_driver_event event of
        Inl e \<Rightarrow> (Inl e, tx)
      | Inr None \<Rightarrow> (Inr False, tx)
      | Inr (Some mapped) \<Rightarrow>
          if alive tx then (Inr (dv_terminal mapped), tx @ [(seq, mapped)])
          else (Inl (DriverError ''task consumer closed''), tx))"

section \<open>Reading a stream\<close>

datatype stream_outcome = TerminalOutcome | Disconnected nat

text \<open>What a frame does: nothing (\<open>continue\<close>), advance the position, or end the call.\<close>

datatype frame_result = Continue nat | EndRead "core_error + stream_outcome"

definition handle_frame ::
  "(string \<Rightarrow> string + uaic_event) \<Rightarrow> (sent \<Rightarrow> bool) \<Rightarrow> task_id \<Rightarrow> string \<Rightarrow> nat \<Rightarrow> sent \<Rightarrow>
     frame_result \<times> sent" where
  "handle_frame read_event alive t frame latest tx =
     (case parse_sse_frame frame of
        None \<Rightarrow> (Continue latest, tx)
      | Some (eid, data) \<Rightarrow>
          (case read_event data of
             Inl error \<Rightarrow> (EndRead (Inl (DriverError (''invalid UAIC SSE event: '' @ error))), tx)
           | Inr event \<Rightarrow>
               if ue_protocol event \<noteq> uaic_protocol \<or> ue_task_id event \<noteq> t then (Continue latest, tx)
               else
                 (let seq = (case ue_seq event of Some n \<Rightarrow> Some n | None \<Rightarrow> Option.bind eid parse_u64) in
                  if (case seq of Some n \<Rightarrow> n \<le> latest | None \<Rightarrow> False) then (Continue latest, tx)
                  else
                    (let latest' = (case seq of Some n \<Rightarrow> n | None \<Rightarrow> latest) in
                     case map_uaic_event alive seq event tx of
                       (Inl e, tx') \<Rightarrow> (EndRead (Inl e), tx')
                     | (Inr True, tx') \<Rightarrow> (EndRead (Inr TerminalOutcome), tx')
                     | (Inr False, tx') \<Rightarrow> (Continue latest', tx')))))"

text \<open>The loop \<open>while let Some(boundary) = find_sse_boundary(&buffer)\<close>.\<close>

lemma position_of_less: "position_of p s = Some i \<Longrightarrow> p \<noteq> [] \<Longrightarrow> prefix p (drop i s) \<and> i < length s"
proof (induction s arbitrary: i)
  case (Cons c s)
  then show ?case by (cases i) (auto split: if_splits)
qed (simp split: if_splits)

lemma drain_boundary_shrinks:
  assumes "find_sse_boundary buffer = Some i"
  shows "length (drain_boundary (drop i buffer)) < length buffer"
proof -
  have i: "i < length buffer" "prefix lf2 (drop i buffer) \<or> prefix crlf2 (drop i buffer)"
    using assms by (auto simp: find_sse_boundary_def dest: position_of_less split: option.splits)
  then show ?thesis by (auto simp: drain_boundary_def)
qed

function sse_frames ::
  "(string \<Rightarrow> string + uaic_event) \<Rightarrow> (sent \<Rightarrow> bool) \<Rightarrow> task_id \<Rightarrow> string \<Rightarrow> nat \<Rightarrow> sent \<Rightarrow>
     (frame_result \<times> string) \<times> sent" where
  "sse_frames read_event alive t buffer latest tx =
     (case find_sse_boundary buffer of
        None \<Rightarrow> ((Continue latest, buffer), tx)
      | Some boundary \<Rightarrow>
          (case handle_frame read_event alive t (take boundary buffer) latest tx of
             (EndRead r, tx') \<Rightarrow> ((EndRead r, drain_boundary (drop boundary buffer)), tx')
           | (Continue latest', tx') \<Rightarrow>
               sse_frames read_event alive t (drain_boundary (drop boundary buffer)) latest' tx'))"
  by pat_completeness auto
termination
  by (relation "measure (\<lambda>(read_event, alive, t, buffer, latest, tx). length buffer)")
    (auto dest: drain_boundary_shrinks)

declare sse_frames.simps [simp del]

text \<open>What the body of the response yields: the timer fires, it ends, it fails, or a chunk.\<close>

datatype body_item = BodyTimeout | BodyEnd | BodyError string | BodyChunk string

text \<open>The loop of \<open>read_sse\<close> over the body; \<open>None\<close> while it waits for more.\<close>

fun sse_body ::
  "(string \<Rightarrow> string + uaic_event) \<Rightarrow> (sent \<Rightarrow> bool) \<Rightarrow> nat \<Rightarrow> task_id \<Rightarrow> bool \<Rightarrow> string \<Rightarrow> nat \<Rightarrow>
     body_item list \<Rightarrow> sent \<Rightarrow> (core_error + stream_outcome) option \<times> sent" where
  "sse_body read_event alive limit t first buffer latest [] tx = (None, tx)"
| "sse_body read_event alive limit t first buffer latest (BodyTimeout # items) tx =
     (Some (Inl (DriverError (if first then ''first SSE event timeout'' else ''idle SSE stream timeout''))), tx)"
| "sse_body read_event alive limit t first buffer latest (BodyEnd # items) tx =
     (Some (Inr (Disconnected latest)), tx)"
| "sse_body read_event alive limit t first buffer latest (BodyError error # items) tx =
     (Some (Inl (DriverError (''SSE read failure: '' @ error))), tx)"
| "sse_body read_event alive limit t first buffer latest (BodyChunk chunk # items) tx =
     (if length (buffer @ chunk) > limit
      then (Some (Inl (DriverError ''SSE event exceeds max_event_bytes'')), tx)
      else case sse_frames read_event alive t (buffer @ chunk) latest tx of
             ((EndRead r, _), tx') \<Rightarrow> (Some r, tx')
           | ((Continue latest', rest), tx') \<Rightarrow>
               sse_body read_event alive limit t False rest latest' items tx')"

text \<open>The header and query of the request: the position the reader asks to resume from.\<close>

definition resume_request :: "http_sse_config \<Rightarrow> string \<Rightarrow> nat \<Rightarrow> http_request" where
  "resume_request cfg url after_seq =
     (authenticated cfg (http_get (url @ ''?after_seq='' @ nat_str after_seq)))
       \<lparr>hq_headers := [(''accept'', ''text/event-stream''), (''X-UAIC-Version'', ''1'')] @
          (if 0 < after_seq then [(''Last-Event-ID'', nat_str after_seq)] else [])\<rparr>"

text \<open>A connection attempt: the answer to the request is an error or a status and a body.\<close>

datatype sse_reply = ConnectFailed string | Response nat "body_item list"

definition read_sse ::
  "(nat \<Rightarrow> string) \<Rightarrow> uuid_format \<Rightarrow> http_sse_config \<Rightarrow> (string \<Rightarrow> string + uaic_event) \<Rightarrow> (sent \<Rightarrow> bool) \<Rightarrow>
     task_id \<Rightarrow> nat \<Rightarrow> (http_request \<Rightarrow> sse_reply) \<Rightarrow> sent \<Rightarrow> (core_error + stream_outcome) option \<times> sent" where
  "read_sse status_str uf cfg read_event alive t after_seq connect tx =
     (case sse_endpoint cfg (''v1/uaic/tasks/'' @ uf_print uf t @ ''/events'') of
        Inl e \<Rightarrow> (Some (Inl e), tx)
      | Inr url \<Rightarrow>
          (case connect (resume_request cfg url after_seq) of
             ConnectFailed error \<Rightarrow> (Some (Inl (http_error error)), tx)
           | Response status body \<Rightarrow>
               (case ensure_success status_str status ''SSE stream'' of
                  Inl e \<Rightarrow> (Some (Inl e), tx)
                | Inr _ \<Rightarrow>
                    sse_body read_event alive (hs_max_event_bytes cfg) t True [] after_seq body tx)))"

section \<open>Reconnecting\<close>

text \<open>
  \<open>stream_events\<close> over the connections, each the function from the request to what the
  server replies; the result says whether the reader has ended.
\<close>

record reader =
  rd_after_seq :: nat
  rd_attempts :: nat
  rd_backoff :: nat

definition reader_new :: "http_sse_config \<Rightarrow> reader" where
  "reader_new cfg = \<lparr>rd_after_seq = 0, rd_attempts = 0, rd_backoff = hs_reconnect_initial_backoff cfg\<rparr>"

definition duration_max :: nat where
  "duration_max = 18446744073709551615999999999"

definition next_backoff :: "http_sse_config \<Rightarrow> nat \<Rightarrow> nat" where
  "next_backoff cfg backoff = min (min (2 * backoff) duration_max) (hs_reconnect_max_backoff cfg)"

fun stream_events ::
  "(nat \<Rightarrow> string) \<Rightarrow> (uuid \<Rightarrow> string) \<Rightarrow> uuid_format \<Rightarrow> http_sse_config \<Rightarrow> (string \<Rightarrow> string + uaic_event) \<Rightarrow>
     (sent \<Rightarrow> bool) \<Rightarrow> task_id \<Rightarrow> reader \<Rightarrow> (http_request \<Rightarrow> sse_reply) list \<Rightarrow> sent \<Rightarrow> bool \<times> sent" where
  "stream_events status_str uuid_str uf cfg read_event alive t rd [] tx = (False, tx)"
| "stream_events status_str uuid_str uf cfg read_event alive t rd (connect # replies) tx =
     (case read_sse status_str uf cfg read_event alive t (rd_after_seq rd) connect tx of
        (None, tx') \<Rightarrow> (False, tx')
      | (Some (Inr TerminalOutcome), tx') \<Rightarrow> (True, tx')
      | (Some (Inr (Disconnected last_seq)), tx') \<Rightarrow>
          stream_events status_str uuid_str uf cfg read_event alive t
            \<lparr>rd_after_seq = last_seq, rd_attempts = rd_attempts rd + 1, rd_backoff = next_backoff cfg (rd_backoff rd)\<rparr>
            replies tx'
      | (Some (Inl error), tx') \<Rightarrow>
          if rd_attempts rd + 1 > hs_reconnect_attempts cfg
          then (True,
            if alive tx'
            then tx' @ [(None, DvFailed \<lparr>pe_code = ''stream_unavailable'',
                     pe_message = display_core_error uuid_str error, pe_retryable = True\<rparr>)]
            else tx')
          else
            stream_events status_str uuid_str uf cfg read_event alive t
              \<lparr>rd_after_seq = rd_after_seq rd, rd_attempts = rd_attempts rd + 1,
               rd_backoff = next_backoff cfg (rd_backoff rd)\<rparr>
              replies tx')"

section \<open>What one connection delivers\<close>

definition seqs :: "sent \<Rightarrow> nat list" where
  "seqs xs = concat (map (\<lambda>x. case fst x of None \<Rightarrow> [] | Some n \<Rightarrow> [n]) xs)"

definition no_terminal :: "sent \<Rightarrow> bool" where
  "no_terminal xs \<longleftrightarrow> list_all (\<lambda>x. \<not> dv_terminal (snd x)) xs"

definition ends_terminal :: "sent \<Rightarrow> bool" where
  "ends_terminal xs \<longleftrightarrow> xs \<noteq> [] \<and> no_terminal (butlast xs) \<and> dv_terminal (snd (last xs))"

text \<open>The numbers go up from above \<open>lo\<close> to at most \<open>hi\<close>.\<close>

definition between :: "nat \<Rightarrow> sent \<Rightarrow> nat \<Rightarrow> bool" where
  "between lo xs hi \<longleftrightarrow> sorted_wrt (<) (seqs xs) \<and> (\<forall>n\<in>set (seqs xs). lo < n \<and> n \<le> hi) \<and> lo \<le> hi"

lemma seqs_append [simp]: "seqs (xs @ ys) = seqs xs @ seqs ys"
  by (simp add: seqs_def)

lemma no_terminal_simps [simp]:
  "no_terminal []" "no_terminal (xs @ ys) \<longleftrightarrow> no_terminal xs \<and> no_terminal ys"
  "no_terminal (x # xs) \<longleftrightarrow> \<not> dv_terminal (snd x) \<and> no_terminal xs"
  by (simp_all add: no_terminal_def)

lemma ends_terminal_append: "ends_terminal ys \<Longrightarrow> no_terminal xs \<Longrightarrow> ends_terminal (xs @ ys)"
  by (auto simp: ends_terminal_def butlast_append)

lemma between_refl [simp]: "between lo [] lo"
  by (simp add: between_def seqs_def)

lemma between_append: "between a xs b \<Longrightarrow> between b ys c \<Longrightarrow> between a (xs @ ys) c"
  unfolding between_def by (auto simp: sorted_wrt_append) (meson le_less_trans le_trans less_le_trans less_imp_le)+

text \<open>What a call may have appended when it stops with a result.\<close>

definition read_ok :: "nat \<Rightarrow> (core_error + stream_outcome) option \<Rightarrow> sent \<Rightarrow> bool" where
  "read_ok lo r new \<longleftrightarrow> (case r of
      None \<Rightarrow> no_terminal new \<and> (\<exists>hi. between lo new hi)
    | Some (Inl e) \<Rightarrow> no_terminal new \<and> (\<exists>hi. between lo new hi)
    | Some (Inr TerminalOutcome) \<Rightarrow> ends_terminal new \<and> (\<exists>hi. between lo new hi)
    | Some (Inr (Disconnected hi)) \<Rightarrow> no_terminal new \<and> between lo new hi)"

definition frame_ok :: "nat \<Rightarrow> frame_result \<Rightarrow> sent \<Rightarrow> bool" where
  "frame_ok lo res new \<longleftrightarrow> (case res of
      Continue hi \<Rightarrow> no_terminal new \<and> between lo new hi
    | EndRead r \<Rightarrow> (\<forall>n. r \<noteq> Inr (Disconnected n)) \<and> read_ok lo (Some r) new)"

lemma read_ok_append:
  "no_terminal xs \<Longrightarrow> between lo xs mid \<Longrightarrow> read_ok mid r ys \<Longrightarrow> read_ok lo r (xs @ ys)"
  unfolding read_ok_def
  by (auto intro: between_append ends_terminal_append split: option.splits sum.splits stream_outcome.splits)

lemma map_uaic_event_ok:
  assumes "\<not> (case seq of Some n \<Rightarrow> n \<le> latest | None \<Rightarrow> False)"
  shows "\<exists>new. snd (map_uaic_event alive seq event tx) = tx @ new \<and>
    frame_ok latest (case fst (map_uaic_event alive seq event tx) of
        Inl e \<Rightarrow> EndRead (Inl e)
      | Inr stop \<Rightarrow> if stop then EndRead (Inr TerminalOutcome)
          else Continue (case seq of Some n \<Rightarrow> n | None \<Rightarrow> latest)) new"
proof -
  define nx where "nx = (case seq of Some n \<Rightarrow> n | None \<Rightarrow> latest)"
  have quiet: "frame_ok latest (Continue nx) []" "frame_ok latest (EndRead (Inl e)) []" for e
    using assms by (auto simp: nx_def frame_ok_def read_ok_def between_def seqs_def split: option.splits)
  have one: "between latest [(seq, ev)] nx" for ev
    using assms by (auto simp: nx_def between_def seqs_def split: option.splits)
  have "frame_ok latest (Continue nx) [(seq, ev)]" if "\<not> dv_terminal ev" for ev
    using that one by (simp add: frame_ok_def)
  moreover have "frame_ok latest (EndRead (Inr TerminalOutcome)) [(seq, ev)]" if "dv_terminal ev" for ev
    using that one by (auto simp: frame_ok_def read_ok_def ends_terminal_def)
  ultimately show ?thesis
    unfolding nx_def [symmetric] using quiet by (simp add: map_uaic_event_def split: sum.split option.split)
qed

text \<open>A frame is ignored, or an error, or an event that was not delivered yet.\<close>

definition event_result :: "(sent \<Rightarrow> bool) \<Rightarrow> nat option \<Rightarrow> uaic_event \<Rightarrow> nat \<Rightarrow> sent \<Rightarrow> frame_result \<times> sent" where
  "event_result alive seq event latest tx =
     (case map_uaic_event alive seq event tx of
        (Inl e, tx') \<Rightarrow> (EndRead (Inl e), tx')
      | (Inr True, tx') \<Rightarrow> (EndRead (Inr TerminalOutcome), tx')
      | (Inr False, tx') \<Rightarrow> (Continue (case seq of Some n \<Rightarrow> n | None \<Rightarrow> latest), tx'))"

lemma handle_frame_cases:
  obtains (ignored) "\<And>alive tx. handle_frame read_event alive t frame latest tx = (Continue latest, tx)"
  | (malformed) e where "\<And>alive tx. handle_frame read_event alive t frame latest tx = (EndRead (Inl e), tx)"
  | (event) seq event where "\<not> (case seq of Some n \<Rightarrow> n \<le> latest | None \<Rightarrow> False)"
      "\<And>alive tx. handle_frame read_event alive t frame latest tx = event_result alive seq event latest tx"
proof (cases "parse_sse_frame frame")
  case None
  then show thesis by (intro ignored) (simp add: handle_frame_def)
next
  case (Some frm)
  obtain eid data where frm: "frm = (eid, data)" by fastforce
  show thesis
  proof (cases "read_event data")
    case (Inl error)
    with Some frm show thesis by (intro malformed) (simp add: handle_frame_def)
  next
    case (Inr ev)
    define seq where "seq = (case ue_seq ev of Some n \<Rightarrow> Some n | None \<Rightarrow> Option.bind eid parse_u64)"
    show thesis
    proof (cases "ue_protocol ev \<noteq> uaic_protocol \<or> ue_task_id ev \<noteq> t \<or>
        (case seq of Some n \<Rightarrow> n \<le> latest | None \<Rightarrow> False)")
      case True
      with Some frm Inr show thesis by (intro ignored) (auto simp: handle_frame_def Let_def seq_def)
    next
      case False
      with Some frm Inr show thesis
        by (intro event [of seq ev]) (simp_all add: handle_frame_def event_result_def Let_def flip: seq_def)
    qed
  qed
qed

lemma handle_frame_ok:
  "\<exists>new. snd (handle_frame read_event alive t frame latest tx) = tx @ new \<and>
     frame_ok latest (fst (handle_frame read_event alive t frame latest tx)) new"
proof (cases rule: handle_frame_cases [of read_event t frame latest])
  case ignored
  then show ?thesis by (simp add: frame_ok_def)
next
  case (malformed e)
  then show ?thesis by (auto simp: frame_ok_def read_ok_def intro: between_refl)
next
  case (event seq ev)
  with map_uaic_event_ok [OF event(1), of alive ev tx] show ?thesis
    by (auto simp: event_result_def split: prod.splits sum.splits bool.splits)
qed

lemma sse_frames_ok:
  "\<exists>res rest new. sse_frames read_event alive t buffer latest tx = ((res, rest), tx @ new) \<and> frame_ok latest res new"
proof (induction read_event alive t buffer latest tx rule: sse_frames.induct)
  case (1 read_event alive t buffer latest tx)
  show ?case
  proof (cases "find_sse_boundary buffer")
    case None
    then show ?thesis by (simp add: sse_frames.simps frame_ok_def)
  next
    case (Some i)
    obtain res tx' where hf: "handle_frame read_event alive t (take i buffer) latest tx = (res, tx')" by fastforce
    obtain new where new: "tx' = tx @ new" "frame_ok latest res new"
      using handle_frame_ok [of read_event alive t "take i buffer" latest tx] by (auto simp: hf)
    show ?thesis
    proof (cases res)
      case (EndRead r)
      with hf new Some show ?thesis by (subst sse_frames.simps) auto
    next
      case (Continue mid)
      have mid: "no_terminal new" "between latest new mid" using new(2) Continue by (simp_all add: frame_ok_def)
      obtain res' rest new' where rest: "sse_frames read_event alive t (drain_boundary (drop i buffer)) mid tx' =
          ((res', rest), tx' @ new')" "frame_ok mid res' new'"
        using 1 [OF Some hf [symmetric] Continue] by blast
      have "frame_ok latest res' (new @ new')"
        using rest(2) mid by (auto simp: frame_ok_def intro: between_append read_ok_append split: frame_result.splits)
      then show ?thesis
        using hf new(1) Some Continue rest(1) by (subst sse_frames.simps) auto
    qed
  qed
qed

lemma sse_body_ok:
  "\<exists>new. sse_body read_event alive limit t first buffer latest items tx = (r, tx @ new) \<and> read_ok latest r new"
  if "r = fst (sse_body read_event alive limit t first buffer latest items tx)" for r
  using that
proof (induction read_event alive limit t first buffer latest items tx rule: sse_body.induct)
  case (5 read_event alive limit t first buffer latest chunk items tx)
  obtain res rest new where fr: "sse_frames read_event alive t (buffer @ chunk) latest tx = ((res, rest), tx @ new)"
    "frame_ok latest res new"
    using sse_frames_ok by blast
  show ?case
  proof (cases "limit < length (buffer @ chunk)")
    case True
    then show ?thesis using 5(2) by (auto simp: read_ok_def intro: between_refl)
  next
    case False
    show ?thesis
    proof (cases res)
      case (EndRead q)
      with fr False 5(2) show ?thesis by (auto simp: frame_ok_def)
    next
      case (Continue mid)
      have mid: "no_terminal new" "between latest new mid" using fr(2) Continue by (simp_all add: frame_ok_def)
      have step: "sse_body read_event alive limit t first buffer latest (BodyChunk chunk # items) tx =
          sse_body read_event alive limit t False rest mid items (tx @ new)"
        using False fr(1) Continue by simp
      obtain new' where new': "sse_body read_event alive limit t False rest mid items (tx @ new) = (r, (tx @ new) @ new')"
        "read_ok mid r new'"
        using 5(1) [OF False fr(1) [symmetric] refl Continue] 5(2) step by auto
      then show ?thesis using step read_ok_append [OF mid new'(2)] by auto
    qed
  qed
qed (auto simp: read_ok_def intro: between_refl)

lemma read_sse_ok:
  "\<exists>new. snd (read_sse status_str uf cfg read_event alive t after_seq connect tx) = tx @ new \<and>
     read_ok after_seq (fst (read_sse status_str uf cfg read_event alive t after_seq connect tx)) new"
proof -
  have fail: "read_ok after_seq (Some (Inl e)) []" for e by (auto simp: read_ok_def intro: between_refl)
  have body: "\<exists>new. snd (sse_body read_event alive limit t True [] after_seq items tx) = tx @ new \<and>
      read_ok after_seq (fst (sse_body read_event alive limit t True [] after_seq items tx)) new" for limit items
    using sse_body_ok [OF refl] by (metis snd_conv)
  show ?thesis
    unfolding read_sse_def using body fail by (simp split: sum.split sse_reply.split)
qed

section \<open>A channel whose receiver stays\<close>

text \<open>What a connection sends does not depend on what was sent before.\<close>

abbreviation open_channel :: "sent \<Rightarrow> bool" where
  "open_channel \<equiv> \<lambda>_. True"

lemma handle_frame_tx:
  "handle_frame read_event open_channel t frame latest tx =
     (case handle_frame read_event open_channel t frame latest [] of (res, new) \<Rightarrow> (res, tx @ new))"
proof (cases rule: handle_frame_cases [of read_event t frame latest])
  case (event seq ev)
  show ?thesis
    unfolding event(2)
    by (cases "uaic_driver_event ev"; cases "the (projr (uaic_driver_event ev))")
      (auto simp: event_result_def map_uaic_event_def split: option.split bool.split)
qed simp_all

lemma sse_frames_tx:
  "sse_frames read_event open_channel t buffer latest (tx @ tx') =
     (case sse_frames read_event open_channel t buffer latest tx' of (res, new) \<Rightarrow> (res, tx @ new))"
proof (induction buffer arbitrary: latest tx' rule: length_induct)
  case (1 buffer)
  show ?case
  proof (cases "find_sse_boundary buffer")
    case None
    then show ?thesis by (simp add: sse_frames.simps [of _ _ _ buffer])
  next
    case (Some i)
    obtain res new where hf: "handle_frame read_event open_channel t (take i buffer) latest [] = (res, new)" by fastforce
    have step: "handle_frame read_event open_channel t (take i buffer) latest xs = (res, xs @ new)" for xs
      using handle_frame_tx [of read_event t "take i buffer" latest xs] hf by simp
    show ?thesis
      using 1 drain_boundary_shrinks [OF Some] Some step
      by (cases res) (simp_all add: sse_frames.simps [of _ _ _ buffer])
  qed
qed

lemma sse_body_tx:
  "sse_body read_event open_channel limit t first buffer latest items (tx @ tx') =
     (case sse_body read_event open_channel limit t first buffer latest items tx' of (r, new) \<Rightarrow> (r, tx @ new))"
proof (induction read_event open_channel limit t first buffer latest items tx' rule: sse_body.induct)
  case (5 read_event limit t first buffer latest chunk items tx')
  obtain res rest new where fr: "sse_frames read_event open_channel t (buffer @ chunk) latest tx' = ((res, rest), new)"
    by (metis surj_pair)
  show ?case
  proof (cases "limit < length (buffer @ chunk)")
    case False
    then show ?thesis
      using 5 [OF False fr [symmetric] refl] fr
      by (cases res) (simp_all add: sse_frames_tx [of read_event t "buffer @ chunk" latest tx tx'])
  qed simp
qed simp_all

lemma read_sse_tx:
  "read_sse status_str uf cfg read_event open_channel t after_seq connect tx =
     (case read_sse status_str uf cfg read_event open_channel t after_seq connect [] of (r, new) \<Rightarrow> (r, tx @ new))"
  using sse_body_tx [of read_event _ t _ _ _ _ tx "[]"]
  by (simp add: read_sse_def split: sum.split sse_reply.split)

section \<open>Streams with line feeds only\<close>

lemma position_of_None: "position_of p s = None \<longleftrightarrow> \<not> contains_str p s"
  by (induction s) auto

lemma position_of_length: "position_of p s = Some i \<Longrightarrow> length p \<le> length s"
  by (induction s arbitrary: i) (force split: if_splits dest: prefix_length_le)+

lemma position_of_append: "position_of p s = Some i \<Longrightarrow> position_of p (s @ s') = Some i"
proof (induction s arbitrary: i)
  case Nil
  then show ?case by (cases s') (auto split: if_splits)
next
  case (Cons c s)
  have same: "prefix p (c # s @ s') \<longleftrightarrow> prefix p (c # s)"
    using position_of_length [OF Cons.prems] prefix_length_prefix [of p "c # s @ s'" "c # s"]
    by (auto dest: prefix_prefix [of p "c # s" s'])
  with Cons show ?case by (auto split: if_splits)
qed

lemma no_crlf2: "CHR 0x0D \<notin> set s \<Longrightarrow> position_of crlf2 s = None"
  by (auto simp: position_of_None contains_str_iff)

lemma boundary_append:
  assumes "CHR 0x0D \<notin> set (s @ s')" "find_sse_boundary s = Some i"
  shows "find_sse_boundary (s @ s') = Some i" "prefix lf2 (drop i s)" "i < length s"
  using assms position_of_less [of lf2 s i] no_crlf2 [of s]
  by (auto simp: find_sse_boundary_def position_of_append split: option.splits)

lemma drain_boundary_append:
  "prefix lf2 s \<Longrightarrow> drain_boundary (s @ s') = drain_boundary s @ s'"
  by (auto simp: drain_boundary_def prefix_def)

lemma drain_boundary_set: "set (drain_boundary s) \<subseteq> set s"
  by (auto simp: drain_boundary_def dest: in_set_dropD)

text \<open>Reading a part of the bytes first makes no difference.\<close>

lemma sse_frames_append:
  assumes "CHR 0x0D \<notin> set (a @ b)"
  shows "case sse_frames read_event alive t a latest tx of
      ((EndRead r, _), tx') \<Rightarrow> \<exists>rest. sse_frames read_event alive t (a @ b) latest tx = ((EndRead r, rest), tx')
    | ((Continue l, rest), tx') \<Rightarrow>
        sse_frames read_event alive t (a @ b) latest tx = sse_frames read_event alive t (rest @ b) l tx' \<and>
        set rest \<subseteq> set a \<and> length rest \<le> length a"
  using assms
proof (induction a arbitrary: latest tx rule: length_induct)
  case (1 a)
  show ?case
  proof (cases "find_sse_boundary a")
    case None
    then show ?thesis by (simp add: sse_frames.simps [of _ _ _ a])
  next
    case (Some i)
    note at = boundary_append [OF 1(2) Some]
    obtain res tx' where hf: "handle_frame read_event alive t (take i a) latest tx = (res, tx')" by fastforce
    let ?rest = "drain_boundary (drop i a)"
    have rest: "drain_boundary (drop i (a @ b)) = ?rest @ b"
      using at(2,3) by (simp add: drain_boundary_append)
    have sub: "set ?rest \<subseteq> set a"
      using drain_boundary_set [of "drop i a"] by (auto dest: in_set_dropD)
    have small: "length ?rest < length a" by (rule drain_boundary_shrinks [OF Some])
    have whole: "sse_frames read_event alive t (a @ b) latest tx =
        (case res of EndRead r \<Rightarrow> ((EndRead r, ?rest @ b), tx')
         | Continue l \<Rightarrow> sse_frames read_event alive t (?rest @ b) l tx')"
      using at hf rest by (subst sse_frames.simps) (simp split: frame_result.split)
    have part: "sse_frames read_event alive t a latest tx =
        (case res of EndRead r \<Rightarrow> ((EndRead r, ?rest), tx') | Continue l \<Rightarrow> sse_frames read_event alive t ?rest l tx')"
      using Some hf by (subst sse_frames.simps) (simp split: frame_result.split)
    show ?thesis
    proof (cases res)
      case (EndRead r)
      with whole part show ?thesis by simp
    next
      case (Continue l)
      have "CHR 0x0D \<notin> set (?rest @ b)" using 1(2) sub by auto
      from 1(1) [rule_format, OF small this] have "case sse_frames read_event alive t ?rest l tx' of
          ((EndRead r, _), tx'') \<Rightarrow> \<exists>rest. sse_frames read_event alive t (?rest @ b) l tx' = ((EndRead r, rest), tx'')
        | ((Continue l', rest), tx'') \<Rightarrow>
            sse_frames read_event alive t (?rest @ b) l tx' = sse_frames read_event alive t (rest @ b) l' tx'' \<and>
            set rest \<subseteq> set ?rest \<and> length rest \<le> length ?rest" .
      then show ?thesis
        using whole part Continue sub small by (auto split: prod.splits frame_result.splits)
    qed
  qed
qed

lemma sse_body_chunks:
  assumes "cs \<noteq> []" "CHR 0x0D \<notin> set (buffer @ concat cs)" "length (buffer @ concat cs) \<le> limit"
  shows "sse_body read_event alive limit t first buffer latest (map BodyChunk cs @ items) tx =
    sse_body read_event alive limit t first buffer latest (BodyChunk (concat cs) # items) tx"
  using assms
proof (induction cs arbitrary: first buffer latest tx rule: list_nonempty_induct)
  case (cons c cs)
  obtain res rest tx' where fr: "sse_frames read_event alive t (buffer @ c) latest tx = ((res, rest), tx')"
    by (metis surj_pair)
  have cr: "CHR 0x0D \<notin> set ((buffer @ c) @ concat cs)" using cons.prems by simp
  note split = sse_frames_append [OF cr, of read_event alive t latest tx]
  show ?case
  proof (cases res)
    case (EndRead r)
    with split fr cons.prems show ?thesis by auto
  next
    case (Continue l)
    with split fr have rest: "sse_frames read_event alive t ((buffer @ c) @ concat cs) latest tx =
        sse_frames read_event alive t (rest @ concat cs) l tx'" "set rest \<subseteq> set (buffer @ c)"
      "length rest \<le> length (buffer @ c)"
      by simp_all
    have "sse_body read_event alive limit t False rest l (map BodyChunk cs @ items) tx' =
        sse_body read_event alive limit t False rest l (BodyChunk (concat cs) # items) tx'"
      using cons.prems rest(2,3) by (intro cons.IH) auto
    then show ?thesis using fr Continue rest cons.prems by auto
  qed
qed simp

section \<open>Properties\<close>

text \<open>
  C21: the driver reports the end of a task once, and last. Whatever the server replies on
  however many connections, and whenever the consumer goes away, a reader that has not
  ended has sent no terminal event; one that has ended has sent exactly one, as its last
  event, unless the consumer was gone.
\<close>

theorem sse_terminal_once:
  "case stream_events status_str uuid_str uf cfg read_event alive t rd conns tx of
     (ended, tx') \<Rightarrow> \<exists>new. tx' = tx @ new \<and>
       (if ended then ends_terminal new \<or> no_terminal new \<and> \<not> alive tx' else no_terminal new)"
proof (induction conns arbitrary: rd tx)
  case (Cons connect conns)
  obtain r tx1 where read: "read_sse status_str uf cfg read_event alive t (rd_after_seq rd) connect tx = (r, tx1)"
    by fastforce
  obtain new1 where new1: "tx1 = tx @ new1" "read_ok (rd_after_seq rd) r new1"
    using read_sse_ok [of status_str uf cfg read_event alive t "rd_after_seq rd" connect tx] by (auto simp: read)
  have more: "case stream_events status_str uuid_str uf cfg read_event alive t rd' conns tx1 of
     (ended, tx') \<Rightarrow> \<exists>new. tx' = tx @ new \<and>
       (if ended then ends_terminal new \<or> no_terminal new \<and> \<not> alive tx' else no_terminal new)"
    if "no_terminal new1" for rd'
  proof -
    obtain ended tx' new where "stream_events status_str uuid_str uf cfg read_event alive t rd' conns tx1 = (ended, tx')"
      "tx' = tx1 @ new" "if ended then ends_terminal new \<or> no_terminal new \<and> \<not> alive tx' else no_terminal new"
      using Cons.IH [where rd = rd' and tx = tx1] by auto
    with that show ?thesis
      using ends_terminal_append [of new new1] by (auto simp: new1(1) split: if_splits)
  qed
  consider "r = None" | e where "r = Some (Inl e)" | "r = Some (Inr TerminalOutcome)"
    | n where "r = Some (Inr (Disconnected n))"
    by (metis old.sum.exhaust option.exhaust stream_outcome.exhaust)
  then show ?case
  proof cases
    case (2 e)
    then have "no_terminal new1" using new1(2) by (simp add: read_ok_def)
    with more read 2 new1(1) show ?thesis by (auto simp: ends_terminal_def butlast_append)
  next
    case (4 n)
    then have "no_terminal new1" using new1(2) by (simp add: read_ok_def)
    with more read 4 show ?thesis by simp
  qed (use read new1 in \<open>auto simp: read_ok_def\<close>)
qed simp

text \<open>
  C22: nothing twice while connections end cleanly. If no connection fails (each ends with the
  task, with the end of the body, or is still open), the sequence numbers of all events
  sent go strictly up across every reconnection, from above the position the reader
  started at.
\<close>

definition never_fails ::
  "(nat \<Rightarrow> string) \<Rightarrow> uuid_format \<Rightarrow> http_sse_config \<Rightarrow> (string \<Rightarrow> string + uaic_event) \<Rightarrow> (sent \<Rightarrow> bool) \<Rightarrow>
     task_id \<Rightarrow> (http_request \<Rightarrow> sse_reply) \<Rightarrow> bool" where
  "never_fails status_str uf cfg read_event alive t connect \<longleftrightarrow>
     (\<forall>a tx e. fst (read_sse status_str uf cfg read_event alive t a connect tx) \<noteq> Some (Inl e))"

theorem sse_delivers_once:
  assumes "list_all (never_fails status_str uf cfg read_event alive t) conns"
  shows "\<exists>new. snd (stream_events status_str uuid_str uf cfg read_event alive t rd conns tx) = tx @ new \<and>
    sorted_wrt (<) (seqs new) \<and> list_all (\<lambda>n. rd_after_seq rd < n) (seqs new)"
proof -
  have "\<exists>new hi. snd (stream_events status_str uuid_str uf cfg read_event alive t rd conns tx) = tx @ new \<and>
      between (rd_after_seq rd) new hi"
    using assms
  proof (induction conns arbitrary: rd tx)
    case Nil
    show ?case by (auto intro: between_refl)
  next
    case (Cons connect conns)
    obtain r tx1 where read: "read_sse status_str uf cfg read_event alive t (rd_after_seq rd) connect tx = (r, tx1)"
      by fastforce
    obtain new1 where new1: "tx1 = tx @ new1" "read_ok (rd_after_seq rd) r new1"
      using read_sse_ok [of status_str uf cfg read_event alive t "rd_after_seq rd" connect tx] by (auto simp: read)
    consider "r = None" | e where "r = Some (Inl e)" | "r = Some (Inr TerminalOutcome)"
      | n where "r = Some (Inr (Disconnected n))"
      by (metis old.sum.exhaust option.exhaust stream_outcome.exhaust)
    then show ?case
    proof cases
      case (2 e)
      then show ?thesis using Cons.prems read by (auto simp: never_fails_def dest!: spec [of _ "rd_after_seq rd"] spec [of _ tx])
    next
      case (4 n)
      let ?rd = "\<lparr>rd_after_seq = n, rd_attempts = rd_attempts rd + 1, rd_backoff = next_backoff cfg (rd_backoff rd)\<rparr>"
      obtain new2 hi where new2: "snd (stream_events status_str uuid_str uf cfg read_event alive t ?rd conns tx1) = tx1 @ new2"
        "between (rd_after_seq ?rd) new2 hi"
        using Cons.IH [of ?rd tx1] Cons.prems by auto
      have "between (rd_after_seq rd) new1 n" using new1(2) 4 by (simp add: read_ok_def)
      with new2 have "between (rd_after_seq rd) (new1 @ new2) hi" by (auto intro: between_append)
      with read 4 new1(1) new2(1) show ?thesis by auto
    qed (use read new1 in \<open>auto simp: read_ok_def\<close>)
  qed
  then show ?thesis by (auto simp: between_def list_all_iff)
qed

text \<open>
  A failed connection makes the driver deliver events twice. When a connection sends some
  events and then fails, the reader forgets the position it had reached: it repeats the
  request it made before, so a server that answers the same request alike makes it send
  the same events again.
\<close>

theorem sse_error_redelivers:
  assumes "read_sse status_str uf cfg read_event open_channel t (rd_after_seq rd) connect [] = (Some (Inl e), new)"
    and "rd_attempts rd + 1 < hs_reconnect_attempts cfg"
  shows "stream_events status_str uuid_str uf cfg read_event open_channel t rd (connect # connect # conns) tx =
    stream_events status_str uuid_str uf cfg read_event open_channel t
      \<lparr>rd_after_seq = rd_after_seq rd, rd_attempts = rd_attempts rd + 2,
       rd_backoff = next_backoff cfg (next_backoff cfg (rd_backoff rd))\<rparr> conns (tx @ new @ new)"
  using assms read_sse_tx [of status_str uf cfg read_event t "rd_after_seq rd" connect tx]
    read_sse_tx [of status_str uf cfg read_event t "rd_after_seq rd" connect "tx @ new"]
  by simp

text \<open>
  C23: the bound on reconnections. Against a server that cannot be reached the reader gives up
  after \<open>reconnect_attempts\<close> retries and reports the task as failed. Against one that
  accepts the connection and closes it at once it never does, however many times it has
  reconnected: the bound is only looked at when a connection fails.
\<close>

theorem sse_reconnect_bound:
  assumes "sse_endpoint cfg (''v1/uaic/tasks/'' @ uf_print uf t @ ''/events'') = Inr url"
  shows "stream_events status_str uuid_str uf cfg read_event open_channel t (reader_new cfg)
      (replicate n (\<lambda>_. ConnectFailed error)) [] =
    (if n \<le> hs_reconnect_attempts cfg then (False, [])
     else (True, [(None, DvFailed \<lparr>pe_code = ''stream_unavailable'',
       pe_message = ''driver error: HTTP transport failure: '' @ error, pe_retryable = True\<rparr>)])) \<and>
    stream_events status_str uuid_str uf cfg read_event open_channel t (reader_new cfg)
      (replicate n (\<lambda>_. Response 200 [BodyEnd])) [] = (False, [])"
proof -
  have failed: "read_sse status_str uf cfg read_event open_channel t a (\<lambda>_. ConnectFailed error) [] =
      (Some (Inl (http_error error)), [])" for a
    using assms by (simp add: read_sse_def)
  have closed: "read_sse status_str uf cfg read_event open_channel t a (\<lambda>_. Response 200 [BodyEnd]) [] =
      (Some (Inr (Disconnected a)), [])" for a
    using assms by (simp add: read_sse_def ensure_success_def)
  have "rd_attempts rd \<le> hs_reconnect_attempts cfg \<Longrightarrow>
    stream_events status_str uuid_str uf cfg read_event open_channel t rd (replicate n (\<lambda>_. ConnectFailed error)) [] =
    (if n + rd_attempts rd \<le> hs_reconnect_attempts cfg then (False, [])
     else (True, [(None, DvFailed \<lparr>pe_code = ''stream_unavailable'',
       pe_message = ''driver error: HTTP transport failure: '' @ error, pe_retryable = True\<rparr>)]))" for rd :: reader
    by (induction n arbitrary: rd) (auto simp: failed http_error_def)
  moreover have "stream_events status_str uuid_str uf cfg read_event open_channel t rd
      (replicate n (\<lambda>_. Response 200 [BodyEnd])) [] = (False, [])" for rd :: reader
    by (induction n arbitrary: rd) (simp_all add: closed)
  ultimately show ?thesis by (simp add: reader_new_def)
qed


text \<open>
  With mixed line ends the cut does matter: a frame that ends with two CR LF pairs is read
  alone when it arrives alone, but together with the next frame when that one ends with two
  line feeds and is in the buffer already, because two line feeds are looked for first.
\<close>

theorem sse_mixed_boundary:
  "let f = ''data:x'' @ crlf2; g = ''data:y'' @ lf2 in
   map (\<lambda>buffer. parse_sse_frame (take (the (find_sse_boundary buffer)) buffer)) [f, g, f @ g] =
   [Some (None, ''x''), Some (None, ''y''), Some (None, [CHR ''x'', CHR 0x0A, CHR ''y''])]"
  by code_simp

section \<open>Witnesses\<close>

definition demo_url :: base_url where
  "demo_url = \<lparr>bu_scheme = ''https'', bu_join = (\<lambda>p. Inr (''https://a/'' @ p))\<rparr>"

definition demo_cfg :: http_sse_config where
  "demo_cfg = http_sse_config_new demo_url"

definition demo_uaic :: uaic_event where
  "demo_uaic = \<lparr>ue_protocol = ''uaic/1'', ue_message_type = ''progress'', ue_task_id = 7, ue_seq = Some 1,
     ue_message = Some ''p'', ue_percent = None, ue_artifact = None, ue_request = None, ue_output = None,
     ue_error = None\<rparr>"

definition demo_read :: "string \<Rightarrow> string + uaic_event" where
  "demo_read data = Inr demo_uaic"

definition demo_frame :: string where
  "demo_frame = ''data:x'' @ lf2"

definition demo_reader :: reader where
  "demo_reader = \<lparr>rd_after_seq = 0, rd_attempts = 0, rd_backoff = 250000000\<rparr>"

lemma demo_reader_new: "demo_reader = reader_new demo_cfg"
  by (simp add: demo_reader_def reader_new_def demo_cfg_def http_sse_config_new_def)

lemma demo_boundary: "find_sse_boundary demo_frame = Some 6" "drain_boundary (drop 6 demo_frame) = []"
  "parse_sse_frame (take 6 demo_frame) = Some (None, ''x'')" "find_sse_boundary [] = None"
  by code_simp+

lemma demo_frames:
  "sse_frames demo_read alive 7 demo_frame a tx =
     (if 1 \<le> a then ((Continue a, []), tx)
      else if alive tx then ((Continue 1, []), tx @ [(Some 1, DvProgress ''p'' None)])
      else ((EndRead (Inl (DriverError ''task consumer closed'')), []), tx))"
  by (simp add: sse_frames.simps [of _ _ _ demo_frame] sse_frames.simps [of _ _ _ "[]"] demo_boundary handle_frame_def demo_read_def
      demo_uaic_def uaic_protocol_def map_uaic_event_def uaic_driver_event_def)

lemma demo_read_sse:
  "read_sse (\<lambda>_. []) hyphenated demo_cfg demo_read open_channel 7 a
     (\<lambda>_. Response 200 (BodyChunk demo_frame # items)) tx =
   (if 1 \<le> a then sse_body demo_read open_channel 262144 7 False [] a items tx
    else sse_body demo_read open_channel 262144 7 False [] 1 items (tx @ [(Some 1, DvProgress ''p'' None)]))"
proof -
  have "length demo_frame = 8" by code_simp
  then show ?thesis
    by (simp add: read_sse_def sse_endpoint_def demo_cfg_def http_sse_config_new_def demo_url_def ensure_success_def
        demo_frames)
qed

theorem sse_delivers_once_witness:
  "\<exists>new. snd (stream_events (\<lambda>_. []) (uf_print hyphenated) hyphenated demo_cfg demo_read open_channel 7 demo_reader
      (replicate 3 (\<lambda>_. Response 200 [BodyChunk demo_frame, BodyEnd])) []) = [] @ new \<and>
     sorted_wrt (<) (seqs new) \<and> list_all (\<lambda>n. rd_after_seq demo_reader < n) (seqs new)"
proof -
  have "never_fails (\<lambda>_. []) hyphenated demo_cfg demo_read open_channel 7 (\<lambda>_. Response 200 [BodyChunk demo_frame, BodyEnd])"
    by (simp add: never_fails_def demo_read_sse)
  then have "list_all (never_fails (\<lambda>_. []) hyphenated demo_cfg demo_read open_channel 7)
      (replicate 3 (\<lambda>_. Response 200 [BodyChunk demo_frame, BodyEnd]))"
    by (simp add: list_all_iff)
  then show ?thesis by (rule sse_delivers_once)
qed

theorem sse_error_redelivers_witness:
  "snd (stream_events (\<lambda>_. []) (uf_print hyphenated) hyphenated demo_cfg demo_read open_channel 7 demo_reader
      (replicate 2 (\<lambda>_. Response 200 [BodyChunk demo_frame, BodyError ''reset''])) []) =
   [(Some 1, DvProgress ''p'' None), (Some 1, DvProgress ''p'' None)]"
proof -
  have read: "read_sse (\<lambda>_. []) hyphenated demo_cfg demo_read open_channel 7 (rd_after_seq demo_reader)
      (\<lambda>_. Response 200 [BodyChunk demo_frame, BodyError ''reset'']) [] =
    (Some (Inl (DriverError ''SSE read failure: reset'')), [(Some 1, DvProgress ''p'' None)])"
    by (simp add: demo_read_sse demo_reader_def)
  have "rd_attempts demo_reader + 1 < hs_reconnect_attempts demo_cfg"
    by (simp add: demo_reader_def demo_cfg_def http_sse_config_new_def)
  from sse_error_redelivers [OF read this, of "uf_print hyphenated" "[]" "[]"] show ?thesis
    by (simp add: numeral_2_eq_2)
qed

theorem sse_reconnect_bound_witness:
  "fst (stream_events (\<lambda>_. []) (uf_print hyphenated) hyphenated demo_cfg demo_read open_channel 7 (reader_new demo_cfg)
      (replicate 9 (\<lambda>_. ConnectFailed ''refused'')) []) \<and>
   \<not> fst (stream_events (\<lambda>_. []) (uf_print hyphenated) hyphenated demo_cfg demo_read open_channel 7 (reader_new demo_cfg)
      (replicate 1000 (\<lambda>_. Response 200 [BodyEnd])) [])"
proof -
  have ok: "\<exists>url. sse_endpoint demo_cfg (''v1/uaic/tasks/'' @ uf_print hyphenated 7 @ ''/events'') = Inr url"
    by (simp add: sse_endpoint_def demo_cfg_def http_sse_config_new_def demo_url_def)
  have att: "hs_reconnect_attempts demo_cfg = 8" by (simp add: demo_cfg_def http_sse_config_new_def)
  from ok obtain url where url: "sse_endpoint demo_cfg (''v1/uaic/tasks/'' @ uf_print hyphenated 7 @ ''/events'') = Inr url"
    by blast
  note bound = sse_reconnect_bound [OF url, of "\<lambda>_. []" "uf_print hyphenated" demo_read]
  show ?thesis
    using conjunct1 [OF bound, of 9 "''refused''"] conjunct2 [OF bound, of 1000] att by simp
qed


end
