(* ===== verification/Stdio_Driver.thy ===== *)
theory Stdio_Driver
  imports Http_Sse
begin

text \<open>
  The crate \<open>driver-stdio\<close>: a driver that starts a child process, writes UAIC commands to
  its standard input and routes the lines of its standard output to the tasks. The UAIC
  types are those of the HTTP driver, which both crates declare. The child is an input: the
  lines it writes, when its output ends, how a write to it ends. The JSON reader of a line
  (\<open>read\<close>) and the JSON writer (\<open>to_vec\<close>) are \<open>serde_json\<close>, arguments of the model.

  The reader task, the commands and the receivers of the tasks run concurrently on the
  table of pending tasks and on channels with 128 places, so the driver is a transition
  system: a label is one atomic step of one of them.
\<close>

section \<open>Data\<close>

record stdio_driver_config =
  sd_id :: string
  sd_command :: string
  sd_args :: "string list"
  sd_working_dir :: "string option"
  sd_env :: "(string \<times> string) list"
  sd_startup_timeout :: nat
  sd_command_timeout :: nat
  sd_max_line_bytes :: nat
  sd_restart_on_crash :: bool

definition stdio_driver_config_default :: stdio_driver_config where
  "stdio_driver_config_default =
     \<lparr>sd_id = ''stdio-agent'', sd_command = ''./agent'', sd_args = [], sd_working_dir = None, sd_env = [],
      sd_startup_timeout = secs 10, sd_command_timeout = secs 15, sd_max_line_bytes = 1048576,
      sd_restart_on_crash = True\<rparr>"

record uaic_inbound =
  ub_protocol :: string
  ub_message_type :: string
  ub_task_id :: "task_id option"
  ub_capabilities :: "uaic_capabilities option"
  ub_agent :: "uaic_agent_identity option"
  ub_message :: "string option"
  ub_percent :: "u8 option"
  ub_artifact :: "artifact_ref option"
  ub_request :: "input_request option"
  ub_output :: "part list option"
  ub_error :: "public_error option"

section \<open>Commands\<close>

definition envelope :: "uuid_format \<Rightarrow> string \<Rightarrow> uuid \<Rightarrow> (string \<times> json) list \<Rightarrow> json" where
  "envelope uf message_type mid payload =
     JObject ([(''protocol'', JString uaic_protocol), (''type'', JString message_type),
       (''message_id'', JString (uf_print uf mid))] @ payload)"

definition initialize_command :: "uuid_format \<Rightarrow> uuid \<Rightarrow> json" where
  "initialize_command uf mid = envelope uf ''initialize'' mid []"

definition invoke_command :: "uuid_format \<Rightarrow> uuid \<Rightarrow> task_id \<Rightarrow> invoke_request \<Rightarrow> json" where
  "invoke_command uf mid t request =
     envelope uf ''invoke'' mid
       [(''task_id'', JString (uf_print uf t)), (''idempotency_key'', JString (rq_idempotency_key request)),
        (''session_id'', opt_json (\<lambda>s. JString (uf_print uf s)) (rq_session_id request)),
        (''input'', JArray (map uaic_part (rq_input request))), (''context'', rq_context request),
        (''deadline_ms'', opt_json (\<lambda>d. JNumber (PosInt (duration_millis d))) (rq_deadline request))]"

definition cancel_command :: "uuid_format \<Rightarrow> uuid \<Rightarrow> task_id \<Rightarrow> json" where
  "cancel_command uf mid t = envelope uf ''cancel'' mid [(''task_id'', JString (uf_print uf t))]"

definition input_command :: "uuid_format \<Rightarrow> uuid \<Rightarrow> task_id \<Rightarrow> part list \<Rightarrow> json" where
  "input_command uf mid t input =
     envelope uf ''provide_input'' mid
       [(''task_id'', JString (uf_print uf t)), (''input'', JArray (map uaic_part input))]"

text \<open>How \<open>write_all\<close> and \<open>flush\<close> on the standard input of the child end.\<close>

datatype pipe_result = PipeOk | PipeWriteFailed string | PipeFlushFailed string

text \<open>The line written, or the error.\<close>

definition write_command ::
  "(json \<Rightarrow> string + string) \<Rightarrow> nat \<Rightarrow> pipe_result \<Rightarrow> json \<Rightarrow> core_error + string" where
  "write_command to_vec max_line_bytes io command =
     (case to_vec command of
        Inl error \<Rightarrow> Inl (DriverError (''cannot encode UAIC command: '' @ error))
      | Inr encoded \<Rightarrow>
          if length encoded > max_line_bytes then Inl (InvalidRequest ''UAIC command exceeds max_line_bytes'')
          else
            (case io of
               PipeOk \<Rightarrow> Inr (encoded @ [CHR 0x0A])
             | PipeWriteFailed error \<Rightarrow> Inl (DriverError (''cannot write to agent stdin: '' @ error))
             | PipeFlushFailed error \<Rightarrow> Inl (DriverError (''cannot flush agent stdin: '' @ error))))"

section \<open>Lines\<close>

definition initialized_manifest :: "uaic_inbound \<Rightarrow> uaic_manifest" where
  "initialized_manifest m =
     \<lparr>um_protocol = ub_protocol m,
      um_agent = (case ub_agent m of Some a \<Rightarrow> a
        | None \<Rightarrow> \<lparr>ui_name = ''unnamed-agent'', ui_version = [], ui_description = []\<rparr>),
      um_capabilities = (case ub_capabilities m of Some c \<Rightarrow> c
        | None \<Rightarrow> \<lparr>uc_streaming = False, uc_cancellation = False, uc_provide_input = False, uc_status = False,
            uc_resume = False, uc_artifacts = False\<rparr>)\<rparr>"

definition inbound_event :: "uaic_inbound \<Rightarrow> driver_event option" where
  "inbound_event m =
     (if ub_message_type m = ''accepted'' then Some DvAccepted
      else if ub_message_type m = ''progress''
      then Some (DvProgress (case ub_message m of None \<Rightarrow> [] | Some s \<Rightarrow> s) (ub_percent m))
      else if ub_message_type m = ''artifact'' then map_option DvArtifact (ub_artifact m)
      else if ub_message_type m = ''input_required'' then map_option DvInputRequired (ub_request m)
      else if ub_message_type m = ''completed''
      then Some (DvCompleted (case ub_output m of None \<Rightarrow> [] | Some out \<Rightarrow> out))
      else if ub_message_type m = ''failed''
      then Some (DvFailed (case ub_error m of
             Some err \<Rightarrow> err
           | None \<Rightarrow> \<lparr>pe_code = ''agent_failed'',
               pe_message = (case ub_message m of None \<Rightarrow> ''agent failed'' | Some s \<Rightarrow> s), pe_retryable = False\<rparr>))
      else if ub_message_type m = ''cancelled'' then Some DvCancelled
      else None)"

datatype line_effect = LineIgnored | LineInitialized uaic_manifest | LineEvent task_id driver_event

definition classify_line :: "(string \<Rightarrow> uaic_inbound option) \<Rightarrow> nat \<Rightarrow> string \<Rightarrow> line_effect" where
  "classify_line read max_line_bytes line =
     (if length line > max_line_bytes then LineIgnored
      else
        (case read line of
           None \<Rightarrow> LineIgnored
         | Some m \<Rightarrow>
             if ub_protocol m \<noteq> uaic_protocol then LineIgnored
             else if ub_message_type m = ''initialized'' then LineInitialized (initialized_manifest m)
             else
               (case ub_task_id m of
                  None \<Rightarrow> LineIgnored
                | Some t \<Rightarrow> (case inbound_event m of None \<Rightarrow> LineIgnored | Some ev \<Rightarrow> LineEvent t ev))))"

section \<open>The process\<close>

text \<open>
  A channel: the task it was made for, the events queued and those received, and whether
  its receiver is still there. A channel is named by its index. The reader holds an event
  in its hand while \<open>sender.send(event).await\<close> waits for a place; it reads no line then.
  \<open>sp_init\<close>: the sender of the manifest has not been used. \<open>sp_busy\<close>: the invocation
  that is writing its command, with the lock of the process held.
\<close>

record stdio_channel =
  ch_task :: task_id
  ch_queue :: "driver_event list"
  ch_taken :: "driver_event list"
  ch_open :: bool

record stdio_process =
  sp_pending :: "(task_id \<times> nat) list"
  sp_channels :: "stdio_channel list"
  sp_hand :: "(nat \<times> driver_event) option"
  sp_reading :: bool
  sp_init :: bool
  sp_manifest :: "uaic_manifest option"
  sp_busy :: "(task_id \<times> nat) option"
  sp_stdin :: "string list"

definition stdio_process_new :: stdio_process where
  "stdio_process_new =
     \<lparr>sp_pending = [], sp_channels = [], sp_hand = None, sp_reading = True, sp_init = True, sp_manifest = None,
      sp_busy = None, sp_stdin = []\<rparr>"

definition channel_places :: nat where
  "channel_places = 128"

definition pending_insert :: "task_id \<Rightarrow> nat \<Rightarrow> (task_id \<times> nat) list \<Rightarrow> (task_id \<times> nat) list" where
  "pending_insert t c pend = (t, c) # filter (\<lambda>e. fst e \<noteq> t) pend"

definition pending_remove :: "task_id \<Rightarrow> (task_id \<times> nat) list \<Rightarrow> (task_id \<times> nat) list" where
  "pending_remove t pend = filter (\<lambda>e. fst e \<noteq> t) pend"

definition process_closed :: driver_event where
  "process_closed =
     DvFailed \<lparr>pe_code = ''agent_process_closed'', pe_message = ''agent stdout closed'', pe_retryable = True\<rparr>"

text \<open>\<open>try_send\<close>: dropped when the channel is full or its receiver is gone.\<close>

definition try_send :: "driver_event \<Rightarrow> stdio_channel \<Rightarrow> stdio_channel" where
  "try_send ev ch =
     (if ch_open ch \<and> length (ch_queue ch) < channel_places then ch\<lparr>ch_queue := ch_queue ch @ [ev]\<rparr> else ch)"

text \<open>The end of the loop: every pending task is told.\<close>

definition reader_stop :: "stdio_process \<Rightarrow> stdio_process" where
  "reader_stop p =
     p\<lparr>sp_reading := False, sp_init := False, sp_pending := [],
       sp_channels := fold (\<lambda>(t, c) chs. chs[c := try_send process_closed (chs ! c)]) (sp_pending p) (sp_channels p)\<rparr>"

text \<open>A line of the output, up to its line feed. \<open>next_line\<close> fails on a line that is not
  UTF-8, which ends the loop.\<close>

definition reader_line :: "(string \<Rightarrow> uaic_inbound option) \<Rightarrow> nat \<Rightarrow> string \<Rightarrow> stdio_process \<Rightarrow> stdio_process" where
  "reader_line read max_line_bytes bytes p =
     (case from_utf8 bytes of
        None \<Rightarrow> reader_stop p
      | Some text \<Rightarrow>
          (case classify_line read max_line_bytes (strip_cr text) of
             LineIgnored \<Rightarrow> p
           | LineInitialized manifest \<Rightarrow>
               if sp_init p then p\<lparr>sp_init := False, sp_manifest := Some manifest\<rparr> else p
           | LineEvent t ev \<Rightarrow>
               (case map_of (sp_pending p) t of
                  None \<Rightarrow> p
                | Some c \<Rightarrow>
                    p\<lparr>sp_pending := (if dv_terminal ev then pending_remove t (sp_pending p) else sp_pending p),
                      sp_hand := Some (c, ev)\<rparr>)))"

text \<open>The send of the event in hand: it waits for a place, and gives up when the receiver is
  gone.\<close>

definition reader_send :: "stdio_process \<Rightarrow> stdio_process option" where
  "reader_send p =
     (case sp_hand p of
        None \<Rightarrow> None
      | Some (c, ev) \<Rightarrow>
          if ch_open (sp_channels p ! c) \<and> length (ch_queue (sp_channels p ! c)) \<ge> channel_places then None
          else Some (p\<lparr>sp_hand := None, sp_channels := (sp_channels p)[c := try_send ev (sp_channels p ! c)]\<rparr>))"

definition receive :: "nat \<Rightarrow> stdio_process \<Rightarrow> stdio_process option" where
  "receive c p =
     (if c < length (sp_channels p) \<and> ch_open (sp_channels p ! c)
      then (case ch_queue (sp_channels p ! c) of
              [] \<Rightarrow> None
            | ev # evs \<Rightarrow>
                Some (p\<lparr>sp_channels := (sp_channels p)[c := (sp_channels p ! c)
                  \<lparr>ch_queue := evs, ch_taken := ch_taken (sp_channels p ! c) @ [ev]\<rparr>]\<rparr>))
      else None)"

definition drop_receiver :: "nat \<Rightarrow> stdio_process \<Rightarrow> stdio_process" where
  "drop_receiver c p = p\<lparr>sp_channels := (sp_channels p)[c := (sp_channels p ! c)\<lparr>ch_open := False\<rparr>]\<rparr>"

text \<open>\<open>invoke\<close>: the table first, then the write; a failed write takes the entry back, and
  an invocation that is dropped while it writes leaves it there.\<close>

definition invoke_begin :: "task_id \<Rightarrow> stdio_process \<Rightarrow> stdio_process" where
  "invoke_begin t p =
     (let c = length (sp_channels p) in
      p\<lparr>sp_channels := sp_channels p @ [\<lparr>ch_task = t, ch_queue = [], ch_taken = [], ch_open = True\<rparr>],
        sp_pending := pending_insert t c (sp_pending p), sp_busy := Some (t, c)\<rparr>)"

definition invoke_end :: "task_id \<Rightarrow> nat \<Rightarrow> core_error + string \<Rightarrow> stdio_process \<Rightarrow> stdio_process" where
  "invoke_end t c written p =
     (case written of
        Inr line \<Rightarrow> p\<lparr>sp_busy := None, sp_stdin := sp_stdin p @ [line]\<rparr>
      | Inl e \<Rightarrow> drop_receiver c (p\<lparr>sp_busy := None, sp_pending := pending_remove t (sp_pending p)\<rparr>))"

definition invoke_dropped :: "nat \<Rightarrow> stdio_process \<Rightarrow> stdio_process" where
  "invoke_dropped c p = drop_receiver c (p\<lparr>sp_busy := None\<rparr>)"

datatype stdio_label =
    ReadLine string
  | ReadEnd
  | SendHand
  | Receive nat
  | DropReceiver nat
  | BeginInvoke task_id
  | EndInvoke task_id "core_error + string"
  | DropInvoke task_id
  | WriteLine string

fun stdio_step ::
  "(string \<Rightarrow> uaic_inbound option) \<Rightarrow> nat \<Rightarrow> stdio_label \<Rightarrow> stdio_process \<Rightarrow> stdio_process option" where
  "stdio_step read limit (ReadLine bytes) p =
     (if sp_reading p \<and> sp_hand p = None then Some (reader_line read limit bytes p) else None)"
| "stdio_step read limit ReadEnd p = (if sp_reading p \<and> sp_hand p = None then Some (reader_stop p) else None)"
| "stdio_step read limit SendHand p = reader_send p"
| "stdio_step read limit (Receive c) p = receive c p"
| "stdio_step read limit (DropReceiver c) p =
     (if c < length (sp_channels p) \<and> map_option snd (sp_busy p) \<noteq> Some c then Some (drop_receiver c p) else None)"
| "stdio_step read limit (BeginInvoke t) p = (if sp_busy p = None then Some (invoke_begin t p) else None)"
| "stdio_step read limit (EndInvoke t written) p =
     (case sp_busy p of
        Some (t', c) \<Rightarrow> if t' = t then Some (invoke_end t c written p) else None
      | None \<Rightarrow> None)"
| "stdio_step read limit (DropInvoke t) p =
     (case sp_busy p of
        Some (t', c) \<Rightarrow> if t' = t then Some (invoke_dropped c p) else None
      | None \<Rightarrow> None)"
| "stdio_step read limit (WriteLine line) p =
     (if sp_busy p = None then Some (p\<lparr>sp_stdin := sp_stdin p @ [line]\<rparr>) else None)"

fun stdio_run ::
  "(string \<Rightarrow> uaic_inbound option) \<Rightarrow> nat \<Rightarrow> stdio_label list \<Rightarrow> stdio_process \<Rightarrow> stdio_process option" where
  "stdio_run read limit [] p = Some p"
| "stdio_run read limit (l # ls) p = Option.bind (stdio_step read limit l p) (stdio_run read limit ls)"

section \<open>The driver\<close>

text \<open>Starting: the spawn and its pipes, the write of \<open>initialize\<close>, and the lines that
  arrive (\<open>None\<close> is the end) until the manifest is there or the timer fires.\<close>

datatype spawn_result = SpawnFailed string | NoStdin | NoStdout | Spawned

definition read_output :: "(string \<Rightarrow> uaic_inbound option) \<Rightarrow> nat \<Rightarrow> string option \<Rightarrow> stdio_process \<Rightarrow> stdio_process" where
  "read_output read limit out p =
     (if sp_reading p then (case out of Some bytes \<Rightarrow> reader_line read limit bytes p | None \<Rightarrow> reader_stop p) else p)"

definition start_process ::
  "(string \<Rightarrow> uaic_inbound option) \<Rightarrow> stdio_driver_config \<Rightarrow> spawn_result \<Rightarrow> core_error + string \<Rightarrow> string option list \<Rightarrow>
     core_error + stdio_process" where
  "start_process read cfg spawned written outputs =
     (case spawned of
        SpawnFailed error \<Rightarrow> Inl (DriverError (''cannot start '' @ sd_command cfg @ '': '' @ error))
      | NoStdin \<Rightarrow> Inl (DriverError ''agent stdin unavailable'')
      | NoStdout \<Rightarrow> Inl (DriverError ''agent stdout unavailable'')
      | Spawned \<Rightarrow>
          (case written of
             Inl e \<Rightarrow> Inl e
           | Inr line \<Rightarrow>
               (let p = fold (read_output read (sd_max_line_bytes cfg)) outputs (stdio_process_new\<lparr>sp_stdin := [line]\<rparr>) in
                case sp_manifest p of
                  Some manifest \<Rightarrow>
                    if um_protocol manifest \<noteq> uaic_protocol
                    then Inl (DriverError (''unsupported UAIC protocol: '' @ um_protocol manifest))
                    else Inr p
                | None \<Rightarrow>
                    if sp_reading p then Inl (DriverError ''agent initialize timeout'')
                    else Inl (DriverError ''agent closed before initialize''))))"

text \<open>The process slot of the driver; \<open>starting\<close> is what \<open>start_process\<close> gives.\<close>

definition ensure_started ::
  "core_error + stdio_process \<Rightarrow> stdio_process option \<Rightarrow> (core_error + unit) \<times> stdio_process option" where
  "ensure_started starting slot =
     (case slot of
        Some p \<Rightarrow> (Inr (), slot)
      | None \<Rightarrow> (case starting of Inl e \<Rightarrow> (Inl e, None) | Inr p \<Rightarrow> (Inr (), Some p)))"

text \<open>\<open>Child::id\<close> is \<open>None\<close> only for a child that has been waited for, which the driver
  never does; it is an argument.\<close>

definition stdio_health ::
  "core_error + stdio_process \<Rightarrow> nat option \<Rightarrow> stdio_process option \<Rightarrow> (core_error + unit) \<times> stdio_process option" where
  "stdio_health starting child_id slot =
     (case ensure_started starting slot of
        (Inl e, slot') \<Rightarrow> (Inl e, slot')
      | (Inr _, slot') \<Rightarrow>
          (case slot' of
             None \<Rightarrow> (Inl (DriverError ''agent process unavailable''), slot')
           | Some p \<Rightarrow>
               (if child_id = None then Inl (DriverError ''agent process exited'') else Inr (), slot')))"

text \<open>What \<open>cancel\<close> and \<open>provide_input\<close> share: the capability of the manifest, then the
  write of the command.\<close>

definition stdio_command ::
  "(uaic_capabilities \<Rightarrow> bool) \<Rightarrow> string \<Rightarrow> core_error + string \<Rightarrow> core_error + stdio_process \<Rightarrow> stdio_process option \<Rightarrow>
     (core_error + unit) \<times> stdio_process option" where
  "stdio_command capability unsupported written starting slot =
     (case ensure_started starting slot of
        (Inl e, slot') \<Rightarrow> (Inl e, slot')
      | (Inr _, slot') \<Rightarrow>
          (case slot' of
             None \<Rightarrow> (Inl (DriverError ''agent process unavailable''), slot')
           | Some p \<Rightarrow>
               if \<not> (case sp_manifest p of Some m \<Rightarrow> capability (um_capabilities m) | None \<Rightarrow> False)
               then (Inl (InvalidRequest unsupported), slot')
               else
                 (case written of
                    Inl e \<Rightarrow> (Inl e, slot')
                  | Inr line \<Rightarrow> (Inr (), Some (p\<lparr>sp_stdin := sp_stdin p @ [line]\<rparr>)))))"

definition stdio_cancel where
  "stdio_cancel to_vec uf cfg io mid t starting slot =
     stdio_command uc_cancellation ''agent does not support cancellation''
       (write_command to_vec (sd_max_line_bytes cfg) io (cancel_command uf mid t)) starting slot"

definition stdio_provide_input where
  "stdio_provide_input to_vec uf cfg io mid t input starting slot =
     stdio_command uc_provide_input ''agent does not support provide_input''
       (write_command to_vec (sd_max_line_bytes cfg) io (input_command uf mid t input)) starting slot"

text \<open>The manifest can only come from a line of the right protocol, so the check of
  \<open>start_process\<close> never refuses.\<close>

lemma classify_initialized: "classify_line read limit l = LineInitialized m \<Longrightarrow> um_protocol m = uaic_protocol"
  by (auto simp: classify_line_def initialized_manifest_def split: if_splits option.splits)

definition manifest_ok :: "stdio_process \<Rightarrow> bool" where
  "manifest_ok p \<longleftrightarrow> (case sp_manifest p of Some m \<Rightarrow> um_protocol m = uaic_protocol | None \<Rightarrow> True)"

lemma manifest_ok_stop [simp]: "manifest_ok (reader_stop p) = manifest_ok p"
  by (simp add: manifest_ok_def reader_stop_def)

lemma manifest_ok_line: "manifest_ok p \<Longrightarrow> manifest_ok (reader_line read limit bytes p)"
proof (cases "from_utf8 bytes")
  case (Some str)
  assume ok: "manifest_ok p"
  show ?thesis
  proof (cases "classify_line read limit (strip_cr str)")
    case (LineInitialized m)
    then have "um_protocol m = uaic_protocol" by (rule classify_initialized)
    with Some LineInitialized ok show ?thesis by (simp add: reader_line_def manifest_ok_def)
  next
    case (LineEvent t ev)
    then have "sp_manifest (reader_line read limit bytes p) = sp_manifest p"
      using Some by (cases "map_of (sp_pending p) t") (simp_all add: reader_line_def)
    with ok show ?thesis by (simp add: manifest_ok_def)
  qed (use Some ok in \<open>simp add: reader_line_def\<close>)
qed (simp add: reader_line_def)

lemma start_process_protocol:
  assumes "start_process read cfg spawned (Inr line) outputs = Inl e"
  shows "e \<noteq> DriverError (''unsupported UAIC protocol: '' @ s)"
proof -
  let ?p = "fold (read_output read (sd_max_line_bytes cfg)) outputs (stdio_process_new\<lparr>sp_stdin := [line]\<rparr>)"
  have "manifest_ok p \<Longrightarrow> manifest_ok (fold (read_output read limit) outputs p)" for limit p
    by (induction outputs arbitrary: p) (simp_all add: read_output_def manifest_ok_line split: option.split)
  then have "manifest_ok ?p" by (simp add: manifest_ok_def stdio_process_new_def)
  then show ?thesis
    using assms by (auto simp: start_process_def Let_def manifest_ok_def split: spawn_result.splits option.splits if_splits)
qed

section \<open>Routing\<close>

definition delivered :: "stdio_process \<Rightarrow> nat \<Rightarrow> driver_event list" where
  "delivered p c =
     ch_taken (sp_channels p ! c) @ ch_queue (sp_channels p ! c) @
     (case sp_hand p of Some (c', ev) \<Rightarrow> if c' = c then [ev] else [] | None \<Rightarrow> [])"

text \<open>What a label gives to a task, and whether the task is still pending after it.\<close>

definition route ::
  "(string \<Rightarrow> uaic_inbound option) \<Rightarrow> nat \<Rightarrow> task_id \<Rightarrow> bool \<Rightarrow> stdio_label \<Rightarrow> driver_event list \<times> bool" where
  "route read limit t live l =
     (if \<not> live then ([], False)
      else
        (case l of
           ReadEnd \<Rightarrow> ([process_closed], False)
         | ReadLine bytes \<Rightarrow>
             (case from_utf8 bytes of
                None \<Rightarrow> ([process_closed], False)
              | Some text \<Rightarrow>
                  (case classify_line read limit (strip_cr text) of
                     LineEvent t' ev \<Rightarrow> if t' = t then ([ev], \<not> dv_terminal ev) else ([], True)
                   | _ \<Rightarrow> ([], True)))
         | _ \<Rightarrow> ([], True)))"

fun routed :: "(string \<Rightarrow> uaic_inbound option) \<Rightarrow> nat \<Rightarrow> task_id \<Rightarrow> bool \<Rightarrow> stdio_label list \<Rightarrow> driver_event list" where
  "routed read limit t live [] = []"
| "routed read limit t live (l # ls) =
     fst (route read limit t live l) @ routed read limit t (snd (route read limit t live l)) ls"

text \<open>The labels that leave the invocation of \<open>t\<close> with channel \<open>c\<close> alone: its task is not
  invoked again, its write does not fail, and its receiver stays.\<close>

fun untouched :: "task_id \<Rightarrow> nat \<Rightarrow> stdio_label \<Rightarrow> bool" where
  "untouched t c (BeginInvoke t') \<longleftrightarrow> t' \<noteq> t"
| "untouched t c (EndInvoke t' written) \<longleftrightarrow> t' \<noteq> t \<or> is_ok written"
| "untouched t c (DropInvoke t') \<longleftrightarrow> t' \<noteq> t"
| "untouched t c (DropReceiver c') \<longleftrightarrow> c' \<noteq> c"
| "untouched t c _ \<longleftrightarrow> True"

abbreviation tasks_of :: "stdio_process \<Rightarrow> task_id list" where
  "tasks_of p \<equiv> map ch_task (sp_channels p)"

text \<open>The table has one entry per task, and each entry names a channel of its task.\<close>

definition names_channel :: "task_id list \<Rightarrow> task_id \<times> nat \<Rightarrow> bool" where
  "names_channel ts e \<longleftrightarrow> snd e < length ts \<and> ts ! snd e = fst e"

definition stdio_wf :: "stdio_process \<Rightarrow> bool" where
  "stdio_wf p \<longleftrightarrow>
     distinct (map fst (sp_pending p)) \<and> list_all (names_channel (tasks_of p)) (sp_pending p) \<and>
     pred_option (\<lambda>e. fst e < length (tasks_of p)) (sp_hand p) \<and> pred_option (names_channel (tasks_of p)) (sp_busy p)"

lemma try_send_simps [simp]:
  "ch_task (try_send ev ch) = ch_task ch" "ch_taken (try_send ev ch) = ch_taken ch" "ch_open (try_send ev ch) = ch_open ch"
  by (simp_all add: try_send_def)

lemma update_task [simp]: "ch_task ch = ch_task (chs ! c) \<Longrightarrow> map ch_task (chs[c := ch]) = map ch_task chs"
  by (cases "c < length chs") (simp_all add: map_update list_update_same_conv list_update_beyond)

lemma pending_simps [simp]:
  "map_of (pending_insert t c pend) = (map_of pend)(t \<mapsto> c)"
  "map_of (pending_remove t pend) = (map_of pend)(t := None)"
proof -
  have rem: "map_of (filter (\<lambda>e. fst e \<noteq> t) pend) = (map_of pend)(t := None)"
    by (induction pend) auto
  then show "map_of (pending_insert t c pend) = (map_of pend)(t \<mapsto> c)"
    "map_of (pending_remove t pend) = (map_of pend)(t := None)"
    by (simp_all add: pending_insert_def pending_remove_def)
qed

lemma pending_distinct [simp]:
  "distinct (map fst pend) \<Longrightarrow> distinct (map fst (pending_insert t c pend))"
  "distinct (map fst pend) \<Longrightarrow> distinct (map fst (pending_remove t pend))"
  by (auto simp: pending_insert_def pending_remove_def distinct_map_filter)

lemma pending_all:
  "list_all P pend \<Longrightarrow> list_all P (pending_remove t pend)"
  "list_all P pend \<Longrightarrow> P (t, c) \<Longrightarrow> list_all P (pending_insert t c pend)"
  by (auto simp: pending_remove_def pending_insert_def list_all_iff)

lemma names_channel_append: "names_channel ts e \<Longrightarrow> names_channel (ts @ us) e"
  by (simp add: names_channel_def nth_append)

abbreviation tell_pending :: "(task_id \<times> nat) list \<Rightarrow> stdio_channel list \<Rightarrow> stdio_channel list" where
  "tell_pending pend chs \<equiv> fold (\<lambda>(t, c) chs. chs[c := try_send process_closed (chs ! c)]) pend chs"

lemma tell_pending_tasks [simp]: "map ch_task (tell_pending pend chs) = map ch_task chs"
  by (induction pend arbitrary: chs) auto

lemma tell_pending_length [simp]: "length (tell_pending pend chs) = length chs"
  by (induction pend arbitrary: chs) auto

lemma tell_pending_nth:
  assumes "distinct (map fst pend)" "list_all (names_channel (map ch_task chs)) pend" "c < length chs"
  shows "tell_pending pend chs ! c =
    (if (ch_task (chs ! c), c) \<in> set pend then try_send process_closed (chs ! c) else chs ! c)"
  using assms
proof (induction pend arbitrary: chs)
  case (Cons e pend)
  obtain t d where e: "e = (t, d)" by fastforce
  let ?chs = "chs[d := try_send process_closed (chs ! d)]"
  have d: "d < length chs" "ch_task (chs ! d) = t" using Cons.prems(2) e by (auto simp: names_channel_def)
  have ih: "tell_pending pend ?chs ! c =
      (if (ch_task (?chs ! c), c) \<in> set pend then try_send process_closed (?chs ! c) else ?chs ! c)"
    using Cons.prems by (intro Cons.IH) auto
  show ?case
  proof (cases "c = d")
    case True
    then have "(t, c) \<notin> set pend" using Cons.prems(1) e by force
    with True ih d e show ?thesis by simp
  next
    case False
    with ih e show ?thesis by auto
  qed
qed simp

lemma stdio_wf_stop: "stdio_wf p \<Longrightarrow> stdio_wf (reader_stop p)"
  by (simp add: stdio_wf_def reader_stop_def)

lemma stdio_wf_line: "stdio_wf p \<Longrightarrow> sp_hand p = None \<Longrightarrow> stdio_wf (reader_line read limit bytes p)"
proof (cases "from_utf8 bytes")
  case None
  assume "stdio_wf p"
  with None show ?thesis by (simp add: reader_line_def stdio_wf_stop)
next
  case (Some str)
  assume p: "stdio_wf p" "sp_hand p = None"
  show ?thesis
  proof (cases "classify_line read limit (strip_cr str)")
    case (LineEvent t ev)
    show ?thesis
    proof (cases "map_of (sp_pending p) t")
      case (Some c)
      then have "(t, c) \<in> set (sp_pending p)" by (rule map_of_SomeD)
      with p(1) have "c < length (sp_channels p)" by (auto simp: stdio_wf_def list_all_iff names_channel_def)
      with \<open>from_utf8 bytes = Some str\<close> LineEvent Some p show ?thesis
        by (auto simp: reader_line_def stdio_wf_def pending_all)
    qed (use Some LineEvent p in \<open>simp add: reader_line_def\<close>)
  qed (use Some p in \<open>auto simp: reader_line_def stdio_wf_def\<close>)
qed

lemma drop_receiver_tasks [simp]: "tasks_of (drop_receiver c p) = tasks_of p"
  by (simp add: drop_receiver_def)

lemma drop_receiver_simps [simp]:
  "sp_pending (drop_receiver c p) = sp_pending p" "sp_hand (drop_receiver c p) = sp_hand p"
  "sp_busy (drop_receiver c p) = sp_busy p" "sp_reading (drop_receiver c p) = sp_reading p"
  "length (sp_channels (drop_receiver c p)) = length (sp_channels p)"
  by (simp_all add: drop_receiver_def)

lemma stdio_wf_step:
  assumes "stdio_wf p" "stdio_step read limit l p = Some p'"
  shows "stdio_wf p'"
proof (cases l)
  case (ReadLine bytes)
  with assms show ?thesis by (auto simp: stdio_wf_line split: if_splits)
next
  case ReadEnd
  with assms show ?thesis by (auto simp: stdio_wf_stop split: if_splits)
next
  case SendHand
  with assms show ?thesis by (auto simp: stdio_wf_def reader_send_def split: option.splits if_splits)
next
  case (Receive c)
  with assms show ?thesis by (auto simp: stdio_wf_def receive_def split: option.splits if_splits list.splits)
next
  case (DropReceiver c)
  with assms show ?thesis by (auto simp: stdio_wf_def split: if_splits)
next
  case (BeginInvoke t)
  with assms have p': "p' = invoke_begin t p" by (simp split: if_splits)
  let ?ts = "tasks_of p @ [t]"
  have "list_all (names_channel ?ts) (sp_pending p)"
    using assms(1) by (auto simp: stdio_wf_def list_all_iff names_channel_append)
  moreover have "names_channel ?ts (t, length (sp_channels p))"
    using nth_append_length [of "tasks_of p" t "[]"] by (simp add: names_channel_def)
  ultimately show ?thesis
    using assms(1) p' unfolding stdio_wf_def invoke_begin_def Let_def
    by (cases "sp_hand p") (auto simp: pending_all)
next
  case (EndInvoke t written)
  with assms show ?thesis
    by (auto simp: stdio_wf_def invoke_end_def pending_all split: option.splits if_splits sum.splits)
next
  case (DropInvoke t)
  with assms show ?thesis by (auto simp: stdio_wf_def invoke_dropped_def split: option.splits if_splits)
next
  case (WriteLine line)
  with assms show ?thesis by (auto simp: stdio_wf_def split: if_splits)
qed

text \<open>The invocation of \<open>t\<close> with channel \<open>c\<close>: its receiver is there and has been given
  \<open>h\<close>; the task is pending or not.\<close>

definition tracks :: "task_id \<Rightarrow> nat \<Rightarrow> bool \<Rightarrow> driver_event list \<Rightarrow> stdio_process \<Rightarrow> bool" where
  "tracks t c live h p \<longleftrightarrow>
     c < length (sp_channels p) \<and> ch_task (sp_channels p ! c) = t \<and> ch_open (sp_channels p ! c) \<and>
     delivered p c = h \<and> (live \<longleftrightarrow> map_of (sp_pending p) t = Some c)"

lemma wf_pending_task:
  "stdio_wf p \<Longrightarrow> map_of (sp_pending p) t = Some c \<Longrightarrow> c < length (sp_channels p) \<and> ch_task (sp_channels p ! c) = t"
  by (auto dest!: map_of_SomeD simp: stdio_wf_def list_all_iff names_channel_def)

lemma tracks_stop:
  assumes "stdio_wf p" "tracks t c live h p" "sp_hand p = None"
  shows "tracks t c False (if live then h @ [process_closed] else h) (reader_stop p) \<or>
    live \<and> channel_places \<le> length h \<and> tracks t c False h (reader_stop p)"
proof -
  have c: "c < length (sp_channels p)" "ch_task (sp_channels p ! c) = t" using assms(2) by (auto simp: tracks_def)
  have "(t, c) \<in> set (sp_pending p) \<longleftrightarrow> live"
    using assms(1,2) by (auto simp: tracks_def stdio_wf_def dest: map_of_SomeD)
  then have ch: "sp_channels (reader_stop p) ! c =
      (if live then try_send process_closed (sp_channels p ! c) else sp_channels p ! c)"
    using tell_pending_nth [of "sp_pending p" "sp_channels p" c] assms(1) c by (simp add: reader_stop_def stdio_wf_def)
  have other: "length (sp_channels (reader_stop p)) = length (sp_channels p)" "sp_pending (reader_stop p) = []"
    "sp_hand (reader_stop p) = None"
    using assms(3) by (simp_all add: reader_stop_def)
  show ?thesis
  proof (cases live)
    case False
    with ch other assms(2,3) show ?thesis by (simp add: tracks_def delivered_def)
  next
    case True
    with ch other assms(2,3) show ?thesis by (auto simp: tracks_def delivered_def try_send_def)
  qed
qed

lemma tracks_event:
  assumes wf: "stdio_wf p" and tr: "tracks t c live h p" and hand: "sp_hand p = None" and c': "map_of (sp_pending p) t' = Some c'"
    and p': "p' = p\<lparr>sp_pending := (if dv_terminal ev then pending_remove t' (sp_pending p) else sp_pending p),
      sp_hand := Some (c', ev)\<rparr>"
  shows "tracks t c (live \<and> \<not> (t' = t \<and> dv_terminal ev)) (if live \<and> t' = t then h @ [ev] else h) p'"
proof (cases "t' = t \<and> live")
  case True
  then have "c' = c" using tr c' by (simp add: tracks_def)
  with True tr hand show ?thesis unfolding p' by (simp add: tracks_def delivered_def)
next
  case False
  have "c' \<noteq> c"
  proof
    assume "c' = c"
    then have "t' = t" using wf_pending_task [OF wf c'] tr by (simp add: tracks_def)
    with \<open>c' = c\<close> c' tr have live by (simp add: tracks_def)
    with False \<open>t' = t\<close> show False by simp
  qed
  with False tr hand c' show ?thesis unfolding p' by (auto simp: tracks_def delivered_def)
qed

definition track_result ::
  "task_id \<Rightarrow> nat \<Rightarrow> driver_event list \<Rightarrow> driver_event list \<times> bool \<Rightarrow> stdio_process \<Rightarrow> bool" where
  "track_result t c h r p \<longleftrightarrow>
     tracks t c (snd r) (h @ fst r) p \<or>
     r = ([process_closed], False) \<and> channel_places \<le> length h \<and> tracks t c False h p"

lemma route_idle: "(\<And>b. l \<noteq> ReadLine b) \<Longrightarrow> l \<noteq> ReadEnd \<Longrightarrow> route read limit t live l = ([], live)"
  by (cases l) (auto simp: route_def)

lemma track_quiet: "tracks t c live h p \<Longrightarrow> track_result t c h ([], live) p"
  by (simp add: track_result_def)

lemma track_stop_result:
  assumes "stdio_wf p" "tracks t c live h p" "sp_hand p = None"
  shows "track_result t c h (if live then ([process_closed], False) else ([], False)) (reader_stop p)"
  using tracks_stop [OF assms] by (auto simp: track_result_def)

lemma track_line:
  assumes "stdio_wf p" "tracks t c live h p" "sp_hand p = None"
  shows "track_result t c h (route read limit t live (ReadLine bytes)) (reader_line read limit bytes p)"
proof (cases "from_utf8 bytes")
  case None
  with track_stop_result [OF assms] show ?thesis by (cases live) (simp_all add: route_def reader_line_def)
next
  case (Some str)
  show ?thesis
  proof (cases "classify_line read limit (strip_cr str)")
    case (LineEvent t' ev)
    show ?thesis
    proof (cases "map_of (sp_pending p) t'")
      case None
      then have "live \<Longrightarrow> t' \<noteq> t" using assms(2) by (auto simp: tracks_def)
      with None Some LineEvent assms(2) show ?thesis
        by (auto simp: route_def reader_line_def track_result_def)
    next
      case c': (Some c')
      have "reader_line read limit bytes p = p\<lparr>sp_pending := (if dv_terminal ev then pending_remove t' (sp_pending p) else sp_pending p),
          sp_hand := Some (c', ev)\<rparr>"
        using Some LineEvent c' by (simp add: reader_line_def)
      from tracks_event [OF assms c' this] Some LineEvent show ?thesis
        by (auto simp: route_def track_result_def split: if_splits)
    qed
  next
    case LineIgnored
    with Some assms(2) show ?thesis by (cases live) (simp_all add: route_def reader_line_def track_result_def)
  next
    case (LineInitialized m)
    with Some assms(2) show ?thesis
      by (cases live) (simp_all add: route_def reader_line_def track_result_def tracks_def delivered_def)
  qed
qed

lemma track_step:
  assumes "stdio_wf p" "tracks t c live h p" "untouched t c l" "stdio_step read limit l p = Some p'"
  shows "track_result t c h (route read limit t live l) p'"
proof (cases l)
  case (ReadLine bytes)
  with assms(4) have "p' = reader_line read limit bytes p" "sp_hand p = None" by (simp_all split: if_splits)
  with track_line [OF assms(1,2)] ReadLine show ?thesis by simp
next
  case ReadEnd
  with assms have "p' = reader_stop p" "sp_hand p = None" by (simp_all split: if_splits)
  with track_stop_result [OF assms(1,2)] ReadEnd show ?thesis by (cases live) (simp_all add: route_def)
next
  case SendHand
  with assms(4) obtain d ev where hand: "sp_hand p = Some (d, ev)"
    "\<not> (ch_open (sp_channels p ! d) \<and> length (ch_queue (sp_channels p ! d)) \<ge> channel_places)"
    "p' = p\<lparr>sp_hand := None, sp_channels := (sp_channels p)[d := try_send ev (sp_channels p ! d)]\<rparr>"
    by (auto simp: reader_send_def split: option.splits if_splits)
  have "tracks t c live h p'"
    using assms(2) hand by (cases "d = c") (auto simp: tracks_def delivered_def try_send_def)
  with SendHand show ?thesis by (simp add: route_idle track_quiet)
next
  case (Receive d)
  with assms(4) obtain ev evs where q: "d < length (sp_channels p)" "ch_queue (sp_channels p ! d) = ev # evs"
    "p' = p\<lparr>sp_channels := (sp_channels p)[d := (sp_channels p ! d)\<lparr>ch_queue := evs, ch_taken := ch_taken (sp_channels p ! d) @ [ev]\<rparr>]\<rparr>"
    by (auto simp: receive_def split: list.splits if_splits)
  have "tracks t c live h p'"
    using assms(2) q by (cases "d = c") (auto simp: tracks_def delivered_def)
  with Receive show ?thesis by (simp add: route_idle track_quiet)
next
  case (DropReceiver d)
  with assms have "tracks t c live h p'" by (auto simp: tracks_def delivered_def drop_receiver_def split: if_splits)
  with DropReceiver show ?thesis by (simp add: route_idle track_quiet)
next
  case (BeginInvoke t')
  with assms have "p' = invoke_begin t' p" "t' \<noteq> t" by (simp_all split: if_splits)
  with assms(2) have "tracks t c live h p'" by (auto simp: tracks_def delivered_def invoke_begin_def Let_def nth_append)
  with BeginInvoke show ?thesis by (simp add: route_idle track_quiet)
next
  case (EndInvoke t' written)
  with assms(4) obtain d where d: "sp_busy p = Some (t', d)" "p' = invoke_end t' d written p"
    by (auto split: option.splits if_splits)
  have "t' \<noteq> t \<Longrightarrow> d \<noteq> c" using assms(1,2) d(1) by (auto simp: stdio_wf_def names_channel_def tracks_def)
  with assms(2,3) EndInvoke d(2) have "tracks t c live h p'"
    by (cases written) (auto simp: tracks_def delivered_def invoke_end_def drop_receiver_def)
  with EndInvoke show ?thesis by (simp add: route_idle track_quiet)
next
  case (DropInvoke t')
  with assms(4) obtain d where d: "sp_busy p = Some (t', d)" "p' = invoke_dropped d p"
    by (auto split: option.splits if_splits)
  have "d \<noteq> c" using assms(1-3) d(1) DropInvoke by (auto simp: stdio_wf_def names_channel_def tracks_def)
  with assms(2) d(2) have "tracks t c live h p'"
    by (auto simp: tracks_def delivered_def invoke_dropped_def drop_receiver_def)
  with DropInvoke show ?thesis by (simp add: route_idle track_quiet)
next
  case (WriteLine line)
  with assms have "tracks t c live h p'" by (auto simp: tracks_def delivered_def split: if_splits)
  with WriteLine show ?thesis by (simp add: route_idle track_quiet)
qed

lemma routed_over [simp]: "routed read limit t False ls = []"
  by (induction ls) (simp_all add: route_def)

lemma track_run:
  assumes "stdio_run read limit ls p = Some p'" "stdio_wf p" "tracks t c live h p" "list_all (untouched t c) ls"
  shows "stdio_wf p' \<and> (\<exists>live'. tracks t c live' (h @ routed read limit t live ls) p' \<or>
    (\<exists>r. routed read limit t live ls = r @ [process_closed] \<and> channel_places \<le> length (h @ r) \<and>
      tracks t c live' (h @ r) p'))"
  using assms
proof (induction ls arbitrary: p live h)
  case (Cons l ls)
  then obtain p1 where p1: "stdio_step read limit l p = Some p1" "stdio_run read limit ls p1 = Some p'"
    by (auto simp: bind_eq_Some_conv)
  have wf1: "stdio_wf p1" using stdio_wf_step [OF Cons.prems(2) p1(1)] .
  have "track_result t c h (route read limit t live l) p1"
    using Cons.prems p1(1) by (intro track_step) auto
  then consider "tracks t c (snd (route read limit t live l)) (h @ fst (route read limit t live l)) p1"
    | "route read limit t live l = ([process_closed], False)" "channel_places \<le> length h" "tracks t c False h p1"
    by (auto simp: track_result_def)
  then show ?case
  proof cases
    case 1
    from Cons.IH [OF p1(2) wf1 this] Cons.prems(4) show ?thesis by fastforce
  next
    case 2
    then have "stdio_wf p' \<and> (\<exists>live'. tracks t c live' h p')"
      using Cons.IH [OF p1(2) wf1 2(3)] Cons.prems(4) by auto
    with 2 show ?thesis by auto
  qed
qed auto

lemma tracks_begin:
  assumes "stdio_wf p" "stdio_step read limit (BeginInvoke t) p = Some p'"
  shows "tracks t (length (sp_channels p)) True [] p'"
proof -
  have p': "p' = invoke_begin t p" using assms(2) by (simp split: if_splits)
  have "pred_option (\<lambda>e. fst e < length (sp_channels p)) (sp_hand p)" using assms(1) by (simp add: stdio_wf_def)
  then show ?thesis
    unfolding p' by (cases "sp_hand p") (auto simp: tracks_def delivered_def invoke_begin_def Let_def)
qed

lemma stdio_wf_run: "stdio_run read limit ls p = Some p' \<Longrightarrow> stdio_wf p \<Longrightarrow> stdio_wf p'"
  by (induction ls arbitrary: p) (auto simp: bind_eq_Some_conv dest: stdio_wf_step)

lemma stdio_wf_new: "stdio_wf stdio_process_new"
  by (simp add: stdio_wf_def stdio_process_new_def)

lemma routed_terminal: "list_all (\<lambda>e. \<not> dv_terminal e) (butlast (routed read limit t live ls))"
proof (induction ls arbitrary: live)
  case (Cons l ls)
  have "fst (route read limit t live l) = [] \<or>
      (\<exists>e. fst (route read limit t live l) = [e] \<and> (dv_terminal e \<longrightarrow> \<not> snd (route read limit t live l)))"
    by (simp add: route_def process_closed_def split: stdio_label.split option.split line_effect.split)
  then show ?case
  proof
    assume "\<exists>e. fst (route read limit t live l) = [e] \<and> (dv_terminal e \<longrightarrow> \<not> snd (route read limit t live l))"
    then obtain e where e: "fst (route read limit t live l) = [e]" "dv_terminal e \<Longrightarrow> \<not> snd (route read limit t live l)"
      by blast
    show ?thesis
      using Cons.IH [of "snd (route read limit t live l)"] e by (cases "dv_terminal e") auto
  qed (use Cons.IH in simp)
qed simp

text \<open>
  C30: the driver routes each task its own events. Whatever the child writes and however the
  reader, the commands and the receivers interleave: from its invocation on, a task whose
  write succeeded, that is not invoked again and whose receiver stays gets exactly the events
  of the lines that name it, in order and up to the first terminal one, and a failure when
  the output ends first; lines of other tasks, malformed and oversized lines and lines of
  another protocol change nothing. No event follows a terminal one. The only loss is the
  final failure of a task that has 128 events or more.
\<close>

theorem stdio_routes:
  assumes "stdio_run read limit before stdio_process_new = Some p"
    and "stdio_run read limit (BeginInvoke t # ls) p = Some p'"
    and "list_all (untouched t (length (sp_channels p))) ls"
  shows "let got = delivered p' (length (sp_channels p)); r = routed read limit t True ls in
    (got = r \<or> r = got @ [process_closed] \<and> channel_places \<le> length got) \<and>
    list_all (\<lambda>e. \<not> dv_terminal e) (butlast got)"
proof -
  let ?c = "length (sp_channels p)" and ?r = "routed read limit t True ls"
  have wf: "stdio_wf p" using stdio_wf_run [OF assms(1) stdio_wf_new] .
  obtain p1 where p1: "stdio_step read limit (BeginInvoke t) p = Some p1" "stdio_run read limit ls p1 = Some p'"
    using assms(2) by (auto simp: bind_eq_Some_conv)
  have "\<exists>live'. tracks t ?c live' ([] @ ?r) p' \<or>
      (\<exists>r. ?r = r @ [process_closed] \<and> channel_places \<le> length ([] @ r) \<and> tracks t ?c live' ([] @ r) p')"
    using track_run [OF p1(2) stdio_wf_step [OF wf p1(1)] tracks_begin [OF wf p1(1)] assms(3)] by blast
  then have got: "delivered p' ?c = ?r \<or> ?r = delivered p' ?c @ [process_closed] \<and> channel_places \<le> length (delivered p' ?c)"
    by (auto simp: tracks_def)
  have "list_all (\<lambda>e. \<not> dv_terminal e) (butlast (delivered p' ?c))"
    using got routed_terminal [of read limit t True ls] by (auto simp: list_all_iff dest: in_set_butlastD)
  with got show ?thesis by (simp add: Let_def)
qed

section \<open>A reader that has ended\<close>

lemma reading_step:
  "stdio_step read limit l p = Some p' \<Longrightarrow> \<not> sp_reading p \<Longrightarrow>
     \<not> sp_reading p' \<and> (\<forall>b. l \<noteq> ReadLine b) \<and> l \<noteq> ReadEnd"
  by (cases l)
    (auto simp: reader_send_def receive_def invoke_begin_def invoke_end_def invoke_dropped_def Let_def
      split: option.splits if_splits list.splits sum.splits)

lemma stopped_run:
  assumes "stdio_run read limit ls p = Some p'" "stdio_wf p" "\<not> sp_reading p" "tracks t c True h p"
    and "list_all (untouched t c) ls"
  shows "tracks t c True h p'"
  using assms
proof (induction ls arbitrary: p)
  case (Cons l ls)
  then obtain p1 where p1: "stdio_step read limit l p = Some p1" "stdio_run read limit ls p1 = Some p'"
    by (auto simp: bind_eq_Some_conv)
  note idle = reading_step [OF p1(1) Cons.prems(3)]
  have "track_result t c h (route read limit t True l) p1"
    using Cons.prems p1(1) by (intro track_step) auto
  moreover have "route read limit t True l = ([], True)" using idle by (intro route_idle) auto
  ultimately have "tracks t c True h p1" by (simp add: track_result_def)
  with Cons.IH [OF p1(2) stdio_wf_step [OF Cons.prems(2) p1(1)]] idle Cons.prems(5) show ?case by simp
qed simp

text \<open>
  C31: once the reader has ended, the driver is dead and does not know it. A task invoked
  after the output ended, or after a single line that is not UTF-8 ended the reader of a
  child that is still running, gets no event, no failure and no end of its stream, whatever
  happens: its entry stays in the table, so its sender is never dropped. Only the deadline of
  the core can end it. The process slot stays filled, so no later call starts a new child,
  although \<open>restart_on_crash\<close> is on by default.
\<close>

theorem stdio_reader_ended:
  assumes "stdio_run read limit before stdio_process_new = Some p" "\<not> sp_reading p"
    and "stdio_run read limit (BeginInvoke t # ls) p = Some p'"
    and "list_all (untouched t (length (sp_channels p))) ls"
  shows "delivered p' (length (sp_channels p)) = [] \<and> map_of (sp_pending p') t = Some (length (sp_channels p)) \<and>
    ensure_started starting (Some p') = (Inr (), Some p')"
proof -
  have wf: "stdio_wf p" using stdio_wf_run [OF assms(1) stdio_wf_new] .
  obtain p1 where p1: "stdio_step read limit (BeginInvoke t) p = Some p1" "stdio_run read limit ls p1 = Some p'"
    using assms(3) by (auto simp: bind_eq_Some_conv)
  have "\<not> sp_reading p1" using reading_step [OF p1(1) assms(2)] by simp
  then have "tracks t (length (sp_channels p)) True [] p'"
    using stopped_run [OF p1(2) stdio_wf_step [OF wf p1(1)] _ tracks_begin [OF wf p1(1)] assms(4)] by blast
  then show ?thesis by (simp add: tracks_def ensure_started_def)
qed

text \<open>The reader waits for a full channel, and reads nothing for the other tasks meanwhile.\<close>

lemma stdio_head_of_line:
  assumes "sp_hand p = Some (c, ev)" "ch_open (sp_channels p ! c)" "channel_places \<le> length (ch_queue (sp_channels p ! c))"
  shows "stdio_step read limit (ReadLine bytes) p = None \<and> stdio_step read limit ReadEnd p = None \<and>
    stdio_step read limit SendHand p = None"
  using assms by (simp add: reader_send_def)

section \<open>Examples\<close>

definition demo_message :: "string \<Rightarrow> task_id \<Rightarrow> uaic_inbound" where
  "demo_message k t =
     \<lparr>ub_protocol = uaic_protocol, ub_message_type = k, ub_task_id = Some t, ub_capabilities = None, ub_agent = None,
      ub_message = None, ub_percent = None, ub_artifact = None, ub_request = None, ub_output = None, ub_error = None\<rparr>"

definition demo_read :: "string \<Rightarrow> uaic_inbound option" where
  "demo_read s =
     (if s = ''p7'' then Some (demo_message ''progress'' 7)
      else if s = ''c7'' then Some (demo_message ''completed'' 7)
      else if s = ''c8'' then Some (demo_message ''completed'' 8) else None)"

definition demo_labels :: "stdio_label list" where
  "demo_labels = [EndInvoke 7 (Inr []), ReadLine ''p7'', SendHand, BeginInvoke 8, ReadLine ''c8'', SendHand, ReadLine ''??'',
     Receive 0, ReadLine ''c7'', SendHand, ReadLine ''p7'']"

theorem stdio_routes_witness:
  "case stdio_run demo_read 10 (BeginInvoke 7 # demo_labels) stdio_process_new of
     None \<Rightarrow> False
   | Some p' \<Rightarrow> delivered p' 0 = [DvProgress [] None, DvCompleted []]"
proof -
  obtain p' where run: "stdio_run demo_read 10 (BeginInvoke 7 # demo_labels) stdio_process_new = Some p'"
  proof -
    have "stdio_run demo_read 10 (BeginInvoke 7 # demo_labels) stdio_process_new \<noteq> None" by code_simp
    with that show thesis by auto
  qed
  have zero: "length (sp_channels stdio_process_new) = 0" by (simp add: stdio_process_new_def)
  have quiet: "list_all (untouched 7 (length (sp_channels stdio_process_new))) demo_labels" by code_simp
  have r: "routed demo_read 10 7 True demo_labels = [DvProgress [] None, DvCompleted []]" by code_simp
  have "delivered p' 0 = routed demo_read 10 7 True demo_labels"
    using stdio_routes [of demo_read 10 "[]" stdio_process_new 7 demo_labels p', OF _ run quiet]
    unfolding r zero by (auto simp: Let_def process_closed_def channel_places_def)
  with run r show ?thesis by simp
qed

theorem stdio_reader_ended_witness:
  "case stdio_run demo_read 10 [ReadLine [CHR 0xFF], BeginInvoke 7, EndInvoke 7 (Inr []), WriteLine []] stdio_process_new of
     None \<Rightarrow> False
   | Some p' \<Rightarrow> delivered p' 0 = [] \<and> map_of (sp_pending p') 7 = Some 0"
proof -
  let ?ls = "[EndInvoke 7 (Inr []), WriteLine []]"
  have "stdio_run demo_read 10 [ReadLine [CHR 0xFF], BeginInvoke 7, EndInvoke 7 (Inr []), WriteLine []] stdio_process_new \<noteq> None"
    by code_simp
  then obtain p p' where run: "stdio_run demo_read 10 [ReadLine [CHR 0xFF]] stdio_process_new = Some p"
    "stdio_run demo_read 10 (BeginInvoke 7 # ?ls) p = Some p'"
    by (auto simp: bind_eq_Some_conv)
  have "\<not> (case stdio_run demo_read 10 [ReadLine [CHR 0xFF]] stdio_process_new of Some q \<Rightarrow> sp_reading q | None \<Rightarrow> True)"
    "(case stdio_run demo_read 10 [ReadLine [CHR 0xFF]] stdio_process_new of Some q \<Rightarrow> sp_channels q = [] | None \<Rightarrow> False)"
    by code_simp+
  then have p: "\<not> sp_reading p" "length (sp_channels p) = 0" using run(1) by simp_all
  have "delivered p' (length (sp_channels p)) = [] \<and> map_of (sp_pending p') 7 = Some (length (sp_channels p))"
    using stdio_reader_ended [OF run(1) p(1) run(2)] by simp
  moreover have "stdio_run demo_read 10 [ReadLine [CHR 0xFF], BeginInvoke 7, EndInvoke 7 (Inr []), WriteLine []] stdio_process_new = Some p'"
    using run by (auto simp: bind_eq_Some_conv)
  ultimately show ?thesis using p(2) by simp
qed

end
