(* ===== verification/ACP_Client.thy ===== *)
theory ACP_Client
  imports ACP_Runtime Worker_Streams
begin

text \<open>
  The crate \<open>driver-acp-client\<close>: a driver that talks JSON-RPC to a child process over its
  standard streams and polls it for the events of a task. The child is an input: the values
  its lines parse to, and how each poll ends. The last section composes the driver with the
  repository's own ACP agent, \<open>protocol-acp-runtime\<close>.
\<close>

section \<open>Calls\<close>

record acp_client_config =
  acf_command :: string
  acf_args :: "string list"
  acf_working_dir :: "string option"

datatype acp_client_error = SpawnError string | StdioUnavailable | RpcError string | ProcessExited

fun display_acp_error :: "acp_client_error \<Rightarrow> string" where
  "display_acp_error (SpawnError e) = ''failed to spawn ACP agent process: '' @ e"
| "display_acp_error StdioUnavailable = ''ACP process stdio unavailable''"
| "display_acp_error (RpcError e) = ''JSON-RPC request failed: '' @ e"
| "display_acp_error ProcessExited = ''ACP process exited unexpectedly''"

text \<open>The requests that wait for an answer (\<open>pending\<close>), the tasks with a stream
  (\<open>active_tasks\<close>) and the next request id.\<close>

record acp_client =
  acd_pending :: "nat list"
  acd_active :: "task_id list"
  acd_next_id :: nat

definition acp_client_new :: acp_client where
  "acp_client_new = \<lparr>acd_pending = [], acd_active = [], acd_next_id = 1\<rparr>"

text \<open>\<open>spawn\<close>: the child and its pipes, then the answer to \<open>initialize\<close>.\<close>

datatype spawn_outcome = ChildFailed string | ChildNoStdio | ChildRunning

definition acp_spawn :: "spawn_outcome \<Rightarrow> acp_client_error + json \<Rightarrow> acp_client_error + acp_client" where
  "acp_spawn child initialized =
     (case child of
        ChildFailed e \<Rightarrow> Inl (SpawnError e)
      | ChildNoStdio \<Rightarrow> Inl StdioUnavailable
      | ChildRunning \<Rightarrow>
          (case initialized of Inl e \<Rightarrow> Inl e | Inr _ \<Rightarrow> Inr (acp_client_new\<lparr>acd_next_id := 2\<rparr>)))"

definition rpc_request :: "nat \<Rightarrow> string \<Rightarrow> json \<Rightarrow> json" where
  "rpc_request i method params =
     JObject [(''jsonrpc'', JString ''2.0''), (''id'', JNumber (PosInt i)), (''method'', JString method), (''params'', params)]"

text \<open>\<open>call\<close> up to the wait: the id is registered before the line is written; a write that
  fails leaves it registered.\<close>

definition call_begin ::
  "string \<Rightarrow> json \<Rightarrow> string + unit \<Rightarrow> acp_client \<Rightarrow> (acp_client_error + nat \<times> json) \<times> acp_client" where
  "call_begin method params written d =
     (let i = acd_next_id d; d' = d\<lparr>acd_next_id := u64_add i 1, acd_pending := acd_pending d @ [i]\<rparr> in
      case written of
        Inl e \<Rightarrow> (Inl (RpcError e), d')
      | Inr _ \<Rightarrow> (Inr (i, rpc_request i method params), d'))"

text \<open>A line of the child that is JSON: it answers a pending request, or is ignored.\<close>

definition reader_value :: "json \<Rightarrow> acp_client \<Rightarrow> (nat \<times> json) option \<times> acp_client" where
  "reader_value v d =
     (case Option.bind (jget ''id'' v) as_u64 of
        Some i \<Rightarrow>
          if i \<in> set (acd_pending d)
          then (Some (i, case jget ''result'' v of Some r \<Rightarrow> r | None \<Rightarrow> JNull),
                d\<lparr>acd_pending := removeAll i (acd_pending d)\<rparr>)
          else (None, d)
      | None \<Rightarrow> (None, d))"

text \<open>The end of the reader: each task with a stream is told; the pending requests are kept.\<close>

definition acp_process_exited :: driver_event where
  "acp_process_exited = DvFailed \<lparr>pe_code = ''acp_process_exited'',
     pe_message = ''the ACP agent child process terminated unexpectedly'', pe_retryable = False\<rparr>"

definition reader_end :: "acp_client \<Rightarrow> (task_id \<times> driver_event) list" where
  "reader_end d = map (\<lambda>t. (t, acp_process_exited)) (acd_active d)"

section \<open>Blocks\<close>

fun part_to_acp_block :: "part \<Rightarrow> json" where
  "part_to_acp_block (PText s) = JObject [(''kind'', JString ''text''), (''text'', JString s)]"
| "part_to_acp_block (PJson v) = JObject [(''kind'', JString ''data''), (''json'', v)]"
| "part_to_acp_block (PFileRef uri mime) =
     JObject [(''kind'', JString ''resource''), (''uri'', JString uri), (''mimeType'', opt_json JString mime)]"

definition parts_to_acp_blocks :: "part list \<Rightarrow> json list" where
  "parts_to_acp_blocks parts = map part_to_acp_block parts"

definition acp_block_to_part :: "json \<Rightarrow> part option" where
  "acp_block_to_part block =
     (case jget_str ''kind'' block of
        None \<Rightarrow> None
      | Some k \<Rightarrow>
          if k = ''text'' then map_option PText (jget_str ''text'' block)
          else if k = ''resource''
          then map_option (\<lambda>uri. PFileRef uri (jget_str ''mimeType'' block)) (jget_str ''uri'' block)
          else if k = ''data'' then map_option PJson (jget ''json'' block)
          else None)"

definition extract_output_parts :: "json \<Rightarrow> part list" where
  "extract_output_parts event =
     (case Option.bind (jget ''output'' event) as_array of
        None \<Rightarrow> []
      | Some blocks \<Rightarrow> List.map_filter acp_block_to_part blocks)"

section \<open>Polling\<close>

definition str_or :: "string \<Rightarrow> string option \<Rightarrow> string" where
  "str_or dflt s = (case s of None \<Rightarrow> dflt | Some x \<Rightarrow> x)"

definition acp_kind :: "json \<Rightarrow> string" where
  "acp_kind event = str_or [] (jget_str ''kind'' event)"

definition acp_driver_event :: "json \<Rightarrow> driver_event option" where
  "acp_driver_event event =
     (if acp_kind event = ''Progress''
      then Some (DvProgress (str_or [] (jget_str ''message'' event))
             (map_option of_nat (Option.bind (jget ''percent'' event) as_u64)))
      else if acp_kind event = ''InputRequired''
      then Some (DvInputRequired \<lparr>ir_question = str_or ''input required'' (jget_str ''question'' event), ir_schema = None\<rparr>)
      else if acp_kind event = ''Completed'' then Some (DvCompleted (extract_output_parts event))
      else if acp_kind event = ''Failed''
      then Some (DvFailed \<lparr>pe_code = ''acp_task_failed'',
             pe_message = str_or ''remote ACP task failed'' (Option.bind (jget ''error'' event) (jget_str ''message'')),
             pe_retryable = False\<rparr>)
      else if acp_kind event = ''Cancelled'' then Some DvCancelled
      else None)"

definition acp_terminal :: "json \<Rightarrow> bool" where
  "acp_terminal event \<longleftrightarrow> acp_kind event \<in> set [''Completed'', ''Failed'', ''Cancelled'']"

text \<open>The loop over the events of one answer: what is sent, each with its number, the last_seq
  number, and whether a terminal event ended the task.\<close>

fun acp_events :: "nat \<Rightarrow> json list \<Rightarrow> (nat \<times> driver_event) list \<times> nat \<times> bool" where
  "acp_events last_seq [] = ([], last_seq, False)"
| "acp_events last_seq (event # events) =
     (let seq = (case Option.bind (jget ''seq'' event) as_u64 of Some n \<Rightarrow> n | None \<Rightarrow> 0) in
      if seq \<le> last_seq then acp_events last_seq events
      else
        (let sent = (case acp_driver_event event of Some de \<Rightarrow> [(seq, de)] | None \<Rightarrow> []) in
         if acp_terminal event then (sent, seq, True)
         else (case acp_events seq events of (more_sent, last_seq', over) \<Rightarrow> (sent @ more_sent, last_seq', over))))"

text \<open>How a poll ends: its write fails, no answer in five seconds, the answer is dropped, or an
  answer.\<close>

datatype poll_item = PollWriteFailed | PollTimeout | PollDropped | PollAnswer json

text \<open>The loop of the spawned task: what it sends, and whether it has ended.\<close>

fun acp_poll :: "nat \<Rightarrow> poll_item list \<Rightarrow> (nat \<times> driver_event) list \<times> bool" where
  "acp_poll last_seq [] = ([], False)"
| "acp_poll last_seq (PollWriteFailed # items) = ([], True)"
| "acp_poll last_seq (PollTimeout # items) = acp_poll last_seq items"
| "acp_poll last_seq (PollDropped # items) = ([], True)"
| "acp_poll last_seq (PollAnswer response # items) =
     (case Option.bind (jget ''events'' response) as_array of
        None \<Rightarrow> acp_poll last_seq items
      | Some events \<Rightarrow>
          (case acp_events last_seq events of
             (sent, last_seq', True) \<Rightarrow> (sent, True)
           | (sent, last_seq', False) \<Rightarrow>
               (case acp_poll last_seq' items of (more_sent, over) \<Rightarrow> (sent @ more_sent, over))))"

definition prompt_params :: "uuid_format \<Rightarrow> task_id \<Rightarrow> json \<Rightarrow> invoke_request \<Rightarrow> json" where
  "prompt_params uf t session_response request =
     JObject [(''sessionId'', JString (str_or [] (jget_str ''sessionId'' session_response))),
       (''requestId'', JString (uf_print uf t)), (''prompt'', JArray (parts_to_acp_blocks (rq_input request))),
       (''metadata'', rq_context request)]"

text \<open>The stream of an invocation, by the answer to \<open>session/prompt\<close> and the polls.\<close>

definition acp_client_stream :: "acp_client_error + json \<Rightarrow> poll_item list \<Rightarrow> driver_event list \<times> bool" where
  "acp_client_stream prompted items =
     (case prompted of
        Inl e \<Rightarrow> ([DvFailed \<lparr>pe_code = ''acp_prompt_failed'', pe_message = display_acp_error e, pe_retryable = True\<rparr>], True)
      | Inr _ \<Rightarrow> (case acp_poll 0 items of (sent, over) \<Rightarrow> (DvAccepted # map snd sent, over)))"

text \<open>\<open>invoke\<close> before the spawn: \<open>session/new\<close> must be answered.\<close>

definition acp_client_invoke ::
  "uuid_format \<Rightarrow> task_id \<Rightarrow> invoke_request \<Rightarrow> acp_client_error + json \<Rightarrow> acp_client \<Rightarrow>
     (core_error + json) \<times> acp_client" where
  "acp_client_invoke uf t request session d =
     (case session of
        Inl e \<Rightarrow> (Inl (DriverError (''session/new failed: '' @ display_acp_error e)), d)
      | Inr response \<Rightarrow>
          (Inr (prompt_params uf t response request), d\<lparr>acd_active := t # removeAll t (acd_active d)\<rparr>))"

definition acp_client_cancel_params :: "uuid_format \<Rightarrow> task_id \<Rightarrow> json" where
  "acp_client_cancel_params uf t = JObject [(''taskId'', JString (uf_print uf t))]"

definition acp_client_input_params :: "uuid_format \<Rightarrow> task_id \<Rightarrow> part list \<Rightarrow> json" where
  "acp_client_input_params uf t input =
     JObject [(''taskId'', JString (uf_print uf t)), (''prompt'', JArray (parts_to_acp_blocks input))]"

text \<open>\<open>cancel\<close>, \<open>provide_input\<close> and \<open>health\<close>, by the answer to their call.\<close>

definition acp_client_reply :: "string \<Rightarrow> acp_client_error + json \<Rightarrow> core_error + unit" where
  "acp_client_reply what r =
     (case r of Inl e \<Rightarrow> Inl (DriverError (what @ '' failed: '' @ display_acp_error e)) | Inr _ \<Rightarrow> Inr ())"

section \<open>The poll loop\<close>

fun final_event :: "driver_event \<Rightarrow> bool" where
  "final_event (DvCompleted out) = True"
| "final_event (DvFailed err) = True"
| "final_event DvCancelled = True"
| "final_event _ = False"

text \<open>A list of numbered events that is in order after \<open>last_seq\<close>: the numbers go up, and a
  final event comes last.\<close>

fun well_polled :: "nat \<Rightarrow> (nat \<times> driver_event) list \<Rightarrow> bool" where
  "well_polled last_seq [] \<longleftrightarrow> True"
| "well_polled last_seq ((n, e) # sent) \<longleftrightarrow> last_seq < n \<and> (final_event e \<longrightarrow> sent = []) \<and> well_polled n sent"

lemma well_polled_mono: "well_polled k sent \<Longrightarrow> j \<le> k \<Longrightarrow> well_polled j sent"
  by (cases "(k, sent)" rule: well_polled.cases) auto

lemma well_polled_append:
  "well_polled k xs \<Longrightarrow> list_all (\<lambda>e. fst e \<le> n \<and> \<not> final_event (snd e)) xs \<Longrightarrow> k \<le> n \<Longrightarrow> well_polled n ys \<Longrightarrow>
     well_polled k (xs @ ys)"
  by (induction k xs rule: well_polled.induct) (auto intro: well_polled_mono)

lemma driver_event_final: "acp_driver_event event = Some de \<Longrightarrow> final_event de \<longleftrightarrow> acp_terminal event"
  by (auto simp: acp_driver_event_def acp_terminal_def split: if_splits)

lemma terminal_event: "acp_terminal event \<Longrightarrow> acp_driver_event event \<noteq> None"
  by (auto simp: acp_driver_event_def acp_terminal_def)

lemma acp_events_ordered:
  assumes "acp_events k events = (sent, n, over)"
  shows "well_polled k sent \<and> k \<le> n \<and>
    (if over then sent \<noteq> [] \<and> final_event (snd (last sent)) else list_all (\<lambda>e. fst e \<le> n \<and> \<not> final_event (snd e)) sent)"
  using assms
proof (induction k events arbitrary: sent n over rule: acp_events.induct)
  case (2 k event events)
  define seq where "seq = (case Option.bind (jget ''seq'' event) as_u64 of Some n \<Rightarrow> n | None \<Rightarrow> 0)"
  define here where "here = (case acp_driver_event event of Some de \<Rightarrow> [(seq, de)] | None \<Rightarrow> [])"
  show ?case
  proof (cases "seq \<le> k")
    case True
    with 2 show ?thesis by (simp add: seq_def [symmetric])
  next
    case False
    have here: "well_polled k here" "acp_terminal event \<Longrightarrow> here \<noteq> [] \<and> final_event (snd (last here))"
      "\<not> acp_terminal event \<Longrightarrow> list_all (\<lambda>e. fst e \<le> seq \<and> \<not> final_event (snd e)) here"
      using False driver_event_final [of event] terminal_event [of event] by (auto simp: here_def split: option.splits)
    show ?thesis
    proof (cases "acp_terminal event")
      case True
      with False 2(3) have "sent = here" "n = seq" over by (simp_all add: seq_def [symmetric] here_def [symmetric])
      with here True False show ?thesis by simp
    next
      case live: False
      obtain sent' n' over' where rest: "acp_events seq events = (sent', n', over')" by (metis prod.exhaust)
      have ih: "well_polled seq sent' \<and> seq \<le> n' \<and>
          (if over' then sent' \<noteq> [] \<and> final_event (snd (last sent')) else list_all (\<lambda>e. fst e \<le> n' \<and> \<not> final_event (snd e)) sent')"
        using 2(2) [of seq here] rest False live by (simp add: seq_def here_def)
      have eq: "sent = here @ sent'" "n = n'" "over = over'"
        using 2(3) False live rest by (simp_all add: seq_def [symmetric] here_def [symmetric])
      have "well_polled k (here @ sent')"
        using well_polled_append [OF here(1) here(3) [OF live]] False ih by simp
      moreover have "list_all (\<lambda>e. fst e \<le> n' \<and> \<not> final_event (snd e)) here"
        using here(3) [OF live] ih by (auto simp: list_all_iff)
      ultimately show ?thesis using ih eq False by auto
    qed
  qed
qed simp



section \<open>The driver and the runtime\<close>

text \<open>What the driver sends to \<open>session/prompt\<close> reaches the core of the runtime.\<close>

lemma block_part_roundtrip: "block_part (part_to_acp_block p) = Some p"
proof (cases p)
  case (PFileRef uri mime)
  then show ?thesis by (cases mime) (simp_all add: block_part_def jget_str_def)
qed (simp_all add: block_part_def jget_str_def)

lemma map_filter_all: "(\<And>x. f (g x) = Some x) \<Longrightarrow> List.map_filter f (map g xs) = xs"
  by (induction xs) (auto simp: List.map_filter_def)

text \<open>
  A prompt arrives unchanged. The runtime turns the prompt of the driver into an
  invocation with the same parts and context, whose idempotency key is the task id of the
  driver's core; but the invocation carries no task id, so the runtime's core gives the task
  an id of its own, under which the driver never asks.
\<close>

theorem acp_prompt_received:
  "prompt_command uf (prompt_params uf t session request) =
     Invoke \<lparr>rq_task_id = None, rq_agent_id = None, rq_skill_id = None,
       rq_idempotency_key = ''acp:'' @ uf_print uf t,
       rq_session_id = (case jget_str ''sessionId'' session of None \<Rightarrow> None | Some s \<Rightarrow> if s = [] then None else uf_parse uf s),
       rq_input = rq_input request, rq_context = rq_context request, rq_deadline = None\<rparr>"
proof -
  have "extract_parts (prompt_params uf t session request) = rq_input request"
    by (simp add: extract_parts_def prompt_params_def parts_to_acp_blocks_def map_filter_all block_part_roundtrip)
  then show ?thesis
    by (simp add: prompt_command_def str_or_empty_def jget_str_def prompt_params_def str_or_def split: option.split)
qed

text \<open>What the driver makes of an event as the runtime prints it.\<close>

lemma runtime_kind: "acp_kind (event_to_json uf ev) = (if ev_kind ev = EvCancelled then ''Cancelled'' else [])"
  by (cases "ev_kind ev") (simp_all add: acp_kind_def event_to_json_def jget_str_def tagged_def str_or_def)

lemma runtime_event_unseen:
  assumes "ev_kind ev \<noteq> EvCancelled"
  shows "acp_driver_event (event_to_json uf ev) = None" "\<not> acp_terminal (event_to_json uf ev)"
  using assms by (simp_all add: acp_driver_event_def acp_terminal_def runtime_kind)

lemma runtime_events_unseen:
  "list_all (\<lambda>ev. ev_kind ev \<noteq> EvCancelled) evs \<Longrightarrow> \<exists>n. acp_events k (map (event_to_json uf) evs) = ([], n, False)"
  by (induction evs arbitrary: k) (auto simp: runtime_event_unseen Let_def)

text \<open>The answer of the runtime to \<open>session/update\<close>, as the driver gets it: the events, or
  nothing of use when the task is unknown to the runtime.\<close>

definition update_answer :: "uuid_format \<Rightarrow> core_error + core_event list \<Rightarrow> poll_item" where
  "update_answer uf r =
     PollAnswer (case r of
        Inr events \<Rightarrow> JObject [(''events'', JArray (map (event_to_json uf) events))]
      | Inl e \<Rightarrow> JNull)"

text \<open>
  The driver cannot follow a task of the repository's own ACP agent. The runtime prints
  the kind of an event as an object with one member, the driver reads a string, so it sees no
  progress, question, result or failure: however often it polls, and whatever the runtime
  has stored short of a cancellation, the stream carries the acceptance alone and the loop
  does not end. Only the deadline of the core ends such a task.
\<close>

theorem acp_client_runtime_silent:
  assumes "list_all (\<lambda>r. case r of Inr evs \<Rightarrow> list_all (\<lambda>ev. ev_kind ev \<noteq> EvCancelled) evs | Inl e \<Rightarrow> True) answers"
  shows "acp_client_stream (Inr prompted) (map (update_answer uf) answers) = ([DvAccepted], False)"
proof -
  have "acp_poll k (map (update_answer uf) answers) = ([], False)" for k
    using assms
  proof (induction answers arbitrary: k)
    case (Cons r answers)
    show ?case
    proof (cases r)
      case (Inl e)
      with Cons show ?thesis by (simp add: update_answer_def)
    next
      case (Inr evs)
      then obtain n where "acp_events k (map (event_to_json uf) evs) = ([], n, False)"
        using runtime_events_unseen Cons.prems by fastforce
      with Inr Cons show ?thesis by (simp add: update_answer_def)
    qed
  qed simp
  then show ?thesis by (simp add: acp_client_stream_def)
qed

theorem acp_client_runtime_silent_witness:
  "acp_client_stream (Inr JNull)
     (map (update_answer hyphenated) [Inr [\<lparr>ev_task_id = 7, ev_seq = 1, ev_at = 0, ev_kind = EvCompleted [PText ''done'']\<rparr>]]) =
   ([DvAccepted], False)"
  by (rule acp_client_runtime_silent) simp

text \<open>A JSON-RPC error is an answer without a result; the driver takes it for a success.\<close>

lemma acp_error_is_success:
  assumes "i \<in> set (acd_pending d)" "jget ''id'' v = Some (JNumber (PosInt i))" "jget ''result'' v = None"
  shows "fst (reader_value v d) = Some (i, JNull)"
  using assms by (simp add: reader_value_def)

end
