(* ===== verification/MCP_Driver.thy ===== *)
theory MCP_Driver
  imports Worker_Streams Text_Bytes
begin

text \<open>
  The crate \<open>driver-mcp\<close>: a driver that calls the tools of an MCP server. The MCP SDK
  (\<open>rmcp\<close>) and the JSON-schema validator are third-party: a server is the function that
  answers \<open>tools/list\<close> for a cursor and the outcome of a tool call, and \<open>compile\<close> makes
  of a schema the function that lists the errors of a value. Discovery follows cursors for
  as long as the server gives them, so it is a partial function.
\<close>

section \<open>Connecting\<close>

record mcp_stdio_config =
  msc_command :: string
  msc_args :: "string list"
  msc_env :: "(string \<times> string) list"

record mcp_http_config =
  mhc_endpoint :: string
  mhc_token :: "string option"

definition supported_protocol_versions :: "string list" where
  "supported_protocol_versions = [''2025-06-18'', ''2025-03-26'', ''2024-11-05'']"

datatype mcp_driver_error =
    McpSpawn string
  | McpConnect string
  | McpToolsList string
  | McpUnsupportedProtocolVersion string

fun display_mcp_error :: "mcp_driver_error \<Rightarrow> string" where
  "display_mcp_error (McpSpawn e) = ''failed to spawn MCP stdio transport: '' @ e"
| "display_mcp_error (McpConnect e) = ''MCP initialize/connect failed: '' @ e"
| "display_mcp_error (McpToolsList e) = ''MCP tools/list failed: '' @ e"
| "display_mcp_error (McpUnsupportedProtocolVersion e) = ''unsupported MCP protocol version: '' @ e"

fun join_str :: "string \<Rightarrow> string list \<Rightarrow> string" where
  "join_str sep [] = []"
| "join_str sep [s] = s"
| "join_str sep (s # t # ss) = s @ sep @ join_str sep (t # ss)"

definition verify_protocol_version :: "string option \<Rightarrow> mcp_driver_error + unit" where
  "verify_protocol_version peer_version =
     (case peer_version of
        None \<Rightarrow> Inl (McpUnsupportedProtocolVersion ''no server info available after initialize'')
      | Some version \<Rightarrow>
          if version \<in> set supported_protocol_versions then Inr ()
          else Inl (McpUnsupportedProtocolVersion
                 (version @ '' (supported: '' @ join_str '', '' supported_protocol_versions @ '')'')))"

section \<open>Discovery\<close>

record tools_page =
  pg_tools :: "(string \<times> json) list"
  pg_next_cursor :: "string option"

type_synonym list_tools = "string option \<Rightarrow> string + tools_page"

text \<open>The tools by name, with their schemas.\<close>

type_synonym tool_schemas = "(string \<times> json) list"

definition allowed_tool :: "string list \<Rightarrow> string \<Rightarrow> bool" where
  "allowed_tool allowed name \<longleftrightarrow> allowed = [] \<or> name \<in> set allowed"

definition insert_tool :: "string list \<Rightarrow> string \<times> json \<Rightarrow> tool_schemas \<Rightarrow> tool_schemas" where
  "insert_tool allowed tool acc =
     (if allowed_tool allowed (fst tool) then obj_insert (fst tool) (snd tool) acc else acc)"

partial_function (option) discover_pages ::
  "list_tools \<Rightarrow> string list \<Rightarrow> string option \<Rightarrow> tool_schemas \<Rightarrow> (mcp_driver_error + tool_schemas) option" where
  "discover_pages srv allowed cursor acc =
     (case srv cursor of
        Inl e \<Rightarrow> Some (Inl (McpToolsList e))
      | Inr page \<Rightarrow>
          (let acc' = fold (insert_tool allowed) (pg_tools page) acc in
           case pg_next_cursor page of
             None \<Rightarrow> Some (Inr acc')
           | Some c \<Rightarrow> discover_pages srv allowed (Some c) acc'))"

text \<open>\<open>discover_tools\<close>: the table is replaced when discovery succeeds.\<close>

definition discover_tools ::
  "list_tools \<Rightarrow> string list \<Rightarrow> tool_schemas \<Rightarrow> ((mcp_driver_error + unit) \<times> tool_schemas) option" where
  "discover_tools srv allowed schemas =
     map_option (\<lambda>r. case r of Inl e \<Rightarrow> (Inl e, schemas) | Inr discovered \<Rightarrow> (Inr (), discovered))
       (discover_pages srv allowed None [])"

definition from_session ::
  "string option \<Rightarrow> list_tools \<Rightarrow> string list \<Rightarrow> (mcp_driver_error + tool_schemas) option" where
  "from_session peer_version srv allowed =
     (case verify_protocol_version peer_version of
        Inl e \<Rightarrow> Some (Inl e)
      | Inr _ \<Rightarrow>
          map_option (\<lambda>(r, schemas). case r of Inl e \<Rightarrow> Inl e | Inr _ \<Rightarrow> Inr schemas) (discover_tools srv allowed []))"

definition mcp_health :: "list_tools \<Rightarrow> core_error + unit" where
  "mcp_health srv =
     (case srv None of Inl e \<Rightarrow> Inl (DriverError (''MCP health check failed: '' @ e)) | Inr _ \<Rightarrow> Inr ())"

section \<open>Calling a tool\<close>

definition argument_of :: "part \<Rightarrow> (string \<times> json) list \<Rightarrow> (string \<times> json) list" where
  "argument_of p merged =
     (case p of
        PText s \<Rightarrow> obj_insert ''input'' (JString s) merged
      | PJson v \<Rightarrow>
          (case v of
             JObject kvs \<Rightarrow> fold (\<lambda>(k, x). obj_insert k x) kvs merged
           | _ \<Rightarrow> obj_insert ''value'' v merged)
      | PFileRef uri mime \<Rightarrow>
          obj_insert ''resource'' (JObject [(''uri'', JString uri),
            (''mimeType'', case mime of None \<Rightarrow> JNull | Some m \<Rightarrow> JString m)]) merged)"

definition part_to_arguments :: "part list \<Rightarrow> (string \<times> json) list" where
  "part_to_arguments input = fold argument_of input []"

definition validate_input ::
  "(json \<Rightarrow> (json \<Rightarrow> string list) option) \<Rightarrow> tool_schemas \<Rightarrow> string \<Rightarrow> (string \<times> json) list \<Rightarrow> core_error + unit" where
  "validate_input compile schemas skill_id arguments =
     (case map_of schemas skill_id of
        None \<Rightarrow> Inl (InvalidRequest (''unknown or disallowed MCP tool: '' @ skill_id))
      | Some schema \<Rightarrow>
          (case compile schema of
             None \<Rightarrow> Inr ()
           | Some iter_errors \<Rightarrow>
               (let errors = take 3 (iter_errors (JObject arguments)) in
                if errors \<noteq> []
                then Inl (InvalidRequest (''MCP tool '' @ skill_id @ '' input validation failed: '' @ join_str ''; '' errors))
                else Inr ())))"

text \<open>The blocks of a result: text, an image, or another kind by its serialized form.\<close>

datatype raw_content = RcText string | RcImage string string | RcOther json

fun content_to_part :: "raw_content \<Rightarrow> part" where
  "content_to_part (RcText s) = PText s"
| "content_to_part (RcImage mime bytes) = PJson (JObject [(''mimeType'', JString mime), (''data'', JString bytes)])"
| "content_to_part (RcOther v) = PJson v"

definition content_blocks_to_parts :: "raw_content list \<Rightarrow> part list" where
  "content_blocks_to_parts blocks = map content_to_part blocks"

fun as_text :: "raw_content \<Rightarrow> string option" where
  "as_text (RcText s) = Some s"
| "as_text _ = None"

fun find_text :: "raw_content list \<Rightarrow> string option" where
  "find_text [] = None"
| "find_text (b # bs) = (case as_text b of Some s \<Rightarrow> Some s | None \<Rightarrow> find_text bs)"

text \<open>How the call ends: a result, another answer (by its debug text), an error of the
  service, the timer, or the cancellation token.\<close>

datatype mcp_call_end =
    McpResult "bool option" "raw_content list"
  | McpOther string
  | McpServiceError string
  | McpElapsed
  | McpCancelled

definition mcp_failed :: "string \<Rightarrow> string \<Rightarrow> driver_event" where
  "mcp_failed code message = DvFailed \<lparr>pe_code = code, pe_message = message, pe_retryable = False\<rparr>"

fun mcp_outcome :: "mcp_call_end \<Rightarrow> driver_event" where
  "mcp_outcome (McpResult is_error content) =
     (if is_error = Some True
      then mcp_failed ''mcp_tool_error'' (case find_text content of Some s \<Rightarrow> s | None \<Rightarrow> ''MCP tool returned an error'')
      else DvCompleted (content_blocks_to_parts content))"
| "mcp_outcome (McpOther dbg) = mcp_failed ''mcp_unexpected_response'' (''unexpected MCP response: '' @ dbg)"
| "mcp_outcome (McpServiceError e) = mcp_failed ''mcp_call_failed'' e"
| "mcp_outcome McpElapsed = mcp_failed ''timeout'' ''MCP tool call timed out''"
| "mcp_outcome McpCancelled = DvCancelled"

text \<open>An update of the progress stream, by its printed number; the total is never known.\<close>

definition progress_event :: "string \<Rightarrow> driver_event" where
  "progress_event printed = DvProgress (''progress: '' @ printed) None"

text \<open>
  The stream of an invocation: an acceptance, progress from the task that listens to it,
  the outcome. That task is aborted before the outcome is sent, but may be in the middle
  of a send on another thread, so progress can still follow (\<open>late\<close>).
\<close>

definition mcp_stream :: "string list \<Rightarrow> mcp_call_end \<Rightarrow> string list \<Rightarrow> driver_event list" where
  "mcp_stream updates ended late =
     [DvAccepted] @ map progress_event updates @ [mcp_outcome ended] @ map progress_event late"

text \<open>\<open>invoke\<close> up to the spawn; \<open>sent\<close> is the outcome of sending the request, and
  \<open>active\<close> the tasks that have a cancellation token.\<close>

definition mcp_invoke ::
  "(json \<Rightarrow> (json \<Rightarrow> string list) option) \<Rightarrow> tool_schemas \<Rightarrow> string + unit \<Rightarrow> task_id \<Rightarrow> invoke_request \<Rightarrow> task_id list \<Rightarrow>
     (core_error + (string \<times> (string \<times> json) list)) \<times> task_id list" where
  "mcp_invoke compile schemas sent t request active =
     (case rq_skill_id request of
        None \<Rightarrow> (Inl (InvalidRequest ''skill_id required for MCP driver''), active)
      | Some skill_id \<Rightarrow>
          (let arguments = part_to_arguments (rq_input request) in
           case validate_input compile schemas skill_id arguments of
             Inl e \<Rightarrow> (Inl e, active)
           | Inr _ \<Rightarrow>
               (case sent of
                  Inl e \<Rightarrow> (Inl (DriverError e), active)
                | Inr _ \<Rightarrow> (Inr (skill_id, arguments), t # removeAll t active))))"

text \<open>\<open>cancel\<close>: the tasks whose token is cancelled.\<close>

definition mcp_cancel :: "task_id \<Rightarrow> task_id list \<Rightarrow> (core_error + unit) \<times> task_id list" where
  "mcp_cancel t active = (Inr (), if t \<in> set active then [t] else [])"

definition mcp_provide_input :: "core_error + unit" where
  "mcp_provide_input = Inl (InvalidRequest ''MCP driver does not support mid-call input in this version'')"

definition mcp_capabilities :: driver_capabilities where
  "mcp_capabilities = \<lparr>cap_cancellation = True, cap_provide_input = False\<rparr>"

section \<open>Hot update of the skills\<close>

text \<open>
  The watcher of \<open>notifications/tools/list_changed\<close>: the channel holds one signal
  (\<open>try_send\<close> drops a second one), a round discovers the tools anew and, when that
  succeeds, writes their names to the agent in the registry; a failed round keeps the old
  list, and the watcher ends when the agent is gone.
\<close>

record mcp_watcher =
  mw_signal :: bool
  mw_busy :: bool
  mw_over :: bool
  mw_schemas :: tool_schemas
  mw_registry :: agent_registry

datatype watch_label = ToolsChanged | StartRound | EndRound "mcp_driver_error + tool_schemas"

definition finish_round :: "agent_id \<Rightarrow> mcp_driver_error + tool_schemas \<Rightarrow> mcp_watcher \<Rightarrow> mcp_watcher" where
  "finish_round agent r w =
     (case r of
        Inl e \<Rightarrow> w\<lparr>mw_busy := False\<rparr>
      | Inr discovered \<Rightarrow>
          (case registry_get (mw_registry w) agent of
             None \<Rightarrow> w\<lparr>mw_busy := False, mw_schemas := discovered, mw_over := True\<rparr>
           | Some a \<Rightarrow>
               w\<lparr>mw_busy := False, mw_schemas := discovered,
                 mw_registry := registry_update_skills agent (map fst discovered) (mw_registry w)\<rparr>))"

fun watch_step :: "agent_id \<Rightarrow> watch_label \<Rightarrow> mcp_watcher \<Rightarrow> mcp_watcher option" where
  "watch_step agent ToolsChanged w = Some (w\<lparr>mw_signal := True\<rparr>)"
| "watch_step agent StartRound w =
     (if mw_signal w \<and> \<not> mw_busy w \<and> \<not> mw_over w then Some (w\<lparr>mw_signal := False, mw_busy := True\<rparr>) else None)"
| "watch_step agent (EndRound r) w = (if mw_busy w then Some (finish_round agent r w) else None)"

fun watch_run :: "agent_id \<Rightarrow> watch_label list \<Rightarrow> mcp_watcher \<Rightarrow> mcp_watcher option" where
  "watch_run agent [] w = Some w"
| "watch_run agent (l # ls) w = Option.bind (watch_step agent l w) (watch_run agent ls)"

section \<open>Discovery ends with a server that ends\<close>

text \<open>The pages that a server gives from a cursor on, the last one without a next cursor.\<close>

fun page_chain :: "list_tools \<Rightarrow> string option \<Rightarrow> tools_page list \<Rightarrow> bool" where
  "page_chain srv cursor [] \<longleftrightarrow> False"
| "page_chain srv cursor (page # pages) \<longleftrightarrow>
     srv cursor = Inr page \<and>
     (case pg_next_cursor page of None \<Rightarrow> pages = [] | Some c \<Rightarrow> page_chain srv (Some c) pages)"

lemma discover_chain:
  "page_chain srv cursor pages \<Longrightarrow>
     discover_pages srv allowed cursor acc = Some (Inr (fold (insert_tool allowed) (concat (map pg_tools pages)) acc))"
proof (induction pages arbitrary: cursor acc)
  case (Cons page pages)
  then show ?case
    by (subst discover_pages.simps) (simp add: Let_def split: option.splits)
qed simp

lemma discover_has_chain:
  assumes "discover_pages srv allowed cursor acc = Some (Inr schemas)"
  shows "\<exists>pages. page_chain srv cursor pages"
proof -
  have "is_ok (Inr schemas :: mcp_driver_error + tool_schemas) \<longrightarrow> (\<exists>pages. page_chain srv cursor pages)"
  proof (rule discover_pages.raw_induct [of "\<lambda>srv allowed cursor acc r. is_ok r \<longrightarrow> (\<exists>pages. page_chain srv cursor pages)",
        OF _ assms], rule impI)
    fix discover srv allowed cursor acc r
    assume ih: "\<And>srv allowed cursor acc r. discover srv allowed cursor acc = Some r \<Longrightarrow>
        is_ok r \<longrightarrow> (\<exists>pages. page_chain srv cursor pages)"
      and body: "(case srv cursor of
        Inl e \<Rightarrow> Some (Inl (McpToolsList e))
      | Inr page \<Rightarrow>
          (let acc' = fold (insert_tool allowed) (pg_tools page) acc in
           case pg_next_cursor page of None \<Rightarrow> Some (Inr acc') | Some c \<Rightarrow> discover srv allowed (Some c) acc')) = Some r"
      and ok: "is_ok r"
    then obtain page where page: "srv cursor = Inr page" by (cases "srv cursor") auto
    show "\<exists>pages. page_chain srv cursor pages"
    proof (cases "pg_next_cursor page")
      case None
      with page have "page_chain srv cursor [page]" by simp
      then show ?thesis by blast
    next
      case (Some c)
      then have "discover srv allowed (Some c) (fold (insert_tool allowed) (pg_tools page) acc) = Some r"
        using body page by simp
      from ih [OF this] ok obtain pages where "page_chain srv (Some c) pages" by blast
      with Some page have "page_chain srv cursor (page # pages)" by simp
      then show ?thesis by blast
    qed
  qed
  then show ?thesis by simp
qed

lemma insert_tools_map_of:
  "map_of (fold (insert_tool allowed) tools acc) name =
     (if allowed_tool allowed name then (case map_of (rev tools) name of Some x \<Rightarrow> Some x | None \<Rightarrow> map_of acc name)
      else map_of acc name)"
  by (induction tools arbitrary: acc) (auto simp: insert_tool_def map_add_def split: option.splits)

text \<open>
  C33: discovery returns exactly when the server stops giving cursors. It succeeds if and
  only if the pages of the server come to an end without an error; then the table holds,
  for each allowed tool, the last schema that the server listed for it, and no other tool. A
  server that answers a cursor with the same cursor keeps the driver in the loop for ever.
\<close>

theorem mcp_discovery_exact:
  "(case discover_tools srv allowed old of
      Some (Inr _, schemas) \<Rightarrow>
        (\<exists>pages. page_chain srv None pages \<and>
           (\<forall>name. map_of schemas name =
              (if allowed_tool allowed name then map_of (rev (concat (map pg_tools pages))) name else None)))
    | Some (Inl e, schemas) \<Rightarrow> schemas = old \<and> (\<nexists>pages. page_chain srv None pages)
    | None \<Rightarrow> (\<nexists>pages. page_chain srv None pages))"
proof (cases "\<exists>pages. page_chain srv None pages")
  case True
  then obtain pages where pages: "page_chain srv None pages" by blast
  let ?s = "fold (insert_tool allowed) (concat (map pg_tools pages)) []"
  have "map_of ?s name = (if allowed_tool allowed name then map_of (rev (concat (map pg_tools pages))) name else None)" for name
    by (simp add: insert_tools_map_of split: option.split)
  then show ?thesis using pages discover_chain [OF pages, of allowed "[]"] by (auto simp: discover_tools_def)
next
  case False
  then have "discover_pages srv allowed None [] \<noteq> Some (Inr schemas)" for schemas
    using discover_has_chain by blast
  then show ?thesis
    using False by (cases "discover_pages srv allowed None []") (auto simp: discover_tools_def split: sum.splits)
qed

lemma mcp_discovery_loops:
  assumes "srv (Some c) = Inr page" "pg_next_cursor page = Some c"
  shows "discover_pages srv allowed (Some c) acc = None"
proof -
  have False if run: "discover_pages srv allowed (Some c) acc = Some r" for r
  proof -
    have "srv = srv \<longrightarrow> Some c \<noteq> Some c"
      by (rule discover_pages.raw_induct [of "\<lambda>srv' allowed cursor acc r. srv' = srv \<longrightarrow> cursor \<noteq> Some c", OF _ run])
        (use assms in \<open>fastforce simp: Let_def\<close>)
    then show False by simp
  qed
  then show ?thesis by (cases "discover_pages srv allowed (Some c) acc") auto
qed

section \<open>Calls\<close>

text \<open>
  C34: only allowed tools are called, with valid arguments. A request that the driver sends
  after a successful connection names a tool that the server listed and the configuration
  allows, and its arguments pass the schema that the server gave for it, when that schema
  can be compiled at all.
\<close>

theorem mcp_calls_allowed:
  assumes "from_session version srv allowed = Some (Inr schemas)"
    and "fst (mcp_invoke compile schemas sent t request active) = Inr (skill, arguments)"
  shows "allowed_tool allowed skill \<and> version \<in> Some ` set supported_protocol_versions \<and>
    (\<exists>pages schema. page_chain srv None pages \<and> (skill, schema) \<in> set (concat (map pg_tools pages)) \<and>
       (case compile schema of Some errors \<Rightarrow> errors (JObject arguments) = [] | None \<Rightarrow> True))"
proof -
  have ver: "verify_protocol_version version = Inr ()"
    using assms(1) by (auto simp: from_session_def split: sum.splits)
  have disc: "discover_tools srv allowed [] = Some (Inr (), schemas)"
  proof (cases "discover_tools srv allowed []")
    case None
    then show ?thesis using assms(1) ver by (simp add: from_session_def)
  next
    case (Some x)
    then show ?thesis using assms(1) ver by (cases x; cases "fst x") (auto simp: from_session_def)
  qed
  then have "discover_pages srv allowed None [] = Some (Inr schemas)"
    unfolding discover_tools_def by (cases "discover_pages srv allowed None []"; cases "the (discover_pages srv allowed None [])") auto
  then obtain pages where pages: "page_chain srv None pages" using discover_has_chain by blast
  then have sch: "schemas = fold (insert_tool allowed) (concat (map pg_tools pages)) []"
    using disc discover_chain [OF pages, of allowed "[]"] by (simp add: discover_tools_def)
  obtain schema where call: "map_of schemas skill = Some schema" "arguments = part_to_arguments (rq_input request)"
    "validate_input compile schemas skill arguments = Inr ()"
    using assms(2) by (auto simp: mcp_invoke_def Let_def validate_input_def split: option.splits sum.splits if_splits)
  then have listed: "allowed_tool allowed skill" "map_of (rev (concat (map pg_tools pages))) skill = Some schema"
    by (auto simp: sch insert_tools_map_of split: if_splits option.splits)
  have "case compile schema of Some errors \<Rightarrow> errors (JObject arguments) = [] | None \<Rightarrow> True"
    using call by (auto simp: validate_input_def Let_def split: option.splits if_splits)
  moreover have "(skill, schema) \<in> set (concat (map pg_tools pages))"
    using map_of_SomeD [OF listed(2)] by simp
  moreover have "version \<in> Some ` set supported_protocol_versions"
    using ver by (auto simp: verify_protocol_version_def split: option.splits if_splits)
  ultimately show ?thesis using listed(1) pages by blast
qed

definition demo_srv :: list_tools where
  "demo_srv cursor =
     (if cursor = None then Inr \<lparr>pg_tools = [(''a'', JNull), (''b'', JNull)], pg_next_cursor = Some ''2''\<rparr>
      else Inr \<lparr>pg_tools = [(''a'', JBool True)], pg_next_cursor = None\<rparr>)"

definition demo_compile :: "json \<Rightarrow> (json \<Rightarrow> string list) option" where
  "demo_compile schema = (if schema = JBool True then Some (\<lambda>_. []) else None)"

definition demo_call :: invoke_request where
  "demo_call = demo_request\<lparr>rq_skill_id := Some ''a'', rq_input := [PText ''x'']\<rparr>"

theorem mcp_calls_allowed_witness:
  "allowed_tool [''a''] ''a'' \<and> Some ''2025-06-18'' \<in> Some ` set supported_protocol_versions \<and>
   (\<exists>pages schema. page_chain demo_srv None pages \<and> (''a'', schema) \<in> set (concat (map pg_tools pages)) \<and>
      (case demo_compile schema of Some errors \<Rightarrow> errors (JObject [(''input'', JString ''x'')]) = [] | None \<Rightarrow> True))"
proof (rule mcp_calls_allowed)
  show "from_session (Some ''2025-06-18'') demo_srv [''a''] = Some (Inr [(''a'', JBool True)])"
    by (simp add: from_session_def verify_protocol_version_def supported_protocol_versions_def discover_tools_def
        discover_pages.simps [of demo_srv _ None] discover_pages.simps [of demo_srv _ "Some _"] demo_srv_def
        insert_tool_def allowed_tool_def)
  show "fst (mcp_invoke demo_compile [(''a'', JBool True)] (Inr ()) 7 demo_call []) = Inr (''a'', [(''input'', JString ''x'')])"
    by (simp add: mcp_invoke_def demo_call_def part_to_arguments_def argument_of_def validate_input_def demo_compile_def)
qed

section \<open>What becomes of a task\<close>

definition mcp_log :: "(uuid \<Rightarrow> string) \<Rightarrow> string list \<Rightarrow> mcp_call_end \<Rightarrow> core_event_kind list" where
  "mcp_log us updates ended =
     map (\<lambda>u. EvProgress (''progress: '' @ u) None) updates @
     [case mcp_outcome ended of
        DvCompleted out \<Rightarrow> EvCompleted out
      | DvFailed e \<Rightarrow> runtime_failure us (DriverError (pe_message e))
      | _ \<Rightarrow> EvCancelled]"

lemma stream_log_progress:
  "st \<in> {Accepted, Running} \<Longrightarrow>
     stream_log us msg st (map progress_event updates @ rest) =
       map (\<lambda>u. EvProgress (''progress: '' @ u) None) updates @
       stream_log us msg (if updates = [] then st else Running) rest"
  by (induction updates arbitrary: st) (auto simp: progress_event_def)

lemma mcp_stream_log: "stream_log us msg Accepted (mcp_stream updates ended late) = mcp_log us updates ended"
proof -
  have "stream_log us msg st (mcp_outcome ended # rest) =
      [case mcp_outcome ended of DvCompleted out \<Rightarrow> EvCompleted out
        | DvFailed e \<Rightarrow> runtime_failure us (DriverError (pe_message e)) | _ \<Rightarrow> EvCancelled]"
    if "st \<in> {Accepted, Running}" for st rest
    using that by (cases ended) (auto simp: mcp_failed_def runtime_failure_def)
  then show ?thesis by (simp add: mcp_stream_def stream_log_progress mcp_log_def)
qed

text \<open>
  A tool call ends its task with the outcome of the call, after the progress that was
  reported before it, whatever progress the listener still sends afterwards: completed with
  the blocks of the result, cancelled, or failed with the text of the tool, of the service
  or of the timer.
\<close>

theorem mcp_task_outcome:
  assumes "guarded_store ops iv view keyed allow" "good_store iv view n (w_store w)"
    and "n + length (mcp_stream updates ended late) < seq_limit"
    and "view (w_store w) (wk_task wk) = Some (snap, evs)" "snap_state snap = Accepted"
    and "o_stream ora = Inr (DriverStream (mcp_stream updates ended late) True)"
  shows "\<exists>w' snap' new. run (worker_body ce wk) ops ora [] w = (Some (), [], w') \<and>
    view (w_store w') (wk_task wk) = Some (snap', evs @ new) \<and> terminal (snap_state snap') \<and>
    map ev_kind new = mcp_log (ce_uuid_str ce) updates ended"
  using guarded_store.run_worker_stream [OF assms(1-4) _ assms(6), of ce] assms(5) by (auto simp: mcp_stream_log)

definition demo_mcp_answers :: answers where
  "demo_mcp_answers = demo_answers\<lparr>o_stream :=
     Inr (DriverStream (mcp_stream [''0.5''] (McpResult None [RcText ''hi'']) [''1'']) True)\<rparr>"

theorem mcp_task_outcome_witness:
  "\<exists>w' snap' ev new. run (worker_body demo_env demo_worker) mem_ops demo_mcp_answers [] demo_accepted = (Some (), [], w') \<and>
     mem_view (w_store w') 7 = Some (snap', ev # new) \<and> terminal (snap_state snap') \<and>
     map ev_kind new = [EvProgress ''progress: 0.5'' None, EvCompleted [PText ''hi'']]"
proof -
  obtain snap ev where acc: "mem_view (w_store demo_accepted) 7 = Some (snap, [ev])" "snap_state snap = Accepted"
    using demo_accepted_facts by blast
  have "wk_task demo_worker = 7" by (simp add: demo_worker_def)
  with mcp_task_outcome [OF memg.guarded_store_axioms conjunct1 [OF demo_accepted_facts], of "[''0.5'']"
      "McpResult None [RcText ''hi'']" "[''1'']" demo_worker snap "[ev]" demo_mcp_answers demo_env] acc
  show ?thesis
    by (simp add: demo_mcp_answers_def mcp_log_def content_blocks_to_parts_def mcp_stream_def seq_limit_def) metis
qed

section \<open>The watcher\<close>

text \<open>A change of the tools is not lost: until a round starts after it, the signal waits.\<close>

lemma watch_signal_kept:
  "watch_run agent ls w = Some w' \<Longrightarrow> mw_signal w \<Longrightarrow> StartRound \<notin> set ls \<Longrightarrow> mw_signal w'"
proof (induction ls arbitrary: w)
  case (Cons l ls)
  then obtain w1 where w1: "watch_step agent l w = Some w1" "watch_run agent ls w1 = Some w'"
    by (auto simp: bind_eq_Some_conv)
  have "mw_signal w1"
    using Cons.prems(2,3) w1(1)
    by (cases l) (auto simp: finish_round_def split: if_splits sum.splits option.splits)
  with Cons.IH [OF w1(2)] Cons.prems(3) show ?case by simp
qed simp

lemma watch_not_lost:
  assumes "watch_run agent (ToolsChanged # ls) w = Some w'" "StartRound \<notin> set ls"
  shows "mw_signal w'"
  using assms watch_signal_kept [of agent ls "w\<lparr>mw_signal := True\<rparr>"] by simp

text \<open>A successful round leaves the agent with exactly the discovered tools as its skills, and
  the other agents as they were.\<close>

lemma finish_round_skills:
  assumes "map_of (mw_registry w) agent = Some a"
  shows "map_of (mw_registry (finish_round agent (Inr discovered) w)) k =
    (if k = agent then Some (a\<lparr>ra_skills := map fst discovered\<rparr>) else map_of (mw_registry w) k)"
  using assms
  by (auto simp: finish_round_def registry_get_def registry_update_skills_map_of update_skills_def option.map_ident
      intro: option.map_ident split: option.split)

end
