(* ===== verification/Adapterd.thy ===== *)
theory Adapterd
  imports A2A_Client Stdio_Driver ACP_Client MCP_Driver
begin

text \<open>
  The crate \<open>adapterd\<close>: the configuration and its validation (\<open>config.rs\<close>), the
  environment files, and the composition of store, drivers, policy and core
  (\<open>main.rs\<close>). Reading YAML, parsing URLs, opening databases and connecting drivers are
  third-party or I/O: their results are arguments. A \<open>String\<close> read from the environment
  must be UTF-8; the environment itself holds bytes.
\<close>

section \<open>Configuration\<close>

datatype mode = Local | Remote

datatype storage_config =
    StMemory
  | StSqlite string
  | StPostgres string string nat

record runtime_config =
  rc_max_concurrent_tasks :: nat
  rc_cleanup_interval_seconds :: nat
  rc_shutdown_grace_seconds :: nat

record retention_config =
  rt_task_ttl_days :: nat
  rt_event_ttl_days :: nat
  rt_idempotency_ttl_hours :: nat
  rt_cleanup_batch_size :: nat

record agent_limits_config =
  al_max_concurrent_tasks :: nat
  al_max_queued_tasks :: nat
  al_max_input_bytes :: nat
  al_max_event_bytes :: nat
  al_default_timeout_seconds :: nat

datatype mcp_transport_config =
    McpStdioTransport string "string list" "(string \<times> string) list"
  | McpHttpTransport string "string option" bool

datatype agent_transport_config =
    TrStdio string "string list" "string option" "(string \<times> string) list"
  | TrHttpSse string "string option" bool
  | TrMcp mcp_transport_config "string list" nat
  | TrA2aClient string "string option" bool nat a2a_wire_format "string option"
  | TrAcpClient string "string list" "string option"

record agent_config =
  ag_id :: string
  ag_skills :: "string list"
  ag_limits :: agent_limits_config
  ag_transport :: agent_transport_config

record bearer_token_entry =
  bt_token_env :: string
  bt_caller_id :: string
  bt_allowed_scopes :: "string list"

record config =
  cf_mode :: mode
  cf_storage :: storage_config
  cf_runtime :: runtime_config
  cf_agents :: "agent_config list"
  cf_retention :: retention_config
  cf_auth :: "bearer_token_entry list"

subsection \<open>Defaults\<close>

definition default_sqlite_path :: string where
  "default_sqlite_path = ''./data/adapter.db''"

definition default_schema :: string where
  "default_schema = ''agent_adapter''"

definition default_pg_connections :: nat where
  "default_pg_connections = 10"

definition storage_config_default :: storage_config where
  "storage_config_default = StSqlite default_sqlite_path"

definition runtime_config_default :: runtime_config where
  "runtime_config_default =
     \<lparr>rc_max_concurrent_tasks = 32, rc_cleanup_interval_seconds = 3600, rc_shutdown_grace_seconds = 30\<rparr>"

definition retention_config_default :: retention_config where
  "retention_config_default =
     \<lparr>rt_task_ttl_days = 7, rt_event_ttl_days = 7, rt_idempotency_ttl_hours = 24, rt_cleanup_batch_size = 1000\<rparr>"

definition agent_limits_config_default :: agent_limits_config where
  "agent_limits_config_default =
     \<lparr>al_max_concurrent_tasks = 4, al_max_queued_tasks = 32, al_max_input_bytes = 1048576,
      al_max_event_bytes = 262144, al_default_timeout_seconds = 900\<rparr>"

definition default_a2a_timeout_seconds :: nat where
  "default_a2a_timeout_seconds = 30"

definition default_mcp_discovery_timeout :: nat where
  "default_mcp_discovery_timeout = 10"

subsection \<open>Validation\<close>

datatype config_error = ConfigIo string | ConfigYaml string | ConfigValidation string

fun display_config_error :: "config_error \<Rightarrow> string" where
  "display_config_error (ConfigIo e) = ''cannot read config: '' @ e"
| "display_config_error (ConfigYaml e) = ''invalid YAML: '' @ e"
| "display_config_error (ConfigValidation e) = ''invalid config: '' @ e"

definition validate_transport :: "mode \<Rightarrow> agent_config \<Rightarrow> config_error + unit" where
  "validate_transport md agent =
     (case ag_transport agent of
        TrHttpSse endpoint token_env allow_http \<Rightarrow>
          if \<not> allow_http \<and> \<not> starts_with endpoint ''https://''
          then Inl (ConfigValidation (''agent '' @ ag_id agent @ '' HTTP/SSE endpoint must use https'')) else Inr ()
      | TrMcp transport allowed_tools discovery_timeout \<Rightarrow>
          if md = Remote \<and> allowed_tools = []
          then Inl (ConfigValidation (''agent '' @ ag_id agent @ '' MCP driver requires allowed_tools in remote mode''))
          else Inr ()
      | TrA2aClient endpoint token_env allow_http request_timeout wire card_url \<Rightarrow>
          if \<not> allow_http \<and> \<not> starts_with endpoint ''https://''
          then Inl (ConfigValidation (''agent '' @ ag_id agent @ '' A2A client endpoint must use https'')) else Inr ()
      | _ \<Rightarrow> Inr ())"

text \<open>The loop over the agents, with the ids seen so far.\<close>

fun validate_agents :: "mode \<Rightarrow> string list \<Rightarrow> agent_config list \<Rightarrow> config_error + unit" where
  "validate_agents md ids [] = Inr ()"
| "validate_agents md ids (agent # agents) =
     (if blank (ag_id agent) \<or> ag_id agent \<in> set ids
      then Inl (ConfigValidation (''invalid or duplicate agent id: '' @ ag_id agent))
      else if al_max_concurrent_tasks (ag_limits agent) = 0
      then Inl (ConfigValidation (''agent '' @ ag_id agent @ '' max_concurrent_tasks must be > 0''))
      else rbind (validate_transport md agent) (\<lambda>_. validate_agents md (ag_id agent # ids) agents))"

definition schema_char :: "char \<Rightarrow> bool" where
  "schema_char c \<longleftrightarrow>
     (let n = (of_char c :: nat) in 48 \<le> n \<and> n \<le> 57 \<or> 65 \<le> n \<and> n \<le> 90 \<or> 97 \<le> n \<and> n \<le> 122 \<or> c = CHR ''_'')"

definition validate :: "config \<Rightarrow> config_error + unit" where
  "validate cfg =
     (if rc_max_concurrent_tasks (cf_runtime cfg) = 0
      then Inl (ConfigValidation ''runtime.max_concurrent_tasks must be > 0'')
      else if cf_agents cfg = [] then Inl (ConfigValidation ''at least one agent is required'')
      else rbind (validate_agents (cf_mode cfg) [] (cf_agents cfg)) (\<lambda>_.
        case cf_storage cfg of
          StPostgres dsn_env schema connections \<Rightarrow>
            if schema = [] \<or> \<not> list_all schema_char schema
            then Inl (ConfigValidation ''postgres schema must match [A-Za-z0-9_]+'') else Inr ()
        | _ \<Rightarrow> Inr ()))"

text \<open>\<open>load\<close>, by what reading the file and the YAML gives.\<close>

definition config_load :: "string + string \<Rightarrow> (string \<Rightarrow> string + config) \<Rightarrow> config_error + config" where
  "config_load file yaml =
     (case file of
        Inl e \<Rightarrow> Inl (ConfigIo e)
      | Inr text \<Rightarrow>
          (case yaml text of
             Inl e \<Rightarrow> Inl (ConfigYaml e)
           | Inr cfg \<Rightarrow> rbind (validate cfg) (\<lambda>_. Inr cfg)))"

text \<open>The multiplication of a release build.\<close>

definition u64_mul :: "nat \<Rightarrow> nat \<Rightarrow> nat" where
  "u64_mul a b = (a * b) mod 18446744073709551616"

definition config_retention_policy :: "config \<Rightarrow> retention_policy" where
  "config_retention_policy cfg =
     \<lparr>rp_task_ttl = secs (u64_mul (rt_task_ttl_days (cf_retention cfg)) 86400),
      rp_event_ttl = secs (u64_mul (rt_event_ttl_days (cf_retention cfg)) 86400),
      rp_idempotency_ttl = secs (u64_mul (rt_idempotency_ttl_hours (cf_retention cfg)) 3600),
      rp_cleanup_batch_size = rt_cleanup_batch_size (cf_retention cfg)\<rparr>"

definition config_agent_limits :: "agent_config \<Rightarrow> agent_limits" where
  "config_agent_limits agent =
     \<lparr>lim_max_concurrent_tasks = al_max_concurrent_tasks (ag_limits agent),
      lim_max_queued_tasks = al_max_queued_tasks (ag_limits agent),
      lim_max_input_bytes = al_max_input_bytes (ag_limits agent),
      lim_max_event_bytes = al_max_event_bytes (ag_limits agent),
      lim_default_timeout = secs (al_default_timeout_seconds (ag_limits agent))\<rparr>"

section \<open>Environment files\<close>

type_synonym environment = "(string \<times> string) list"

text \<open>\<open>std::env::var\<close>: the value, when it is there and is UTF-8.\<close>

definition env_var :: "environment \<Rightarrow> string \<Rightarrow> string option" where
  "env_var env k = Option.bind (map_of env k) from_utf8"

text \<open>\<open>std::env::set_var\<close> panics on an empty key, a key with an equals sign or a NUL, and a
  value with a NUL.\<close>

definition set_var :: "string \<Rightarrow> string \<Rightarrow> environment \<Rightarrow> environment checked" where
  "set_var k v env =
     (if k = [] \<or> CHR ''='' \<in> set k \<or> CHR 0x00 \<in> set k \<or> CHR 0x00 \<in> set v then Panic
      else Ret ((k, v) # filter (\<lambda>e. fst e \<noteq> k) env))"

definition split_once :: "char \<Rightarrow> string \<Rightarrow> (string \<times> string) option" where
  "split_once c s = (if c \<in> set s then Some (takeWhile (\<lambda>x. x \<noteq> c) s, tl (dropWhile (\<lambda>x. x \<noteq> c) s)) else None)"

text \<open>The assignment of a line, when it has one.\<close>

definition env_assignment :: "string \<Rightarrow> (string \<times> string) option" where
  "env_assignment raw =
     (let line = trim raw in
      if line = [] \<or> starts_with line ''#'' then None
      else map_option (\<lambda>(k, v). (trim k, trim v)) (split_once (CHR ''='') line))"

fun load_env_lines :: "string list \<Rightarrow> environment \<Rightarrow> environment checked" where
  "load_env_lines [] env = Ret env"
| "load_env_lines (line # lines) env =
     (case env_assignment line of
        None \<Rightarrow> load_env_lines lines env
      | Some (k, v) \<Rightarrow>
          if env_var env k = None
          then (case set_var k v env of Panic \<Rightarrow> Panic | Ret env' \<Rightarrow> load_env_lines lines env')
          else load_env_lines lines env)"

text \<open>\<open>files\<close> reads a file; an unreadable one is skipped.\<close>

definition load_env_file :: "(string \<Rightarrow> string option) \<Rightarrow> string \<Rightarrow> environment \<Rightarrow> environment checked" where
  "load_env_file files path env =
     (case files path of None \<Rightarrow> Ret env | Some contents \<Rightarrow> load_env_lines (lines_of contents) env)"

text \<open>\<open>sibling\<close> is the path of the \<open>.env\<close> file beside the configuration, when there is one.\<close>

definition load_env_files ::
  "(string \<Rightarrow> string option) \<Rightarrow> string option \<Rightarrow> environment \<Rightarrow> environment checked" where
  "load_env_files files sibling env =
     (case env_var env ''ADAPTERD_ENV_FILE'' of
        Some explicit \<Rightarrow> load_env_file files explicit env
      | None \<Rightarrow> (case sibling of Some path \<Rightarrow> load_env_file files path env | None \<Rightarrow> Ret env))"

section \<open>Start-up\<close>

datatype startup_error = SuConfig config_error | SuStorage string | SuDriver string | SuMissingEnv string

record parsed_url =
  pu_base :: base_url
  pu_text :: string

text \<open>What start-up gets from outside: the environment, URLs, the HTTP client, and how the
  connections of the MCP and ACP drivers end (\<open>None\<close> is the discovery timeout).\<close>

record startup_inputs =
  si_env :: environment
  si_parse_url :: "string \<Rightarrow> string + parsed_url"
  si_http_client :: "string + unit"
  si_mcp :: "agent_config \<Rightarrow> (mcp_driver_error + tool_schemas) option"
  si_acp :: "agent_config \<Rightarrow> acp_client_error + acp_client"

datatype driver =
    StdioDriver stdio_driver_config
  | HttpSseDriver http_sse_config
  | McpDriver tool_schemas
  | A2aDriver a2a_client
  | AcpDriver acp_client

fun driver_capabilities_of :: "driver \<Rightarrow> driver_capabilities" where
  "driver_capabilities_of (McpDriver schemas) = mcp_capabilities"
| "driver_capabilities_of _ = \<lparr>cap_cancellation = True, cap_provide_input = True\<rparr>"

definition env_token :: "environment \<Rightarrow> string option \<Rightarrow> startup_error + string option" where
  "env_token env token_env =
     (case token_env of
        None \<Rightarrow> Inr None
      | Some name \<Rightarrow> (case env_var env name of None \<Rightarrow> Inl (SuMissingEnv name) | Some tok \<Rightarrow> Inr (Some tok)))"

definition build_stdio :: "agent_config \<Rightarrow> string \<Rightarrow> string list \<Rightarrow> string option \<Rightarrow> (string \<times> string) list \<Rightarrow> driver" where
  "build_stdio agent command args working_dir env =
     StdioDriver (stdio_driver_config_default
       \<lparr>sd_id := ag_id agent, sd_command := command, sd_args := args, sd_working_dir := working_dir, sd_env := env\<rparr>)"

definition build_http_sse ::
  "startup_inputs \<Rightarrow> (uuid \<Rightarrow> string) \<Rightarrow> agent_config \<Rightarrow> string \<Rightarrow> string option \<Rightarrow> bool \<Rightarrow> startup_error + driver" where
  "build_http_sse si us agent endpoint token_env allow_http =
     (case si_parse_url si endpoint of
        Inl e \<Rightarrow> Inl (SuDriver (''invalid endpoint for '' @ ag_id agent @ '': '' @ e))
      | Inr url \<Rightarrow>
          rbind (env_token (si_env si) token_env) (\<lambda>token.
            let cfg = (http_sse_config_new (pu_base url))
                  \<lparr>hs_id := ag_id agent, hs_require_https := \<not> allow_http,
                   hs_credential := (case token of Some t \<Rightarrow> CredBearer t | None \<Rightarrow> CredNone)\<rparr> in
            case http_sse_new cfg (si_http_client si) of
              Inl e \<Rightarrow> Inl (SuDriver (display_core_error us e))
            | Inr _ \<Rightarrow> Inr (HttpSseDriver cfg)))"

definition build_mcp ::
  "startup_inputs \<Rightarrow> agent_config \<Rightarrow> mcp_transport_config \<Rightarrow> nat \<Rightarrow> startup_error + driver" where
  "build_mcp si agent transport discovery_timeout =
     rbind (case transport of
        McpStdioTransport command args env \<Rightarrow> Inr ()
      | McpHttpTransport endpoint token_env allow_http \<Rightarrow>
          if \<not> allow_http \<and> \<not> starts_with endpoint ''https://''
          then Inl (SuDriver (''agent '' @ ag_id agent @ '' MCP HTTP endpoint must use https''))
          else rbind (env_token (si_env si) token_env) (\<lambda>_. Inr ()))
     (\<lambda>_. case si_mcp si agent of
        None \<Rightarrow> Inl (SuDriver (''agent '' @ ag_id agent @ '' MCP discovery timed out after '' @
                       nat_str discovery_timeout @ ''s''))
      | Some (Inl e) \<Rightarrow> Inl (SuDriver (display_mcp_error e))
      | Some (Inr schemas) \<Rightarrow> Inr (McpDriver schemas))"

definition build_a2a ::
  "startup_inputs \<Rightarrow> agent_config \<Rightarrow> string \<Rightarrow> string option \<Rightarrow> bool \<Rightarrow> nat \<Rightarrow> a2a_wire_format \<Rightarrow> string option \<Rightarrow>
     startup_error + driver" where
  "build_a2a si agent endpoint token_env allow_http request_timeout wire card_url =
     (case si_parse_url si endpoint of
        Inl e \<Rightarrow> Inl (SuDriver (''invalid A2A endpoint for '' @ ag_id agent @ '': '' @ e))
      | Inr url \<Rightarrow>
          if \<not> allow_http \<and> bu_scheme (pu_base url) \<noteq> ''https''
          then Inl (SuDriver (''agent '' @ ag_id agent @ '' A2A client endpoint must use https''))
          else rbind (env_token (si_env si) token_env) (\<lambda>token.
            case a2a_client_new \<lparr>acc_endpoint = pu_text url, acc_token = token, acc_wire_format = wire,
                   acc_timeout_secs = request_timeout, acc_agent_card_url = card_url\<rparr> (si_http_client si) of
              Inl e \<Rightarrow> Inl (SuDriver (display_a2a_error e))
            | Inr client \<Rightarrow> Inr (A2aDriver client)))"

definition build_driver :: "startup_inputs \<Rightarrow> (uuid \<Rightarrow> string) \<Rightarrow> agent_config \<Rightarrow> startup_error + driver" where
  "build_driver si us agent =
     (case ag_transport agent of
        TrStdio command args working_dir env \<Rightarrow> Inr (build_stdio agent command args working_dir env)
      | TrHttpSse endpoint token_env allow_http \<Rightarrow> build_http_sse si us agent endpoint token_env allow_http
      | TrMcp transport allowed_tools discovery_timeout \<Rightarrow> build_mcp si agent transport discovery_timeout
      | TrA2aClient endpoint token_env allow_http request_timeout wire card_url \<Rightarrow>
          build_a2a si agent endpoint token_env allow_http request_timeout wire card_url
      | TrAcpClient command args working_dir \<Rightarrow>
          (case si_acp si agent of
             Inl e \<Rightarrow> Inl (SuDriver (display_acp_error e))
           | Inr client \<Rightarrow> Inr (AcpDriver client)))"

datatype store_choice = UseMemory | UseSqlite string | UsePostgres string string nat

text \<open>\<open>made\<close>: the directory of the database file; \<open>opened\<close>: the store.\<close>

definition build_store :: "environment \<Rightarrow> string + unit \<Rightarrow> string + unit \<Rightarrow> storage_config \<Rightarrow> startup_error + store_choice" where
  "build_store env made opened storage =
     (case storage of
        StMemory \<Rightarrow> Inr UseMemory
      | StSqlite path \<Rightarrow>
          rbind (map_err SuStorage made) (\<lambda>_. rbind (map_err SuStorage opened) (\<lambda>_. Inr (UseSqlite path)))
      | StPostgres dsn_env schema connections \<Rightarrow>
          (case env_var env dsn_env of
             None \<Rightarrow> Inl (SuMissingEnv dsn_env)
           | Some dsn \<Rightarrow> rbind (map_err SuStorage opened) (\<lambda>_. Inr (UsePostgres dsn schema connections))))"

text \<open>The loop over the agents: one whose driver does not start is skipped. The number is the
  identity of the registered agent.\<close>

fun register_agents ::
  "startup_inputs \<Rightarrow> (uuid \<Rightarrow> string) \<Rightarrow> nat \<Rightarrow> agent_config list \<Rightarrow> agent_registry \<Rightarrow> agent_registry" where
  "register_agents si us n [] reg = reg"
| "register_agents si us n (agent # agents) reg =
     register_agents si us (Suc n) agents
       (case build_driver si us agent of
          Inr drv \<Rightarrow> registry_register (registered_agent_new n (ag_id agent) (ag_skills agent)
                     (driver_capabilities_of drv) (config_agent_limits agent)) reg
        | Inl e \<Rightarrow> reg)"

fun display_token_error :: "bearer_token_policy_error \<Rightarrow> string" where
  "display_token_error (MissingEnv name) = ''missing required env var: '' @ name"
| "display_token_error (DuplicateToken name) =
     ''duplicate token detected for token_env '' @ name @ '' '' @ em_dash @ '' tokens must be unique''"

definition build_auth_state ::
  "environment \<Rightarrow> bearer_token_entry list \<Rightarrow> startup_error + bearer_token_policy option" where
  "build_auth_state env entries =
     (if entries = [] then Inr None
      else
        (case from_env (env_var env) (map (\<lambda>e. (bt_token_env e,
                \<lparr>tg_caller_id = bt_caller_id e, tg_allowed_scopes = bt_allowed_scopes e\<rparr>)) entries) of
           Inl e \<Rightarrow> Inl (SuConfig (ConfigValidation (display_token_error e)))
         | Inr policy \<Rightarrow> Inr (Some policy)))"

record daemon =
  dm_store :: store_choice
  dm_registry :: agent_registry
  dm_policy :: "bearer_token_policy option"
  dm_max_concurrent :: nat
  dm_retention :: retention_policy

definition daemon_build ::
  "startup_inputs \<Rightarrow> (uuid \<Rightarrow> string) \<Rightarrow> string + unit \<Rightarrow> string + unit \<Rightarrow> config \<Rightarrow>
     startup_error + daemon" where
  "daemon_build si us made opened cfg =
     rbind (build_store (si_env si) made opened (cf_storage cfg)) (\<lambda>store.
       let registry = register_agents si us 0 (cf_agents cfg) [] in
       if registry_agents registry = [] then Inl (SuDriver ''no agents started successfully'')
       else rbind (build_auth_state (si_env si) (cf_auth cfg)) (\<lambda>policy.
         Inr \<lparr>dm_store = store, dm_registry = registry, dm_policy = policy,
              dm_max_concurrent = rc_max_concurrent_tasks (cf_runtime cfg),
              dm_retention = config_retention_policy cfg\<rparr>))"

section \<open>What validation guarantees\<close>

definition transport_ok :: "mode \<Rightarrow> agent_transport_config \<Rightarrow> bool" where
  "transport_ok md tr \<longleftrightarrow>
     (case tr of
        TrHttpSse endpoint token_env allow_http \<Rightarrow> allow_http \<or> starts_with endpoint ''https://''
      | TrMcp transport allowed_tools discovery_timeout \<Rightarrow> md = Local \<or> allowed_tools \<noteq> []
      | TrA2aClient endpoint token_env allow_http request_timeout wire card_url \<Rightarrow>
          allow_http \<or> starts_with endpoint ''https://''
      | _ \<Rightarrow> True)"

definition agent_ok :: "mode \<Rightarrow> agent_config \<Rightarrow> bool" where
  "agent_ok md agent \<longleftrightarrow>
     \<not> blank (ag_id agent) \<and> 0 < al_max_concurrent_tasks (ag_limits agent) \<and> transport_ok md (ag_transport agent)"

definition config_ok :: "config \<Rightarrow> bool" where
  "config_ok cfg \<longleftrightarrow>
     0 < rc_max_concurrent_tasks (cf_runtime cfg) \<and> cf_agents cfg \<noteq> [] \<and>
     distinct (map ag_id (cf_agents cfg)) \<and> list_all (agent_ok (cf_mode cfg)) (cf_agents cfg) \<and>
     (case cf_storage cfg of StPostgres dsn_env schema connections \<Rightarrow> schema \<noteq> [] \<and> list_all schema_char schema | _ \<Rightarrow> True)"

lemma validate_transport_iff: "validate_transport md agent = Inr () \<longleftrightarrow> transport_ok md (ag_transport agent)"
  by (cases "ag_transport agent"; cases md) (simp_all add: validate_transport_def transport_ok_def)

lemma validate_agents_iff:
  "validate_agents md ids agents = Inr () \<longleftrightarrow>
     list_all (agent_ok md) agents \<and> distinct (map ag_id agents) \<and> set ids \<inter> set (map ag_id agents) = {}"
proof (induction agents arbitrary: ids)
  case (Cons agent agents)
  have "rbind (validate_transport md agent) f = Inr () \<longleftrightarrow> transport_ok md (ag_transport agent) \<and> f () = Inr ()" for f
    by (auto simp: rbind_Inr_iff validate_transport_iff)
  then show ?case using Cons.IH [of "ag_id agent # ids"] by (auto simp: agent_ok_def)
qed simp

lemma config_validate_iff: "validate cfg = Inr () \<longleftrightarrow> config_ok cfg"
proof -
  have "rbind (validate_agents (cf_mode cfg) [] (cf_agents cfg)) f = Inr () \<longleftrightarrow>
      list_all (agent_ok (cf_mode cfg)) (cf_agents cfg) \<and> distinct (map ag_id (cf_agents cfg)) \<and> f () = Inr ()" for f
    by (auto simp: rbind_Inr_iff validate_agents_iff)
  then show ?thesis by (auto simp: validate_def config_ok_def split: storage_config.split)
qed


section \<open>What start-up builds\<close>

definition registered ::
  "startup_inputs \<Rightarrow> (uuid \<Rightarrow> string) \<Rightarrow> nat \<times> agent_config \<Rightarrow> registered_agent option" where
  "registered si us e =
     (case build_driver si us (snd e) of
        Inr drv \<Rightarrow> Some (registered_agent_new (fst e) (ag_id (snd e)) (ag_skills (snd e)) (driver_capabilities_of drv)
                     (config_agent_limits (snd e)))
      | Inl err \<Rightarrow> None)"

lemma in_enumerate: "e \<in> set (enumerate n xs) \<Longrightarrow> snd e \<in> set xs"
  by (metis imageI map_snd_enumerate set_map)

lemma register_agents_map_of:
  "distinct (map ag_id agents) \<Longrightarrow>
     map_of (register_agents si us n agents reg) aid =
       (case Option.bind (find (\<lambda>e. ag_id (snd e) = aid) (enumerate n agents)) (registered si us) of
          Some a \<Rightarrow> Some a | None \<Rightarrow> map_of reg aid)"
proof (induction agents arbitrary: n reg)
  case (Cons agent agents)
  let ?reg = "case build_driver si us agent of
      Inr drv \<Rightarrow> registry_register (registered_agent_new n (ag_id agent) (ag_skills agent)
                 (driver_capabilities_of drv) (config_agent_limits agent)) reg
    | Inl e \<Rightarrow> reg"
  have reg: "map_of ?reg aid = (if ag_id agent = aid then
      (case registered si us (n, agent) of Some a \<Rightarrow> Some a | None \<Rightarrow> map_of reg aid) else map_of reg aid)"
    by (auto simp: registered_def registry_register_map_of registered_agent_new_def split: sum.split)
  have other: "find (\<lambda>e. ag_id (snd e) = aid) (enumerate (Suc n) agents) = None" if "ag_id agent = aid"
  proof -
    have "ag_id agent \<notin> ag_id ` set agents" using Cons.prems by simp
    then have "ag_id (snd e) \<noteq> aid" if "e \<in> set (enumerate (Suc n) agents)" for e
      using in_enumerate [OF that] \<open>ag_id agent = aid\<close> by blast
    then show ?thesis unfolding find_None_iff by blast
  qed
  show ?case
    using Cons.IH [of "Suc n" ?reg] Cons.prems reg other
    by (cases "ag_id agent = aid") (simp_all add: enumerate_simps split: option.split)
qed simp

text \<open>
  C36: the daemon registers exactly the agents whose drivers start. For a valid
  configuration, an id is in the registry if and only if the agent configured under it has
  a driver that started; the entry has the configured skills, the capabilities of its driver
  and the configured limits, and its pool holds at least one task. The skills of an MCP
  agent are the configured ones too: the tools that its driver discovered are not among
  them until the server announces a change.
\<close>

theorem daemon_registry_exact:
  assumes "validate cfg = Inr ()" "daemon_build si us made opened cfg = Inr d"
  shows "map_of (dm_registry d) aid =
      Option.bind (find (\<lambda>e. ag_id (snd e) = aid) (enumerate 0 (cf_agents cfg))) (registered si us) \<and>
    (case map_of (dm_registry d) aid of None \<Rightarrow> True | Some a \<Rightarrow> ra_id a = aid \<and> 0 < capacity (ra_permits a))"
proof -
  have ok: "config_ok cfg" using assms(1) config_validate_iff by simp
  have d: "dm_registry d = register_agents si us 0 (cf_agents cfg) []"
    using assms(2) by (auto simp: daemon_build_def rbind_Inr_iff Let_def split: if_splits)
  have reg: "map_of (dm_registry d) aid =
      Option.bind (find (\<lambda>e. ag_id (snd e) = aid) (enumerate 0 (cf_agents cfg))) (registered si us)"
    using register_agents_map_of [of "cf_agents cfg" si us 0 "[]" aid] ok d by (simp add: config_ok_def split: option.splits)
  moreover have "ra_id a = aid \<and> 0 < capacity (ra_permits a)" if "map_of (dm_registry d) aid = Some a" for a
  proof -
    have "Option.bind (find (\<lambda>e. ag_id (snd e) = aid) (enumerate 0 (cf_agents cfg))) (registered si us) = Some a"
      using that reg by simp
    then obtain e where e: "find (\<lambda>e. ag_id (snd e) = aid) (enumerate 0 (cf_agents cfg)) = Some e" "registered si us e = Some a"
      unfolding bind_eq_Some_conv by blast
    from e(1) obtain i where "i < length (enumerate 0 (cf_agents cfg))" "ag_id (snd e) = aid" "e = enumerate 0 (cf_agents cfg) ! i"
      unfolding find_Some_iff by blast
    then have "snd e \<in> set (cf_agents cfg)" "ag_id (snd e) = aid"
      using in_enumerate [of e 0 "cf_agents cfg"] nth_mem by simp_all
    moreover from this have "agent_ok (cf_mode cfg) (snd e)" using ok by (auto simp: config_ok_def list_all_iff)
    ultimately show ?thesis
      using e(2) by (auto simp: registered_def registered_agent_new_def config_agent_limits_def agent_ok_def split: sum.splits)
  qed
  ultimately show ?thesis by (auto split: option.split)
qed

text \<open>A limit that validation does not look at: an agent whose queue has no places refuses
  every invocation.\<close>

lemma empty_queue_refuses:
  assumes "al_max_queued_tasks (ag_limits agent) = 0" "registered si us (n, agent) = Some a"
  shows "try_acquire (ra_queue_permits a) w = (False, w)"
  using assms
  by (auto simp: registered_def registered_agent_new_def config_agent_limits_def try_acquire_def split: sum.splits)

text \<open>A retention time that overflows comes out short: 213503982334602 days become 61184
  seconds.\<close>

lemma retention_wraps: "u64_mul 213503982334602 86400 = 61184"
  by (simp add: u64_mul_def)

section \<open>What environment files do\<close>

definition file_assignments :: "string list \<Rightarrow> (string \<times> string) list" where
  "file_assignments lines = List.map_filter env_assignment lines"

lemma set_var_env:
  assumes "set_var k v env = Ret env'" "from_utf8 v = Some v"
  shows "env_var env' x = (if x = k then Some v else env_var env x)"
proof -
  have "map_of (filter (\<lambda>e. fst e \<noteq> k) env) x = (if x = k then None else map_of env x)" by (induction env) auto
  then show ?thesis using assms by (auto simp: set_var_def env_var_def split: if_splits)
qed

text \<open>
  An environment file fills gaps. After reading a file that does not make the process
  panic, a variable that was set to valid text has its old value, and any other has the
  first value that the file gives it; lines that are blank, comments or without an equals
  sign change nothing.
\<close>

theorem env_file_fills_gaps:
  assumes "load_env_lines lines env = Ret env'" "list_all (\<lambda>e. from_utf8 (snd e) = Some (snd e)) (file_assignments lines)"
  shows "env_var env' x = (case env_var env x of Some v \<Rightarrow> Some v | None \<Rightarrow> map_of (file_assignments lines) x)"
  using assms
proof (induction lines arbitrary: env)
  case (Cons line lines)
  show ?case
  proof (cases "env_assignment line")
    case None
    then have fa: "file_assignments (line # lines) = file_assignments lines"
      by (simp add: file_assignments_def List.map_filter_def)
    from None Cons.IH [of env] Cons.prems show ?thesis unfolding fa by simp
  next
    case (Some kv)
    obtain k v where kv: "kv = (k, v)" by fastforce
    have v: "from_utf8 v = Some v" and rest: "list_all (\<lambda>e. from_utf8 (snd e) = Some (snd e)) (file_assignments lines)"
      and fa: "file_assignments (line # lines) = (k, v) # file_assignments lines"
      using Cons.prems(2) Some kv by (simp_all add: file_assignments_def List.map_filter_def)
    show ?thesis
    proof (cases "env_var env k")
      case None
      then obtain env1 where env1: "set_var k v env = Ret env1" "load_env_lines lines env1 = Ret env'"
        using Cons.prems(1) Some kv by (auto split: checked.splits)
      from Cons.IH [OF env1(2) rest] set_var_env [OF env1(1) v] None show ?thesis unfolding fa by (auto split: option.split)
    next
      case (Some old)
      then have "load_env_lines lines env = Ret env'"
        using Cons.prems(1) \<open>env_assignment line = Some kv\<close> kv by simp
      from Cons.IH [OF this rest] Some show ?thesis unfolding fa by (auto split: option.split)
    qed
  qed
qed (simp add: file_assignments_def List.map_filter_def split: option.split)

theorem env_file_fills_gaps_witness:
  "case load_env_lines [''# c'', ''A = 1'', ''B=2'', ''A=3''] [(''B'', ''x'')] of
     Panic \<Rightarrow> False
   | Ret env' \<Rightarrow> env_var env' ''A'' = Some ''1'' \<and> env_var env' ''B'' = Some ''x''"
proof -
  let ?lines = "[''# c'', ''A = 1'', ''B=2'', ''A=3'']"
  have run: "load_env_lines ?lines [(''B'', ''x'')] \<noteq> Panic" by code_simp
  then obtain env' where env': "load_env_lines ?lines [(''B'', ''x'')] = Ret env'"
    by (cases "load_env_lines ?lines [(''B'', ''x'')]") auto
  have "list_all (\<lambda>e. from_utf8 (snd e) = Some (snd e)) (file_assignments ?lines)" by code_simp
  note fills = env_file_fills_gaps [OF env' this]
  have "env_var [(''B'', ''x'')] ''A'' = None" "env_var [(''B'', ''x'')] ''B'' = Some ''x''"
    "map_of (file_assignments ?lines) ''A'' = Some ''1''" by code_simp+
  with fills [of "''A''"] fills [of "''B''"] env' show ?thesis by simp
qed

text \<open>A line without a name before its equals sign stops the daemon.\<close>

lemma env_file_panics: "load_env_lines [''=1''] [] = Panic"
  by code_simp

section \<open>Examples\<close>

definition demo_agent_config :: agent_config where
  "demo_agent_config = \<lparr>ag_id = ''x'', ag_skills = [''s''], ag_limits = agent_limits_config_default,
     ag_transport = TrStdio ''./a'' [] None []\<rparr>"

definition demo_config :: config where
  "demo_config = \<lparr>cf_mode = Local, cf_storage = StMemory, cf_runtime = runtime_config_default,
     cf_agents = [demo_agent_config], cf_retention = retention_config_default, cf_auth = []\<rparr>"

definition demo_inputs :: startup_inputs where
  "demo_inputs = \<lparr>si_env = [], si_parse_url = (\<lambda>_. Inl []), si_http_client = Inr (), si_mcp = (\<lambda>_. None),
     si_acp = (\<lambda>_. Inl StdioUnavailable)\<rparr>"

theorem daemon_registry_exact_witness:
  "case daemon_build demo_inputs (\<lambda>_. []) (Inr ()) (Inr ()) demo_config of
     Inl e \<Rightarrow> False
   | Inr d \<Rightarrow> map_of (dm_registry d) ''x'' = registered demo_inputs (\<lambda>_. []) (0, demo_agent_config) \<and>
       map_of (dm_registry d) ''y'' = None"
proof -
  have "\<not> blank ''x''" by code_simp
  then have valid: "validate demo_config = Inr ()"
    by (simp add: config_validate_iff config_ok_def agent_ok_def transport_ok_def demo_config_def demo_agent_config_def
        runtime_config_default_def agent_limits_config_default_def)
  have "is_ok (daemon_build demo_inputs (\<lambda>_. []) (Inr ()) (Inr ()) demo_config)"
    by (simp add: daemon_build_def demo_config_def build_store_def build_driver_def demo_agent_config_def
        registry_agents_def build_auth_state_def)
  then obtain d where d: "daemon_build demo_inputs (\<lambda>_. []) (Inr ()) (Inr ()) demo_config = Inr d"
    by (cases "daemon_build demo_inputs (\<lambda>_. []) (Inr ()) (Inr ()) demo_config") auto
  have "map_of (dm_registry d) ''x'' = registered demo_inputs (\<lambda>_. []) (0, demo_agent_config)"
    "map_of (dm_registry d) ''y'' = None"
    using daemon_registry_exact [OF valid d, of "''x''"] daemon_registry_exact [OF valid d, of "''y''"]
    by (simp_all add: demo_config_def demo_agent_config_def enumerate_simps)
  with d show ?thesis by simp
qed

end
