(* ===== verification/A2A_Server.thy ===== *)
theory A2A_Server
  imports Core_Service Text_Bytes
begin

text \<open>
  The crate \<open>protocol-a2a-server\<close>: the executor that bridges the A2A SDK to the core, the
  read-only task store the SDK asks, bearer authentication, readiness and the agent card.
  The SDK (crates \<open>a2a\<close> and \<open>a2a-server\<close>) is third-party: its data types are
  records and datatypes with the fields the sources read or write, its helper constructors
  (\<open>Message::new\<close>, \<open>Part::text\<close> and the like) are the argument \<open>sdk\<close>.
  \<open>Utc::now\<close> is the argument \<open>now\<close>.
\<close>

section \<open>Data of the SDK\<close>

datatype sdk_state =
    SdkUnspecified
  | SdkSubmitted
  | SdkWorking
  | SdkInputRequired
  | SdkCompleted
  | SdkFailed
  | SdkCanceled
  | SdkRejected
  | SdkAuthRequired

datatype sdk_content = ScText string | ScRaw string | ScUrl string | ScData json

record sdk_part =
  spt_content :: sdk_content
  spt_filename :: "string option"
  spt_media_type :: "string option"
  spt_metadata :: "json option"

datatype sdk_role = RoleUser | RoleAgent

record sdk_message =
  sm_role :: sdk_role
  sm_parts :: "sdk_part list"

record sdk_status =
  ss_state :: sdk_state
  ss_message :: "sdk_message option"
  ss_timestamp :: "time option"

record sdk_task =
  st_id :: string
  st_context_id :: string
  st_status :: sdk_status

record sdk_artifact =
  sa_artifact_id :: string
  sa_name :: "string option"
  sa_parts :: "sdk_part list"

datatype stream_response =
    SrStatusUpdate string string sdk_status
  | SrArtifactUpdate string string sdk_artifact
  | SrTask sdk_task

datatype a2a_error =
    A2aErrInvalidRequest string
  | A2aErrInternal string "json list"
  | A2aErrTaskNotFound string

record sdk_builders =
  sb_message :: "sdk_role \<Rightarrow> sdk_part list \<Rightarrow> sdk_message"
  sb_text :: "string \<Rightarrow> sdk_part"
  sb_data :: "json \<Rightarrow> sdk_part"
  sb_url :: "string \<Rightarrow> sdk_part"
  sb_with_media_type :: "sdk_part \<Rightarrow> string \<Rightarrow> sdk_part"

record executor_context =
  ec_task_id :: string
  ec_context_id :: string
  ec_message :: "sdk_message option"
  ec_metadata :: "(string \<times> json) list option"
  ec_service_params :: "(string \<times> string list) list"

section \<open>The executor: translation\<close>

record agent_executor =
  ex_core :: core_env
  ex_caller :: caller
  ex_auth :: "bearer_token_policy option"

definition executor_new :: "core_env \<Rightarrow> string \<Rightarrow> agent_executor" where
  "executor_new core caller_id =
     \<lparr>ex_core = core, ex_caller = \<lparr>caller_id_of = caller_id, caller_scopes = []\<rparr>, ex_auth = None\<rparr>"

definition executor_with_auth :: "core_env \<Rightarrow> string \<Rightarrow> bearer_token_policy \<Rightarrow> agent_executor" where
  "executor_with_auth core caller_id auth =
     \<lparr>ex_core = core, ex_caller = \<lparr>caller_id_of = caller_id, caller_scopes = []\<rparr>, ex_auth = Some auth\<rparr>"

definition resolve_caller :: "agent_executor \<Rightarrow> executor_context \<Rightarrow> a2a_error + caller" where
  "resolve_caller ex ctx =
     (case ex_auth ex of
        None \<Rightarrow> Inr (ex_caller ex)
      | Some policy \<Rightarrow>
          (case Option.bind (map_of (ec_service_params ctx) ''authorization'') (\<lambda>vs.
                case vs of [] \<Rightarrow> None | v # _ \<Rightarrow> strip_prefix ''Bearer '' v) of
             None \<Rightarrow> Inl (A2aErrInvalidRequest ''missing bearer token'')
           | Some token \<Rightarrow>
               ok_or (resolve_token policy token) (A2aErrInvalidRequest ''invalid bearer token'')))"

definition a2a_message_to_parts :: "sdk_message option \<Rightarrow> part list" where
  "a2a_message_to_parts message =
     (case message of
        None \<Rightarrow> []
      | Some m \<Rightarrow>
          map (\<lambda>p. case spt_content p of
                 ScText text \<Rightarrow> PText text
               | ScRaw bytes \<Rightarrow> PJson (JString (from_utf8_lossy bytes))
               | ScUrl url \<Rightarrow> PFileRef url (spt_media_type p)
               | ScData v \<Rightarrow> PJson v) (sm_parts m))"

fun adapter_part_to_a2a :: "sdk_builders \<Rightarrow> part \<Rightarrow> sdk_part" where
  "adapter_part_to_a2a sdk (PText text) = sb_text sdk text"
| "adapter_part_to_a2a sdk (PJson v) = sb_data sdk v"
| "adapter_part_to_a2a sdk (PFileRef uri mime) =
     sb_with_media_type sdk (sb_url sdk uri) (case mime of None \<Rightarrow> [] | Some m \<Rightarrow> m)"

definition status_update ::
  "sdk_builders \<Rightarrow> time \<Rightarrow> string \<Rightarrow> string \<Rightarrow> sdk_state \<Rightarrow> string option \<Rightarrow> stream_response" where
  "status_update sdk now task_id context_id state message =
     SrStatusUpdate task_id context_id
       \<lparr>ss_state = state,
        ss_message = map_option (\<lambda>text. sb_message sdk RoleAgent [sb_text sdk text]) message,
        ss_timestamp = Some now\<rparr>"

definition task_completed :: "time \<Rightarrow> string \<Rightarrow> string \<Rightarrow> sdk_message option \<Rightarrow> stream_response" where
  "task_completed now task_id context_id message =
     SrTask \<lparr>st_id = task_id, st_context_id = context_id,
       st_status = \<lparr>ss_state = SdkCompleted, ss_message = message, ss_timestamp = Some now\<rparr>\<rparr>"

definition task_failed :: "time \<Rightarrow> string \<Rightarrow> string \<Rightarrow> sdk_message option \<Rightarrow> stream_response" where
  "task_failed now task_id context_id message =
     SrTask \<lparr>st_id = task_id, st_context_id = context_id,
       st_status = \<lparr>ss_state = SdkFailed, ss_message = message, ss_timestamp = Some now\<rparr>\<rparr>"

definition task_canceled :: "time \<Rightarrow> string \<Rightarrow> string \<Rightarrow> stream_response" where
  "task_canceled now task_id context_id =
     SrTask \<lparr>st_id = task_id, st_context_id = context_id,
       st_status = \<lparr>ss_state = SdkCanceled, ss_message = None, ss_timestamp = Some now\<rparr>\<rparr>"

definition terminal_stream_response :: "time \<Rightarrow> executor_context \<Rightarrow> stream_response" where
  "terminal_stream_response now ctx =
     SrTask \<lparr>st_id = ec_task_id ctx, st_context_id = ec_context_id ctx,
       st_status = \<lparr>ss_state = SdkCanceled, ss_message = None, ss_timestamp = Some now\<rparr>\<rparr>"

definition event_to_stream_response ::
  "uuid_format \<Rightarrow> sdk_builders \<Rightarrow> time \<Rightarrow> core_event \<Rightarrow> stream_response" where
  "event_to_stream_response uf sdk now event =
     (let task_id = uf_print uf (ev_task_id event); context_id = uf_print uf (ev_task_id event) in
      case ev_kind event of
        EvAccepted queued \<Rightarrow> status_update sdk now task_id context_id SdkWorking None
      | EvProgress message percent \<Rightarrow>
          status_update sdk now task_id context_id SdkWorking (Some message)
      | EvInputRequired request \<Rightarrow>
          status_update sdk now task_id context_id SdkInputRequired (Some (ir_question request))
      | EvArtifact artifact \<Rightarrow>
          SrArtifactUpdate task_id context_id
            \<lparr>sa_artifact_id = art_id artifact, sa_name = Some (art_name artifact),
             sa_parts = [\<lparr>spt_content = (case art_uri artifact of None \<Rightarrow> ScText [] | Some u \<Rightarrow> ScUrl u),
                          spt_filename = None, spt_media_type = Some (art_mime_type artifact),
                          spt_metadata = None\<rparr>]\<rparr>
      | EvCompleted output \<Rightarrow>
          task_completed now task_id context_id
            (Some (sb_message sdk RoleAgent (map (adapter_part_to_a2a sdk) output)))
      | EvFailed error \<Rightarrow>
          task_failed now task_id context_id
            (Some (sb_message sdk RoleAgent [sb_text sdk (pe_message error)]))
      | EvCancelRequested reason \<Rightarrow>
          status_update sdk now task_id context_id SdkWorking (Some ''cancellation requested'')
      | EvCancelled \<Rightarrow> task_canceled now task_id context_id)"

fun map_task_state :: "task_state \<Rightarrow> sdk_state" where
  "map_task_state Created = SdkWorking"
| "map_task_state Accepted = SdkWorking"
| "map_task_state Running = SdkWorking"
| "map_task_state WaitingForInput = SdkInputRequired"
| "map_task_state CancelRequested = SdkWorking"
| "map_task_state Cancelled = SdkCanceled"
| "map_task_state Completed = SdkCompleted"
| "map_task_state Failed = SdkFailed"

text \<open>The snapshot in any of the five results of the core.\<close>

fun result_snapshot :: "dispatch_result \<Rightarrow> task_snapshot" where
  "result_snapshot (DrCreated s) = s"
| "result_snapshot (DrExisting s) = s"
| "result_snapshot (DrStatus s) = s"
| "result_snapshot (DrCancelRequested s) = s"
| "result_snapshot (DrInputAccepted s) = s"

definition task_snapshot_to_stream :: "uuid_format \<Rightarrow> dispatch_result \<Rightarrow> stream_response" where
  "task_snapshot_to_stream uf result =
     (let snap = result_snapshot result in
      SrTask \<lparr>st_id = uf_print uf (snap_task_id snap),
        st_context_id = (case snap_session_id snap of
            Some s \<Rightarrow> uf_print uf s | None \<Rightarrow> uf_print uf (snap_task_id snap)),
        st_status = \<lparr>ss_state = map_task_state (snap_state snap), ss_message = None,
          ss_timestamp = Some (snap_updated_at snap)\<rparr>\<rparr>)"

fun core_error_to_a2a :: "uuid_format \<Rightarrow> core_error \<Rightarrow> a2a_error" where
  "core_error_to_a2a uf (InvalidRequest msg) = A2aErrInvalidRequest msg"
| "core_error_to_a2a uf (AgentNotFound aid) = A2aErrInvalidRequest (''agent not found: '' @ aid)"
| "core_error_to_a2a uf NoEligibleAgent = A2aErrInvalidRequest ''no eligible agent''"
| "core_error_to_a2a uf (ResourceExhausted msg) = A2aErrInternal msg []"
| "core_error_to_a2a uf (DriverError msg) = A2aErrInternal msg []"
| "core_error_to_a2a uf Timeout = A2aErrInternal ''task timed out'' []"
| "core_error_to_a2a uf (StoreError e) = A2aErrInternal (display_store_error (uf_print uf) e) []"

section \<open>The executor: execution\<close>

text \<open>The request of the core that an execution makes; the key is the task id of A2A.\<close>

definition executor_request :: "uuid_format \<Rightarrow> executor_context \<Rightarrow> task_id \<Rightarrow> invoke_request" where
  "executor_request uf ctx t =
     \<lparr>rq_task_id = Some t, rq_agent_id = None, rq_skill_id = None, rq_idempotency_key = ec_task_id ctx,
      rq_session_id = uf_parse uf (ec_context_id ctx), rq_input = a2a_message_to_parts (ec_message ctx),
      rq_context = (case ec_metadata ctx of None \<Rightarrow> JNull | Some kvs \<Rightarrow> JObject kvs),
      rq_deadline = None\<rparr>"

definition server_core :: "uuid_format \<Rightarrow> (core_error + 'a) prog \<Rightarrow> ('a \<Rightarrow> (a2a_error + 'b) prog) \<Rightarrow>
    (a2a_error + 'b) prog" where
  "server_core uf p f = bindp p (\<lambda>r. case r of Inl e \<Rightarrow> Done (Inl (core_error_to_a2a uf e)) | Inr a \<Rightarrow> f a)"

definition create_and_subscribe ::
  "uuid_format \<Rightarrow> agent_executor \<Rightarrow> executor_context \<Rightarrow> (a2a_error + task_id \<times> task_subscription) prog" where
  "create_and_subscribe uf ex ctx =
     (case uf_parse uf (ec_task_id ctx) of
        None \<Rightarrow> Done (Inl (A2aErrInvalidRequest ''task_id must be a UUID''))
      | Some t \<Rightarrow>
          (case resolve_caller ex ctx of
             Inl e \<Rightarrow> Done (Inl e)
           | Inr caller \<Rightarrow>
               server_core uf (dispatch (ex_core ex) caller (Invoke (executor_request uf ctx t))) (\<lambda>result.
                 case result of
                   DrCreated s \<Rightarrow>
                     server_core uf (subscribe (snap_task_id s) 0) (\<lambda>sub. Done (Inr (snap_task_id s, sub)))
                 | DrExisting s \<Rightarrow>
                     server_core uf (subscribe (snap_task_id s) 0) (\<lambda>sub. Done (Inr (snap_task_id s, sub)))
                 | _ \<Rightarrow> Done (Inl (A2aErrInternal ''unexpected core result for invoke'' [])))))"

text \<open>
  The stream of \<open>execute\<close>, an \<open>unfold\<close> over a state. What \<open>receiver.recv()\<close> answers
  is an input, as in the reliable stream; with no answer left the stream is pending.
\<close>

datatype exec_state = ExInit | ExReady task_subscription | ExDone

datatype exec_poll =
    ExPending
  | ExEnd
  | ExItem "a2a_error + stream_response" exec_state "recv list"

definition lagged_error :: a2a_error where
  "lagged_error =
     A2aErrInternal ''subscription fell behind task history; resume with a cursor''
       [JObject [(''reason'', JString ''stream_lagged'')]]"

fun exec_live ::
  "uuid_format \<Rightarrow> sdk_builders \<Rightarrow> time \<Rightarrow> executor_context \<Rightarrow> task_subscription \<Rightarrow> recv list \<Rightarrow> exec_poll" where
  "exec_live uf sdk now ctx sub [] = ExPending"
| "exec_live uf sdk now ctx sub (RecvOk event # ins) =
     (if (case ts_history_end_seq sub of None \<Rightarrow> False | Some e \<Rightarrow> ev_seq event \<le> e)
      then exec_live uf sdk now ctx sub ins
      else ExItem (Inr (event_to_stream_response uf sdk now event))
             (if is_terminal_kind (ev_kind event) then ExDone else ExReady sub) ins)"
| "exec_live uf sdk now ctx sub (RecvClosed # ins) =
     ExItem (Inr (terminal_stream_response now ctx)) ExDone ins"
| "exec_live uf sdk now ctx sub (RecvLagged n # ins) = ExItem (Inl lagged_error) ExDone ins"

fun exec_poll_ready ::
  "uuid_format \<Rightarrow> sdk_builders \<Rightarrow> time \<Rightarrow> executor_context \<Rightarrow> exec_state \<Rightarrow> recv list \<Rightarrow> exec_poll" where
  "exec_poll_ready uf sdk now ctx (ExReady sub) ins =
     (case ts_history sub of
        event # rest \<Rightarrow>
          ExItem (Inr (event_to_stream_response uf sdk now event)) (ExReady (sub\<lparr>ts_history := rest\<rparr>)) ins
      | [] \<Rightarrow> exec_live uf sdk now ctx sub ins)"
| "exec_poll_ready uf sdk now ctx ExDone ins = ExEnd"
| "exec_poll_ready uf sdk now ctx ExInit ins = ExEnd"

text \<open>The first poll creates the task and subscribes; what it hands to the rest is either the
  error as the only item, or the ready state.\<close>

definition execute_init ::
  "uuid_format \<Rightarrow> agent_executor \<Rightarrow> executor_context \<Rightarrow> ((a2a_error + stream_response) option \<times> exec_state) prog" where
  "execute_init uf ex ctx =
     bindp (create_and_subscribe uf ex ctx) (\<lambda>r. case r of
        Inr (t, sub) \<Rightarrow> Done (None, ExReady sub)
      | Inl e \<Rightarrow> Done (Some (Inl e), ExDone))"

text \<open>All the items a consumer gets for the given answers, and whether the stream has ended.\<close>

fun pending_items :: "exec_state \<Rightarrow> nat" where
  "pending_items (ExReady sub) = Suc (length (ts_history sub))"
| "pending_items ExInit = 0"
| "pending_items ExDone = 0"

lemma exec_live_shrinks:
  "exec_live uf sdk now ctx sub ins = ExItem item st' ins' \<Longrightarrow>
     length ins' < length ins \<and> (st' = ExDone \<or> st' = ExReady sub)"
  by (induction uf sdk now ctx sub ins rule: exec_live.induct) (auto split: if_splits)

function exec_items ::
  "uuid_format \<Rightarrow> sdk_builders \<Rightarrow> time \<Rightarrow> executor_context \<Rightarrow> exec_state \<Rightarrow> recv list \<Rightarrow>
     (a2a_error + stream_response) list \<times> bool" where
  "exec_items uf sdk now ctx st ins =
     (case exec_poll_ready uf sdk now ctx st ins of
        ExPending \<Rightarrow> ([], False)
      | ExEnd \<Rightarrow> ([], True)
      | ExItem item st' ins' \<Rightarrow>
          (case exec_items uf sdk now ctx st' ins' of (items, ended) \<Rightarrow> (item # items, ended)))"
  by pat_completeness auto
termination
proof (relation "measure (\<lambda>(uf, sdk, now, ctx, st, ins). pending_items st + length ins)", goal_cases)
  case (2 uf sdk now ctx st ins item st' ins')
  then obtain sub where st: "st = ExReady sub" by (cases st) auto
  show ?case
  proof (cases "ts_history sub")
    case Nil
    with 2 st have "exec_live uf sdk now ctx sub ins = ExItem item st' ins'" by simp
    from exec_live_shrinks [OF this] st Nil show ?thesis by auto
  next
    case (Cons ev rest)
    with 2 st show ?thesis by auto
  qed
qed simp

declare exec_items.simps [simp del]

definition executor_cancel ::
  "uuid_format \<Rightarrow> agent_executor \<Rightarrow> executor_context \<Rightarrow> (a2a_error + stream_response) prog" where
  "executor_cancel uf ex ctx =
     (case uf_parse uf (ec_task_id ctx) of
        None \<Rightarrow> Done (Inl (A2aErrInvalidRequest ''task_id must be a UUID''))
      | Some t \<Rightarrow>
          (case resolve_caller ex ctx of
             Inl e \<Rightarrow> Done (Inl e)
           | Inr caller \<Rightarrow>
               server_core uf (dispatch (ex_core ex) caller (Cancel t None)) (\<lambda>result.
                 Done (Inr (task_snapshot_to_stream uf result)))))"

section \<open>The task store of the SDK\<close>

fun store_error_to_a2a :: "uuid_format \<Rightarrow> store_error \<Rightarrow> a2a_error" where
  "store_error_to_a2a uf (NotFound t) = A2aErrTaskNotFound (uf_print uf t)"
| "store_error_to_a2a uf Conflict = A2aErrInternal ''concurrent mutation conflict'' []"
| "store_error_to_a2a uf (InvalidTransition msg) = A2aErrInternal msg []"
| "store_error_to_a2a uf (Unavailable msg) = A2aErrInternal msg []"
| "store_error_to_a2a uf (Corrupt msg) = A2aErrInternal msg []"
| "store_error_to_a2a uf (Internal msg) = A2aErrInternal msg []"

text \<open>The lookup the three operations share.\<close>

definition lookup_task ::
  "uuid_format \<Rightarrow> string \<Rightarrow> (task_id \<Rightarrow> task_snapshot option \<Rightarrow> a2a_error + 'a) \<Rightarrow> (a2a_error + 'a) prog" where
  "lookup_task uf txt k =
     (case uf_parse uf txt of
        None \<Rightarrow> Done (Inl (A2aErrInvalidRequest ''task_id must be a UUID''))
      | Some t \<Rightarrow> Get t (\<lambda>r. case r of
            Inl e \<Rightarrow> Done (Inl (store_error_to_a2a uf e))
          | Inr snap \<Rightarrow> Done (k t snap)))"

definition task_store_create :: "uuid_format \<Rightarrow> sdk_task \<Rightarrow> (a2a_error + nat) prog" where
  "task_store_create uf task =
     lookup_task uf (st_id task) (\<lambda>t snap. case snap of
        Some s \<Rightarrow> Inr (snap_revision s)
      | None \<Rightarrow> Inr 1)"

fun task_state_to_sdk :: "sdk_state \<Rightarrow> task_state \<Rightarrow> task_state" where
  "task_state_to_sdk SdkUnspecified fallback = fallback"
| "task_state_to_sdk SdkWorking fallback = Running"
| "task_state_to_sdk SdkInputRequired fallback = WaitingForInput"
| "task_state_to_sdk SdkCanceled fallback = Cancelled"
| "task_state_to_sdk SdkCompleted fallback = Completed"
| "task_state_to_sdk SdkFailed fallback = Failed"
| "task_state_to_sdk SdkSubmitted fallback = fallback"
| "task_state_to_sdk SdkRejected fallback = fallback"
| "task_state_to_sdk SdkAuthRequired fallback = fallback"

text \<open>\<open>update\<close> returns the revision and whether it logs a divergence.\<close>

definition task_store_update :: "uuid_format \<Rightarrow> sdk_task \<Rightarrow> (a2a_error + nat \<times> bool) prog" where
  "task_store_update uf task =
     lookup_task uf (st_id task) (\<lambda>t snap. case snap of
        Some s \<Rightarrow>
          Inr (snap_revision s,
            task_state_to_sdk (ss_state (st_status task)) (snap_state s) \<noteq> snap_state s)
      | None \<Rightarrow> Inl (A2aErrTaskNotFound (uf_print uf t)))"

definition task_to_a2a :: "uuid_format \<Rightarrow> task_snapshot \<Rightarrow> sdk_task" where
  "task_to_a2a uf snap =
     \<lparr>st_id = uf_print uf (snap_task_id snap),
      st_context_id = (case snap_session_id snap of
          Some s \<Rightarrow> uf_print uf s | None \<Rightarrow> uf_print uf (snap_task_id snap)),
      st_status =
        \<lparr>ss_state = (case snap_state snap of
             Created \<Rightarrow> SdkWorking | Accepted \<Rightarrow> SdkWorking | Running \<Rightarrow> SdkWorking
           | WaitingForInput \<Rightarrow> SdkInputRequired
           | CancelRequested \<Rightarrow> SdkWorking
           | Cancelled \<Rightarrow> SdkCanceled
           | Completed \<Rightarrow> SdkCompleted
           | Failed \<Rightarrow> SdkFailed),
         ss_message = None, ss_timestamp = Some (snap_updated_at snap)\<rparr>\<rparr>"

definition task_store_get :: "uuid_format \<Rightarrow> string \<Rightarrow> (a2a_error + sdk_task option) prog" where
  "task_store_get uf txt = lookup_task uf txt (\<lambda>t snap. Inr (map_option (task_to_a2a uf) snap))"

text \<open>\<open>list\<close> is empty whatever is asked: the tasks, the page token and two sizes.\<close>

definition task_store_list :: "'q \<Rightarrow> a2a_error + (sdk_task list \<times> string \<times> nat \<times> nat)" where
  "task_store_list req = Inr ([], [], 0, 0)"

section \<open>Authentication, readiness, card\<close>

text \<open>The middleware: the value of the header \<open>Authorization\<close> and \<open>to_str\<close>, which
  fails on anything but visible ASCII, space and tab.\<close>

datatype auth_outcome = Unauthorized string | Admitted caller

definition header_to_str :: "string \<Rightarrow> string option" where
  "header_to_str v =
     (if list_all (\<lambda>c. of_char c = (9 :: nat) \<or> 32 \<le> (of_char c :: nat) \<and> (of_char c :: nat) < 127) v
      then Some v else None)"

definition require_bearer_auth :: "bearer_token_policy \<Rightarrow> string option \<Rightarrow> auth_outcome" where
  "require_bearer_auth policy header =
     (case Option.bind (Option.bind header header_to_str) (strip_prefix ''Bearer '') of
        None \<Rightarrow> Unauthorized ''missing bearer token''
      | Some token \<Rightarrow>
          (case resolve_token policy token of
             None \<Rightarrow> Unauthorized ''invalid bearer token''
           | Some caller \<Rightarrow> Admitted caller))"

definition readyz :: "bool \<Rightarrow> agent_registry \<Rightarrow> 's store_ops \<Rightarrow> 's \<Rightarrow> nat \<times> json" where
  "readyz draining registry ops s =
     (if draining
      then (503, JObject [(''ready'', JBool False), (''reason'', JString ''draining'')])
      else if registry_agents registry = []
      then (503, JObject [(''ready'', JBool False), (''reason'', JString ''no agents registered'')])
      else case op_ping ops s of
             Inr _ \<Rightarrow> (200, JObject [(''ready'', JBool True)])
           | Inl _ \<Rightarrow> (503, JObject [(''ready'', JBool False), (''reason'', JString ''storage unavailable'')]))"

definition healthz :: "nat \<times> json" where
  "healthz = (200, JObject [(''ok'', JBool True)])"

record agent_skill =
  ask_id :: string
  ask_name :: string
  ask_description :: string
  ask_tags :: "string list"

definition agent_skills :: "agent_registry \<Rightarrow> agent_skill list" where
  "agent_skills registry =
     concat (map (\<lambda>agent.
       map (\<lambda>skill. \<lparr>ask_id = skill, ask_name = skill,
              ask_description = ra_id agent @ '' provides skill `'' @ skill @ ''`'',
              ask_tags = [''adapter'']\<rparr>) (ra_skills agent)) (registry_agents registry))"

section \<open>Lemmas\<close>

lemma exec_items_done [simp]: "exec_items uf sdk now ctx ExDone ins = ([], True)"
  by (simp add: exec_items.simps)

lemma exec_items_history:
  "exec_items uf sdk now ctx (ExReady sub) ins =
     (case exec_items uf sdk now ctx (ExReady (sub\<lparr>ts_history := []\<rparr>)) ins of
        (items, ended) \<Rightarrow> (map (\<lambda>ev. Inr (event_to_stream_response uf sdk now ev)) (ts_history sub) @ items, ended))"
proof (induction "ts_history sub" arbitrary: sub)
  case Nil
  then have same: "sub\<lparr>ts_history := []\<rparr> = sub" by (cases sub) simp
  show ?case unfolding same Nil [symmetric] by (simp split: prod.split)
next
  case (Cons ev rest)
  then show ?case
    using Cons.hyps(1) [of "sub\<lparr>ts_history := rest\<rparr>"]
    by (subst exec_items.simps) (auto simp: Cons.hyps(2) [symmetric] split: prod.split)
qed

definition delivered_by_history :: "task_subscription \<Rightarrow> core_event \<Rightarrow> bool" where
  "delivered_by_history sub ev = (case ts_history_end_seq sub of None \<Rightarrow> False | Some e \<Rightarrow> ev_seq ev \<le> e)"

lemma exec_live_skip:
  "list_all (delivered_by_history sub) xs \<Longrightarrow>
     exec_live uf sdk now ctx sub (map RecvOk xs @ ins) = exec_live uf sdk now ctx sub ins"
  by (induction xs) (simp_all add: delivered_by_history_def)

lemma exec_items_skip:
  assumes "list_all (delivered_by_history sub) xs" "ts_history sub = []"
  shows "exec_items uf sdk now ctx (ExReady sub) (map RecvOk xs @ ins) = exec_items uf sdk now ctx (ExReady sub) ins"
  using assms by (simp add: exec_items.simps [of _ _ _ _ "ExReady sub"] exec_live_skip)

lemma exec_items_live:
  assumes "ts_history sub = []" "list_all (\<lambda>ev. \<not> delivered_by_history sub ev) xs" "xs \<noteq> []"
    "\<forall>ev\<in>set (butlast xs). \<not> is_terminal_kind (ev_kind ev)" "is_terminal_kind (ev_kind (last xs))"
  shows "exec_items uf sdk now ctx (ExReady sub) (map RecvOk xs @ ins) =
    (map (\<lambda>ev. Inr (event_to_stream_response uf sdk now ev)) xs, True)"
  using assms
proof (induction xs)
  case (Cons x xs)
  then show ?case
    by (cases "xs = []") (subst exec_items.simps, simp add: delivered_by_history_def split: if_splits)+
qed simp

lemma run_server_core:
  assumes "run p ops ora bs w = (Some r, bs', w')"
  shows "run (server_core uf p f) ops ora bs w =
    (case r of Inl e \<Rightarrow> (Some (Inl (core_error_to_a2a uf e)), bs', w') | Inr a \<Rightarrow> run (f a) ops ora bs' w')"
  using assms by (simp add: server_core_def run_bindp split: sum.split)

text \<open>The invocation was accepted: the first poll leaves the stream ready, with the first
  page of the log and the receiver of the task.\<close>

context guarded_store
begin

lemma run_subscribe_start:
  assumes "good_store inv view n (w_store w)" "view (w_store w) t = Some (snap, evs)"
  shows "run (subscribe t 0) ops ora bs w =
    (Some (Inr \<lparr>ts_history = take 500 evs,
       ts_receiver = (case subscribe_active t w of None \<Rightarrow> ClosedReceiver | Some rx \<Rightarrow> rx),
       ts_history_end_seq = (if evs = [] then None else Some (min 500 (length evs)))\<rparr>), bs, w)"
proof -
  have seqs: "map ev_seq evs = [1..<Suc (length evs)]"
    using good_store_dense(5) [OF assms] by (simp add: dense_log_def)
  have page: "op_events_after ops t 0 500 (w_store w) = Inr (take 500 evs)"
    using run_history [OF assms, of 0] filter_dense [OF seqs, of 0] by (simp add: seq_limit_def)
  have "ev_seq (last (take 500 evs)) = min 500 (length evs)" if "evs \<noteq> []"
  proof -
    have "map ev_seq (take 500 evs) = [1..<Suc (min 500 (length evs))]"
      using arg_cong [OF seqs, of "take 500"] by (simp add: take_map min_def del: upt_Suc)
    then have "last (map ev_seq (take 500 evs)) = last [1..<Suc (min 500 (length evs))]" by (rule arg_cong)
    moreover have "0 < length evs" using that by simp
    ultimately show ?thesis using that by (simp add: last_map)
  qed
  then show ?thesis using page by (simp add: subscribe_def)
qed

lemma run_execute_init:
  assumes parsed: "uf_parse uf (ec_task_id ctx) = Some t0" and caller: "resolve_caller ex ctx = Inr caller"
    and core: "run (dispatch (ex_core ex) caller (Invoke (executor_request uf ctx t0))) ops ora bs w = (Some (Inr r), bs', w')"
    and r: "r = DrCreated s \<or> r = DrExisting s"
    and good: "good_store inv view n (w_store w')" and view: "view (w_store w') (snap_task_id s) = Some (snap, evs)"
  shows "run (execute_init uf ex ctx) ops ora bs w =
    (Some (None, ExReady \<lparr>ts_history = take 500 evs,
       ts_receiver = (case subscribe_active (snap_task_id s) w' of None \<Rightarrow> ClosedReceiver | Some rx \<Rightarrow> rx),
       ts_history_end_seq = (if evs = [] then None else Some (min 500 (length evs)))\<rparr>), bs', w')"
proof -
  note sub = run_server_core [OF run_subscribe_start [OF good view, of ora bs']]
  show ?thesis
    using r by (auto simp: execute_init_def create_and_subscribe_def parsed caller run_bindp
        run_server_core [OF core] sub)
qed

end

text \<open>The items of a stream that opened on a prefix of the log.\<close>

lemma exec_items_log:
  assumes "dense_log t (snap, L)" "closed_log (snap, L)" "terminal (snap_state snap)"
    and "ts_history sub = take k L" "ts_history_end_seq sub = (if k = 0 then None else Some k)"
    and "k < length L" "j < length L"
  shows "exec_items uf sdk now ctx (ExReady sub) (map RecvOk (drop j L) @ ins) =
    (map (\<lambda>ev. Inr (event_to_stream_response uf sdk now ev)) (take k L @ drop (max j k) L), True)"
proof -
  let ?sub = "sub\<lparr>ts_history := []\<rparr>"
  have L: "map ev_seq L = [1..<Suc (length L)]" using assms(1) by (simp add: dense_log_def)
  have at: "ev_seq (L ! i) = Suc i" if "i < length L" for i
    using that arg_cong [OF L, of "\<lambda>xs. xs ! i"] by (simp del: upt_Suc)
  have seen: "delivered_by_history ?sub (L ! i) \<longleftrightarrow> i < k" if "i < length L" for i
    using at [OF that] assms(5) by (auto simp: delivered_by_history_def)
  have split: "drop j L = drop j (take (max j k) L) @ drop (max j k) L"
    using append_take_drop_id [of "max j k" L] by (metis append_Nil2 drop_append drop_drop max.cobounded1
        diff_is_0_eq drop0 length_take min.absorb2 assms(6,7) less_imp_le max.bounded_iff)
  have old: "list_all (delivered_by_history ?sub) (drop j (take (max j k) L))"
    using seen by (auto simp: list_all_length min_def)
  have new: "list_all (\<lambda>ev. \<not> delivered_by_history ?sub ev) (drop (max j k) L)"
    using seen assms(6,7) by (auto simp: list_all_length)
  have last: "drop (max j k) L \<noteq> []" "last (drop (max j k) L) = last L"
    "\<forall>ev\<in>set (butlast (drop (max j k) L)). \<not> is_terminal_kind (ev_kind ev)"
    using assms(2,6,7) by (auto simp: closed_log_def butlast_drop dest: in_set_dropD)
  have "is_terminal_kind (ev_kind (last L))" using assms(2,3) by (auto simp: closed_log_def)
  then have live: "exec_items uf sdk now ctx (ExReady ?sub) (map RecvOk (drop (max j k) L) @ ins) =
      (map (\<lambda>ev. Inr (event_to_stream_response uf sdk now ev)) (drop (max j k) L), True)"
    using last new by (intro exec_items_live) auto
  have "exec_items uf sdk now ctx (ExReady ?sub) (map RecvOk (drop j L) @ ins) =
      exec_items uf sdk now ctx (ExReady ?sub) (map RecvOk (drop (max j k) L) @ ins)"
    unfolding split map_append append_assoc using old by (intro exec_items_skip) auto
  then show ?thesis
    by (subst exec_items_history) (simp add: live assms(4))
qed

lemma polled_state: "ss_state (st_status (task_to_a2a uf snap)) = map_task_state (snap_state snap)"
  by (cases "snap_state snap") (simp_all add: task_to_a2a_def)

section \<open>Properties\<close>


text \<open>
  A finished task is reported as canceled. When the core answers an invocation with a task
  that is no longer running, the stream gets a receiver that is closed from the start. The
  client receives the first 500 events of the log, the last of which says how the task
  ended, and after them one more item: the task, in state \<open>Canceled\<close>. So the replay of a
  completed or failed task ends with the wrong state.
\<close>

theorem a2a_replay_ends_canceled:
  assumes "guarded_store ops iv view keyed allow"
    and "uf_parse uf (ec_task_id ctx) = Some t0" "resolve_caller ex ctx = Inr caller"
    and "run (dispatch (ex_core ex) caller (Invoke (executor_request uf ctx t0))) ops ora bs w = (Some (Inr r), bs', w')"
    and "r = DrCreated s \<or> r = DrExisting s"
    and "good_store iv view n (w_store w')" "view (w_store w') (snap_task_id s) = Some (snap, evs)"
    and "map_of (w_active w') (snap_task_id s) = None"
  shows "\<exists>sub. run (execute_init uf ex ctx) ops ora bs w = (Some (None, ExReady sub), bs', w') \<and>
    ts_receiver sub = ClosedReceiver \<and>
    exec_items uf sdk now ctx (ExReady sub) (RecvClosed # ins) =
      (map (\<lambda>ev. Inr (event_to_stream_response uf sdk now ev)) (take 500 evs) @
       [Inr (SrTask \<lparr>st_id = ec_task_id ctx, st_context_id = ec_context_id ctx,
          st_status = \<lparr>ss_state = SdkCanceled, ss_message = None, ss_timestamp = Some now\<rparr>\<rparr>)], True)"
proof -
  note init = guarded_store.run_execute_init [OF assms(1-7)]
  have closed: "exec_items uf sdk now ctx (ExReady sub) (RecvClosed # ins) =
      ([Inr (terminal_stream_response now ctx)], True)" if "ts_history sub = []" for sub
    using that by (subst exec_items.simps) simp
  show ?thesis
    unfolding init using assms(8)
    by (auto simp: subscribe_active_def exec_items_history [of _ _ _ _ "\<lparr>ts_history = take 500 evs, ts_receiver = _, ts_history_end_seq = _\<rparr>"]
        closed terminal_stream_response_def)
qed

text \<open>
  Polling and streaming agree. When the core applies a driver event and stores an event for
  it, the item that the executor streams for it carries the id of the task, and, unless it
  is an artifact, the very state that the task store of the server answers from then on;
  it is a whole task exactly when the task has ended.
\<close>

theorem a2a_server_polling_agrees:
  assumes "guarded_store ops iv view keyed allow" "uuid_format_ok uf"
    and "good_store iv view n (w_store w)" "n < seq_limit" "view (w_store w) t = Some (snap, evs)"
    and "run (apply_driver_event ce t dv) ops ora bs w = (r, bs', w')"
    and "view (w_store w') t = Some (snap', evs @ [e])"
  shows "\<exists>task. run (task_store_get uf (uf_print uf t)) ops ora bs' w' = (Some (Inr (Some task)), bs', w') \<and>
    (case event_to_stream_response uf sdk now e of
       SrStatusUpdate i c st \<Rightarrow>
         i = uf_print uf t \<and> ss_state st = ss_state (st_status task) \<and> \<not> terminal (snap_state snap')
     | SrTask k \<Rightarrow>
         st_id k = uf_print uf t \<and> ss_state (st_status k) = ss_state (st_status task) \<and> terminal (snap_state snap')
     | SrArtifactUpdate i c a \<Rightarrow> i = uf_print uf t \<and> snap_state snap' = Running)"
proof -
  have eff: "driver_effect (snap_state snap) dv = Moves (snap_state snap') (ev_kind e)"
    using guarded_store.driver_event_stored [OF assms(1,3-7)] .
  have good: "good_store iv view (Suc n) (w_store w')"
    using guarded_store.driver_event_good [OF assms(1,3,4,6)] .
  have e: "ev_task_id e = t" using good_store_dense(5) [OF good assms(7)] by (simp add: dense_log_def)
  have parse: "uf_parse uf (uf_print uf t) = Some t" using assms(2) by (simp add: uuid_format_ok_def)
  have get: "op_get_snapshot ops t (w_store w') = Inr (Some snap')"
    using task_store.get_view [OF guarded_store.axioms(1) [OF assms(1)], of "w_store w'" t] good assms(7)
    by (simp add: good_store_def)
  have "run (task_store_get uf (uf_print uf t)) ops ora bs' w' = (Some (Inr (Some (task_to_a2a uf snap'))), bs', w')"
    by (simp add: task_store_get_def lookup_task_def parse get)
  moreover have "case event_to_stream_response uf sdk now e of
       SrStatusUpdate i c st \<Rightarrow>
         i = uf_print uf t \<and> ss_state st = map_task_state (snap_state snap') \<and> \<not> terminal (snap_state snap')
     | SrTask k \<Rightarrow>
         st_id k = uf_print uf t \<and> ss_state (st_status k) = map_task_state (snap_state snap') \<and>
         terminal (snap_state snap')
     | SrArtifactUpdate i c a \<Rightarrow> i = uf_print uf t \<and> snap_state snap' = Running"
    using eff e
    by (cases "ev_kind e"; cases dv)
      (auto simp: event_to_stream_response_def status_update_def task_completed_def task_failed_def
        task_canceled_def split: if_splits)
  ultimately show ?thesis by (auto simp: polled_state split: stream_response.splits)
qed

section \<open>Witnesses\<close>

text \<open>A task created through A2A, before and after it completes, and a request for it.\<close>

definition server_task :: new_task where
  "server_task = demo_task\<lparr>nt_idempotency_key := uf_print hyphenated 7\<rparr>"

definition server_store :: "bool \<Rightarrow> mem_state" where
  "server_store finished =
     (let s = snd (mem_create 0 server_task mem_new)
      in if finished then snd (mem_append 1 demo_transition s) else s)"

definition server_world :: "bool \<Rightarrow> mem_state world" where
  "server_world finished = demo_world\<lparr>w_store := server_store finished,
     w_active := (if finished then [] else [(7, \<lparr>act_sent = [], act_cancelled = False\<rparr>)])\<rparr>"

definition server_ctx :: executor_context where
  "server_ctx = \<lparr>ec_task_id = uf_print hyphenated 7, ec_context_id = ''ctx'', ec_message = None,
     ec_metadata = None, ec_service_params = []\<rparr>"

definition plain_sdk :: sdk_builders where
  "plain_sdk =
     (let part = (\<lambda>c. \<lparr>spt_content = c, spt_filename = None, spt_media_type = None, spt_metadata = None\<rparr>) in
      \<lparr>sb_message = (\<lambda>r ps. \<lparr>sm_role = r, sm_parts = ps\<rparr>), sb_text = (\<lambda>t. part (ScText t)),
       sb_data = (\<lambda>v. part (ScData v)), sb_url = (\<lambda>u. part (ScUrl u)),
       sb_with_media_type = (\<lambda>p m. p\<lparr>spt_media_type := Some m\<rparr>)\<rparr>)"

definition server_event :: core_event where
  "server_event = \<lparr>ev_task_id = 7, ev_seq = 1, ev_at = 1, ev_kind = EvCompleted []\<rparr>"

definition server_snapshot :: "bool \<Rightarrow> task_snapshot" where
  "server_snapshot finished = (let s = initial_snapshot 0 server_task in
     if finished then s\<lparr>snap_state := Completed, snap_revision := 1, snap_last_seq := 1, snap_updated_at := 1,
       snap_terminal_at := Some 1\<rparr> else s)"

lemmas server_defs = server_task_def server_store_def server_snapshot_def server_event_def demo_defs

lemma server_view:
  "mem_view (server_store finished) = [7 \<mapsto> (server_snapshot finished, if finished then [server_event] else [])]"
  by (rule ext) (simp add: server_defs mem_view_def initial_snapshot_def u64_add_def)

lemma server_inv: "mem_inv (server_store finished)"
  by (auto simp: server_defs mem_inv_def initial_snapshot_def u64_add_def split: if_splits)

lemma server_facts [simp]:
  "w_store (server_world finished) = server_store finished" "snap_task_id (server_snapshot finished) = 7"
  "terminal (snap_state (server_snapshot finished)) = finished"
  "map_of (w_active (server_world False)) 7 = Some \<lparr>act_sent = [], act_cancelled = False\<rparr>"
  "map_of (w_active (server_world True)) 7 = None"
  by (simp_all add: server_world_def server_snapshot_def server_task_def demo_task_def Let_def)

lemma server_log:
  "dense_log 7 (server_snapshot finished, if finished then [server_event] else [])"
  "closed_log (server_snapshot finished, if finished then [server_event] else [])"
  by (simp_all add: dense_log_def closed_log_def server_snapshot_def server_event_def server_task_def demo_task_def)

lemma server_good: "good_store mem_inv mem_view 1 (w_store (server_world finished))"
  using server_log [of finished] server_inv [of finished]
  by (auto simp: good_store_def server_view split: if_splits)

lemma server_key: "mem_keyed (server_store finished) (''c'', uf_print hyphenated 7) = Some 7"
  by (simp add: server_defs mem_keyed_def)

lemma printed_seven: "uf_print hyphenated 7 = ''00000000-0000-0000-0000-000000000007''"
proof -
  have d: "hex_digit 0 = CHR ''0''" "hex_digit 7 = CHR ''7''" by code_simp+
  have "hex_digits 32 7 = ''00000000000000000000000000000007''"
    by (simp add: hex_digits_def upt_rec d)
  then show ?thesis by (simp add: hyphenated_def Let_def)
qed

lemma printed_not_blank: "\<not> blank (uf_print hyphenated 7)"
  unfolding printed_seven by code_simp

lemma server_dispatch:
  "run (dispatch demo_env \<lparr>caller_id_of = ''c'', caller_scopes = []\<rparr> (Invoke (executor_request hyphenated server_ctx 7)))
     mem_ops demo_answers [] (server_world finished) =
   (Some (Inr (DrExisting (server_snapshot finished))), [], server_world finished)"
proof -
  let ?rq = "executor_request hyphenated server_ctx 7" and ?c = "\<lparr>caller_id_of = ''c'', caller_scopes = []\<rparr>"
  have rq: "rq_idempotency_key ?rq = uf_print hyphenated 7" "rq_agent_id ?rq = None" "rq_skill_id ?rq = None"
    by (simp_all add: executor_request_def server_ctx_def)
  have resolve: "registry_resolve (w_registry (server_world finished)) ?rq = Inr demo_agent"
    by (simp add: registry_resolve_def rq server_world_def demo_world_def)
  obtain d where "run (invoke demo_env ?c ?rq) mem_ops demo_answers [] (server_world finished) =
      run (start_task demo_env demo_agent ?c (invoked_id demo_answers ?rq) d ?rq) mem_ops demo_answers []
        (server_world finished)"
    using run_invoke_start [OF _ resolve] rq(1) printed_not_blank by metis
  moreover have "run (start_task demo_env demo_agent ?c t d ?rq) mem_ops demo_answers [] (server_world finished) =
      (Some (Inr (DrExisting (server_snapshot finished))), [], server_world finished)" for t d
    using memg.run_start_existing [of "server_world finished" ?c ?rq 7] server_inv server_key rq(1) server_view
    by (fastforce simp: server_world_def)
  ultimately show ?thesis by (simp add: dispatch.simps demo_env_def core_new_def allow_all_policy_def)
qed

lemma server_request:
  "uf_parse hyphenated (ec_task_id server_ctx) = Some 7"
  "resolve_caller (executor_new demo_env ''c'') server_ctx = Inr \<lparr>caller_id_of = ''c'', caller_scopes = []\<rparr>"
  "ex_core (executor_new demo_env ''c'') = demo_env"
  by (simp_all add: server_ctx_def resolve_caller_def executor_new_def)

lemma server_accepted:
  "run (dispatch (ex_core (executor_new demo_env ''c'')) \<lparr>caller_id_of = ''c'', caller_scopes = []\<rparr>
     (Invoke (executor_request hyphenated server_ctx 7))) mem_ops demo_answers [] (server_world finished) =
   (Some (Inr (DrExisting (server_snapshot finished))), [], server_world finished)"
  unfolding server_request(3) by (rule server_dispatch)

lemma server_stored:
  "mem_view (w_store (server_world finished)) (snap_task_id (server_snapshot finished)) =
     Some (server_snapshot finished, if finished then [server_event] else [])"
  by (simp add: server_view)


theorem a2a_replay_ends_canceled_witness:
  "\<exists>sub. run (execute_init hyphenated (executor_new demo_env ''c'') server_ctx) mem_ops demo_answers []
       (server_world True) = (Some (None, ExReady sub), [], server_world True) \<and>
     map (\<lambda>r. case r of Inr (SrTask k) \<Rightarrow> Some (ss_state (st_status k)) | _ \<Rightarrow> None)
       (fst (exec_items hyphenated plain_sdk 5 server_ctx (ExReady sub) [RecvClosed])) =
     [Some SdkCompleted, Some SdkCanceled]"
  using a2a_replay_ends_canceled [OF memg.guarded_store_axioms server_request(1,2) server_accepted disjI2 [OF refl]
      server_good server_stored [of True], of plain_sdk 5 "[]"]
  by (auto simp: event_to_stream_response_def server_event_def task_completed_def Let_def)

theorem a2a_server_polling_agrees_witness:
  "\<exists>w' task. run (apply_driver_event demo_env 7 (DvFailed \<lparr>pe_code = [], pe_message = ''x'', pe_retryable = True\<rparr>))
       mem_ops demo_answers [] demo_world = (Some (Inr ()), [], w') \<and>
     run (task_store_get hyphenated (uf_print hyphenated 7)) mem_ops demo_answers [] w' =
       (Some (Inr (Some task)), [], w') \<and> ss_state (st_status task) = SdkFailed"
proof -
  let ?dv = "DvFailed \<lparr>pe_code = [], pe_message = ''x'', pe_retryable = True\<rparr>"
  have view: "mem_view (w_store demo_world) 7 = Some (initial_snapshot 0 demo_task, [])"
    by (simp add: demo_world_def demo_created_view)
  have small: "0 < seq_limit" by (simp add: seq_limit_def)
  obtain w' snap' e where
    run: "run (apply_driver_event demo_env 7 ?dv) mem_ops demo_answers [] demo_world = (Some (Inr ()), [], w')"
    and e: "mem_view (w_store w') 7 = Some (snap', [] @ [e])" "\<exists>err. ev_kind e = EvFailed err"
    using memg.performs_driver_event [OF demo_world_good small view, of demo_answers demo_env ?dv]
    by (auto simp: performs_def moved_def dest!: spec [of _ "[]"])
  show ?thesis
    using a2a_server_polling_agrees [OF memg.guarded_store_axioms hyphenated_ok demo_world_good small view run e(1),
        of plain_sdk 0] run e(2)
    by (auto simp: event_to_stream_response_def task_failed_def Let_def)
qed

end
