(* ===== verification/Daemon_Loop.thy ===== *)
theory Daemon_Loop
  imports Adapterd A2A_Server
begin

text \<open>
  The daemon from its main function to its end (\<open>adapterd/src/main.rs\<close>: \<open>main\<close>,
  \<open>Daemon::run\<close> and the cleanup task that \<open>Daemon::build\<close> spawns), the routes it serves
  (\<open>protocol-a2a-server/src/lib.rs\<close>, \<open>health.rs\<close>) and the agent card
  (\<open>protocol-a2a-server/src/card.rs\<close>). The listener, the clock and the paths of the A2A SDK are
  arguments.
\<close>

section \<open>The agent card\<close>

record adapter_card_config =
  ccf_name :: string
  ccf_description :: string
  ccf_version :: string
  ccf_endpoint_url :: string

text \<open>The fields that are always empty are left out.\<close>

record agent_card =
  ac_name :: string
  ac_description :: string
  ac_version :: string
  ac_supported_interfaces :: "(string \<times> string) list"
  ac_streaming :: "bool option"
  ac_default_input_modes :: "string list"
  ac_default_output_modes :: "string list"
  ac_skills :: "agent_skill list"

definition produce_card :: "agent_registry \<Rightarrow> adapter_card_config \<Rightarrow> agent_card" where
  "produce_card registry cfg =
     \<lparr>ac_name = ccf_name cfg, ac_description = ccf_description cfg, ac_version = ccf_version cfg,
      ac_supported_interfaces = [(ccf_endpoint_url cfg, ''https'')], ac_streaming = Some True,
      ac_default_input_modes = [''text''], ac_default_output_modes = [''text''], ac_skills = agent_skills registry\<rparr>"

section \<open>Routes\<close>

text \<open>The paths that the SDK serves with \<open>agent_card_router\<close> and \<open>jsonrpc_router\<close>.\<close>

record sdk_paths =
  sp_card :: "string \<Rightarrow> string \<Rightarrow> bool"
  sp_jsonrpc :: "string \<Rightarrow> string \<Rightarrow> bool"

datatype routed =
    RtJson "nat \<times> json"
  | RtCard agent_card
  | RtRpc "caller option"
  | RtUnauthorized string
  | RtNotAllowed
  | RtNotFound

definition health_router :: "bool \<Rightarrow> agent_registry \<Rightarrow> 's store_ops \<Rightarrow> 's \<Rightarrow> string \<Rightarrow> string \<Rightarrow> routed option" where
  "health_router draining registry ops s meth path =
     (if path = ''/healthz'' then Some (if meth = ''GET'' then RtJson healthz else RtNotAllowed)
      else if path = ''/readyz'' then Some (if meth = ''GET'' then RtJson (readyz draining registry ops s) else RtNotAllowed)
      else None)"

text \<open>What a request reaches: its method, its path and its header \<open>Authorization\<close>.\<close>

definition build_router ::
  "sdk_paths \<Rightarrow> bearer_token_policy option \<Rightarrow> agent_card \<Rightarrow> bool \<Rightarrow> agent_registry \<Rightarrow> 's store_ops \<Rightarrow> 's \<Rightarrow>
     string \<Rightarrow> string \<Rightarrow> string option \<Rightarrow> routed" where
  "build_router sdk auth ac draining registry ops s meth path header =
     (if sp_card sdk meth path then RtCard ac
      else if sp_jsonrpc sdk meth path
      then (case auth of
              None \<Rightarrow> RtRpc None
            | Some policy \<Rightarrow>
                (case require_bearer_auth policy header of
                   Unauthorized message \<Rightarrow> RtUnauthorized message
                 | Admitted caller \<Rightarrow> RtRpc (Some caller)))
      else case health_router draining registry ops s meth path of
             Some answer \<Rightarrow> answer
           | None \<Rightarrow> RtNotFound)"

section \<open>Retention\<close>

text \<open>The spawned task: \<open>interval\<close> panics on a period of zero, the first tick comes at once, and
  every later tick cleans the store up, whatever the outcome of the one before.\<close>

definition cleanup_task ::
  "nat \<Rightarrow> (time \<Rightarrow> retention_policy \<Rightarrow> 's \<Rightarrow> (store_error + cleanup_report) \<times> 's) \<Rightarrow> retention_policy \<Rightarrow> time list \<Rightarrow>
     's \<Rightarrow> 's checked" where
  "cleanup_task period cleanup retention ticks s =
     (if period = 0 then Panic
      else Ret (fold (\<lambda>now s. snd (cleanup now retention s)) (tl ticks) s))"

section \<open>The life of the daemon\<close>

definition listen_addr :: "environment \<Rightarrow> string" where
  "listen_addr env = (case env_var env ''ADAPTERD_LISTEN'' of Some a \<Rightarrow> a | None \<Rightarrow> ''0.0.0.0:8348'')"

definition daemon_core :: "(uuid \<Rightarrow> string) \<Rightarrow> (nat \<Rightarrow> string + int) \<Rightarrow> daemon \<Rightarrow> core_env" where
  "daemon_core us from_std dm =
     core_new us from_std (case dm_policy dm of Some policy \<Rightarrow> bearer_authorize | None \<Rightarrow> allow_all_policy)
       (dm_max_concurrent dm)"

definition daemon_executor :: "core_env \<Rightarrow> bearer_token_policy option \<Rightarrow> agent_executor" where
  "daemon_executor core auth =
     (case auth of
        Some policy \<Rightarrow> executor_with_auth core ''a2a-client'' policy
      | None \<Rightarrow> executor_new core ''a2a-client'')"

definition daemon_card :: "string \<Rightarrow> string \<Rightarrow> agent_registry \<Rightarrow> agent_card" where
  "daemon_card version addr registry =
     produce_card registry
       \<lparr>ccf_name = ''agent-connector'', ccf_description = ''Universal Agent Adapter Runtime'', ccf_version = version,
        ccf_endpoint_url = ''http://'' @ addr\<rparr>"

record serving =
  sv_executor :: agent_executor
  sv_card :: agent_card
  sv_addr :: string
  sv_draining :: bool
  sv_cleanup_running :: bool
  sv_server_running :: bool

text \<open>\<open>run\<close> up to the signal; without a listener it returns.\<close>

definition daemon_serve ::
  "(uuid \<Rightarrow> string) \<Rightarrow> (nat \<Rightarrow> string + int) \<Rightarrow> string \<Rightarrow> environment \<Rightarrow> (string \<Rightarrow> string + unit) \<Rightarrow> daemon \<Rightarrow> serving option" where
  "daemon_serve us from_std version env bind_listener dm =
     (let addr = listen_addr env in
      case bind_listener addr of
        Inl e \<Rightarrow> None
      | Inr _ \<Rightarrow> Some
          \<lparr>sv_executor = daemon_executor (daemon_core us from_std dm) (dm_policy dm),
           sv_card = daemon_card version addr (dm_registry dm), sv_addr = addr,
           sv_draining = False, sv_cleanup_running = True, sv_server_running = True\<rparr>)"

text \<open>The end of \<open>run\<close>, after the signal.\<close>

definition daemon_stop :: "serving \<Rightarrow> serving" where
  "daemon_stop sv = sv\<lparr>sv_draining := True, sv_cleanup_running := False, sv_server_running := False\<rparr>"

text \<open>\<open>main\<close>: the arguments, the environment and its files, the configuration, start-up. \<open>si\<close> is
  what start-up finds under an environment.\<close>

definition adapterd_main ::
  "string list \<Rightarrow> environment \<Rightarrow> (string \<Rightarrow> string option) \<Rightarrow> (string \<Rightarrow> string option) \<Rightarrow> (string \<Rightarrow> string + string) \<Rightarrow>
     (string \<Rightarrow> string + config) \<Rightarrow> (environment \<Rightarrow> startup_inputs) \<Rightarrow> (uuid \<Rightarrow> string) \<Rightarrow> string + unit \<Rightarrow> string + unit \<Rightarrow>
     (startup_error + environment \<times> config \<times> daemon) checked" where
  "adapterd_main args env files sibling read_config yaml si us made opened =
     (let config_path = (case args of [] \<Rightarrow> ''./adapter.yaml'' | p # _ \<Rightarrow> p) in
      case load_env_files files (sibling config_path) env of
        Panic \<Rightarrow> Panic
      | Ret env' \<Rightarrow>
          Ret (rbind (map_err SuConfig (config_load (read_config config_path) yaml)) (\<lambda>cfg.
               rbind (daemon_build (si env') us made opened cfg) (\<lambda>dm. Inr (env', cfg, dm)))))"

section \<open>What the routes guard\<close>

text \<open>With tokens configured, a request reaches the JSON-RPC handler only with a configured token,
  as the caller of that token; the other routes stay open.\<close>

lemma router_guards_rpc:
  assumes "build_router sdk (Some policy) ac draining registry ops s meth path header = RtRpc c"
  shows "\<exists>token caller. header = Some (''Bearer '' @ token) \<and> resolve_token policy token = Some caller \<and> c = Some caller"
proof -
  have "sp_jsonrpc sdk meth path" "\<not> sp_card sdk meth path"
    using assms by (auto simp: build_router_def health_router_def split: if_splits option.splits auth_outcome.splits)
  with assms obtain caller where "require_bearer_auth policy header = Admitted caller" "c = Some caller"
    by (auto simp: build_router_def split: auth_outcome.splits)
  then show ?thesis
    by (auto simp: require_bearer_auth_def header_to_str_def bind_eq_Some_conv strip_prefix_Some
        split: option.splits if_splits)
qed

text \<open>A daemon that main hands on has a valid configuration and serves at least one agent.\<close>

lemma main_serves_valid:
  assumes "adapterd_main args env files sibling read_config yaml si us made opened = Ret (Inr (env', cfg, dm))"
  shows "config_ok cfg \<and> dm_registry dm \<noteq> [] \<and> dm_max_concurrent dm = rc_max_concurrent_tasks (cf_runtime cfg) \<and>
    0 < dm_max_concurrent dm"
proof -
  have err: "map_err f r = Inr a \<longleftrightarrow> r = Inr a" for f r a by (cases r) simp_all
  from assms have load: "validate cfg = Inr ()" and build: "daemon_build (si env') us made opened cfg = Inr dm"
    by (auto simp: adapterd_main_def Let_def rbind_Inr_iff config_load_def err
        split: checked.splits sum.splits)
  have "dm_registry dm \<noteq> []" "dm_max_concurrent dm = rc_max_concurrent_tasks (cf_runtime cfg)"
    using build by (auto simp: daemon_build_def Let_def rbind_Inr_iff registry_agents_def split: if_splits)
  with load show ?thesis by (simp add: config_validate_iff config_ok_def)
qed

text \<open>Validation accepts a cleanup interval of zero, with which retention dies at its start.\<close>

lemma zero_interval_accepted:
  assumes "validate cfg = Inr ()"
  shows "validate (cfg\<lparr>cf_runtime := (cf_runtime cfg)\<lparr>rc_cleanup_interval_seconds := 0\<rparr>\<rparr>) = Inr () \<and>
    cleanup_task 0 cleanup (config_retention_policy cfg) ticks s = Panic"
  using assms by (simp add: config_validate_iff config_ok_def cleanup_task_def)

text \<open>Retention of the in-memory store: however often the task runs and whatever the clock says, a
  task that has not ended stays, with its snapshot as it is.\<close>

definition task_rows_ok :: "mem_state \<Rightarrow> bool" where
  "task_rows_ok s \<longleftrightarrow> distinct (map fst (m_tasks s))"

lemma remove_keeps_rows: "task_rows_ok s \<Longrightarrow> task_rows_ok (fst (mem_remove_expired u ts s n))"
  by (induction u ts s n rule: mem_remove_expired.induct)
    (auto simp: task_rows_ok_def distinct_delete split: option.split)

lemma cleanup_round:
  assumes "task_rows_ok s" "mem_view s t = Some (snap, evs)" "snap_terminal_at snap = None"
  shows "task_rows_ok (snd (mem_cleanup u from_std now p s)) \<and>
    (\<exists>evs'. mem_view (snd (mem_cleanup u from_std now p s)) t = Some (snap, evs') \<and> set evs' \<subseteq> set evs)"
proof (cases "\<exists>tt et. from_std (rp_task_ttl p) = Inr tt \<and> from_std (rp_event_ttl p) = Inr et")
  case True
  then obtain tt et where ttl: "from_std (rp_task_ttl p) = Inr tt" "from_std (rp_event_ttl p) = Inr et" by blast
  have kept: "t \<notin> set (mem_expired (now - tt) (rp_cleanup_batch_size p) s)"
  proof
    assume "t \<in> set (mem_expired (now - tt) (rp_cleanup_batch_size p) s)"
    with assms(1) obtain snap' at where "map_of (m_tasks s) t = Some snap'" "snap_terminal_at snap' = Some at"
      using mem_expired_sound by (force simp: task_rows_ok_def)
    moreover have "map_of (m_tasks s) t = Some snap" using assms(2) by (simp add: mem_view_Some)
    ultimately show False using assms(3) by simp
  qed
  from mem_cleanup_state [OF ttl, of u now s] obtain rep s' where s': "mem_cleanup u from_std now p s = (Inr rep, s')"
    "m_tasks s' = m_tasks (fst (mem_remove_expired u (mem_expired (now - tt) (rp_cleanup_batch_size p) s) s 0))"
    "mem_view s' = (\<lambda>t. if t \<in> set (mem_expired (now - tt) (rp_cleanup_batch_size p) s) then None
      else map_option (map_prod id (filter (\<lambda>ev. now - et \<le> ev_at ev))) (mem_view s t))" by blast
  have "task_rows_ok s'" using remove_keeps_rows [OF assms(1)] s'(2) by (simp add: task_rows_ok_def)
  with s'(1,3) kept assms(2) show ?thesis by auto
next
  case False
  then have "snd (mem_cleanup u from_std now p s) = s" by (auto simp: mem_cleanup_def split: sum.split)
  with assms show ?thesis by auto
qed

lemma cleanup_keeps_open_task:
  assumes "mem_inv s" "mem_view s t = Some (snap, evs)" "snap_terminal_at snap = None" "0 < period"
  shows "\<exists>s' evs'. cleanup_task period (mem_cleanup u from_std) retention ticks s = Ret s' \<and>
    mem_view s' t = Some (snap, evs') \<and> set evs' \<subseteq> set evs"
proof -
  have "\<exists>evs'. mem_view (fold (\<lambda>now s. snd (mem_cleanup u from_std now retention s)) rounds s) t = Some (snap, evs') \<and>
      set evs' \<subseteq> set evs" if "task_rows_ok s" "mem_view s t = Some (snap, evs)" for rounds s evs
    using that
  proof (induction rounds arbitrary: s evs)
    case (Cons now rounds)
    from cleanup_round [OF Cons.prems assms(3), of u from_std now retention] Cons.IH show ?case
      by simp (meson subset_trans)
  qed simp
  moreover have "task_rows_ok s" using assms(1) by (simp add: task_rows_ok_def mem_inv_def)
  ultimately show ?thesis using assms by (auto simp: cleanup_task_def)
qed

text \<open>Unless \<open>ADAPTERD_LISTEN\<close> is set, the card tells clients to call the wildcard address, over
  plain HTTP.\<close>

lemma card_has_wildcard:
  assumes "env_var env ''ADAPTERD_LISTEN'' = None" "daemon_serve us from_std version env bind_listener dm = Some sv"
  shows "ac_supported_interfaces (sv_card sv) = [(''http://0.0.0.0:8348'', ''https'')]"
  using assms
  by (auto simp: daemon_serve_def Let_def listen_addr_def daemon_card_def produce_card_def split: sum.splits)

end
