(* ===== verification/Ctl_Host.thy ===== *)
theory Ctl_Host
  imports Adapterd
begin

text \<open>
  The crate \<open>adapterctl\<close>, first part: the programs of an installer and the management of
  its PostgreSQL container (\<open>cancel.rs\<close>, \<open>managed_docker.rs\<close>,
  \<open>postgres_lifecycle.rs\<close>). Everything outside the crate (the Docker daemon, the file
  system, processes, the terminal, the clock, signals) is a partner that answers questions: a
  program is a tree of type \<open>ctl\<close> that asks a question and goes on with the reply. Nothing
  is assumed of the replies but their type (\<open>fits\<close>), so a theorem about every trace that
  \<open>replay\<close> accepts holds for every behaviour of the machine. Rules of the form ``this call
  only after that reply'' are policies (\<open>lawful\<close>), and \<open>wp\<close> computes what a program
  needs to keep one.
\<close>

section \<open>Questions and replies\<close>

datatype os = LinuxOs | MacOs | WindowsOs

type_synonym labels = "(string \<times> string) list"

record container_info =
  ci_labels :: "labels option"
  ci_running :: "bool option"

record container_config =
  cc_image :: string
  cc_env :: "string list option"
  cc_labels :: labels
  cc_binds :: "string list"
  cc_network_mode :: string
  cc_port_bindings :: "(string \<times> (string \<times> string) list) list option"
  cc_restart_policy :: string

datatype docker_call =
    DkConnect
  | DkPing
  | DkCreateNetwork string string labels
  | DkCreateVolume string string labels
  | DkPull string
  | DkCreateContainer string container_config
  | DkStart string
  | DkStop string
  | DkRemoveContainer string
  | DkRemoveVolume string

datatype fs_call =
    FsCreateDirAll string
  | FsCreate string
  | FsAppend string string
  | FsFlush string
  | FsRename string string
  | FsRemove string
  | FsRemoveDirAll string
  | FsCopy string string
  | FsWrite string string
  | FsChmod string nat

datatype question =
    QDocker docker_call
  | QInfo
  | QListNetworks
  | QListImages
  | QInspectContainer string
  | QInspectVolume string
  | QCreateExec string "string list"
  | QStartExec string
  | QInspectExec string
  | QSleep nat
  | QFs fs_call
  | QLen string
  | QExists string
  | QIsFile string
  | QReadFile string
  | QSpawn string "string list" "string option"
  | QEuid
  | QPathDirs
  | QIsTty
  | QReadLine
  | QCurrentDir
  | QTimestamp
  | QRandom nat
  | QPgConnect string
  | QPgSelect string
  | QSignal

text \<open>The output of an exec, each chunk with whether it is of the error stream; how a process ended.\<close>

datatype exec_start =
    StartFailed string
  | Detached
  | Attached "(string + bool \<times> string) list"

datatype spawned =
    SpawnFailed string
  | Exited bool string string string

datatype reply =
    RUnit "string option"
  | RBool bool
  | RText "string + string"
  | RContainer "container_info option"
  | RLabels "labels option"
  | RNetworks "string + (string option \<times> labels option) list"
  | RImages "string + string list list"
  | RStart exec_start
  | RExit "string + int option"
  | RLen "string + nat"
  | RSpawn spawned
  | ROsType "string + string option"
  | RNat nat
  | RDirs "string list option"
  | RIndices "nat list"

datatype answer_kind =
    KUnit | KBool | KText | KContainer | KLabels | KNetworks | KImages | KStart | KExit | KLen | KSpawn
  | KOsType | KNat | KDirs | KIndices

primrec reply_kind :: "reply \<Rightarrow> answer_kind" where
  "reply_kind (RUnit x) = KUnit"
| "reply_kind (RBool b) = KBool"
| "reply_kind (RText t) = KText"
| "reply_kind (RContainer c) = KContainer"
| "reply_kind (RLabels l) = KLabels"
| "reply_kind (RNetworks n) = KNetworks"
| "reply_kind (RImages i) = KImages"
| "reply_kind (RStart s) = KStart"
| "reply_kind (RExit e) = KExit"
| "reply_kind (RLen n) = KLen"
| "reply_kind (RSpawn s) = KSpawn"
| "reply_kind (ROsType t) = KOsType"
| "reply_kind (RNat n) = KNat"
| "reply_kind (RDirs d) = KDirs"
| "reply_kind (RIndices i) = KIndices"

primrec asked_kind :: "question \<Rightarrow> answer_kind" where
  "asked_kind (QDocker c) = KUnit"
| "asked_kind QInfo = KOsType"
| "asked_kind QListNetworks = KNetworks"
| "asked_kind QListImages = KImages"
| "asked_kind (QInspectContainer n) = KContainer"
| "asked_kind (QInspectVolume n) = KLabels"
| "asked_kind (QCreateExec n cmd) = KText"
| "asked_kind (QStartExec i) = KStart"
| "asked_kind (QInspectExec i) = KExit"
| "asked_kind (QSleep n) = KUnit"
| "asked_kind (QFs c) = KUnit"
| "asked_kind (QLen p) = KLen"
| "asked_kind (QExists p) = KBool"
| "asked_kind (QIsFile p) = KBool"
| "asked_kind (QReadFile p) = KText"
| "asked_kind (QSpawn c args dir) = KSpawn"
| "asked_kind QEuid = KNat"
| "asked_kind QPathDirs = KDirs"
| "asked_kind QIsTty = KBool"
| "asked_kind QReadLine = KText"
| "asked_kind QCurrentDir = KText"
| "asked_kind QTimestamp = KText"
| "asked_kind (QRandom n) = KIndices"
| "asked_kind (QPgConnect dsn) = KUnit"
| "asked_kind (QPgSelect dsn) = KUnit"
| "asked_kind QSignal = KBool"

definition fits :: "question \<Rightarrow> reply \<Rightarrow> bool" where
  "fits q r \<longleftrightarrow> asked_kind q = reply_kind r"

section \<open>Programs\<close>

datatype 'a ctl =
    Ret 'a
  | Ask question "reply \<Rightarrow> 'a ctl"

type_synonym trace = "(question \<times> reply) list"

fun replay :: "trace \<Rightarrow> 'a ctl \<Rightarrow> 'a option" where
  "replay [] (Ret a) = Some a"
| "replay ((q, r) # tr) (Ask q' k) = (if q = q' \<and> fits q r then replay tr (k r) else None)"
| "replay _ _ = None"

primrec cbind :: "'a ctl \<Rightarrow> ('a \<Rightarrow> 'b ctl) \<Rightarrow> 'b ctl" where
  "cbind (Ret a) f = f a"
| "cbind (Ask q k) f = Ask q (\<lambda>r. cbind (k r) f)"

text \<open>\<open>?\<close>: an error ends the program.\<close>

definition tbind :: "('e + 'a) ctl \<Rightarrow> ('a \<Rightarrow> ('e + 'b) ctl) \<Rightarrow> ('e + 'b) ctl" where
  "tbind p f = cbind p (\<lambda>r. case r of Inl e \<Rightarrow> Ret (Inl e) | Inr a \<Rightarrow> f a)"

definition on_err :: "('e \<Rightarrow> 'f) \<Rightarrow> ('e + 'a) ctl \<Rightarrow> ('f + 'a) ctl" where
  "on_err g p = cbind p (\<lambda>r. Ret (map_err g r))"

text \<open>A call that succeeds or fails with a message, and one whose failure is ignored.\<close>

definition act :: "(string \<Rightarrow> 'e) \<Rightarrow> question \<Rightarrow> ('e + unit) ctl" where
  "act g q = Ask q (\<lambda>r. Ret (case r of RUnit (Some e) \<Rightarrow> Inl (g e) | _ \<Rightarrow> Inr ()))"

definition act_ok :: "question \<Rightarrow> ('e + unit) ctl" where
  "act_ok q = Ask q (\<lambda>_. Ret (Inr ()))"

definition ask_text :: "(string \<Rightarrow> 'e) \<Rightarrow> question \<Rightarrow> ('e + string) ctl" where
  "ask_text g q = Ask q (\<lambda>r. Ret (case r of RText (Inl e) \<Rightarrow> Inl (g e) | RText (Inr s) \<Rightarrow> Inr s | _ \<Rightarrow> Inr []))"

definition ask_bool :: "question \<Rightarrow> ('e + bool) ctl" where
  "ask_bool q = Ask q (\<lambda>r. Ret (Inr (r = RBool True)))"

text \<open>\<open>run_cancellable\<close> of \<open>cancel.rs\<close>: the signal can win at every point where the future waits,
  and when it has just finished.\<close>

primrec cancellable :: "'a ctl \<Rightarrow> 'a option ctl" where
  "cancellable (Ret a) = Ask QSignal (\<lambda>s. if s = RBool True then Ret None else Ret (Some a))"
| "cancellable (Ask q k) =
     Ask QSignal (\<lambda>s. if s = RBool True then Ret None else Ask q (\<lambda>r. cancellable (k r)))"

text \<open>The bytes of an em dash, which several messages have.\<close>

definition dash :: string where
  "dash = [CHR 0xE2, CHR 0x80, CHR 0x94]"

section \<open>The managed container\<close>

definition postgres_image_tag :: string where
  "postgres_image_tag = ''postgres:16.4-alpine''"

definition container_name :: string where
  "container_name = ''agent-connector-pg''"

definition volume_name :: string where
  "volume_name = ''agent-connector-pg-data''"

definition network_name :: string where
  "network_name = ''agent-connector-internal''"

definition ownership_label :: "string \<times> string" where
  "ownership_label = (''io.agent-connector.managed'', ''true'')"

definition has_label :: "labels \<Rightarrow> bool" where
  "has_label ls \<longleftrightarrow> map_of ls (fst ownership_label) = Some (snd ownership_label)"

definition opt_label :: "labels option \<Rightarrow> bool" where
  "opt_label ls = (case ls of None \<Rightarrow> False | Some l \<Rightarrow> has_label l)"

record managed_postgres_plan =
  mp_dsn :: string
  mp_dsn_env_var_name :: string
  mp_host_port :: "nat option"
  mp_password :: string

datatype docker_error =
    DeConnect string
  | DeNotReachable
  | DeWrongContainerMode
  | DeOperation string
  | DeNotOurResource string

datatype preflight_error =
    PfNotReachable
  | PfWrongContainerMode
  | PfConnect string

fun preflight_text :: "preflight_error \<Rightarrow> string" where
  "preflight_text PfNotReachable =
     ''Docker daemon is not reachable '' @ dash @ '' is Docker Desktop running? (Windows/macOS: check the whale icon in the system tray/menu bar; Linux: `systemctl status docker`)''"
| "preflight_text PfWrongContainerMode =
     ''Docker is in Windows containers mode, but a Linux-based Postgres image is required. Switch Docker Desktop to Linux containers (right-click tray icon -> '' @ [CHR 0x27] @ ''Switch to Linux containers...'' @ [CHR 0x27] @ '').''"
| "preflight_text (PfConnect e) = ''failed to connect to Docker daemon: '' @ e"

definition connect_internal :: "(preflight_error + unit) ctl" where
  "connect_internal = act PfConnect (QDocker DkConnect)"

definition preflight_check :: "os \<Rightarrow> (preflight_error + unit) ctl" where
  "preflight_check os =
     tbind connect_internal (\<lambda>_.
     tbind (act (\<lambda>_. PfNotReachable) (QDocker DkPing)) (\<lambda>_.
     if os = WindowsOs
     then Ask QInfo (\<lambda>r. Ret (case r of
            ROsType (Inl e) \<Rightarrow> Inl (PfConnect (''docker info failed: '' @ e))
          | ROsType (Inr t) \<Rightarrow> if t \<noteq> Some ''linux'' then Inl PfWrongContainerMode else Inr ()
          | _ \<Rightarrow> Inr ()))
     else Ret (Inr ())))"

definition docker_ping :: "(docker_error + unit) ctl" where
  "docker_ping = act (\<lambda>_. DeNotReachable) (QDocker DkPing)"

definition password_chars :: string where
  "password_chars = ''abcdefghijklmnopqrstuvwxyzABCDEFGHIJKLMNOPQRSTUVWXYZ0123456789!@#$%^&*-_=+''"

text \<open>Forty draws of \<open>random_range(0..CHARS.len())\<close>; whatever the reply holds, each is brought below
  the bound.\<close>

definition generate_secure_password :: "string ctl" where
  "generate_secure_password =
     Ask (QRandom 40) (\<lambda>r. Ret (map (\<lambda>j. password_chars ! ((case r of
       RIndices is \<Rightarrow> if j < length is then is ! j else 0 | _ \<Rightarrow> 0) mod length password_chars)) [0..<40]))"

definition plan :: "bool \<Rightarrow> bool \<Rightarrow> string \<Rightarrow> (string + managed_postgres_plan) ctl" where
  "plan confirm_docker network_only dsn_env_name =
     (if \<not> confirm_docker
      then Ret (Inl ''managed-docker-postgres requires --confirm-docker (installer will not install, start, or pull images for Docker containers without explicit confirmation)'')
      else cbind generate_secure_password (\<lambda>password.
        (let host = (if network_only then container_name else ''127.0.0.1'');
             host_port = (if network_only then None else Some 5432);
             port = (case host_port of Some p \<Rightarrow> p | None \<Rightarrow> 5432) in
         Ret (Inr \<lparr>mp_dsn = ''postgres://adapter_connector:'' @ password @ ''@'' @ host @ '':'' @ nat_str port @ ''/agent_connector'',
                   mp_dsn_env_var_name = dsn_env_name, mp_host_port = host_port, mp_password = password\<rparr>))))"

definition ensure_network :: "(docker_error + unit) ctl" where
  "ensure_network = Ask QListNetworks (\<lambda>r. case r of
     RNetworks (Inl e) \<Rightarrow> Ret (Inl (DeOperation e))
   | RNetworks (Inr networks) \<Rightarrow>
       (case find (\<lambda>n. fst n = Some network_name) networks of
          Some existing \<Rightarrow> if opt_label (snd existing) then Ret (Inr ()) else Ret (Inl (DeNotOurResource network_name))
        | None \<Rightarrow> act (\<lambda>e. DeOperation (''create_network: '' @ e)) (QDocker (DkCreateNetwork network_name ''bridge'' [ownership_label])))
   | _ \<Rightarrow> Ret (Inr ()))"

definition ensure_volume :: "(docker_error + unit) ctl" where
  "ensure_volume = Ask (QInspectVolume volume_name) (\<lambda>r. case r of
     RLabels (Some ls) \<Rightarrow> if has_label ls then Ret (Inr ()) else Ret (Inl (DeNotOurResource volume_name))
   | _ \<Rightarrow> act (\<lambda>e. DeOperation (''create_volume: '' @ e)) (QDocker (DkCreateVolume volume_name ''local'' [ownership_label])))"

definition pull_image_inner :: "(docker_error + unit) ctl" where
  "pull_image_inner = Ask QListImages (\<lambda>r. case r of
     RImages (Inl e) \<Rightarrow> Ret (Inl (DeOperation e))
   | RImages (Inr images) \<Rightarrow>
       if list_ex (\<lambda>tags. postgres_image_tag \<in> set tags) images then Ret (Inr ())
       else act (\<lambda>e. DeOperation (''image pull failed: '' @ e)) (QDocker (DkPull postgres_image_tag))
   | _ \<Rightarrow> Ret (Inr ()))"

definition pull_image_if_missing :: "(docker_error + unit) ctl" where
  "pull_image_if_missing = cbind (cancellable pull_image_inner) (\<lambda>r. case r of
     Some result \<Rightarrow> Ret result
   | None \<Rightarrow> Ret (Inl (DeOperation ''image pull interrupted by Ctrl+C'')))"

definition new_container :: "managed_postgres_plan \<Rightarrow> container_config" where
  "new_container p =
     \<lparr>cc_image = postgres_image_tag,
      cc_env = Some [''POSTGRES_USER=adapter_connector'', ''POSTGRES_PASSWORD='' @ mp_password p, ''POSTGRES_DB=agent_connector''],
      cc_labels = [ownership_label], cc_binds = [volume_name @ '':/var/lib/postgresql/data''],
      cc_network_mode = network_name,
      cc_port_bindings = map_option (\<lambda>port. [(''5432/tcp'', [(''127.0.0.1'', nat_str port)])]) (mp_host_port p),
      cc_restart_policy = ''unless-stopped''\<rparr>"

definition start_it :: "(string \<Rightarrow> 'e) \<Rightarrow> ('e + unit) ctl" where
  "start_it g = act (\<lambda>e. g (''start_container: '' @ e)) (QDocker (DkStart container_name))"

definition ensure_container :: "managed_postgres_plan \<Rightarrow> (docker_error + unit) ctl" where
  "ensure_container p = Ask (QInspectContainer container_name) (\<lambda>r. case r of
     RContainer (Some existing) \<Rightarrow>
       if \<not> opt_label (ci_labels existing) then Ret (Inl (DeNotOurResource container_name))
       else if ci_running existing = Some True then Ret (Inr ())
       else start_it DeOperation
   | _ \<Rightarrow>
       tbind pull_image_if_missing (\<lambda>_.
       tbind (act (\<lambda>e. DeOperation (''create_container: '' @ e))
                (QDocker (DkCreateContainer container_name (new_container p)))) (\<lambda>_.
         start_it DeOperation)))"

definition pg_isready :: "string list" where
  "pg_isready = [''pg_isready'', ''-U'', ''adapter_connector'']"

primrec wait_for_ready :: "nat list \<Rightarrow> (docker_error + unit) ctl" where
  "wait_for_ready [] =
     Ret (Inl (DeOperation ''Postgres container started but did not become ready within timeout (pg_isready never succeeded)''))"
| "wait_for_ready (attempt # rest) =
     tbind (ask_text (\<lambda>e. DeOperation (''create_exec: '' @ e)) (QCreateExec container_name pg_isready)) (\<lambda>i.
     Ask (QStartExec i) (\<lambda>s.
       (let again = Ask (QSleep (500 * min attempt 10)) (\<lambda>_. wait_for_ready rest) in
        case s of
          RStart (Attached _) \<Rightarrow>
            Ask (QInspectExec i) (\<lambda>x. case x of
              RExit (Inl e) \<Rightarrow> Ret (Inl (DeOperation e))
            | RExit (Inr code) \<Rightarrow> if code = Some 0 then Ret (Inr ()) else again
            | _ \<Rightarrow> again)
        | _ \<Rightarrow> again)))"

definition ensure_running :: "os \<Rightarrow> managed_postgres_plan \<Rightarrow> (docker_error + unit) ctl" where
  "ensure_running os p =
     tbind (on_err (\<lambda>e. DeOperation (preflight_text e)) (preflight_check os)) (\<lambda>_.
     tbind (on_err (\<lambda>e. DeConnect (preflight_text e)) connect_internal) (\<lambda>_.
     tbind ensure_network (\<lambda>_.
     tbind ensure_volume (\<lambda>_.
     tbind (ensure_container p) (\<lambda>_.
       wait_for_ready [1..<31])))))"

definition remove_all_resources :: "bool \<Rightarrow> (docker_error + unit) ctl" where
  "remove_all_resources remove_volume =
     tbind (on_err (\<lambda>e. DeConnect (preflight_text e)) connect_internal) (\<lambda>_.
     tbind (Ask (QInspectContainer container_name) (\<lambda>r. case r of
       RContainer (Some existing) \<Rightarrow>
         if \<not> opt_label (ci_labels existing) then Ret (Inl (DeNotOurResource container_name))
         else tbind (act_ok (QDocker (DkStop container_name))) (\<lambda>_.
           act (\<lambda>e. DeOperation (''remove_container: '' @ e)) (QDocker (DkRemoveContainer container_name)))
     | _ \<Rightarrow> Ret (Inr ()))) (\<lambda>_.
     if \<not> remove_volume then Ret (Inr ())
     else Ask (QInspectVolume volume_name) (\<lambda>r. case r of
       RLabels (Some ls) \<Rightarrow>
         if \<not> has_label ls then Ret (Inl (DeNotOurResource volume_name))
         else act (\<lambda>e. DeOperation (''remove_volume: '' @ e)) (QDocker (DkRemoveVolume volume_name))
     | _ \<Rightarrow> Ret (Inr ()))))"

section \<open>Backup and upgrade\<close>

datatype lifecycle_error =
    LeNotManagedDocker string
  | LeDocker string
  | LeBackup string
  | LeInterrupted string
  | LeUpgradeAborted string
  | LeIo string

definition lifecycle_connect :: "(lifecycle_error + unit) ctl" where
  "lifecycle_connect = act LeDocker (QDocker DkConnect)"

definition verify_ownership :: "(lifecycle_error + unit) ctl" where
  "verify_ownership = Ask (QInspectContainer container_name) (\<lambda>r. Ret (case r of
     RContainer (Some container) \<Rightarrow>
       if opt_label (ci_labels container) then Inr ()
       else Inl (LeNotManagedDocker (''container '' @ [CHR 0x27] @ container_name @ [CHR 0x27] @
         '' exists but lacks the ownership label '' @ dash @ '' refusing to touch it''))
   | _ \<Rightarrow> Inl (LeNotManagedDocker (''container '' @ [CHR 0x27] @ container_name @ [CHR 0x27] @
       '' not found '' @ dash @ '' this instance is not using managed-docker-postgres, backup/upgrade only apply to that profile''))))"

definition tmp_path_for :: "string \<Rightarrow> string" where
  "tmp_path_for final_path = final_path @ ''.tmp''"

text \<open>The loop over the output of the dump: both streams go to the file.\<close>

primrec write_chunks :: "string \<Rightarrow> (string + bool \<times> string) list \<Rightarrow> (lifecycle_error + unit) ctl" where
  "write_chunks tmp [] = Ret (Inr ())"
| "write_chunks tmp (c # cs) =
     (case c of
        Inl e \<Rightarrow> Ret (Inl (LeBackup (''stream read: '' @ e)))
      | Inr chunk \<Rightarrow> tbind (act LeIo (QFs (FsAppend tmp (snd chunk)))) (\<lambda>_. write_chunks tmp cs))"

text \<open>\<open>{:?}\<close> of the exit code, an \<open>Option<i64>\<close>.\<close>

definition int_str :: "int \<Rightarrow> string" where
  "int_str i = (if i < 0 then ''-'' @ nat_str (nat (- i)) else nat_str (nat i))"

definition debug_exit :: "int option \<Rightarrow> string" where
  "debug_exit code = (case code of None \<Rightarrow> ''None'' | Some i \<Rightarrow> ''Some('' @ int_str i @ '')'')"

text \<open>\<open>Path::parent\<close> of the paths the crate passes, \<open>None\<close> for the root and the empty path.\<close>

definition path_parent :: "string \<Rightarrow> string option" where
  "path_parent p =
     (let q = rev (dropWhile (\<lambda>c. c = CHR ''/'') (rev p)) in
      if q = [] then None
      else (let d = rev (dropWhile (\<lambda>c. c \<noteq> CHR ''/'') (rev q)) in
            if d = [] then Some []
            else (let e = rev (dropWhile (\<lambda>c. c = CHR ''/'') (rev d)) in Some (if e = [] then ''/'' else e))))"

definition pg_dump :: "string list" where
  "pg_dump = [''pg_dump'', ''-U'', ''adapter_connector'', ''agent_connector'']"

definition backup_finish :: "string \<Rightarrow> string \<Rightarrow> string \<Rightarrow> (lifecycle_error + unit) ctl" where
  "backup_finish final_path tmp i = Ask (QInspectExec i) (\<lambda>x. case x of
     RExit (Inl e) \<Rightarrow> Ret (Inl (LeDocker e))
   | RExit (Inr code) \<Rightarrow>
       if code \<noteq> Some 0
       then tbind (act_ok (QFs (FsRemove tmp))) (\<lambda>_.
         Ret (Inl (LeBackup (''pg_dump exited with code '' @ debug_exit code @ '' '' @ dash @
           '' tmp file removed, no backup produced''))))
       else Ask (QLen tmp) (\<lambda>l. case l of
         RLen (Inl e) \<Rightarrow> Ret (Inl (LeIo e))
       | RLen (Inr len) \<Rightarrow>
           if len = 0
           then tbind (act_ok (QFs (FsRemove tmp))) (\<lambda>_.
             Ret (Inl (LeBackup (''pg_dump produced an empty file '' @ dash @ '' removed, not a valid backup''))))
           else act LeIo (QFs (FsRename tmp final_path))
       | _ \<Rightarrow> Ret (Inr ()))
   | _ \<Rightarrow> Ret (Inr ()))"

definition dump_to :: "string \<Rightarrow> string \<Rightarrow> (lifecycle_error + unit) ctl" where
  "dump_to tmp i = Ask (QStartExec i) (\<lambda>s. case s of
     RStart (StartFailed e) \<Rightarrow> Ret (Inl (LeDocker (''start_exec: '' @ e)))
   | RStart (Attached output) \<Rightarrow> write_chunks tmp output
   | _ \<Rightarrow> Ret (Inr ()))"

definition backup_inner :: "string \<Rightarrow> string \<Rightarrow> (lifecycle_error + unit) ctl" where
  "backup_inner final_path tmp =
     tbind lifecycle_connect (\<lambda>_.
     tbind verify_ownership (\<lambda>_.
     tbind (case path_parent final_path of
              Some parent \<Rightarrow> act LeIo (QFs (FsCreateDirAll parent)) | None \<Rightarrow> Ret (Inr ())) (\<lambda>_.
     tbind (ask_text (\<lambda>e. LeDocker (''create_exec: '' @ e)) (QCreateExec container_name pg_dump)) (\<lambda>i.
     tbind (act LeIo (QFs (FsCreate tmp))) (\<lambda>_.
     tbind (dump_to tmp i) (\<lambda>_.
     tbind (act LeIo (QFs (FsFlush tmp))) (\<lambda>_.
       backup_finish final_path tmp i)))))))"

definition backup :: "string \<Rightarrow> (lifecycle_error + unit) ctl" where
  "backup output_path =
     (let tmp = tmp_path_for output_path in
      cbind (cancellable (backup_inner output_path tmp)) (\<lambda>r. case r of
        Some inner_result \<Rightarrow> Ret inner_result
      | None \<Rightarrow> tbind (act_ok (QFs (FsRemove tmp))) (\<lambda>_. Ret (Inl (LeInterrupted output_path)))))"

text \<open>\<open>Path::join\<close> with a relative path.\<close>

definition join_path :: "string \<Rightarrow> string \<Rightarrow> string" where
  "join_path p q = (if p = [] then q else if last p = CHR ''/'' then p @ q else p @ ''/'' @ q)"

definition pre_upgrade_backup_path :: "string \<Rightarrow> ('e + string) ctl" where
  "pre_upgrade_backup_path inst =
     Ask QTimestamp (\<lambda>r. Ret (Inr (join_path (join_path inst ''data'')
       (''pre-upgrade-backup-'' @ (case r of RText (Inr t) \<Rightarrow> t | _ \<Rightarrow> []) @ ''.sql''))))"

definition pull_image :: "string \<Rightarrow> (lifecycle_error + unit) ctl" where
  "pull_image tag = act (\<lambda>e. LeDocker (''image pull failed: '' @ e)) (QDocker (DkPull tag))"

definition upgraded_container :: "string \<Rightarrow> container_config" where
  "upgraded_container image_tag =
     \<lparr>cc_image = image_tag, cc_env = None, cc_labels = [ownership_label],
      cc_binds = [volume_name @ '':/var/lib/postgresql/data''],
      cc_network_mode = ''agent-connector-internal'', cc_port_bindings = None,
      cc_restart_policy = ''unless-stopped''\<rparr>"

definition recreate_container_with_image :: "string \<Rightarrow> (lifecycle_error + unit) ctl" where
  "recreate_container_with_image image_tag =
     tbind (act (\<lambda>e. LeDocker (''create_container: '' @ e))
              (QDocker (DkCreateContainer container_name (upgraded_container image_tag)))) (\<lambda>_.
       start_it LeDocker)"

primrec verify_attempts :: "nat list \<Rightarrow> (lifecycle_error + unit) ctl" where
  "verify_attempts [] =
     Ret (Inl (LeUpgradeAborted (''new Postgres container did not become ready after upgrade '' @ dash @
       '' data directory may be incompatible with the target version (major version upgrades require pg_upgrade, not a simple image swap). Restore the pre-upgrade backup into a fresh installation.'')))"
| "verify_attempts (attempt # rest) =
     tbind (ask_text LeDocker (QCreateExec container_name pg_isready)) (\<lambda>i.
     Ask (QStartExec i) (\<lambda>s.
       (let again = Ask (QSleep (500 * min attempt 10)) (\<lambda>_. verify_attempts rest) in
        case s of
          RStart (StartFailed _) \<Rightarrow> again
        | _ \<Rightarrow> Ask (QInspectExec i) (\<lambda>x. if x = RExit (Inr (Some 0)) then Ret (Inr ()) else again))))"

definition verify_post_upgrade_connectivity :: "(lifecycle_error + unit) ctl" where
  "verify_post_upgrade_connectivity = tbind lifecycle_connect (\<lambda>_. verify_attempts [1..<31])"

text \<open>From the mandatory backup on.\<close>

definition upgrade_replace :: "string \<Rightarrow> string \<Rightarrow> (lifecycle_error + unit) ctl" where
  "upgrade_replace target_image_tag backup_path =
     tbind (backup backup_path) (\<lambda>_.
     tbind (act (\<lambda>e. LeDocker (''stop_container: '' @ e)) (QDocker (DkStop container_name))) (\<lambda>_.
     tbind (act (\<lambda>e. LeDocker (''remove_container: '' @ e)) (QDocker (DkRemoveContainer container_name))) (\<lambda>_.
     tbind (pull_image target_image_tag) (\<lambda>_.
     tbind (recreate_container_with_image target_image_tag) (\<lambda>_.
       verify_post_upgrade_connectivity)))))"

definition upgrade :: "string \<Rightarrow> string \<Rightarrow> (lifecycle_error + unit) ctl" where
  "upgrade target_image_tag inst =
     (if target_image_tag = ''latest'' \<or> CHR '':'' \<notin> set target_image_tag
      then Ret (Inl (LeUpgradeAborted (''target image tag '' @ [CHR 0x27] @ target_image_tag @ [CHR 0x27] @
        '' must be explicit (e.g. postgres:17.0-alpine), not '' @ [CHR 0x27] @ ''latest'' @ [CHR 0x27] @ '' or untagged'')))
      else
        tbind lifecycle_connect (\<lambda>_.
        tbind verify_ownership (\<lambda>_.
        tbind (pre_upgrade_backup_path inst) (\<lambda>backup_path.
          upgrade_replace target_image_tag backup_path))))"

section \<open>Policies\<close>

text \<open>A policy says what a question needs of the tokens collected so far, and which tokens a
  reply gives.\<close>

type_synonym 'k needs = "question \<Rightarrow> 'k set \<Rightarrow> bool"
type_synonym 'k gives = "question \<Rightarrow> reply \<Rightarrow> 'k set"

primrec lawful :: "'k needs \<Rightarrow> 'k gives \<Rightarrow> 'k set \<Rightarrow> trace \<Rightarrow> bool" where
  "lawful n g ks [] = True"
| "lawful n g ks (x # tr) = (n (fst x) ks \<and> lawful n g (ks \<union> g (fst x) (snd x)) tr)"

primrec tokens :: "'k gives \<Rightarrow> trace \<Rightarrow> 'k set" where
  "tokens g [] = {}"
| "tokens g (x # tr) = g (fst x) (snd x) \<union> tokens g tr"

primrec wp :: "'k needs \<Rightarrow> 'k gives \<Rightarrow> 'a ctl \<Rightarrow> ('a \<Rightarrow> 'k set \<Rightarrow> bool) \<Rightarrow> 'k set \<Rightarrow> bool" where
  "wp n g (Ret a) Q ks = Q a ks"
| "wp n g (Ask q k) Q ks = (n q ks \<and> (\<forall>r. fits q r \<longrightarrow> wp n g (k r) Q (ks \<union> g q r)))"

lemma replay_ret: "replay tr (Ret b) = Some a \<longleftrightarrow> tr = [] \<and> a = b"
  by (cases tr) auto

lemma replay_ask:
  "replay tr (Ask q k) = Some a \<longleftrightarrow> (\<exists>r tr'. tr = (q, r) # tr' \<and> fits q r \<and> replay tr' (k r) = Some a)"
proof (cases tr)
  case (Cons x tr')
  then show ?thesis by (cases x) auto
qed simp

lemma wp_sound:
  assumes "wp n g p Q ks" "replay tr p = Some a"
  shows "lawful n g ks tr \<and> Q a (ks \<union> tokens g tr)"
  using assms
proof (induction p arbitrary: ks tr)
  case (Ret x)
  then show ?case by (simp add: replay_ret)
next
  case (Ask q k)
  then obtain r tr' where tr: "tr = (q, r) # tr'" "fits q r" "replay tr' (k r) = Some a"
    by (auto simp: replay_ask)
  with Ask.prems(1) have "wp n g (k r) Q (ks \<union> g q r)" by simp
  from Ask.IH [OF rangeI this tr(3)] tr(1) Ask.prems(1) show ?case by (simp add: Un_assoc)
qed

lemma wp_ret [simp]: "wp n g (Ret a) Q = Q a"
  by (rule ext) simp

lemma wp_cbind [simp]: "wp n g (cbind p f) Q ks = wp n g p (\<lambda>a. wp n g (f a) Q) ks"
  by (induction p arbitrary: ks) simp_all

lemma wp_tbind [simp]:
  "wp n g (tbind p f) Q ks = wp n g p (\<lambda>r ks. case r of Inl e \<Rightarrow> Q (Inl e) ks | Inr a \<Rightarrow> wp n g (f a) Q ks) ks"
proof -
  have "wp n g (case r of Inl e \<Rightarrow> Ret (Inl e) | Inr a \<Rightarrow> f a) Q =
      (\<lambda>ks. case r of Inl e \<Rightarrow> Q (Inl e) ks | Inr a \<Rightarrow> wp n g (f a) Q ks)" for r
    by (cases r) (simp_all add: fun_eq_iff)
  then show ?thesis by (simp add: tbind_def)
qed

lemma wp_on_err [simp]: "wp n g (on_err h p) Q ks = wp n g p (\<lambda>r. Q (map_err h r)) ks"
  by (simp add: on_err_def)

text \<open>The tokens only grow, so a program that keeps the policy by itself may be followed by
  whatever is fine with more tokens.\<close>

lemma wp_follow:
  assumes "wp n g p Q ks" "\<And>a js. ks \<subseteq> js \<Longrightarrow> Q a js \<Longrightarrow> Q' a js"
  shows "wp n g p Q' ks"
  using assms
proof (induction p arbitrary: ks)
  case (Ask q k)
  have "wp n g (k r) Q' (ks \<union> g q r)" if "fits q r" for r
    by (rule Ask.IH [OF rangeI]) (use Ask.prems that in auto)
  then show ?case using Ask.prems(1) by simp
qed simp

lemma wp_cancellable:
  assumes "\<And>ks. n QSignal ks" "\<And>r. g QSignal r = {}"
    and "wp n g p (\<lambda>a. Q (Some a)) ks" "\<And>js. ks \<subseteq> js \<Longrightarrow> Q None js"
  shows "wp n g (cancellable p) Q ks"
  using assms(3,4)
proof (induction p arbitrary: ks)
  case (Ask q k)
  have "wp n g (cancellable (k r)) Q (ks \<union> g q r)" if "fits q r" for r
    by (rule Ask.IH [OF rangeI]) (use Ask.prems that in auto)
  then show ?case using Ask.prems assms(1,2) by simp
qed (use assms(1,2) in simp)

lemma fits_all:
  "asked_kind q = KUnit \<Longrightarrow> (\<forall>r. fits q r \<longrightarrow> P r) \<longleftrightarrow> (\<forall>x. P (RUnit x))"
  "asked_kind q = KBool \<Longrightarrow> (\<forall>r. fits q r \<longrightarrow> P r) \<longleftrightarrow> (\<forall>b. P (RBool b))"
  "asked_kind q = KText \<Longrightarrow> (\<forall>r. fits q r \<longrightarrow> P r) \<longleftrightarrow> (\<forall>t. P (RText t))"
  "asked_kind q = KContainer \<Longrightarrow> (\<forall>r. fits q r \<longrightarrow> P r) \<longleftrightarrow> (\<forall>c. P (RContainer c))"
  "asked_kind q = KLabels \<Longrightarrow> (\<forall>r. fits q r \<longrightarrow> P r) \<longleftrightarrow> (\<forall>l. P (RLabels l))"
  "asked_kind q = KNetworks \<Longrightarrow> (\<forall>r. fits q r \<longrightarrow> P r) \<longleftrightarrow> (\<forall>ns. P (RNetworks ns))"
  "asked_kind q = KImages \<Longrightarrow> (\<forall>r. fits q r \<longrightarrow> P r) \<longleftrightarrow> (\<forall>is. P (RImages is))"
  "asked_kind q = KStart \<Longrightarrow> (\<forall>r. fits q r \<longrightarrow> P r) \<longleftrightarrow> (\<forall>st. P (RStart st))"
  "asked_kind q = KExit \<Longrightarrow> (\<forall>r. fits q r \<longrightarrow> P r) \<longleftrightarrow> (\<forall>e. P (RExit e))"
  "asked_kind q = KLen \<Longrightarrow> (\<forall>r. fits q r \<longrightarrow> P r) \<longleftrightarrow> (\<forall>l. P (RLen l))"
  "asked_kind q = KSpawn \<Longrightarrow> (\<forall>r. fits q r \<longrightarrow> P r) \<longleftrightarrow> (\<forall>sp. P (RSpawn sp))"
  "asked_kind q = KOsType \<Longrightarrow> (\<forall>r. fits q r \<longrightarrow> P r) \<longleftrightarrow> (\<forall>t. P (ROsType t))"
  "asked_kind q = KNat \<Longrightarrow> (\<forall>r. fits q r \<longrightarrow> P r) \<longleftrightarrow> (\<forall>m. P (RNat m))"
  "asked_kind q = KDirs \<Longrightarrow> (\<forall>r. fits q r \<longrightarrow> P r) \<longleftrightarrow> (\<forall>ds. P (RDirs ds))"
  "asked_kind q = KIndices \<Longrightarrow> (\<forall>r. fits q r \<longrightarrow> P r) \<longleftrightarrow> (\<forall>is. P (RIndices is))"
  unfolding fits_def
  by (rule iffI; (intro allI impI)?; (simp; fail)?; rename_tac r; case_tac r; simp)+

lemma wp_act [simp]:
  "asked_kind q = KUnit \<Longrightarrow> wp n g (act h q) Q ks \<longleftrightarrow>
     n q ks \<and> Q (Inr ()) (ks \<union> g q (RUnit None)) \<and> (\<forall>e. Q (Inl (h e)) (ks \<union> g q (RUnit (Some e))))"
  by (auto simp: act_def fits_all split: option.split)

lemma wp_act_ok [simp]:
  "asked_kind q = KUnit \<Longrightarrow> wp n g (act_ok q) Q ks \<longleftrightarrow>
     n q ks \<and> Q (Inr ()) (ks \<union> g q (RUnit None)) \<and> (\<forall>e. Q (Inr ()) (ks \<union> g q (RUnit (Some e))))"
  by (auto simp: act_ok_def fits_all) (metis option.exhaust)

section \<open>Only resources of the installer\<close>

datatype token =
    OwnContainer string
  | OwnVolume string
  | DumpExec string
  | DumpDone string
  | NonEmpty string
  | BackedUp string

text \<open>Starting, stopping and removing a container or volume needs that this run has seen the
  ownership label on it, or has created it.\<close>

definition owner_needs :: "token needs" where
  "owner_needs q ks =
     (case q of
        QDocker c \<Rightarrow>
          (case c of
             DkStart n \<Rightarrow> OwnContainer n \<in> ks
           | DkStop n \<Rightarrow> OwnContainer n \<in> ks
           | DkRemoveContainer n \<Rightarrow> OwnContainer n \<in> ks
           | DkRemoveVolume n \<Rightarrow> OwnVolume n \<in> ks
           | _ \<Rightarrow> True)
      | _ \<Rightarrow> True)"

definition owner_gives :: "token gives" where
  "owner_gives q r =
     (case q of
        QInspectContainer n \<Rightarrow>
          (case r of RContainer (Some info) \<Rightarrow> if opt_label (ci_labels info) then {OwnContainer n} else {} | _ \<Rightarrow> {})
      | QInspectVolume n \<Rightarrow> (case r of RLabels (Some ls) \<Rightarrow> if has_label ls then {OwnVolume n} else {} | _ \<Rightarrow> {})
      | QDocker c \<Rightarrow> (case c of DkCreateContainer n cfg \<Rightarrow> if r = RUnit None then {OwnContainer n} else {} | _ \<Rightarrow> {})
      | _ \<Rightarrow> {})"

text \<open>Renaming a file needs that a dump has ended with code 0 and that the file is not empty;
  stopping or removing a container needs a renamed dump.\<close>

definition backup_needs :: "token needs" where
  "backup_needs q ks =
     (case q of
        QFs c \<Rightarrow>
          (case c of
             FsRename a b \<Rightarrow> NonEmpty a \<in> ks \<and> (\<exists>i. DumpExec i \<in> ks \<and> DumpDone i \<in> ks)
           | _ \<Rightarrow> True)
      | QDocker c \<Rightarrow>
          (case c of
             DkStop n \<Rightarrow> \<exists>p. BackedUp p \<in> ks
           | DkRemoveContainer n \<Rightarrow> \<exists>p. BackedUp p \<in> ks
           | _ \<Rightarrow> True)
      | _ \<Rightarrow> True)"

definition backup_gives :: "token gives" where
  "backup_gives q r =
     (case q of
        QCreateExec c cmd \<Rightarrow> (case r of RText (Inr i) \<Rightarrow> if cmd = pg_dump then {DumpExec i} else {} | _ \<Rightarrow> {})
      | QInspectExec i \<Rightarrow> if r = RExit (Inr (Some 0)) then {DumpDone i} else {}
      | QLen p \<Rightarrow> (case r of RLen (Inr l) \<Rightarrow> if l > 0 then {NonEmpty p} else {} | _ \<Rightarrow> {})
      | QFs c \<Rightarrow> (case c of FsRename a b \<Rightarrow> if r = RUnit None then {BackedUp b} else {} | _ \<Rightarrow> {})
      | _ \<Rightarrow> {})"

text \<open>Questions that the first policy does not look at.\<close>

lemma owner_quiet:
  "\<forall>c. q \<noteq> QDocker c \<Longrightarrow> owner_needs q ks"
  "owner_needs (QDocker DkConnect) ks" "owner_needs (QDocker DkPing) ks" "owner_needs (QDocker (DkPull t)) ks"
  "owner_needs (QDocker (DkCreateNetwork m dr ls)) ks" "owner_needs (QDocker (DkCreateVolume m dr ls)) ks"
  "owner_needs (QDocker (DkCreateContainer m cfg)) ks"
  by (cases q) (simp_all add: owner_needs_def)

lemma wp_ask_text [simp]:
  "asked_kind q = KText \<Longrightarrow> wp n g (ask_text h q) Q ks \<longleftrightarrow>
     n q ks \<and> (\<forall>e. Q (Inl (h e)) (ks \<union> g q (RText (Inl e)))) \<and> (\<forall>s. Q (Inr s) (ks \<union> g q (RText (Inr s))))"
  by (auto simp: ask_text_def fits_all split: sum.split)

text \<open>
  A policy that is about the resources of Docker only: it asks nothing of the questions that
  do not change one. The steps that the programs share are checked once for every such policy.
\<close>

locale docker_policy =
  fixes needs :: "'k needs" and gives :: "'k gives"
  assumes other: "\<forall>c. q \<noteq> QDocker c \<Longrightarrow> needs q ks"
    and talk: "needs (QDocker DkConnect) ks" "needs (QDocker DkPing) ks" "needs (QDocker (DkPull t)) ks"
    and signal: "gives QSignal r = {}"
begin

lemma wait: "wp needs gives (wait_for_ready as) (\<lambda>_ _. True) ks"
proof (induction as arbitrary: ks)
  case (Cons a as)
  then show ?case by (auto simp: other fits_all Let_def split: exec_start.split sum.split)
qed simp

lemma verify: "wp needs gives (verify_attempts as) (\<lambda>_ _. True) ks"
proof (induction as arbitrary: ks)
  case (Cons a as)
  then show ?case by (auto simp: other fits_all Let_def split: exec_start.split)
qed simp

lemma preflight:
  "wp needs gives connect_internal (\<lambda>_ _. True) ks" "wp needs gives (preflight_check os) (\<lambda>_ _. True) ks"
  by (auto simp: preflight_check_def connect_internal_def other talk fits_all split: sum.split)

lemma pull: "wp needs gives pull_image_if_missing (\<lambda>_ _. True) ks"
  unfolding pull_image_if_missing_def wp_cbind
  by (rule wp_cancellable) (auto simp: other talk signal pull_image_inner_def fits_all split: sum.split)

lemma chunks: "wp needs gives (write_chunks tmp cs) (\<lambda>_ _. True) ks"
  by (induction cs arbitrary: ks) (auto simp: other split: sum.split)

lemma dump: "wp needs gives (dump_to tmp i) (\<lambda>_ _. True) ks"
  by (auto simp: dump_to_def other fits_all chunks split: exec_start.split)

lemma finish: "wp needs gives (backup_finish f tmp i) (\<lambda>_ _. True) ks"
  by (auto simp: backup_finish_def other fits_all split: sum.split)

lemma backup_inner: "wp needs gives (backup_inner f tmp) (\<lambda>_ _. True) ks"
  unfolding backup_inner_def
  by (auto simp: lifecycle_connect_def verify_ownership_def other talk fits_all finish
      intro!: wp_follow [OF dump] split: option.split sum.split)

lemma backup: "wp needs gives (backup path) (\<lambda>_ _. True) ks"
  unfolding backup_def Let_def wp_cbind
  by (rule wp_cancellable) (auto simp: other signal backup_inner)

end

interpretation owner: docker_policy owner_needs owner_gives
  by unfold_locales (auto simp: owner_quiet owner_gives_def)

lemma owned_start: "OwnContainer container_name \<in> ks \<Longrightarrow> wp owner_needs owner_gives (start_it h) (\<lambda>_ _. True) ks"
  by (simp add: start_it_def owner_needs_def)

lemma owned_container: "wp owner_needs owner_gives (ensure_container p) (\<lambda>_ _. True) ks"
proof -
  have made: "wp owner_needs owner_gives (tbind pull_image_if_missing (\<lambda>_.
      tbind (act h (QDocker (DkCreateContainer container_name cfg))) (\<lambda>_. start_it DeOperation))) (\<lambda>_ _. True) js"
    for h cfg js
    unfolding wp_tbind
    by (rule wp_follow [OF owner.pull])
      (auto simp: owned_start owner_quiet owner_gives_def split: sum.split)
  show ?thesis
    unfolding ensure_container_def
    by (auto simp: owner_quiet fits_all made owned_start owner_gives_def simp del: wp_tbind split: option.split)
qed

lemma owned_running: "wp owner_needs owner_gives (ensure_running os p) (\<lambda>_ _. True) ks"
  unfolding ensure_running_def wp_tbind wp_on_err
  apply (rule wp_follow [OF owner.preflight(2)], simp split: sum.split, intro allI impI)
  apply (rule wp_follow [OF owner.preflight(1)], simp split: sum.split, intro allI impI)
  apply (auto simp: ensure_network_def ensure_volume_def owner_quiet fits_all
      intro!: wp_follow [OF owned_container] owner.wait split: sum.split option.split)
  done

lemma owned_remove: "wp owner_needs owner_gives (remove_all_resources b) (\<lambda>_ _. True) ks"
  by (auto simp: remove_all_resources_def connect_internal_def owner_quiet fits_all owner_needs_def owner_gives_def
      split: option.split sum.split)

lemma owned_recreate: "wp owner_needs owner_gives (recreate_container_with_image tag) (\<lambda>_ _. True) ks"
  by (auto simp: recreate_container_with_image_def owner_quiet owner_gives_def owned_start split: sum.split)

lemma owned_replace:
  assumes "OwnContainer container_name \<in> ks"
  shows "wp owner_needs owner_gives (upgrade_replace tag bp) (\<lambda>_ _. True) ks"
  unfolding upgrade_replace_def wp_tbind
  by (rule wp_follow [OF owner.backup])
    (use assms in \<open>auto simp: owner_needs_def pull_image_def lifecycle_connect_def
      verify_post_upgrade_connectivity_def owner.verify intro!: wp_follow [OF owned_recreate] split: sum.split\<close>)

lemma owned_upgrade: "wp owner_needs owner_gives (upgrade tag inst) (\<lambda>_ _. True) ks"
  by (auto simp: upgrade_def pre_upgrade_backup_path_def lifecycle_connect_def verify_ownership_def owner_quiet
      fits_all owner_gives_def owned_replace split: sum.split option.split)

text \<open>
  C37: the installer touches only its own resources. Whatever the Docker daemon and the rest
  of the machine answer, in every run of the management of the container (bringing it up,
  removing it, backing it up, upgrading it) each start, stop and removal of a container and
  each removal of a volume comes after a reply of the same run in which that resource had the
  ownership label, or after the run has created it.
\<close>

theorem docker_only_owned:
  "(replay tr (ensure_running os p) = Some r \<longrightarrow> lawful owner_needs owner_gives {} tr) \<and>
   (replay tr (remove_all_resources b) = Some r \<longrightarrow> lawful owner_needs owner_gives {} tr) \<and>
   (replay tr (backup path) = Some r' \<longrightarrow> lawful owner_needs owner_gives {} tr) \<and>
   (replay tr (upgrade tag inst) = Some r' \<longrightarrow> lawful owner_needs owner_gives {} tr)"
  using wp_sound [OF owned_running] wp_sound [OF owned_remove] wp_sound [OF owner.backup] wp_sound [OF owned_upgrade]
  by blast

section \<open>Backups\<close>

lemma backup_quiet:
  "backup_needs (QDocker DkConnect) ks" "backup_needs (QInspectContainer c) ks" "backup_needs (QFs (FsCreateDirAll d)) ks"
  "backup_needs (QCreateExec c cmd) ks" "backup_needs (QFs (FsCreate d)) ks" "backup_needs (QFs (FsAppend d x)) ks"
  "backup_needs (QStartExec i) ks" "backup_needs (QFs (FsFlush d)) ks" "backup_needs (QInspectExec i) ks"
  "backup_needs (QLen d) ks" "backup_needs (QFs (FsRemove d)) ks" "backup_needs QSignal ks" "backup_needs QTimestamp ks"
  "backup_needs (QDocker (DkPull t)) ks" "backup_needs (QDocker (DkCreateContainer c cfg)) ks"
  "backup_needs (QDocker (DkStart c)) ks" "backup_needs (QSleep m) ks"
  by (simp_all add: backup_needs_def)

definition backed_up :: "lifecycle_error + unit \<Rightarrow> token set \<Rightarrow> bool" where
  "backed_up r ks \<longleftrightarrow> (r = Inr () \<longrightarrow> (\<exists>p. BackedUp p \<in> ks))"

lemma wp_backup: "wp backup_needs backup_gives (backup path) backed_up ks"
proof -
  have chunks: "wp backup_needs backup_gives (write_chunks tmp cs) (\<lambda>_ _. True) js" for tmp cs js
    by (induction cs arbitrary: js) (auto simp: backup_quiet split: sum.split)
  have finish: "wp backup_needs backup_gives (backup_finish f tmp i) backed_up js"
    if "DumpExec i \<in> js" for f tmp i js
    using that
    by (auto simp: backup_finish_def backup_quiet fits_all backed_up_def backup_needs_def backup_gives_def split: sum.split)
  have dump: "wp backup_needs backup_gives (dump_to tmp i) (\<lambda>_ _. True) js" for tmp i js
    by (auto simp: dump_to_def backup_quiet fits_all chunks split: exec_start.split)
  have inner: "wp backup_needs backup_gives (backup_inner f tmp) backed_up js" for f tmp js
    unfolding backup_inner_def
    by (auto simp: lifecycle_connect_def verify_ownership_def backup_quiet fits_all backed_up_def
        backup_gives_def intro!: wp_follow [OF dump] finish split: option.split sum.split)
  show ?thesis
    unfolding backup_def Let_def wp_cbind
    by (rule wp_cancellable) (auto simp: backup_quiet backup_gives_def backed_up_def inner intro!: wp_follow [OF inner])
qed

lemma wp_upgrade: "wp backup_needs backup_gives (upgrade tag inst) backed_up ks"
proof -
  have verify: "wp backup_needs backup_gives (verify_attempts as) (\<lambda>_ _. True) js" for as js
  proof (induction as arbitrary: js)
    case (Cons a as)
    then show ?case by (auto simp: backup_quiet fits_all Let_def split: exec_start.split)
  qed simp
  have fresh: "wp backup_needs backup_gives (recreate_container_with_image tag) (\<lambda>_ _. True) js" for js
    by (auto simp: recreate_container_with_image_def start_it_def backup_quiet split: sum.split)
  have "wp backup_needs backup_gives (upgrade_replace tag bp) backed_up js" for bp js
    unfolding upgrade_replace_def wp_tbind
    by (rule wp_follow [OF wp_backup])
      (auto simp: backed_up_def backup_needs_def pull_image_def lifecycle_connect_def
        verify_post_upgrade_connectivity_def intro!: wp_follow [OF fresh] wp_follow [OF verify] split: sum.split, blast+)
  then show ?thesis
    by (auto simp: upgrade_def pre_upgrade_backup_path_def lifecycle_connect_def verify_ownership_def backup_quiet
        fits_all backed_up_def split: sum.split option.split)
qed


section \<open>What an upgrade leaves behind\<close>

lemma lawful_asked: "lawful n g ks tr \<Longrightarrow> (q, r) \<in> set tr \<Longrightarrow> \<exists>js. n q js"
  by (induction tr arbitrary: ks) auto

lemma tokens_given: "k \<in> tokens g tr \<longleftrightarrow> (\<exists>q r. (q, r) \<in> set tr \<and> k \<in> g q r)"
proof (induction tr)
  case (Cons x tr)
  then show ?case by (cases x) (simp, blast)
qed simp

definition port_needs :: "unit needs" where
  "port_needs q ks =
     (case q of QDocker c \<Rightarrow> (case c of DkCreateContainer n cfg \<Rightarrow> cc_port_bindings cfg = None | _ \<Rightarrow> True) | _ \<Rightarrow> True)"

definition port_gives :: "unit gives" where
  "port_gives q r =
     (case q of QDocker c \<Rightarrow> (case c of DkCreateContainer n cfg \<Rightarrow>
        if n = container_name \<and> r = RUnit None then {()} else {} | _ \<Rightarrow> {}) | _ \<Rightarrow> {})"

lemma port_quiet:
  "\<forall>n cfg. q \<noteq> QDocker (DkCreateContainer n cfg) \<Longrightarrow> port_needs q ks"
  by (auto simp: port_needs_def split: question.split docker_call.split)

lemma port_given:
  "u \<in> port_gives q r \<longleftrightarrow> (\<exists>cfg. q = QDocker (DkCreateContainer container_name cfg)) \<and> r = RUnit None"
proof (cases q)
  case (QDocker c)
  then show ?thesis by (cases c) (simp_all add: port_gives_def)
qed (simp_all add: port_gives_def)

interpretation port: docker_policy port_needs port_gives
  by unfold_locales (auto simp: port_quiet port_gives_def)

lemma port_upgrade: "wp port_needs port_gives (upgrade tag inst) (\<lambda>r ks. r = Inr () \<longrightarrow> () \<in> ks) ks"
proof -
  have fresh: "wp port_needs port_gives (recreate_container_with_image tag) (\<lambda>r ks. r = Inr () \<longrightarrow> () \<in> ks) js" for js
    by (auto simp: recreate_container_with_image_def start_it_def port_quiet upgraded_container_def port_needs_def
        port_gives_def split: sum.split)
  have "wp port_needs port_gives (upgrade_replace tag bp) (\<lambda>r ks. r = Inr () \<longrightarrow> () \<in> ks) js" for bp js
    unfolding upgrade_replace_def wp_tbind
    by (rule wp_follow [OF port.backup])
      (auto simp: port_quiet pull_image_def lifecycle_connect_def
        verify_post_upgrade_connectivity_def intro!: wp_follow [OF fresh] wp_follow [OF port.verify] split: sum.split)
  then show ?thesis
    by (auto simp: upgrade_def pre_upgrade_backup_path_def lifecycle_connect_def verify_ownership_def port_quiet
        fits_all split: sum.split option.split)
qed

lemma port_digits: "nat_str 5432 = ''5432''"
  by (simp add: nat_str_def nat_str_acc.simps char_of_def bit_Suc_0_iff)

text \<open>
  An upgrade takes the database off the host. A run that reports success has created the
  container again, and no container it creates publishes a port; the plan of a default
  installation publishes port 5432 on the loopback address and puts that address in the DSN.
\<close>

theorem upgrade_drops_port:
  "(replay tr (upgrade tag inst) = Some (Inr ()) \<longrightarrow>
     (\<exists>cfg. (QDocker (DkCreateContainer container_name cfg), RUnit None) \<in> set tr) \<and>
     (\<forall>n cfg r. (QDocker (DkCreateContainer n cfg), r) \<in> set tr \<longrightarrow> cc_port_bindings cfg = None)) \<and>
   (replay tr (plan True False env) = Some (Inr pl) \<longrightarrow>
     mp_dsn pl = ''postgres://adapter_connector:'' @ mp_password pl @ ''@127.0.0.1:5432/agent_connector'' \<and>
     cc_port_bindings (new_container pl) = Some [(''5432/tcp'', [(''127.0.0.1'', ''5432'')])])"
proof -
  have "cc_port_bindings cfg = None" if "lawful port_needs port_gives {} tr"
    "(QDocker (DkCreateContainer n cfg), r) \<in> set tr" for n cfg r
    using lawful_asked [OF that] by (auto simp: port_needs_def)
  moreover have "\<exists>cfg. (QDocker (DkCreateContainer container_name cfg), RUnit None) \<in> set tr"
    if "() \<in> tokens port_gives tr"
    using that by (auto simp: tokens_given port_given)
  moreover have "mp_dsn pl = ''postgres://adapter_connector:'' @ mp_password pl @ ''@127.0.0.1:5432/agent_connector'' \<and>
     cc_port_bindings (new_container pl) = Some [(''5432/tcp'', [(''127.0.0.1'', ''5432'')])]"
    if "replay tr (plan True False env) = Some (Inr pl)"
    using that
    by (auto simp: plan_def generate_secure_password_def new_container_def port_digits replay_ask replay_ret)
  ultimately show ?thesis
    using wp_sound [OF port_upgrade, where ks = "{}" and tr = tr and a = "Inr ()"] by auto
qed

text \<open>A successful upgrade, question by question.\<close>

definition unsignalled :: "trace \<Rightarrow> trace" where
  "unsignalled tr = concat (map (\<lambda>x. [(QSignal, RBool False), x]) tr) @ [(QSignal, RBool False)]"

definition own_info :: container_info where
  "own_info = \<lparr>ci_labels = Some [ownership_label], ci_running = Some True\<rparr>"

definition demo_backup :: "string \<Rightarrow> trace" where
  "demo_backup path = unsignalled
     [(QDocker DkConnect, RUnit None), (QInspectContainer container_name, RContainer (Some own_info)),
      (QFs (FsCreateDirAll ''/opt/data''), RUnit None), (QCreateExec container_name pg_dump, RText (Inr ''x'')),
      (QFs (FsCreate (path @ ''.tmp'')), RUnit None), (QStartExec ''x'', RStart (Attached [Inr (False, ''d'')])),
      (QFs (FsAppend (path @ ''.tmp'') ''d''), RUnit None), (QFs (FsFlush (path @ ''.tmp'')), RUnit None),
      (QInspectExec ''x'', RExit (Inr (Some 0))), (QLen (path @ ''.tmp''), RLen (Inr 2)),
      (QFs (FsRename (path @ ''.tmp'') path), RUnit None)]"

definition demo_upgrade :: trace where
  "demo_upgrade =
     [(QDocker DkConnect, RUnit None), (QInspectContainer container_name, RContainer (Some own_info)),
      (QTimestamp, RText (Inr ''t''))] @ demo_backup ''/opt/data/pre-upgrade-backup-t.sql'' @
     [(QDocker (DkStop container_name), RUnit None), (QDocker (DkRemoveContainer container_name), RUnit None),
      (QDocker (DkPull ''postgres:17''), RUnit None),
      (QDocker (DkCreateContainer container_name (upgraded_container ''postgres:17'')), RUnit None),
      (QDocker (DkStart container_name), RUnit None), (QDocker DkConnect, RUnit None),
      (QCreateExec container_name pg_isready, RText (Inr ''y'')), (QStartExec ''y'', RStart Detached),
      (QInspectExec ''y'', RExit (Inr (Some 0)))]"

lemma replay_tbind: "replay tr1 p = Some (Inr a) \<Longrightarrow> replay (tr1 @ tr2) (tbind p f) = replay tr2 (f a)"
  unfolding tbind_def
proof (induction p arbitrary: tr1)
  case (Ask q k)
  then obtain r tr' where tr: "tr1 = (q, r) # tr'" "fits q r" "replay tr' (k r) = Some (Inr a)"
    by (auto simp: replay_ask)
  with Ask.IH [OF rangeI tr(3)] show ?case by simp
qed (simp add: replay_ret)

lemma unsignalled_Cons: "unsignalled (x # tr) = (QSignal, RBool False) # x # unsignalled tr"
  by (simp add: unsignalled_def)

lemma replay_cancellable: "replay tr p = Some a \<Longrightarrow> replay (unsignalled tr) (cancellable p) = Some (Some a)"
proof (induction p arbitrary: tr)
  case (Ret x)
  then show ?case by (auto simp: replay_ret unsignalled_def fits_def)
next
  case (Ask q k)
  then obtain r tr' where tr: "tr = (q, r) # tr'" "fits q r" "replay tr' (k r) = Some a"
    by (auto simp: replay_ask)
  with Ask.IH [OF rangeI tr(3)] show ?case by (simp add: unsignalled_Cons fits_def)
qed

lemma replay_act: "asked_kind q = KUnit \<Longrightarrow> replay ((q, RUnit None) # tr) (tbind (act h q) f) = replay tr (f ())"
  by (simp add: act_def tbind_def fits_def)

lemma replay_text: "asked_kind q = KText \<Longrightarrow> replay ((q, RText (Inr t)) # tr) (tbind (ask_text h q) f) = replay tr (f t)"
  by (simp add: ask_text_def tbind_def fits_def)

lemma replay_owned:
  "replay ((QInspectContainer container_name, RContainer (Some own_info)) # tr) (tbind verify_ownership f) = replay tr (f ())"
  by (simp add: verify_ownership_def tbind_def own_info_def opt_label_def has_label_def fits_def)

lemma replay_dump:
  "replay ((QStartExec i, RStart (Attached [Inr (b, d)])) # (QFs (FsAppend tmp d), RUnit None) # tr) (tbind (dump_to tmp i) f) =
     replay tr (f ())"
  by (simp add: dump_to_def act_def tbind_def fits_def)

lemma replay_recreate:
  "replay ((QDocker (DkCreateContainer container_name (upgraded_container tag)), RUnit None) #
       (QDocker (DkStart container_name), RUnit None) # tr) (tbind (recreate_container_with_image tag) f) = replay tr (f ())"
  by (simp add: recreate_container_with_image_def start_it_def act_def tbind_def fits_def)

lemma replay_finish:
  "replay [(QInspectExec i, RExit (Inr (Some 0))), (QLen tmp, RLen (Inr 2)), (QFs (FsRename tmp f), RUnit None)]
     (backup_finish f tmp i) = Some (Inr ())"
  by (simp add: backup_finish_def act_def fits_def)

lemma replay_cbind: "replay tr p = Some a \<Longrightarrow> replay tr (cbind p g) = replay [] (g a)"
proof (induction p arbitrary: tr)
  case (Ask q k)
  then obtain r tr' where tr: "tr = (q, r) # tr'" "fits q r" "replay tr' (k r) = Some a" by (auto simp: replay_ask)
  with Ask.IH [OF rangeI tr(3)] show ?case by simp
qed (simp add: replay_ret)

lemma demo_backup_run:
  "replay (demo_backup ''/opt/data/pre-upgrade-backup-t.sql'') (backup ''/opt/data/pre-upgrade-backup-t.sql'') = Some (Inr ())"
proof -
  have inner: "replay [(QDocker DkConnect, RUnit None), (QInspectContainer container_name, RContainer (Some own_info)),
      (QFs (FsCreateDirAll ''/opt/data''), RUnit None), (QCreateExec container_name pg_dump, RText (Inr ''x'')),
      (QFs (FsCreate tmp), RUnit None), (QStartExec ''x'', RStart (Attached [Inr (False, ''d'')])),
      (QFs (FsAppend tmp ''d''), RUnit None), (QFs (FsFlush tmp), RUnit None),
      (QInspectExec ''x'', RExit (Inr (Some 0))), (QLen tmp, RLen (Inr 2)),
      (QFs (FsRename tmp f), RUnit None)] (backup_inner f tmp) = Some (Inr ())" if "path_parent f = Some ''/opt/data''" for f tmp
    using that
    by (simp add: backup_inner_def lifecycle_connect_def replay_act replay_owned replay_text replay_dump replay_finish)
  have "replay (demo_backup f) (backup f) = Some (Inr ())" if "path_parent f = Some ''/opt/data''" for f
    unfolding demo_backup_def backup_def tmp_path_for_def Let_def
    by (subst replay_cbind [OF replay_cancellable [OF inner [OF that]]]) simp
  then show ?thesis by (simp add: path_parent_def)
qed

lemma demo_upgrade_run: "replay demo_upgrade (upgrade ''postgres:17'' ''/opt'') = Some (Inr ())"
proof -
  let ?f = "''/opt/data/pre-upgrade-backup-t.sql''"
  let ?first = "[(QDocker DkConnect, RUnit None), (QInspectContainer container_name, RContainer (Some own_info)),
      (QTimestamp, RText (Inr ''t''))]"
  have ready: "replay [(QCreateExec container_name pg_isready, RText (Inr ''y'')), (QStartExec ''y'', RStart Detached),
      (QInspectExec ''y'', RExit (Inr (Some 0)))] (verify_attempts (a # as)) = Some (Inr ())" for a as
    by (simp add: ask_text_def tbind_def fits_def)
  have range: "[1..<31] = 1 # [2..<31]" by (simp add: upt_rec)
  have "replay (?first @ tr) (upgrade ''postgres:17'' ''/opt'') = replay tr (upgrade_replace ''postgres:17'' ?f)" for tr
    by (simp add: upgrade_def lifecycle_connect_def replay_act replay_owned)
      (simp add: pre_upgrade_backup_path_def tbind_def fits_def join_path_def)
  then show ?thesis
    unfolding demo_upgrade_def upgrade_replace_def pull_image_def
      verify_post_upgrade_connectivity_def lifecycle_connect_def range
    by (simp only: replay_tbind [OF demo_backup_run])
      (simp add: replay_act replay_recreate ready del: verify_attempts.simps)
qed

theorem docker_only_owned_witness:
  "replay demo_upgrade (upgrade ''postgres:17'' ''/opt'') = Some (Inr ()) \<and> lawful owner_needs owner_gives {} demo_upgrade"
  using docker_only_owned demo_upgrade_run by blast


theorem upgrade_drops_port_witness:
  "(QDocker (DkCreateContainer container_name (upgraded_container ''postgres:17'')), RUnit None) \<in> set demo_upgrade \<and>
   cc_port_bindings (upgraded_container ''postgres:17'') = None"
proof -
  have "(QDocker (DkCreateContainer container_name (upgraded_container ''postgres:17'')), RUnit None) \<in> set demo_upgrade"
    by (simp add: demo_upgrade_def)
  then show ?thesis using upgrade_drops_port demo_upgrade_run by blast
qed

text \<open>The check of the image tag looks for a colon only: the moving tag passes with its image's name.\<close>

lemma upgrade_accepts_latest:
  "replay [(QDocker DkConnect, RUnit (Some e))] (upgrade ''postgres:latest'' inst) = Some (Inl (LeDocker e))"
  by (simp add: upgrade_def lifecycle_connect_def act_def tbind_def fits_def)

text \<open>The old container is gone before the new image is pulled, so a tag that does not exist
  leaves the installation without one.\<close>

lemma upgrade_pull_fails:
  "replay (demo_backup ''/opt/data/pre-upgrade-backup-t.sql'' @
       [(QDocker (DkStop container_name), RUnit None), (QDocker (DkRemoveContainer container_name), RUnit None),
        (QDocker (DkPull tag), RUnit (Some e))]) (upgrade_replace tag ''/opt/data/pre-upgrade-backup-t.sql'') =
     Some (Inl (LeDocker (''image pull failed: '' @ e)))"
  unfolding upgrade_replace_def
  by (simp only: replay_tbind [OF demo_backup_run]) (simp add: replay_act pull_image_def, simp add: act_def tbind_def fits_def)

text \<open>A second installation finds the container of the first and asks nothing more, so the
  password of its plan reaches the configuration but not the database.\<close>

lemma reinstall_keeps_password:
  "replay [(QInspectContainer container_name, RContainer (Some own_info))] (ensure_container p) = Some (Inr ())"
  by (simp add: ensure_container_def own_info_def opt_label_def has_label_def fits_def)

text \<open>An interrupt that comes right after the rename reports that no backup was produced.\<close>

definition late_signal :: "trace \<Rightarrow> trace" where
  "late_signal tr = concat (map (\<lambda>x. [(QSignal, RBool False), x]) tr) @ [(QSignal, RBool True)]"

lemma backup_interrupted_after_success:
  assumes "replay tr (backup_inner path (tmp_path_for path)) = Some (Inr ())"
  shows "replay (late_signal tr @ [(QFs (FsRemove (tmp_path_for path)), RUnit None)]) (backup path) =
    Some (Inl (LeInterrupted path))"
proof -
  have late: "replay (late_signal tr @ tr') (cbind (cancellable p) f) = replay tr' (f None)"
    if "replay tr p = Some a" for tr tr' a and p :: "(lifecycle_error + unit) ctl" and f :: "(lifecycle_error + unit) option \<Rightarrow> (lifecycle_error + unit) ctl"
    using that
  proof (induction p arbitrary: tr)
    case (Ask q k)
    then obtain r tr2 where tr: "tr = (q, r) # tr2" "fits q r" "replay tr2 (k r) = Some a" by (auto simp: replay_ask)
    with Ask.IH [OF rangeI tr(3)] show ?case by (simp add: late_signal_def fits_def)
  qed (auto simp: replay_ret late_signal_def fits_def)
  show ?thesis
    unfolding backup_def Let_def late [OF assms] by (simp add: act_ok_def tbind_def fits_def)
qed

text \<open>Waiting for the database takes at most thirty rounds and sleeps 127.5 seconds at most.\<close>

definition sleep_ms :: "question \<Rightarrow> nat" where
  "sleep_ms q = (case q of QSleep ms \<Rightarrow> ms | _ \<Rightarrow> 0)"

primrec sleeps_within :: "'a ctl \<Rightarrow> nat \<Rightarrow> bool" where
  "sleeps_within (Ret a) m = True"
| "sleeps_within (Ask q k) m = (sleep_ms q \<le> m \<and> (\<forall>r. fits q r \<longrightarrow> sleeps_within (k r) (m - sleep_ms q)))"

lemma sleeps_within_sound: "sleeps_within p m \<Longrightarrow> replay tr p = Some a \<Longrightarrow> (\<Sum>x\<leftarrow>tr. sleep_ms (fst x)) \<le> m"
proof (induction p arbitrary: tr m)
  case (Ask q k)
  then obtain r tr' where tr: "tr = (q, r) # tr'" "fits q r" "replay tr' (k r) = Some a" by (auto simp: replay_ask)
  with Ask.prems(1) Ask.IH [OF rangeI, of r "m - sleep_ms q" tr'] show ?case by auto
qed (auto simp: replay_ret)

lemma wait_sleeps: "sleeps_within (wait_for_ready as) (\<Sum>a\<leftarrow>as. 500 * min a 10)"
proof (induction as)
  case (Cons a as)
  then show ?case
    by (auto simp: ask_text_def tbind_def fits_all Let_def sleep_ms_def split: sum.split exec_start.split)
qed simp

lemma wait_bounded:
  assumes "replay tr (wait_for_ready [1..<31]) = Some r"
  shows "(\<Sum>x\<leftarrow>tr. sleep_ms (fst x)) \<le> 127500"
proof -
  have "(\<Sum>a\<leftarrow>[1..<31]. 500 * min a 10) = (127500 :: nat)" by (simp add: upt_rec)
  then show ?thesis using sleeps_within_sound [OF wait_sleeps assms] by simp
qed

text \<open>A password has forty characters of the alphabet. Three of them have a meaning in a URL, and
  the DSN takes the password as it is.\<close>

lemma password_shape:
  assumes "replay tr generate_secure_password = Some w"
  shows "length w = 40 \<and> set w \<subseteq> set password_chars"
proof -
  have "0 < length password_chars" by (simp add: password_chars_def)
  then have "password_chars ! (i mod length password_chars) \<in> set password_chars" for i by simp
  with assms show ?thesis by (auto simp: generate_secure_password_def replay_ask replay_ret)
qed

lemma password_not_escaped:
  "\<exists>tr pl. replay tr (plan True False env) = Some (Inr pl) \<and> mp_password pl = replicate 40 (CHR ''@'') \<and>
     mp_dsn pl = ''postgres://adapter_connector:'' @ replicate 40 (CHR ''@'') @ ''@127.0.0.1:5432/agent_connector''"
proof -
  let ?tr = "[(QRandom 40, RIndices (replicate 40 63))]"
  have "map (\<lambda>j. password_chars ! ((if j < length (replicate 40 (63 :: nat)) then replicate 40 63 ! j else 0) mod length password_chars)) [0..<40] =
      replicate 40 (CHR ''@'')"
    by (rule nth_equalityI) (simp_all add: password_chars_def)
  then have run: "\<exists>pl. replay ?tr (plan True False env) = Some (Inr pl) \<and> mp_password pl = replicate 40 (CHR ''@'')"
    by (simp add: plan_def generate_secure_password_def fits_def)
  then obtain pl where pl: "replay ?tr (plan True False env) = Some (Inr pl)" "mp_password pl = replicate 40 (CHR ''@'')" by blast
  moreover have "mp_dsn pl = ''postgres://adapter_connector:'' @ mp_password pl @ ''@127.0.0.1:5432/agent_connector''"
    using pl(1) by (auto simp: plan_def generate_secure_password_def fits_def port_digits)
  ultimately show ?thesis by auto
qed

end
