(* ===== verification/Adapterctl.thy ===== *)
theory Adapterctl
  imports Ctl_Host
begin

text \<open>
  The crate \<open>adapterctl\<close>, second part: the command line (\<open>main.rs\<close>), the template of
  the agents (\<open>config_template.rs\<close>), the service managers of the three platforms
  (\<open>platform/\<close>) and the installation (\<open>install_flow.rs\<close>), as programs over the
  questions of the theory \<open>Ctl_Host\<close>. Paths and texts are byte strings; what is printed
  to the terminal is left out, except the summary that \<open>run_install\<close> returns. YAML (the
  crate \<open>serde_yaml\<close>) is the record \<open>formats\<close>.
\<close>

section \<open>The command line\<close>

datatype storage_choice = Sqlite | ExistingPostgres | ManagedDockerPostgres | ExternalManagedPostgres

record install_args =
  ia_prefix :: string
  ia_user :: string
  ia_storage :: "storage_choice option"
  ia_postgres_dsn :: "string option"
  ia_confirm_docker :: bool
  ia_docker_network_only :: bool
  ia_config :: "string option"
  ia_skip_build :: bool
  ia_start_now :: bool

datatype command =
    CmdInstall install_args
  | CmdUninstall string bool
  | CmdStart
  | CmdStop
  | CmdRestart
  | CmdBackupPostgres string
  | CmdUpgradePostgres string string
  | CmdHelp

definition default_prefix :: string where
  "default_prefix = ''/opt/agent-connector''"

definition default_user :: string where
  "default_user = ''adapterd''"

definition quoted :: "string \<Rightarrow> string" where
  "quoted s = [CHR 0x27] @ s @ [CHR 0x27]"

definition parse_storage :: "string \<Rightarrow> string + storage_choice" where
  "parse_storage s =
     (if s = ''sqlite'' then Inr Sqlite
      else if s = ''existing-postgres'' \<or> s = ''postgres'' then Inr ExistingPostgres
      else if s = ''managed-docker-postgres'' \<or> s = ''docker'' then Inr ManagedDockerPostgres
      else if s = ''external-managed'' then Inr ExternalManagedPostgres
      else Inl (''unknown storage '' @ quoted s @ '' '' @ dash @
        '' expected one of: sqlite, existing-postgres, managed-docker-postgres, external-managed''))"

definition install_args_default :: install_args where
  "install_args_default =
     \<lparr>ia_prefix = default_prefix, ia_user = default_user, ia_storage = None, ia_postgres_dsn = None,
      ia_confirm_docker = False, ia_docker_network_only = False, ia_config = None, ia_skip_build = False,
      ia_start_now = False\<rparr>"

text \<open>The value of a flag is the next argument, whatever it is.\<close>

definition flag_value :: "string \<Rightarrow> string list \<Rightarrow> string + string" where
  "flag_value flag args = (case args of [] \<Rightarrow> Inl (flag @ '' requires a value'') | v # _ \<Rightarrow> Inr v)"

definition install_flag :: "string \<Rightarrow> string list \<Rightarrow> install_args \<Rightarrow> string + install_args \<times> nat" where
  "install_flag flag args a =
     (if flag = ''--prefix'' then rbind (flag_value flag args) (\<lambda>v. Inr (a\<lparr>ia_prefix := v\<rparr>, 1))
      else if flag = ''--user'' then rbind (flag_value flag args) (\<lambda>v. Inr (a\<lparr>ia_user := v\<rparr>, 1))
      else if flag = ''--storage''
      then rbind (flag_value flag args) (\<lambda>v. rbind (parse_storage v) (\<lambda>c. Inr (a\<lparr>ia_storage := Some c\<rparr>, 1)))
      else if flag = ''--postgres-dsn'' then rbind (flag_value flag args) (\<lambda>v. Inr (a\<lparr>ia_postgres_dsn := Some v\<rparr>, 1))
      else if flag = ''--confirm-docker'' then Inr (a\<lparr>ia_confirm_docker := True\<rparr>, 0)
      else if flag = ''--docker-network-only'' then Inr (a\<lparr>ia_docker_network_only := True\<rparr>, 0)
      else if flag = ''--config'' then rbind (flag_value flag args) (\<lambda>v. Inr (a\<lparr>ia_config := Some v\<rparr>, 1))
      else if flag = ''--skip-build'' then Inr (a\<lparr>ia_skip_build := True\<rparr>, 0)
      else if flag = ''--start-now'' then Inr (a\<lparr>ia_start_now := True\<rparr>, 0)
      else Inl (''unknown install flag: '' @ flag))"

text \<open>The loop over the remaining arguments; the number says how many a flag has used up.\<close>

function parse_flags :: "(string \<Rightarrow> string list \<Rightarrow> 'o \<Rightarrow> string + 'o \<times> nat) \<Rightarrow> string list \<Rightarrow> 'o \<Rightarrow> string + 'o" where
  "parse_flags fl [] a = Inr a"
| "parse_flags fl (flag # args) a =
     (case fl flag args a of Inl e \<Rightarrow> Inl e | Inr (a', used) \<Rightarrow> parse_flags fl (drop used args) a')"
  by pat_completeness auto
termination by (relation "measure (\<lambda>(fl, args, a). length args)") auto

definition uninstall_flag :: "string \<Rightarrow> string list \<Rightarrow> string \<times> bool \<Rightarrow> string + (string \<times> bool) \<times> nat" where
  "uninstall_flag flag args a =
     (if flag = ''--prefix'' then rbind (flag_value flag args) (\<lambda>v. Inr ((v, snd a), 1))
      else if flag = ''--purge-data'' then Inr ((fst a, True), 0)
      else Inl (''unknown uninstall flag: '' @ flag))"

definition upgrade_flag :: "string \<Rightarrow> string list \<Rightarrow> string \<Rightarrow> string + string \<times> nat" where
  "upgrade_flag flag args a =
     (if flag = ''--prefix'' then rbind (flag_value flag args) (\<lambda>v. Inr (v, 1))
      else Inl (''unknown upgrade-postgres flag: '' @ flag))"

definition parse_args :: "string list \<Rightarrow> string + command" where
  "parse_args all =
     (case all of
        [] \<Rightarrow> Inr CmdHelp
      | sub # args \<Rightarrow>
          if sub = ''install'' then rbind (parse_flags install_flag args install_args_default) (\<lambda>a. Inr (CmdInstall a))
          else if sub = ''uninstall''
          then rbind (parse_flags uninstall_flag args (default_prefix, False)) (\<lambda>a. Inr (CmdUninstall (fst a) (snd a)))
          else if sub = ''start'' then Inr CmdStart
          else if sub = ''stop'' then Inr CmdStop
          else if sub = ''restart'' then Inr CmdRestart
          else if sub = ''backup-postgres''
          then Inr (CmdBackupPostgres (case args of [] \<Rightarrow> ''agent-connector-backup.sql'' | output # _ \<Rightarrow> output))
          else if sub = ''upgrade-postgres''
          then (case args of
                  [] \<Rightarrow> Inl ''usage: adapterctl upgrade-postgres <image-tag> [--prefix PATH]''
                | tag # rest \<Rightarrow> rbind (parse_flags upgrade_flag rest default_prefix) (\<lambda>p. Inr (CmdUpgradePostgres tag p)))
          else if sub = ''help'' \<or> sub = ''--help'' \<or> sub = ''-h'' then Inr CmdHelp
          else Inl (''unknown command '' @ quoted sub @ '' '' @ dash @ '' use '' @ quoted ''adapterctl help''))"

section \<open>The template of the agents\<close>

datatype template_error =
    TeNotFound string
  | TeIo string
  | TeInvalidYaml string
  | TeNoAgents
  | TeUnverifiableStdioCommand string string

fun template_text :: "template_error \<Rightarrow> string" where
  "template_text (TeNotFound p) = ''template file not found: '' @ p"
| "template_text (TeIo e) = ''failed to read template: '' @ e"
| "template_text (TeInvalidYaml e) = ''template is not valid YAML for adapter.yaml: '' @ e"
| "template_text TeNoAgents = ''template has no agents defined '' @ dash @ '' at least one agent is required''"
| "template_text (TeUnverifiableStdioCommand a c) =
     ''stdio agent '' @ quoted a @ '' references command '' @ quoted c @
     '' which is not on PATH and is not an absolute existing file '' @ dash @ '' installer cannot verify it will run''"

primrec any_file :: "string \<Rightarrow> string list \<Rightarrow> ('e + bool) ctl" where
  "any_file command [] = Ret (Inr False)"
| "any_file command (dir # dirs) =
     tbind (ask_bool (QIsFile (join_path dir command))) (\<lambda>found.
       if found then Ret (Inr True) else any_file command dirs)"

definition is_absolute :: "string \<Rightarrow> bool" where
  "is_absolute p = starts_with p ''/''"

definition command_is_resolvable :: "string \<Rightarrow> ('e + bool) ctl" where
  "command_is_resolvable command =
     (if is_absolute command then ask_bool (QExists command)
      else Ask QPathDirs (\<lambda>r. case r of RDirs (Some dirs) \<Rightarrow> any_file command dirs | _ \<Rightarrow> Ret (Inr False)))"

primrec validate_agents_runnable :: "agent_config list \<Rightarrow> (template_error + unit) ctl" where
  "validate_agents_runnable [] = Ret (Inr ())"
| "validate_agents_runnable (agent # agents) =
     (case ag_transport agent of
        TrStdio command args cwd env \<Rightarrow>
          tbind (command_is_resolvable command) (\<lambda>ok.
            if ok then validate_agents_runnable agents
            else Ret (Inl (TeUnverifiableStdioCommand (ag_id agent) command)))
      | _ \<Rightarrow> validate_agents_runnable agents)"

text \<open>\<open>load\<close>; paths are those of a Unix host. \<open>yaml\<close> reads a configuration as the daemon does.\<close>

definition template_load :: "(string \<Rightarrow> string + config) \<Rightarrow> string option \<Rightarrow> string \<Rightarrow> (template_error + agent_config list) ctl" where
  "template_load yaml explicit_path repo_root =
     (let path = (case explicit_path of Some p \<Rightarrow> p | None \<Rightarrow> join_path repo_root ''config/adapter.example.yaml'') in
      tbind (ask_bool (QExists path)) (\<lambda>found.
      if \<not> found then Ret (Inl (TeNotFound path))
      else tbind (ask_text TeIo (QReadFile path)) (\<lambda>doc.
        case yaml doc of
          Inl e \<Rightarrow> Ret (Inl (TeInvalidYaml e))
        | Inr full_config \<Rightarrow>
            if cf_agents full_config = [] then Ret (Inl TeNoAgents)
            else tbind (validate_agents_runnable (cf_agents full_config)) (\<lambda>_. Ret (Inr (cf_agents full_config))))))"

section \<open>Service managers\<close>

datatype platform_error =
    PeUnprivileged string
  | PeCommandFailed string
  | PeUnsupported string

record service_context =
  sc_binary_path :: string
  sc_config_path :: string
  sc_env_file_path :: string
  sc_working_directory :: string
  sc_data_directory :: string
  sc_user :: string

record formats =
  fm_parse :: "string \<Rightarrow> string + config"
  fm_print :: "json \<Rightarrow> string + string"
  fm_agents :: "agent_config list \<Rightarrow> string + json"

definition run_checked :: "string \<Rightarrow> string list \<Rightarrow> string \<Rightarrow> (platform_error + unit) ctl" where
  "run_checked cmd args err_context = Ask (QSpawn cmd args None) (\<lambda>r. Ret (case r of
     RSpawn (SpawnFailed e) \<Rightarrow> Inl (PeCommandFailed (err_context @ '': failed to spawn '' @ cmd @ '': '' @ e))
   | RSpawn (Exited fine status out err) \<Rightarrow>
       if fine then Inr ()
       else Inl (PeCommandFailed (err_context @ '': '' @ cmd @ '' exited with '' @ status @ '' '' @ dash @ '' '' @
         from_utf8_lossy err))
   | _ \<Rightarrow> Inr ()))"

text \<open>A process whose outcome is not looked at.\<close>

definition run_ignored :: "string \<Rightarrow> string list \<Rightarrow> ('e + unit) ctl" where
  "run_ignored cmd args = act_ok (QSpawn cmd args None)"

definition root_message :: "os \<Rightarrow> string" where
  "root_message os =
     (if os = MacOs then ''adapterctl must be run with sudo on macOS for dscl/launchctl/chown operations''
      else ''adapterctl must be run as root (sudo adapterctl ...) for systemd/useradd/chown operations'')"

definition require_root :: "os \<Rightarrow> (platform_error + unit) ctl" where
  "require_root os = Ask QEuid (\<lambda>r. Ret (case r of
     RNat uid \<Rightarrow> if uid \<noteq> 0 then Inl (PeUnprivileged (root_message os)) else Inr ()
   | _ \<Rightarrow> Inr ()))"

definition require_admin :: "(platform_error + unit) ctl" where
  "require_admin = Ask (QSpawn ''net'' [''session''] None) (\<lambda>r. Ret (case r of
     RSpawn (Exited True status out err) \<Rightarrow> Inr ()
   | _ \<Rightarrow> Inl (PeUnprivileged ''adapterctl must be run from an elevated (Administrator) PowerShell/cmd prompt'')))"

subsection \<open>systemd\<close>

definition unit_name :: string where
  "unit_name = ''adapterd.service''"

definition unit_dest :: string where
  "unit_dest = ''/etc/systemd/system/adapterd.service''"

text \<open>\<open>str::replace\<close> with a pattern that is not empty.\<close>

function str_replace :: "string \<Rightarrow> string \<Rightarrow> string \<Rightarrow> string" where
  "str_replace pat new s =
     (if s = [] then []
      else if pat \<noteq> [] \<and> starts_with s pat then new @ str_replace pat new (drop (length pat) s)
      else hd s # str_replace pat new (tl s))"
  by pat_completeness auto
termination
  by (relation "measure (\<lambda>(pat, new, s). length s)") auto

declare str_replace.simps [simp del]

definition render_unit_line :: "string \<Rightarrow> string \<Rightarrow> string" where
  "render_unit_line new_user line =
     (if starts_with line ''User='' then ''User='' @ new_user
      else if starts_with line ''Group='' then ''Group='' @ new_user else line)"

definition join_lines :: "string list \<Rightarrow> string" where
  "join_lines ls = concat (map (\<lambda>l. l @ [CHR 0x0A]) (butlast ls)) @ (if ls = [] then [] else last ls)"

definition render_unit_with_substitutions :: "string \<Rightarrow> string \<Rightarrow> string \<Rightarrow> string" where
  "render_unit_with_substitutions raw new_prefix new_user =
     join_lines (map (render_unit_line new_user) (lines_of (str_replace default_prefix new_prefix raw))) @ [CHR 0x0A]"

definition linux_ensure_service_user :: "string \<Rightarrow> (platform_error + unit) ctl" where
  "linux_ensure_service_user name = Ask (QSpawn ''id'' [name] None) (\<lambda>r. case r of
     RSpawn (Exited True status out err) \<Rightarrow> Ret (Inr ())
   | _ \<Rightarrow> Ask (QSpawn ''useradd'' [''--system'', ''--no-create-home'', ''--shell'', ''/usr/sbin/nologin'', name] None)
       (\<lambda>r. Ret (case r of
          RSpawn (SpawnFailed e) \<Rightarrow> Inl (PeCommandFailed (''useradd spawn failed: '' @ e))
        | RSpawn (Exited fine status out err) \<Rightarrow>
            if fine then Inr () else Inl (PeCommandFailed (''useradd exited with '' @ status))
        | _ \<Rightarrow> Inr ())))"

definition linux_register_service :: "service_context \<Rightarrow> (platform_error + unit) ctl" where
  "linux_register_service ctx =
     tbind (require_root LinuxOs) (\<lambda>_.
     tbind (ask_text (\<lambda>e. PeCommandFailed (''cannot determine current directory: '' @ e)) QCurrentDir) (\<lambda>repo_root.
     let src = join_path repo_root ''deploy/systemd/adapterd.service'' in
     tbind (ask_bool (QExists src)) (\<lambda>found.
     if \<not> found
     then Ret (Inl (PeCommandFailed (''systemd unit template not found at '' @ src @ '' '' @ dash @
       '' expected it inside the agent-connector repository checkout, not just the install prefix'')))
     else
       tbind (ask_text (\<lambda>e. PeCommandFailed (''cannot read unit template: '' @ e)) (QReadFile src)) (\<lambda>raw.
       let rendered =
         (if sc_working_directory ctx = default_prefix \<and> sc_user ctx = default_user then raw
          else render_unit_with_substitutions raw (sc_working_directory ctx) (sc_user ctx)) in
       tbind (act (\<lambda>e. PeCommandFailed (''cannot write '' @ unit_dest @ '': '' @ e)) (QFs (FsWrite unit_dest rendered))) (\<lambda>_.
       tbind (run_checked ''systemctl'' [''daemon-reload''] ''systemctl daemon-reload failed'') (\<lambda>_.
         run_checked ''systemctl'' [''enable'', unit_name] ''systemctl enable failed''))))))"

definition linux_unregister_service :: "string \<Rightarrow> (platform_error + unit) ctl" where
  "linux_unregister_service name =
     tbind (require_root LinuxOs) (\<lambda>_.
     tbind (run_ignored ''systemctl'' [''disable'', ''--now'', name]) (\<lambda>_.
     tbind (act_ok (QFs (FsRemove (''/etc/systemd/system/'' @ name)))) (\<lambda>_.
       run_checked ''systemctl'' [''daemon-reload''] ''systemctl daemon-reload failed'')))"

definition linux_control :: "string \<Rightarrow> string \<Rightarrow> (platform_error + unit) ctl" where
  "linux_control verb name =
     tbind (require_root LinuxOs) (\<lambda>_.
       run_checked ''systemctl'' [verb, name]
         (''systemctl '' @ verb @ '' failed '' @ dash @ '' check `journalctl -u adapterd -e` for details''))"

text \<open>\<open>restrict_file_permissions\<close> on Unix: the group is that of the owner or \<open>daemon\<close>.\<close>

definition unix_restrict :: "string \<Rightarrow> string \<Rightarrow> (platform_error + unit) ctl" where
  "unix_restrict owner_group path =
     tbind (act (\<lambda>e. PeCommandFailed (''chmod 0600 failed: '' @ e)) (QFs (FsChmod path 384))) (\<lambda>_.
       run_checked ''chown'' [owner_group, path] ''chown failed'')"

subsection \<open>launchd\<close>

definition service_label :: string where
  "service_label = ''com.agent-connector.adapterd''"

definition plist_path :: string where
  "plist_path = ''/Library/LaunchDaemons/com.agent-connector.adapterd.plist''"

definition default_service_account :: string where
  "default_service_account = ''_adapterd''"

text \<open>\<open>split_whitespace().last()\<close> of a line.\<close>

fun take_word :: "string list \<Rightarrow> string \<Rightarrow> string" where
  "take_word ws [] = []"
| "take_word ws (c # s) = (if list_ex (\<lambda>w. w \<noteq> [] \<and> prefix w (c # s)) ws then [] else c # take_word ws s)"

definition last_word :: "string \<Rightarrow> string option" where
  "last_word line =
     (let ws = map rev white_space; w = rev (take_word ws (strip_front ws (rev line))) in if w = [] then None else Some w)"

definition parse_u32 :: "string \<Rightarrow> nat option" where
  "parse_u32 s = (case parse_u64 s of Some n \<Rightarrow> if n < 4294967296 then Some n else None | None \<Rightarrow> None)"

definition taken_uids :: "string \<Rightarrow> nat list" where
  "taken_uids out = List.map_filter (\<lambda>l. Option.bind (last_word l) parse_u32) (lines_of (from_utf8_lossy out))"

definition find_free_system_uid :: "(platform_error + nat) ctl" where
  "find_free_system_uid = Ask (QSpawn ''dscl'' [''.'', ''-list'', ''/Users'', ''UniqueID''] None) (\<lambda>r. Ret (case r of
     RSpawn (SpawnFailed e) \<Rightarrow> Inl (PeCommandFailed (''dscl -list failed: '' @ e))
   | RSpawn (Exited fine status out err) \<Rightarrow>
       (case find (\<lambda>uid. uid \<notin> set (taken_uids out)) [200..<401] of
          Some uid \<Rightarrow> Inr uid
        | None \<Rightarrow> Inl (PeCommandFailed (''no free UID found in the 200-400 system account range '' @ dash @
            '' highly unusual, check `dscl . -list /Users UniqueID` manually'')))
   | _ \<Rightarrow> Inr 0))"

definition mac_user_exists :: "string \<Rightarrow> (platform_error + bool) ctl" where
  "mac_user_exists name = Ask (QSpawn ''dscl'' [''.'', ''-read'', ''/Users/'' @ name] None) (\<lambda>r. Ret (case r of
     RSpawn (SpawnFailed e) \<Rightarrow> Inl (PeCommandFailed (''dscl -read spawn failed: '' @ e))
   | RSpawn (Exited fine status out err) \<Rightarrow> Inr fine
   | _ \<Rightarrow> Inr False))"

definition dscl_create :: "string \<Rightarrow> string list \<Rightarrow> string \<Rightarrow> (platform_error + unit) ctl" where
  "dscl_create name field err_context = run_checked ''dscl'' ([''.'', ''-create'', ''/Users/'' @ name] @ field) err_context"

definition mac_ensure_service_user :: "string \<Rightarrow> (platform_error + unit) ctl" where
  "mac_ensure_service_user name =
     tbind (require_root MacOs) (\<lambda>_.
     tbind (mac_user_exists name) (\<lambda>known.
     if known then Ret (Inr ())
     else
       tbind find_free_system_uid (\<lambda>uid.
       tbind (dscl_create name [] ''dscl create failed'') (\<lambda>_.
       tbind (dscl_create name [''UniqueID'', nat_str uid] ''dscl set UniqueID failed'') (\<lambda>_.
       tbind (dscl_create name [''PrimaryGroupID'', ''1''] ''dscl set PrimaryGroupID failed'') (\<lambda>_.
       tbind (dscl_create name [''UserShell'', ''/usr/bin/false''] ''dscl set UserShell failed'') (\<lambda>_.
       tbind (dscl_create name [''NFSHomeDirectory'', ''/var/empty''] ''dscl set NFSHomeDirectory failed'') (\<lambda>_.
       tbind (dscl_create name [''RealName'', ''agent-connector adapterd service account''] ''dscl set RealName failed'') (\<lambda>_.
         dscl_create name [''IsHidden'', ''1''] ''dscl set IsHidden failed'')))))))))"

text \<open>The property list, line by line; the note in it is UTF-8 text, written as bytes.\<close>

definition plist_note :: "service_context \<Rightarrow> string list" where
  "plist_note ctx =
     [''    <!-- '' @ map char_of [208, 144, 208, 189, 208, 176, 208, 187, 208, 190, 208, 179 :: nat] @
        '' ReadWritePaths+ProtectSystem=full '' @ map char_of [208, 184, 208, 183 :: nat] @ '' systemd unit: launchd'',
      ''         '' @ map char_of [208, 189, 208, 181, 32, 208, 184, 208, 188, 208, 181, 208, 181, 209, 130, 32, 208,
        191, 209, 128, 209, 143, 208, 188, 208, 190, 208, 179, 208, 190, 32, 209, 141, 208, 186, 208, 178, 208, 184,
        208, 178, 208, 176, 208, 187, 208, 181, 208, 189, 209, 130, 208, 176, 32, 209, 132, 208, 176, 208, 185, 208,
        187, 208, 190, 208, 178, 208, 190, 208, 185, 32, 208, 184, 208, 183, 208, 190, 208, 187, 209, 143, 209, 134,
        208, 184, 208, 184 :: nat] @ '' systemd (sandbox-exec'',
      ''         profile '' @ map char_of [208, 188, 208, 190, 208, 179, 32, 208, 177, 209, 139 :: nat] @ '', '' @
        map char_of [208, 189, 208, 190, 32, 209, 141, 209, 130, 208, 190, 32, 208, 190, 209, 130, 208, 180, 208,
        181, 208, 187, 209, 140, 208, 189, 209, 139, 208, 185, 32, 208, 188, 208, 181, 209, 133, 208, 176, 208, 189,
        208, 184, 208, 183, 208, 188 :: nat] @ '') '' @ map char_of [226, 128, 148, 32, 208, 178, 208, 188, 208, 181,
        209, 129, 209, 130, 208, 190, 32, 209, 141, 209, 130, 208, 190, 208, 179, 208, 190, 32, 208, 191, 208, 190,
        208, 187, 208, 176, 208, 179, 208, 176, 208, 181, 208, 188, 209, 129, 209, 143 :: nat],
      ''         '' @ map char_of [208, 189, 208, 176 :: nat] @ '' Unix-'' @ map char_of [208, 191, 209, 128, 208,
        176, 208, 178, 208, 176 :: nat] @ '': '' @ sc_data_directory ctx @ '' '' @ map char_of [208, 191, 209, 128,
        208, 184, 208, 189, 208, 176, 208, 180, 208, 187, 208, 181, 208, 182, 208, 184, 209, 130 :: nat] @ '' '' @
        default_service_account @ '', '' @ map char_of [208, 190, 209, 129, 209, 130, 208, 176, 208, 187, 209, 140,
        208, 189, 208, 190, 208, 181, 32, 226, 128, 148 :: nat] @ '' root:daemon'',
      ''         read-only ('' @ map char_of [209, 129, 208, 188 :: nat] @ ''. restrict_file_permissions). -->'']"

definition plist_lines :: "service_context \<Rightarrow> string list" where
  "plist_lines ctx =
     [''<?xml version='' @ [CHR 0x22] @ ''1.0'' @ [CHR 0x22] @ '' encoding='' @ [CHR 0x22] @ ''UTF-8'' @ [CHR 0x22] @
        ''?>'',
      ''<!DOCTYPE plist PUBLIC '' @ [CHR 0x22] @ ''-//Apple//DTD PLIST 1.0//EN'' @ [CHR 0x22] @ '' '' @ [CHR 0x22] @
        ''http://www.apple.com/DTDs/PropertyList-1.0.dtd'' @ [CHR 0x22] @ ''>'',
      ''<plist version='' @ [CHR 0x22] @ ''1.0'' @ [CHR 0x22] @ ''>'',
      ''<dict>'',
      ''    <key>Label</key>'',
      ''    <string>'' @ service_label @ ''</string>'',
      ''    <key>ProgramArguments</key>'',
      ''    <array>'',
      ''        <string>'' @ sc_binary_path ctx @ ''</string>'',
      ''        <string>'' @ sc_config_path ctx @ ''</string>'',
      ''    </array>'',
      ''    <key>WorkingDirectory</key>'',
      ''    <string>'' @ sc_working_directory ctx @ ''</string>'',
      ''    <key>UserName</key>'',
      ''    <string>'' @ default_service_account @ ''</string>'',
      ''    <key>EnvironmentVariables</key>'',
      ''    <dict>'',
      ''        <key>ADAPTERD_ENV_FILE</key>'',
      ''        <string>'' @ sc_env_file_path ctx @ ''</string>'',
      ''    </dict>'',
      ''    <key>RunAtLoad</key>'',
      ''    <true/>'',
      ''    <key>KeepAlive</key>'',
      ''    <dict>'',
      ''        <key>SuccessfulExit</key>'',
      ''        <false/>'',
      ''    </dict>'',
      ''    <key>StandardOutPath</key>'',
      ''    <string>/var/log/agent-connector/adapterd.log</string>'',
      ''    <key>StandardErrorPath</key>'',
      ''    <string>/var/log/agent-connector/adapterd.error.log</string>'',
      ''    <key>ProcessType</key>'',
      ''    <string>Background</string>''] @ plist_note ctx @
     [''</dict>'', ''</plist>'']"

definition render_plist :: "service_context \<Rightarrow> string" where
  "render_plist ctx = concat (map (\<lambda>l. l @ [CHR 0x0A]) (plist_lines ctx))"

definition mac_register_service :: "service_context \<Rightarrow> (platform_error + unit) ctl" where
  "mac_register_service ctx =
     tbind (require_root MacOs) (\<lambda>_.
     tbind (act (\<lambda>e. PeCommandFailed (''cannot write '' @ plist_path @ '': '' @ e)) (QFs (FsWrite plist_path (render_plist ctx)))) (\<lambda>_.
     tbind (run_checked ''chown'' [''root:wheel'', plist_path] ''chown on plist failed'') (\<lambda>_.
     tbind (act (\<lambda>e. PeCommandFailed (''chmod on plist failed: '' @ e)) (QFs (FsChmod plist_path 420))) (\<lambda>_.
       run_checked ''launchctl'' [''bootstrap'', ''system'', plist_path]
         (''launchctl bootstrap failed '' @ dash @ '' is the plist already loaded? try `launchctl bootout system <label>` first'')))))"

definition mac_unregister_service :: "(platform_error + unit) ctl" where
  "mac_unregister_service =
     tbind (require_root MacOs) (\<lambda>_.
     tbind (run_ignored ''launchctl'' [''bootout'', ''system/'' @ service_label]) (\<lambda>_.
       act_ok (QFs (FsRemove plist_path))))"

definition mac_start_service :: "(platform_error + unit) ctl" where
  "mac_start_service =
     tbind (require_root MacOs) (\<lambda>_.
       run_checked ''launchctl'' [''kickstart'', ''-k'', ''system/'' @ service_label]
         (''launchctl kickstart failed '' @ dash @ '' check `sudo launchctl print system/com.agent-connector.adapterd` for diagnostics''))"

definition mac_stop_service :: "(platform_error + unit) ctl" where
  "mac_stop_service =
     tbind (require_root MacOs) (\<lambda>_.
       run_checked ''launchctl'' [''kill'', ''SIGTERM'', ''system/'' @ service_label]
         (''launchctl kill SIGTERM failed '' @ dash @ '' is the service running? `sudo launchctl print system/com.agent-connector.adapterd`''))"

definition mac_restart_service :: "(platform_error + unit) ctl" where
  "mac_restart_service =
     tbind (require_root MacOs) (\<lambda>_.
       run_checked ''launchctl'' [''kickstart'', ''-k'', ''system/'' @ service_label]
         (''launchctl kickstart -k failed '' @ dash @ '' check `sudo launchctl print system/com.agent-connector.adapterd` for diagnostics''))"

subsection \<open>Windows services\<close>

definition service_account :: string where
  "service_account = ''NT SERVICE'' @ [CHR 0x5C] @ ''adapterd''"

definition administrators :: string where
  "administrators = ''BUILTIN'' @ [CHR 0x5C] @ ''Administrators''"

definition grant_data_dir_access :: "string \<Rightarrow> string \<Rightarrow> (platform_error + unit) ctl" where
  "grant_data_dir_access path account =
     tbind (act (\<lambda>e. PeCommandFailed (''cannot create data dir '' @ path @ '': '' @ e)) (QFs (FsCreateDirAll path))) (\<lambda>_.
       run_checked ''icacls'' [path, ''/inheritance:r'', ''/grant:r'', ''SYSTEM:(OI)(CI)F'', ''/grant:r'',
         account @ '':(OI)(CI)F'', ''/grant:r'', administrators @ '':(OI)(CI)F''] ''icacls on data directory failed'')"

definition lock_down_read_only :: "string \<Rightarrow> string \<Rightarrow> (platform_error + unit) ctl" where
  "lock_down_read_only path account =
     run_checked ''icacls'' [path, ''/inheritance:r'', ''/grant:r'', ''SYSTEM:(F)'', ''/grant:r'',
       administrators @ '':(F)'', ''/grant:r'', account @ '':(RX)''] ''icacls read-only lockdown failed''"

definition windows_register_service :: "service_context \<Rightarrow> (platform_error + unit) ctl" where
  "windows_register_service ctx =
     (let q = [CHR 0x22]; bin_path = q @ sc_binary_path ctx @ q @ '' '' @ q @ sc_config_path ctx @ q in
      tbind require_admin (\<lambda>_.
      tbind (run_checked ''sc.exe'' [''create'', ''adapterd'', ''type='', ''own'', ''start='', ''auto'', ''error='', ''normal'',
               ''obj='', service_account, ''binPath='', bin_path]
               (''sc.exe create failed '' @ dash @ '' run as Administrator'')) (\<lambda>_.
      tbind (run_ignored ''sc.exe'' [''description'', ''adapterd'', ''agent-connector Universal Agent Adapter Runtime'']) (\<lambda>_.
      tbind (run_ignored ''sc.exe'' [''failure'', ''adapterd'', ''reset='', ''86400'', ''actions='',
               ''restart/3000/restart/3000/restart/3000'']) (\<lambda>_.
      tbind (grant_data_dir_access (sc_data_directory ctx) service_account) (\<lambda>_.
      tbind (lock_down_read_only (sc_config_path ctx) service_account) (\<lambda>_.
        lock_down_read_only (sc_binary_path ctx) service_account)))))))"

definition windows_stop_service :: "string \<Rightarrow> (platform_error + unit) ctl" where
  "windows_stop_service name =
     tbind require_admin (\<lambda>_.
     Ask (QSpawn ''sc.exe'' [''stop'', name] None) (\<lambda>r. Ret (case r of
       RSpawn (SpawnFailed e) \<Rightarrow> Inl (PeCommandFailed (''sc.exe stop spawn failed: '' @ e))
     | _ \<Rightarrow> Inr ())))"

definition windows_start_service :: "string \<Rightarrow> (platform_error + unit) ctl" where
  "windows_start_service name =
     tbind require_admin (\<lambda>_.
       run_checked ''sc.exe'' [''start'', name]
         (''sc.exe start failed '' @ dash @ '' check Get-EventLog -LogName Application -Source adapterd''))"

definition windows_unregister_service :: "string \<Rightarrow> (platform_error + unit) ctl" where
  "windows_unregister_service name =
     tbind require_admin (\<lambda>_.
     cbind (windows_stop_service name) (\<lambda>_.
       run_checked ''sc.exe'' [''delete'', name] ''sc.exe delete failed''))"

definition windows_restart_service :: "string \<Rightarrow> (platform_error + unit) ctl" where
  "windows_restart_service name =
     tbind require_admin (\<lambda>_.
     cbind (windows_stop_service name) (\<lambda>_.
     Ask (QSleep 2000) (\<lambda>_.
       windows_start_service name)))"

subsection \<open>\<open>PlatformServiceManager\<close>, by the platform\<close>

definition ensure_service_user :: "os \<Rightarrow> string \<Rightarrow> (platform_error + unit) ctl" where
  "ensure_service_user os name =
     (case os of LinuxOs \<Rightarrow> linux_ensure_service_user name | MacOs \<Rightarrow> mac_ensure_service_user name
      | WindowsOs \<Rightarrow> Ret (Inr ()))"

definition register_service :: "os \<Rightarrow> service_context \<Rightarrow> (platform_error + unit) ctl" where
  "register_service os ctx =
     (case os of LinuxOs \<Rightarrow> linux_register_service ctx | MacOs \<Rightarrow> mac_register_service ctx
      | WindowsOs \<Rightarrow> windows_register_service ctx)"

definition unregister_service :: "os \<Rightarrow> string \<Rightarrow> (platform_error + unit) ctl" where
  "unregister_service os name =
     (case os of LinuxOs \<Rightarrow> linux_unregister_service name | MacOs \<Rightarrow> mac_unregister_service
      | WindowsOs \<Rightarrow> windows_unregister_service name)"

definition start_service :: "os \<Rightarrow> string \<Rightarrow> (platform_error + unit) ctl" where
  "start_service os name =
     (case os of LinuxOs \<Rightarrow> linux_control ''start'' name | MacOs \<Rightarrow> mac_start_service
      | WindowsOs \<Rightarrow> windows_start_service name)"

definition stop_service :: "os \<Rightarrow> string \<Rightarrow> (platform_error + unit) ctl" where
  "stop_service os name =
     (case os of LinuxOs \<Rightarrow> linux_control ''stop'' name | MacOs \<Rightarrow> mac_stop_service
      | WindowsOs \<Rightarrow> windows_stop_service name)"

definition restart_service :: "os \<Rightarrow> string \<Rightarrow> (platform_error + unit) ctl" where
  "restart_service os name =
     (case os of LinuxOs \<Rightarrow> linux_control ''restart'' name | MacOs \<Rightarrow> mac_restart_service
      | WindowsOs \<Rightarrow> windows_restart_service name)"

definition restrict_file_permissions :: "os \<Rightarrow> string \<Rightarrow> string \<Rightarrow> (platform_error + unit) ctl" where
  "restrict_file_permissions os path owner =
     (case os of LinuxOs \<Rightarrow> unix_restrict (owner @ '':'' @ owner) path
      | MacOs \<Rightarrow> unix_restrict (owner @ '':daemon'') path
      | WindowsOs \<Rightarrow> lock_down_read_only path service_account)"

section \<open>Installation\<close>

datatype install_error =
    IeBuild string
  | IeStorage string
  | IeDocker docker_error
  | IePlatform platform_error
  | IeIo string
  | IeNoTty
  | IeDsnValidation string

record docker_summary =
  ds_host_port :: "nat option"
  ds_volume_name :: string
  ds_container_name :: string

record resolved_storage =
  rs_yaml_fragment :: json
  rs_env_vars :: "(string \<times> string) list"
  rs_docker_summary :: "docker_summary option"

definition dsn_env_var_name :: string where
  "dsn_env_var_name = ''ADAPTER_CONNECTOR_PG_DSN''"

definition resolve_storage_choice :: "storage_choice option \<Rightarrow> (install_error + storage_choice) ctl" where
  "resolve_storage_choice flag =
     (case flag of
        Some choice \<Rightarrow> Ret (Inr choice)
      | None \<Rightarrow>
          tbind (ask_bool QIsTty) (\<lambda>tty.
          if \<not> tty then Ret (Inl IeNoTty)
          else tbind (ask_text IeIo QReadLine) (\<lambda>input.
            (let c = trim input in
             Ret (if c = ''1'' then Inr Sqlite
                  else if c = ''2'' then Inr ExistingPostgres
                  else if c = ''3'' then Inr ManagedDockerPostgres
                  else if c = ''4'' then Inr ExternalManagedPostgres
                  else Inl (IeStorage (''invalid choice '' @ quoted c @ '', expected 1-4'')))))))"

definition validate_postgres_connection :: "string \<Rightarrow> (install_error + unit) ctl" where
  "validate_postgres_connection dsn =
     tbind (act (\<lambda>e. IeDsnValidation (''connection failed: '' @ e)) (QPgConnect dsn)) (\<lambda>_.
       act (\<lambda>e. IeDsnValidation (''SELECT 1 failed: '' @ e)) (QPgSelect dsn))"

definition postgres_fragment :: json where
  "postgres_fragment = JObject
     [(''type'', JString ''postgres''), (''dsn-env'', JString dsn_env_var_name),
      (''schema'', JString ''agent_adapter''), (''max-connections'', JNumber (PosInt 10))]"

definition resolve_storage ::
  "os \<Rightarrow> storage_choice \<Rightarrow> string \<Rightarrow> string option \<Rightarrow> bool \<Rightarrow> bool \<Rightarrow> (install_error + resolved_storage) ctl" where
  "resolve_storage os choice data_dir existing_dsn confirm_docker docker_network_only =
     (case choice of
        Sqlite \<Rightarrow>
          Ret (Inr \<lparr>rs_yaml_fragment = JObject [(''type'', JString ''sqlite''), (''path'', JString (join_path data_dir ''adapter.db''))],
                    rs_env_vars = [], rs_docker_summary = None\<rparr>)
      | ManagedDockerPostgres \<Rightarrow>
          tbind (on_err IeStorage (plan confirm_docker docker_network_only dsn_env_var_name)) (\<lambda>p.
          tbind (on_err IeDocker (ensure_running os p)) (\<lambda>_.
          tbind (validate_postgres_connection (mp_dsn p)) (\<lambda>_.
            Ret (Inr \<lparr>rs_yaml_fragment = postgres_fragment, rs_env_vars = [(dsn_env_var_name, mp_dsn p)],
                      rs_docker_summary = Some \<lparr>ds_host_port = mp_host_port p, ds_volume_name = ''agent-connector-pg-data'',
                        ds_container_name = ''agent-connector-pg''\<rparr>\<rparr>))))
      | _ \<Rightarrow>
          (case existing_dsn of
             None \<Rightarrow> Ret (Inl (IeStorage ''--postgres-dsn is required for existing/external Postgres profiles''))
           | Some dsn \<Rightarrow>
               tbind (validate_postgres_connection dsn) (\<lambda>_.
                 Ret (Inr \<lparr>rs_yaml_fragment = postgres_fragment, rs_env_vars = [(dsn_env_var_name, dsn)],
                           rs_docker_summary = None\<rparr>))))"

definition env_header :: string where
  "env_header =
     ''# agent-connector runtime environment '' @ dash @ '' generated by adapterctl install.'' @ [CHR 0x0A] @
     ''# Do NOT commit this file. Regenerate with `adapterctl install --force` if lost'' @ [CHR 0x0A] @
     ''# (Postgres password will be rotated on regeneration for managed-docker profile).'' @ [CHR 0x0A, CHR 0x0A]"

definition env_text :: "(string \<times> string) list \<Rightarrow> string" where
  "env_text vars = env_header @ concat (map (\<lambda>(k, v). k @ ''='' @ v @ [CHR 0x0A]) vars)"

definition write_config_files ::
  "formats \<Rightarrow> os \<Rightarrow> string \<Rightarrow> resolved_storage \<Rightarrow> json \<Rightarrow> (install_error + string \<times> string) ctl" where
  "write_config_files fm os inst resolved agents_yaml =
     (let config_path = join_path inst ''adapter.yaml''; env_path = join_path inst ''.env'' in
      case fm_print fm (JObject [(''mode'', JString ''local''), (''storage'', rs_yaml_fragment resolved), (''agents'', agents_yaml)]) of
        Inl e \<Rightarrow> Ret (Inl (IeStorage (''failed to serialize adapter.yaml: '' @ e)))
      | Inr yaml_text \<Rightarrow>
          tbind (act IeIo (QFs (FsWrite config_path yaml_text))) (\<lambda>_.
          tbind (act IeIo (QFs (FsWrite env_path (env_text (rs_env_vars resolved))))) (\<lambda>_.
          tbind (on_err IePlatform (restrict_file_permissions os env_path ''adapterd'')) (\<lambda>_.
            Ret (Inr (config_path, env_path))))))"

definition summary_line :: "string \<Rightarrow> string \<Rightarrow> string" where
  "summary_line label v = ''  '' @ label @ v @ [CHR 0x0A]"

definition render_summary :: "string \<Rightarrow> string \<Rightarrow> string \<Rightarrow> string \<Rightarrow> resolved_storage \<Rightarrow> bool \<Rightarrow> string" where
  "render_summary inst binary_path config_path data_dir resolved started =
     ''agent-connector installed successfully.'' @ [CHR 0x0A] @
     summary_line ''prefix:    '' inst @ summary_line ''binary:    '' binary_path @
     summary_line ''config:    '' config_path @ summary_line ''data:      '' data_dir @
     (case rs_docker_summary resolved of
        None \<Rightarrow> []
      | Some docker \<Rightarrow>
          (case ds_host_port docker of
             Some port \<Rightarrow> summary_line ''postgres:  '' (''127.0.0.1:'' @ nat_str port @ '' (container: '' @ ds_container_name docker @ '')'')
           | None \<Rightarrow> summary_line ''postgres:  '' (''internal Docker network only (container: '' @ ds_container_name docker @ '')'')) @
          summary_line ''pg volume: '' (ds_volume_name docker @ '' (NOT removed on uninstall unless --purge-data)'') @
          summary_line ''backup:    '' (''docker exec '' @ ds_container_name docker @
            '' pg_dump -U adapter_connector agent_connector > backup.sql'')) @
     summary_line ''started:   '' (if started then ''yes'' else ''no '' @ dash @ '' run `adapterctl start` or the platform service command'') @
     summary_line ''uninstall: '' (''adapterctl uninstall --prefix '' @ inst)"

definition build_adapterd :: "string \<Rightarrow> (install_error + unit) ctl" where
  "build_adapterd repo_root =
     Ask (QSpawn ''cargo'' [''build'', ''--release'', ''-p'', ''adapterd''] (Some repo_root)) (\<lambda>r. Ret (case r of
       RSpawn (SpawnFailed e) \<Rightarrow> Inl (IeBuild e)
     | RSpawn (Exited fine status out err) \<Rightarrow>
         if fine then Inr () else Inl (IeBuild (''cargo build exited with '' @ status))
     | _ \<Rightarrow> Inr ()))"

text \<open>From the configuration files on, and from the copy of the binary on.\<close>

definition install_config ::
  "formats \<Rightarrow> os \<Rightarrow> install_args \<Rightarrow> resolved_storage \<Rightarrow> json \<Rightarrow> (install_error + string) ctl" where
  "install_config fm os a resolved agents_yaml =
     (let inst = ia_prefix a; data_dir = join_path inst ''data'';
          binary_dest = join_path inst ''target/release/adapterd'' in
      tbind (write_config_files fm os inst resolved agents_yaml) (\<lambda>paths.
      tbind (on_err IePlatform (restrict_file_permissions os (fst paths) (ia_user a))) (\<lambda>_.
      tbind (on_err IePlatform (register_service os
          \<lparr>sc_binary_path = binary_dest, sc_config_path = fst paths, sc_env_file_path = snd paths,
           sc_working_directory = inst, sc_data_directory = data_dir, sc_user = ia_user a\<rparr>)) (\<lambda>_.
      tbind (if ia_start_now a then on_err IePlatform (start_service os ''adapterd'') else Ret (Inr ())) (\<lambda>_.
        Ret (Inr (render_summary inst binary_dest (fst paths) data_dir resolved (ia_start_now a))))))))"

definition install_files ::
  "formats \<Rightarrow> os \<Rightarrow> install_args \<Rightarrow> string \<Rightarrow> resolved_storage \<Rightarrow> json \<Rightarrow> (install_error + string) ctl" where
  "install_files fm os a repo_root resolved agents_yaml =
     (let binary_dest = join_path (ia_prefix a) ''target/release/adapterd'' in
      tbind (act IeIo (QFs (FsCreateDirAll (join_path (ia_prefix a) ''target/release'')))) (\<lambda>_.
      tbind (act IeIo (QFs (FsCopy (join_path repo_root ''target/release/adapterd'') binary_dest))) (\<lambda>_.
      tbind (on_err IePlatform (restrict_file_permissions os binary_dest (ia_user a))) (\<lambda>_.
        install_config fm os a resolved agents_yaml))))"

definition docker_preflight :: "os \<Rightarrow> storage_choice \<Rightarrow> bool \<Rightarrow> (install_error + unit) ctl" where
  "docker_preflight os choice confirm_docker =
     (if choice = ManagedDockerPostgres
      then (if \<not> confirm_docker
            then Ret (Inl (IeStorage ''ManagedDockerPostgres selected without --confirm-docker''))
            else on_err (\<lambda>e. IeStorage (''Docker preflight check failed before proceeding with managed-docker-postgres: '' @
                   preflight_text e)) (preflight_check os))
      else Ret (Inr ()))"

definition run_install :: "formats \<Rightarrow> os \<Rightarrow> string \<Rightarrow> install_args \<Rightarrow> (install_error + string) ctl" where
  "run_install fm os repo_root a =
     tbind (resolve_storage_choice (ia_storage a)) (\<lambda>choice.
     tbind (docker_preflight os choice (ia_confirm_docker a)) (\<lambda>_.
     tbind (on_err (\<lambda>e. IeStorage (''agents template invalid: '' @ template_text e))
              (template_load (fm_parse fm) (ia_config a) repo_root)) (\<lambda>agents.
     let data_dir = join_path (ia_prefix a) ''data'' in
     tbind (act IeIo (QFs (FsCreateDirAll data_dir))) (\<lambda>_.
     tbind (if ia_skip_build a then Ret (Inr ()) else build_adapterd repo_root) (\<lambda>_.
     tbind (on_err IePlatform (ensure_service_user os (ia_user a))) (\<lambda>_.
     tbind (resolve_storage os choice data_dir (ia_postgres_dsn a) (ia_confirm_docker a) (ia_docker_network_only a)) (\<lambda>resolved.
     case fm_agents fm agents of
       Inl e \<Rightarrow> Ret (Inl (IeStorage (''failed to serialize agents template: '' @ e)))
     | Inr agents_yaml \<Rightarrow> install_files fm os a repo_root resolved agents_yaml)))))))"

text \<open>\<open>uninstall_flow::run\<close>; a failure to remove the Docker resources is printed only.\<close>

definition uninstall :: "os \<Rightarrow> string \<Rightarrow> bool \<Rightarrow> (install_error + unit) ctl" where
  "uninstall os inst purge_data =
     tbind (on_err IePlatform (unregister_service os ''adapterd'')) (\<lambda>_.
     tbind (act_ok (QFs (FsRemove (join_path inst ''adapter.yaml'')))) (\<lambda>_.
     tbind (act_ok (QFs (FsRemove (join_path inst ''.env'')))) (\<lambda>_.
     tbind (act_ok (QFs (FsRemoveDirAll (join_path inst ''target'')))) (\<lambda>_.
     if purge_data
     then tbind (act_ok (QFs (FsRemoveDirAll (join_path inst ''data'')))) (\<lambda>_.
       cbind (remove_all_resources True) (\<lambda>_. Ret (Inr ())))
     else Ret (Inr ())))))"

section \<open>The main program\<close>

fun docker_text :: "docker_error \<Rightarrow> string" where
  "docker_text (DeConnect e) = ''failed to connect to Docker daemon: '' @ e"
| "docker_text DeNotReachable =
     ''Docker daemon is not reachable '' @ dash @ '' is Docker Desktop running? (Windows/macOS: check the whale icon; Linux: `systemctl status docker`)''"
| "docker_text DeWrongContainerMode = preflight_text PfWrongContainerMode"
| "docker_text (DeOperation e) = ''docker operation failed: '' @ e"
| "docker_text (DeNotOurResource r) =
     ''refusing to touch resource '' @ quoted r @ '': it exists but is missing the '' @ fst ownership_label @ ''='' @
     snd ownership_label @ '' ownership label '' @ dash @
     '' it was not created by this installer and will not be modified or removed''"

fun platform_text :: "platform_error \<Rightarrow> string" where
  "platform_text (PeUnprivileged e) = ''permission denied: '' @ e"
| "platform_text (PeCommandFailed e) = ''command failed: '' @ e"
| "platform_text (PeUnsupported e) = ''unsupported on this platform: '' @ e"

fun install_text :: "install_error \<Rightarrow> string" where
  "install_text (IeBuild e) = ''build failed: '' @ e"
| "install_text (IeStorage e) = ''storage setup failed: '' @ e"
| "install_text (IeDocker e) = docker_text e"
| "install_text (IePlatform e) = platform_text e"
| "install_text (IeIo e) = ''filesystem error: '' @ e"
| "install_text IeNoTty =
     ''no TTY available for interactive prompt '' @ dash @ '' pass --storage explicitly in non-interactive environments''"
| "install_text (IeDsnValidation e) = ''DSN validation failed: '' @ e"

fun lifecycle_text :: "lifecycle_error \<Rightarrow> string" where
  "lifecycle_text (LeNotManagedDocker e) = ''not a managed-docker-postgres installation: '' @ e"
| "lifecycle_text (LeDocker e) = ''docker operation failed: '' @ e"
| "lifecycle_text (LeBackup e) = ''backup failed: '' @ e"
| "lifecycle_text (LeInterrupted e) =
     ''backup interrupted '' @ dash @ '' partial file removed, no valid backup was produced: '' @ e"
| "lifecycle_text (LeUpgradeAborted e) = ''upgrade aborted: '' @ e"
| "lifecycle_text (LeIo e) = e"

text \<open>\<open>run\<close>, by the command; a successful installation prints its summary.\<close>

definition ctl_run :: "formats \<Rightarrow> os \<Rightarrow> string list \<Rightarrow> (string + string) ctl" where
  "ctl_run fm os args =
     (case parse_args args of
        Inl e \<Rightarrow> Ret (Inl e)
      | Inr cmd \<Rightarrow>
          (case cmd of
             CmdHelp \<Rightarrow> Ret (Inr [])
           | CmdInstall a \<Rightarrow>
               tbind (ask_text (\<lambda>e. ''cannot determine repo root: '' @ e) QCurrentDir) (\<lambda>repo_root.
                 on_err (\<lambda>e. ''install failed: '' @ install_text e) (run_install fm os repo_root a))
           | CmdUninstall inst purge_data \<Rightarrow>
               tbind (on_err (\<lambda>e. ''uninstall failed: '' @ install_text e) (uninstall os inst purge_data)) (\<lambda>_. Ret (Inr []))
           | CmdStart \<Rightarrow> tbind (on_err platform_text (start_service os ''adapterd'')) (\<lambda>_. Ret (Inr []))
           | CmdStop \<Rightarrow> tbind (on_err platform_text (stop_service os ''adapterd'')) (\<lambda>_. Ret (Inr []))
           | CmdRestart \<Rightarrow> tbind (on_err platform_text (restart_service os ''adapterd'')) (\<lambda>_. Ret (Inr []))
           | CmdBackupPostgres output \<Rightarrow>
               tbind (on_err (\<lambda>e. ''backup failed: '' @ lifecycle_text e) (backup output)) (\<lambda>_.
                 Ret (Inr (''Backup written to '' @ output)))
           | CmdUpgradePostgres tag inst \<Rightarrow>
               tbind (on_err (\<lambda>e. ''upgrade failed: '' @ lifecycle_text e) (upgrade tag inst)) (\<lambda>_. Ret (Inr []))))"

section \<open>What the daemon reads\<close>

text \<open>
  The storage section as the derived reader of \<open>StorageConfig\<close> takes it. The attribute
  \<open>rename_all = "kebab-case"\<close> of an enum renames its variants; the fields of a variant keep
  their names, and unknown fields are skipped. \<open>None\<close> is an error of the reader.
\<close>

definition field_or :: "(json \<Rightarrow> 'a option) \<Rightarrow> 'a \<Rightarrow> json option \<Rightarrow> 'a option" where
  "field_or rd d v = (case v of None \<Rightarrow> Some d | Some j \<Rightarrow> rd j)"

definition as_u32 :: "json \<Rightarrow> nat option" where
  "as_u32 j = (case as_u64 j of Some n \<Rightarrow> if n < 4294967296 then Some n else None | None \<Rightarrow> None)"

definition storage_config_of :: "json \<Rightarrow> storage_config option" where
  "storage_config_of j =
     Option.bind (jget_str ''type'' j) (\<lambda>t.
       if t = ''memory'' then Some StMemory
       else if t = ''sqlite'' then map_option StSqlite (field_or as_str default_sqlite_path (jget ''path'' j))
       else if t = ''postgres''
       then Option.bind (jget_str ''dsn_env'' j) (\<lambda>dsn_env.
            Option.bind (field_or as_str default_schema (jget ''schema'' j)) (\<lambda>schema.
            Option.bind (field_or as_u32 default_pg_connections (jget ''max_connections'' j)) (\<lambda>n.
              Some (StPostgres dsn_env schema n))))
       else None)"

section \<open>The storage section that the installer writes\<close>

text \<open>A goal about the result only: nothing is asked of the questions.\<close>

abbreviation results :: "'a ctl \<Rightarrow> ('a \<Rightarrow> bool) \<Rightarrow> bool" where
  "results p P \<equiv> wp (\<lambda>_ _. True) (\<lambda>_ _. {}) p (\<lambda>a _. P a) ({} :: unit set)"

lemma results_any: "wp (\<lambda>_ _. True) (\<lambda>_ _. {}) p (\<lambda>_ _. True) (ks :: unit set)"
  by (induction p arbitrary: ks) simp_all

lemma results_replay: "results p P \<Longrightarrow> replay tr p = Some a \<Longrightarrow> P a"
  using wp_sound [of "\<lambda>_ _. True" "\<lambda>_ _. {}" p "\<lambda>a _. P a"] by fastforce

lemma postgres_fragment_unreadable: "storage_config_of postgres_fragment = None"
  by (simp add: storage_config_of_def postgres_fragment_def jget_str_def)

lemma sqlite_fragment_readable:
  "storage_config_of (JObject [(''type'', JString ''sqlite''), (''path'', JString p)]) = Some (StSqlite p)"
  by (simp add: storage_config_of_def jget_str_def field_or_def)

text \<open>
  C39: the daemon cannot read the storage section of a PostgreSQL installation. Whatever
  storage the user chooses and however the machine answers, when the installer has settled
  the storage, the section it will write for SQLite names the database below the data
  directory and is read back so; the section for each of the three PostgreSQL choices is
  rejected by the daemon, which looks for the fields \<open>dsn_env\<close> and
  \<open>max_connections\<close> under these names.
\<close>

theorem installed_storage_read:
  assumes "replay tr (resolve_storage os choice data_dir dsn confirm network_only) = Some (Inr resolved)"
  shows "storage_config_of (rs_yaml_fragment resolved) =
    (if choice = Sqlite then Some (StSqlite (join_path data_dir ''adapter.db'')) else None)"
proof -
  have "results (resolve_storage os choice data_dir dsn confirm network_only) (\<lambda>r. case r of Inl e \<Rightarrow> True
      | Inr rs \<Rightarrow> rs_yaml_fragment rs = (if choice = Sqlite
          then JObject [(''type'', JString ''sqlite''), (''path'', JString (join_path data_dir ''adapter.db''))]
          else postgres_fragment))"
    by (cases choice)
      (auto simp: resolve_storage_def intro!: wp_follow [OF results_any] split: option.split sum.split)
  from results_replay [OF this assms] show ?thesis
    by (auto simp: postgres_fragment_unreadable sqlite_fragment_readable)
qed

theorem installed_storage_read_witness:
  "replay [(QPgConnect ''pg'', RUnit None), (QPgSelect ''pg'', RUnit None)]
     (resolve_storage LinuxOs ExistingPostgres ''/d'' (Some ''pg'') False False) =
     Some (Inr \<lparr>rs_yaml_fragment = postgres_fragment, rs_env_vars = [(dsn_env_var_name, ''pg'')], rs_docker_summary = None\<rparr>) \<and>
   storage_config_of postgres_fragment = None"
proof -
  have run: "replay [(QPgConnect ''pg'', RUnit None), (QPgSelect ''pg'', RUnit None)]
      (resolve_storage LinuxOs ExistingPostgres ''/d'' (Some ''pg'') False False) =
      Some (Inr \<lparr>rs_yaml_fragment = postgres_fragment, rs_env_vars = [(dsn_env_var_name, ''pg'')], rs_docker_summary = None\<rparr>)"
    by (simp add: resolve_storage_def validate_postgres_connection_def act_def tbind_def fits_def)
  from installed_storage_read [OF run] run show ?thesis by simp
qed

section \<open>The files that the installer leaves\<close>

text \<open>Questions that can change the mode of a file.\<close>

definition sets_mode :: "string \<Rightarrow> question \<Rightarrow> bool" where
  "sets_mode p q =
     (case q of
        QFs c \<Rightarrow>
          (case c of
             FsChmod p' m \<Rightarrow> p' = p | FsCopy a p' \<Rightarrow> p' = p | FsRename a p' \<Rightarrow> p' = p | FsRemove p' \<Rightarrow> p' = p
           | FsCreate p' \<Rightarrow> p' = p | _ \<Rightarrow> False)
      | _ \<Rightarrow> False)"

lemma last_join_path: "q \<noteq> [] \<Longrightarrow> last (join_path p q) = last q"
  by (simp add: join_path_def)

lemma mode_free:
  "\<forall>c. q \<noteq> QFs c \<Longrightarrow> \<not> sets_mode p q" "\<not> sets_mode p (QFs (FsWrite f t))" "\<not> sets_mode p (QFs (FsCreateDirAll d))"
  "f \<noteq> p \<Longrightarrow> \<not> sets_mode p (QFs (FsChmod f m))"
  by (auto simp: sets_mode_def split: question.split)

lemma replay_tbind_split:
  assumes "replay tr (tbind p f) = Some (Inr b)"
  obtains tr1 tr2 a where "tr = tr1 @ tr2" "replay tr1 p = Some (Inr a)" "replay tr2 (f a) = Some (Inr b)"
proof -
  have "\<exists>tr1 tr2 a. tr = tr1 @ tr2 \<and> replay tr1 p = Some (Inr a) \<and> replay tr2 (f a) = Some (Inr b)"
    using assms unfolding tbind_def
  proof (induction p arbitrary: tr)
    case (Ret x)
    then show ?case by (cases x) (auto simp: replay_ret)
  next
    case (Ask q k)
    then obtain r tr' where tr: "tr = (q, r) # tr'" "fits q r"
      "replay tr' (cbind (k r) (\<lambda>r. case r of Inl e \<Rightarrow> Ret (Inl e) | Inr a \<Rightarrow> f a)) = Some (Inr b)"
      by (auto simp: replay_ask)
    from Ask.IH [OF rangeI tr(3)] obtain tr1 tr2 a where
      "tr' = tr1 @ tr2" "replay tr1 (k r) = Some (Inr a)" "replay tr2 (f a) = Some (Inr b)" by blast
    with tr show ?case by (intro exI [of _ "(q, r) # tr1"] exI [of _ tr2] exI [of _ a]) auto
  qed
  then show thesis using that by blast
qed

lemma wp_run_checked [simp]:
  "wp n g (run_checked c args m) Q ks \<longleftrightarrow>
     n (QSpawn c args None) ks \<and>
     (\<forall>sp. Q (case sp of SpawnFailed e \<Rightarrow> Inl (PeCommandFailed (m @ '': failed to spawn '' @ c @ '': '' @ e))
        | Exited fine status out err \<Rightarrow> if fine then Inr ()
            else Inl (PeCommandFailed (m @ '': '' @ c @ '' exited with '' @ status @ '' '' @ dash @ '' '' @ from_utf8_lossy err)))
        (ks \<union> g (QSpawn c args None) (RSpawn sp)))"
  by (simp add: run_checked_def fits_all)

lemma wp_ask_bool [simp]:
  "asked_kind q = KBool \<Longrightarrow> wp n g (ask_bool q) Q ks \<longleftrightarrow> n q ks \<and> (\<forall>b. Q (Inr b) (ks \<union> g q (RBool b)))"
  by (simp add: ask_bool_def fits_all)

lemma wp_require_root [simp]:
  "wp n g (require_root os) Q ks \<longleftrightarrow>
     n QEuid ks \<and> (\<forall>u. Q (if u \<noteq> 0 then Inl (PeUnprivileged (root_message os)) else Inr ()) (ks \<union> g QEuid (RNat u)))"
  by (simp add: require_root_def fits_all)

text \<open>A policy under which nothing changes the mode of one file any more.\<close>

abbreviation keeps_mode :: "string \<Rightarrow> 'a ctl \<Rightarrow> bool" where
  "keeps_mode p prog \<equiv> wp (\<lambda>q _. \<not> sets_mode p q) (\<lambda>_ _. {}) prog (\<lambda>_ _. True) ({} :: unit set)"

lemma wp_no_tokens:
  "wp n (\<lambda>_ _. {}) p (\<lambda>_ _. True) ks \<Longrightarrow> (\<And>a. Q a ks) \<Longrightarrow> wp n (\<lambda>_ _. {}) p Q ks"
  by (induction p arbitrary: ks) simp_all

lemma mode_restrict: "f \<noteq> p \<Longrightarrow> os \<noteq> WindowsOs \<Longrightarrow> keeps_mode p (restrict_file_permissions os f owner)"
  by (cases os) (auto simp: restrict_file_permissions_def unix_restrict_def mode_free split: sum.split)

lemma mode_register: "p \<noteq> plist_path \<Longrightarrow> os \<noteq> WindowsOs \<Longrightarrow> keeps_mode p (register_service os ctx)"
  by (cases os)
    (auto simp: register_service_def linux_register_service_def mac_register_service_def Let_def mode_free split: sum.split)

lemma mode_start: "os \<noteq> WindowsOs \<Longrightarrow> keeps_mode p (start_service os name)"
  by (cases os)
    (auto simp: start_service_def linux_control_def mac_start_service_def mode_free split: sum.split)

lemma mode_config:
  assumes "os \<noteq> WindowsOs"
  shows "keeps_mode (join_path (ia_prefix a) ''target/release/adapterd'') (install_config fm os a resolved agents_yaml)"
proof -
  let ?bin = "join_path (ia_prefix a) ''target/release/adapterd''"
  have "last ?bin = CHR ''d''" by (simp add: last_join_path)
  moreover have "last (join_path (ia_prefix a) ''.env'') = CHR ''v''" "last (join_path (ia_prefix a) ''adapter.yaml'') = CHR ''l''"
    "last plist_path = CHR ''t''" by (simp_all add: last_join_path plist_path_def)
  moreover have differ: "last p \<noteq> last q \<Longrightarrow> p \<noteq> q" for p q :: string by auto
  ultimately have paths: "join_path (ia_prefix a) ''.env'' \<noteq> ?bin" "join_path (ia_prefix a) ''adapter.yaml'' \<noteq> ?bin"
    "?bin \<noteq> plist_path" by (rule_tac [!] differ) simp_all
  note parts = mode_restrict [OF paths(1) assms] mode_restrict [OF paths(2) assms]
    mode_register [OF paths(3) assms] mode_start [OF assms]
  show ?thesis
    unfolding install_config_def write_config_files_def Let_def
    by (auto simp: mode_free intro!: wp_no_tokens [OF parts(1)] wp_no_tokens [OF parts(2)] wp_no_tokens [OF parts(3)]
        wp_no_tokens [OF parts(4)] split: sum.split)
qed

definition owner_of :: "os \<Rightarrow> string \<Rightarrow> string" where
  "owner_of os name = (if os = MacOs then name @ '':daemon'' else name @ '':'' @ name)"

lemma replay_act_iff: "asked_kind q = KUnit \<Longrightarrow> replay tr (act h q) = Some (Inr u) \<longleftrightarrow> tr = [(q, RUnit None)]"
proof -
  assume q: "asked_kind q = KUnit"
  have "fits q r \<Longrightarrow> Inr u = (case r of RUnit (Some e) \<Rightarrow> Inl (h e) | _ \<Rightarrow> Inr ()) \<longleftrightarrow> r = RUnit None" for r
    using q by (cases r) (auto simp: fits_def split: option.splits)
  with q show ?thesis by (auto simp: act_def replay_ask replay_ret fits_def)
qed

lemma replay_checked_iff:
  "replay tr (run_checked c args m) = Some (Inr u) \<longleftrightarrow>
     (\<exists>status out err. tr = [(QSpawn c args None, RSpawn (Exited True status out err))])"
proof -
  have "fits (QSpawn c args None) r \<Longrightarrow> Inr u = (case r of
     RSpawn (SpawnFailed e) \<Rightarrow> Inl (PeCommandFailed (m @ '': failed to spawn '' @ c @ '': '' @ e))
   | RSpawn (Exited fine status out err) \<Rightarrow> if fine then Inr ()
       else Inl (PeCommandFailed (m @ '': '' @ c @ '' exited with '' @ status @ '' '' @ dash @ '' '' @ from_utf8_lossy err))
   | _ \<Rightarrow> Inr ()) \<longleftrightarrow> (\<exists>status out err. r = RSpawn (Exited True status out err))" for r
    by (cases r) (auto simp: fits_def split: spawned.splits)
  then show ?thesis by (auto simp: run_checked_def replay_ask replay_ret fits_def)
qed

lemma replay_on_err: "replay tr (on_err h p) = Some (Inr b) \<longleftrightarrow> replay tr p = Some (Inr b)"
  unfolding on_err_def
proof (induction p arbitrary: tr)
  case (Ret x)
  then show ?case by (cases x) (auto simp: replay_ret)
next
  case (Ask q k)
  then show ?case by (simp add: replay_ask)
qed

lemma restrict_trace:
  assumes "replay tr (on_err h (restrict_file_permissions os path name)) = Some (Inr u)" "os \<noteq> WindowsOs"
  obtains status out err where "tr = [(QFs (FsChmod path 384), RUnit None),
    (QSpawn ''chown'' [owner_of os name, path] None, RSpawn (Exited True status out err))]"
proof -
  have "replay tr (unix_restrict (owner_of os name) path) = Some (Inr u)"
    using assms by (cases os) (simp_all add: replay_on_err restrict_file_permissions_def owner_of_def)
  then show thesis
    unfolding unix_restrict_def using that
    by (elim replay_tbind_split) (auto simp: replay_act_iff replay_checked_iff)
qed

lemma install_reaches_files:
  assumes "replay tr (run_install fm os root a) = Some (Inr report)"
  obtains t0 t1 resolved agents_yaml where "tr = t0 @ t1"
    "replay t1 (install_files fm os a root resolved agents_yaml) = Some (Inr report)"
proof -
  from assms obtain t0 t1 resolved agents where t: "tr = t0 @ t1" "replay t1 (case fm_agents fm agents of
       Inl e \<Rightarrow> Ret (Inl (IeStorage (''failed to serialize agents template: '' @ e)))
     | Inr agents_yaml \<Rightarrow> install_files fm os a root resolved agents_yaml) = Some (Inr report)"
    unfolding run_install_def Let_def by (elim replay_tbind_split) (metis append.assoc)
  then show thesis using that by (cases "fm_agents fm agents") (auto simp: replay_ret)
qed

text \<open>
  What a successful installation on Linux or macOS leaves behind. The last question that
  touches the mode of the installed binary sets it to 0600, so no user can execute it; and
  the file with the secrets is handed to the account \<open>adapterd\<close>, whatever account the
  user chose for the service.
\<close>

theorem install_permissions:
  assumes "replay tr (run_install fm os root a) = Some (Inr report)" "os \<noteq> WindowsOs"
  shows "(\<exists>tr1 tr2. tr = tr1 @ (QFs (FsChmod (join_path (ia_prefix a) ''target/release/adapterd'') 384), RUnit None) # tr2 \<and>
      (\<forall>x\<in>set tr2. \<not> sets_mode (join_path (ia_prefix a) ''target/release/adapterd'') (fst x))) \<and>
    (\<exists>status out err. (QSpawn ''chown'' [owner_of os ''adapterd'', join_path (ia_prefix a) ''.env''] None,
      RSpawn (Exited True status out err)) \<in> set tr)"
proof -
  let ?bin = "join_path (ia_prefix a) ''target/release/adapterd''"
  let ?env = "join_path (ia_prefix a) ''.env''"
  obtain t0 t resolved agents_yaml where t: "tr = t0 @ t"
    "replay t (install_files fm os a root resolved agents_yaml) = Some (Inr report)"
    using install_reaches_files [OF assms(1)] by blast
  from t(2) obtain t1 t2 t3 u where tr: "t = t1 @ t2 @ t3"
    "replay t2 (on_err IePlatform (restrict_file_permissions os ?bin (ia_user a))) = Some (Inr u)"
    "replay t3 (install_config fm os a resolved agents_yaml) = Some (Inr report)"
    unfolding install_files_def Let_def
    by (elim replay_tbind_split) (metis append.assoc)
  obtain st out err where t2: "t2 = [(QFs (FsChmod ?bin 384), RUnit None),
      (QSpawn ''chown'' [owner_of os (ia_user a), ?bin] None, RSpawn (Exited True st out err))]"
    using restrict_trace [OF tr(2) assms(2)] by blast
  have "lawful (\<lambda>q _. \<not> sets_mode ?bin q) (\<lambda>_ _. {}) ({} :: unit set) t3"
    using wp_sound [OF mode_config [OF assms(2)] tr(3)] by blast
  then have quiet: "\<not> sets_mode ?bin (fst x)" if "x \<in> set t3" for x
    using lawful_asked [of _ _ _ t3 "fst x" "snd x"] that by fastforce
  let ?rest = "(QSpawn ''chown'' [owner_of os (ia_user a), ?bin] None, RSpawn (Exited True st out err)) # t3"
  have mode: "tr = (t0 @ t1) @ (QFs (FsChmod ?bin 384), RUnit None) # ?rest" by (simp add: t(1) tr(1) t2)
  have after: "\<forall>x\<in>set ?rest. \<not> sets_mode ?bin (fst x)" using quiet by (simp add: mode_free)
  have "\<exists>status out err. (QSpawn ''chown'' [owner_of os ''adapterd'', ?env] None, RSpawn (Exited True status out err)) \<in> set t3"
  proof -
    obtain t4 t5 paths where t4: "t3 = t4 @ t5"
      "replay t4 (write_config_files fm os (ia_prefix a) resolved agents_yaml) = Some (Inr paths)"
      using tr(3) unfolding install_config_def Let_def by (elim replay_tbind_split)
    obtain doc where doc: "fm_print fm (JObject [(''mode'', JString ''local''), (''storage'', rs_yaml_fragment resolved),
        (''agents'', agents_yaml)]) = Inr doc"
      using t4(2)
      by (cases "fm_print fm (JObject [(''mode'', JString ''local''), (''storage'', rs_yaml_fragment resolved),
        (''agents'', agents_yaml)])") (auto simp: write_config_files_def Let_def replay_ret)
    from t4(2) obtain t6 t7 t8 v where "t4 = t6 @ t7 @ t8"
      "replay t8 (on_err IePlatform (restrict_file_permissions os ?env ''adapterd'')) = Some (Inr v)"
      unfolding write_config_files_def Let_def doc
      by (auto simp: replay_ret elim!: replay_tbind_split)
    moreover from restrict_trace [OF this(2) assms(2)] obtain st' out' err' where
      "t8 = [(QFs (FsChmod ?env 384), RUnit None),
        (QSpawn ''chown'' [owner_of os ''adapterd'', ?env] None, RSpawn (Exited True st' out' err'))]" .
    ultimately show ?thesis unfolding t4(1) by auto
  qed
  then have "\<exists>status out err. (QSpawn ''chown'' [owner_of os ''adapterd'', ?env] None, RSpawn (Exited True status out err)) \<in> set tr"
    unfolding t(1) tr(1) by auto
  with mode after show ?thesis by (intro conjI exI [of _ "t0 @ t1"] exI [of _ ?rest])
qed

definition demo_formats :: formats where
  "demo_formats = \<lparr>fm_parse = (\<lambda>_. Inr demo_config), fm_print = (\<lambda>_. Inr ''y''), fm_agents = (\<lambda>_. Inr (JArray []))\<rparr>"

definition demo_args :: install_args where
  "demo_args = install_args_default\<lparr>ia_storage := Some Sqlite, ia_config := Some ''/c'', ia_skip_build := True, ia_user := ''u''\<rparr>"

definition demo_restricted :: "string \<Rightarrow> string \<Rightarrow> trace" where
  "demo_restricted owner path =
     [(QFs (FsChmod path 384), RUnit None), (QSpawn ''chown'' [owner, path] None, RSpawn (Exited True ''0'' [] []))]"

definition demo_installed :: trace where
  "demo_installed =
     (let inst = default_prefix; bin = join_path inst ''target/release/adapterd''; cfg = join_path inst ''adapter.yaml'';
          env = join_path inst ''.env'' in
      [(QExists ''/c'', RBool True), (QReadFile ''/c'', RText (Inr ''y'')), (QPathDirs, RDirs (Some [''/bin''])),
       (QIsFile ''/bin/./a'', RBool True), (QFs (FsCreateDirAll (join_path inst ''data'')), RUnit None),
       (QSpawn ''id'' [''u''] None, RSpawn (Exited True ''0'' [] [])),
       (QFs (FsCreateDirAll (join_path inst ''target/release'')), RUnit None),
       (QFs (FsCopy ''/r/target/release/adapterd'' bin), RUnit None)] @
      demo_restricted ''u:u'' bin @ [(QFs (FsWrite cfg ''y''), RUnit None), (QFs (FsWrite env (env_text [])), RUnit None)] @
      demo_restricted ''adapterd:adapterd'' env @ demo_restricted ''u:u'' cfg @
      [(QEuid, RNat 0), (QCurrentDir, RText (Inr ''/r'')), (QExists ''/r/deploy/systemd/adapterd.service'', RBool True),
       (QReadFile ''/r/deploy/systemd/adapterd.service'', RText (Inr [])),
       (QFs (FsWrite unit_dest (render_unit_with_substitutions [] inst ''u'')), RUnit None),
       (QSpawn ''systemctl'' [''daemon-reload''] None, RSpawn (Exited True ''0'' [] [])),
       (QSpawn ''systemctl'' [''enable'', unit_name] None, RSpawn (Exited True ''0'' [] []))])"

lemma cbind_assoc: "cbind (cbind p f) g = cbind p (\<lambda>a. cbind (f a) g)"
  by (induction p) simp_all

lemma replay_steps:
  "asked_kind q = KUnit \<Longrightarrow> replay ((q, RUnit None) # tr) (cbind (act h q) f) = replay tr (f (Inr ()))"
  "asked_kind q = KBool \<Longrightarrow> replay ((q, RBool b) # tr) (cbind (ask_bool q) f') = replay tr (f' (Inr b))"
  "asked_kind q = KText \<Longrightarrow> replay ((q, RText (Inr t)) # tr) (cbind (ask_text h q) g) = replay tr (g (Inr t))"
  by (simp_all add: act_def ask_bool_def ask_text_def fits_def)

lemma replay_command:
  "replay ((QSpawn c args None, RSpawn (Exited True st out err)) # tr) (cbind (run_checked c args m) f) = replay tr (f (Inr ()))"
  by (simp add: run_checked_def fits_def)

lemma demo_installed_run: "\<exists>report. replay demo_installed (run_install demo_formats LinuxOs ''/r'' demo_args) = Some (Inr report)"
proof -
  note steps = cbind_assoc replay_steps replay_command
  have joined: "join_path ''/bin'' ''./a'' = ''/bin/./a''" "join_path ''/r'' ''target/release/adapterd'' = ''/r/target/release/adapterd''"
    "join_path ''/r'' ''deploy/systemd/adapterd.service'' = ''/r/deploy/systemd/adapterd.service''" by (simp_all add: join_path_def)
  have loaded: "replay ((QExists ''/c'', RBool True) # (QReadFile ''/c'', RText (Inr ''y'')) # (QPathDirs, RDirs (Some [''/bin''])) #
      (QIsFile ''/bin/./a'', RBool True) # tr) (cbind (template_load (\<lambda>_. Inr demo_config) (Some ''/c'') ''/r'') f) =
      replay tr (f (Inr [demo_agent_config]))" for tr f
    by (simp add: template_load_def Let_def tbind_def steps demo_config_def demo_agent_config_def command_is_resolvable_def
        is_absolute_def starts_with_def joined [simplified] fits_def ask_bool_def)
  have user: "replay ((QSpawn ''id'' [''u''] None, RSpawn (Exited True ''0'' [] [])) # tr) (cbind (ensure_service_user LinuxOs ''u'') f) =
      replay tr (f (Inr ()))" for tr f
    by (simp add: ensure_service_user_def linux_ensure_service_user_def fits_def)
  have lock: "replay (demo_restricted (owner @ '':'' @ owner) path @ tr) (cbind (restrict_file_permissions LinuxOs path owner) f) =
      replay tr (f (Inr ()))" for owner path tr f
    by (simp add: restrict_file_permissions_def unix_restrict_def demo_restricted_def tbind_def steps)
  have serve: "replay [(QEuid, RNat 0), (QCurrentDir, RText (Inr ''/r'')), (QExists ''/r/deploy/systemd/adapterd.service'', RBool True),
       (QReadFile ''/r/deploy/systemd/adapterd.service'', RText (Inr [])),
       (QFs (FsWrite unit_dest (render_unit_with_substitutions [] default_prefix ''u'')), RUnit None),
       (QSpawn ''systemctl'' [''daemon-reload''] None, RSpawn (Exited True ''0'' [] [])),
       (QSpawn ''systemctl'' [''enable'', unit_name] None, RSpawn (Exited True ''0'' [] []))]
      (cbind (register_service LinuxOs ctx) f) = replay [] (f (Inr ()))"
    if "sc_working_directory ctx = default_prefix" "sc_user ctx = ''u''" for fm ctx f
    using that
    by (simp add: register_service_def linux_register_service_def require_root_def Let_def tbind_def steps fits_def
        default_user_def joined [simplified])
  note lock_u = lock [of "''u''", simplified] and lock_d = lock [of "''adapterd''", simplified]
  show ?thesis
    unfolding demo_installed_def Let_def run_install_def demo_args_def install_args_default_def demo_formats_def
    by (simp add: resolve_storage_choice_def docker_preflight_def tbind_def on_err_def steps loaded user resolve_storage_def
        install_files_def install_config_def write_config_files_def Let_def joined [simplified] lock_u lock_d serve)
qed

theorem install_permissions_witness:
  "\<exists>tr1 tr2. demo_installed = tr1 @ (QFs (FsChmod ''/opt/agent-connector/target/release/adapterd'' 384), RUnit None) # tr2 \<and>
     (\<forall>x\<in>set tr2. \<not> sets_mode ''/opt/agent-connector/target/release/adapterd'' (fst x))"
proof -
  obtain report where run: "replay demo_installed (run_install demo_formats LinuxOs ''/r'' demo_args) = Some (Inr report)"
    using demo_installed_run by blast
  have bin: "join_path (ia_prefix demo_args) ''target/release/adapterd'' = ''/opt/agent-connector/target/release/adapterd''"
    by (simp add: demo_args_def install_args_default_def default_prefix_def join_path_def)
  show ?thesis
    using install_permissions [OF run, THEN conjunct1, unfolded bin] by blast
qed

section \<open>The secrets on their way to the daemon\<close>

definition graphic :: "char \<Rightarrow> bool" where
  "graphic c \<longleftrightarrow> 0x21 \<le> (of_char c :: nat) \<and> (of_char c :: nat) \<le> 0x7E"

lemma graphic_not_white:
  assumes "graphic c"
  shows "find (\<lambda>w. w \<noteq> [] \<and> prefix w (c # s)) white_space = None"
    and "find (\<lambda>w. w \<noteq> [] \<and> prefix w (c # s)) (map rev white_space) = None"
proof -
  have first: "list_all (\<lambda>w. w \<noteq> [] \<and> \<not> graphic (hd w)) white_space"
    "list_all (\<lambda>w. w \<noteq> [] \<and> \<not> graphic (hd w)) (map rev white_space)" by code_simp+
  have "hd w = c" if "w \<noteq> []" "prefix w (c # s)" for w using that by (cases w) auto
  then show "find (\<lambda>w. w \<noteq> [] \<and> prefix w (c # s)) white_space = None"
    "find (\<lambda>w. w \<noteq> [] \<and> prefix w (c # s)) (map rev white_space) = None"
    using first assms unfolding find_None_iff list_all_iff by metis+
qed

lemma trim_graphic:
  assumes "s \<noteq> []" "graphic (hd s)" "graphic (last s)"
  shows "trim s = s"
proof -
  have "strip_front white_space s = s"
    using assms(1,2) graphic_not_white(1) by (cases s) (simp_all add: strip_front.simps)
  moreover have "strip_front (map rev white_space) (rev s) = rev s"
  proof (cases "rev s")
    case (Cons c r)
    then have "graphic c" using assms by (metis hd_rev list.sel(1))
    then show ?thesis unfolding Cons using graphic_not_white(2) by (simp add: strip_front.simps)
  qed (use assms in simp)
  ultimately show ?thesis by (simp add: trim_def trim_start_def trim_end_def)
qed

lemma env_text_lines:
  assumes "v \<noteq> []" "list_all graphic v"
  shows "file_assignments (lines_of (env_text [(dsn_env_var_name, v)])) = [(dsn_env_var_name, v)]"
proof -
  let ?l = "dsn_env_var_name @ ''='' @ v"
  let ?h1 = "''# agent-connector runtime environment '' @ dash @ '' generated by adapterctl install.''"
  let ?h2 = "''# Do NOT commit this file. Regenerate with `adapterctl install --force` if lost''"
  let ?h3 = "''# (Postgres password will be rotated on regeneration for managed-docker profile).''"
  have g: "graphic (hd v)" "graphic (last v)" using assms by (simp_all add: list_all_iff)
  have lf: "CHR 0x0A \<notin> set ?l" using assms(2) by (auto simp: dsn_env_var_name_def list_all_iff graphic_def)
  have cr: "strip_cr ?l = ?l" using g(2) assms(1) by (auto simp: strip_cr_def graphic_def)
  have head: "strip_cr ?h1 = ?h1" "strip_cr ?h2 = ?h2" "strip_cr ?h3 = ?h3" "strip_cr [] = []"
    "CHR 0x0A \<notin> set ?h1" "CHR 0x0A \<notin> set ?h2" "CHR 0x0A \<notin> set ?h3" "CHR 0x0A \<notin> set []"
    by (simp_all add: strip_cr_def dash_def)
  have "env_text [(dsn_env_var_name, v)] = ?h1 @ CHR 0x0A # (?h2 @ CHR 0x0A # (?h3 @ CHR 0x0A # ([] @ CHR 0x0A # (?l @ CHR 0x0A # []))))"
    by (simp add: env_text_def env_header_def)
  then have lines: "lines_of (env_text [(dsn_env_var_name, v)]) = [?h1, ?h2, ?h3, [], ?l]"
    by (simp only: lines_of_line [OF head(5)] lines_of_line [OF head(6)] lines_of_line [OF head(7)] lines_of_line [OF lf]
        lines_of_line [OF head(8)] head(1-4) cr lines_of_Nil)
  have none: "env_assignment ?h1 = None" "env_assignment ?h2 = None" "env_assignment ?h3 = None" "env_assignment [] = None"
    by code_simp+
  have ends: "hd ?l = CHR ''A''" "last ?l = last v" using assms(1) by (simp_all add: dsn_env_var_name_def)
  have "graphic CHR ''A''" by code_simp
  then have "trim ?l = ?l" using trim_graphic [of ?l] ends g(2) by (simp add: dsn_env_var_name_def)
  moreover have "trim v = v" by (rule trim_graphic [OF assms(1) g])
  moreover have "trim dsn_env_var_name = dsn_env_var_name" by code_simp
  moreover have "split_once (CHR ''='') ?l = Some (dsn_env_var_name, v)"
    by (simp add: split_once_def dsn_env_var_name_def)
  moreover have "\<not> starts_with ?l ''#''" "?l \<noteq> []" by (simp_all add: starts_with_def dsn_env_var_name_def)
  ultimately have "env_assignment ?l = Some (dsn_env_var_name, v)" by (simp add: env_assignment_def Let_def)
  with none show ?thesis unfolding lines file_assignments_def by (simp add: List.map_filter_def)
qed

lemma load_without_assignments: "file_assignments lines = [] \<Longrightarrow> load_env_lines lines env = checked.Ret env"
  by (induction lines) (auto simp: file_assignments_def List.map_filter_def split: option.splits)

lemma load_one_assignment:
  "file_assignments lines = [(k, v)] \<Longrightarrow> env_var env k = None \<Longrightarrow> load_env_lines lines env = set_var k v env"
proof (induction lines)
  case (Cons l ls)
  then show ?case
    using load_without_assignments [of ls]
    by (cases "env_assignment l") (auto simp: file_assignments_def List.map_filter_def split: checked.split)
qed (simp add: file_assignments_def List.map_filter_def)

text \<open>
  C40: a secret survives the environment file. Whatever text of visible ASCII characters the
  installer writes for the DSN, the daemon that reads the file, and does not have the variable
  yet, gets that text.
\<close>

theorem installed_secret_arrives:
  assumes "v \<noteq> []" "list_all graphic v" "env_var env dsn_env_var_name = None"
  shows "\<exists>env'. load_env_lines (lines_of (env_text [(dsn_env_var_name, v)])) env = checked.Ret env' \<and>
    env_var env' dsn_env_var_name = Some v"
proof -
  have "CHR 0x00 \<notin> set v" using assms(2) by (auto simp: list_all_iff graphic_def)
  then obtain env' where env': "set_var dsn_env_var_name v env = checked.Ret env'"
    by (simp add: set_var_def dsn_env_var_name_def)
  have "from_utf8 v = Some v" by (rule from_utf8_ascii) (use assms(2) in \<open>auto simp: list_all_iff graphic_def\<close>)
  then show ?thesis
    using load_one_assignment [OF env_text_lines [OF assms(1,2)] assms(3)] env' set_var_env [OF env'] by simp
qed

theorem installed_secret_arrives_witness:
  "\<exists>env'. load_env_lines (lines_of (env_text [(dsn_env_var_name, ''postgres://u:#p=@h'')])) [] = checked.Ret env' \<and>
     env_var env' dsn_env_var_name = Some ''postgres://u:#p=@h''"
proof -
  have "list_all graphic ''postgres://u:#p=@h''" by code_simp
  then show ?thesis
    using installed_secret_arrives [of "''postgres://u:#p=@h''" "[]"] by (simp add: env_var_def)
qed

section \<open>Smaller facts\<close>

text \<open>The template is not validated as the daemon will: two agents with one id pass.\<close>

lemma template_accepts_duplicates:
  assumes "ag_transport agent = TrHttpSse url token allow"
  shows "replay [] (validate_agents_runnable [agent, agent]) = Some (Inr ()) \<and>
    validate_agents md [] [agent, agent] \<noteq> Inr ()"
  using assms by (auto simp: rbind_Inr_iff)

text \<open>Uninstalling on Linux never removes the unit file that the installation wrote.\<close>

lemma uninstall_leaves_unit:
  assumes "replay tr (uninstall LinuxOs inst purge) = Some r" "x \<in> set tr"
  shows "fst x \<noteq> QFs (FsRemove unit_dest)"
proof -
  have "last (join_path inst ''adapter.yaml'') = CHR ''l''" "last (join_path inst ''.env'') = CHR ''v''"
    "last unit_dest = CHR ''e''" by (simp_all add: last_join_path unit_dest_def)
  moreover have differ: "last p \<noteq> last q \<Longrightarrow> p \<noteq> q" for p q :: string by auto
  ultimately have paths: "join_path inst ''adapter.yaml'' \<noteq> unit_dest" "join_path inst ''.env'' \<noteq> unit_dest"
    by (rule_tac [!] differ) simp_all
  have name: "''/etc/systemd/system/'' @ ''adapterd'' \<noteq> unit_dest" by (simp add: unit_dest_def)
  have docker: "wp (\<lambda>q _. q \<noteq> QFs (FsRemove unit_dest)) (\<lambda>_ _. {}) (remove_all_resources True) (\<lambda>_ _. True) ks" for ks :: "unit set"
    by (auto simp: remove_all_resources_def connect_internal_def fits_all split: option.split sum.split)
  have "wp (\<lambda>q _. q \<noteq> QFs (FsRemove unit_dest)) (\<lambda>_ _. {}) (uninstall LinuxOs inst purge) (\<lambda>_ _. True) ({} :: unit set)"
    using paths name [simplified]
    by (auto simp: uninstall_def unregister_service_def linux_unregister_service_def run_ignored_def act_ok_def fits_all docker
        split: sum.split spawned.split)
  from wp_sound [OF this assms(1)] have "lawful (\<lambda>q _. q \<noteq> QFs (FsRemove unit_dest)) (\<lambda>_ _. {}) ({} :: unit set) tr" by blast
  from lawful_asked [OF this, of "fst x" "snd x"] assms(2) show ?thesis by simp
qed

text \<open>A user id for the service account is free and in the range of system accounts.\<close>

lemma free_uid_in_range:
  assumes "replay tr find_free_system_uid = Some (Inr uid)" "tr = [(q, RSpawn (Exited fine status out err))]"
  shows "200 \<le> uid \<and> uid \<le> 400 \<and> uid \<notin> set (taken_uids out)"
proof -
  have "find (\<lambda>uid. uid \<notin> set (taken_uids out)) [200..<401] = Some uid"
    using assms by (simp add: find_free_system_uid_def fits_def split: option.splits if_splits del: upt.simps upt_rec_numeral)
  then have "uid \<in> set [200..<401]" "uid \<notin> set (taken_uids out)"
    by (auto simp: find_Some_iff simp del: upt.simps upt_rec_numeral)
  then show ?thesis by (simp only: set_upt atLeastLessThan_iff) simp
qed

end
