(* ===== verification/Spec2Isabelle.thy ===== *)
theory Spec2Isabelle
  imports Postgres_Store A2A_Mapper ACP_Mapper ANP_Client Dropped_Requests Daemon_Loop Adapterctl
begin

text \<open>
  \<^bold>\<open>A verification development for the agent connector.\<close>

  The repository is a Rust workspace (\<open>src/crates/\<close>). A daemon, \<open>adapterd\<close>, gives clients of
  several agent protocols one durable task runtime, and runs their tasks on agents that speak
  other protocols. \<open>adapterctl\<close> installs and maintains the daemon.

  \<^bold>\<open>The parts and how they interact.\<close> A protocol layer (A2A over HTTP, ACP over a line stream)
  translates a request and calls \<open>AdapterCore\<close> (\<open>adapter-core/src/lib.rs\<close>). The core asks the
  policy, resolves the agent in the registry, takes permits for the caller, the agent and the
  machine, creates the task in a store under an idempotency key and spawns a worker. The worker
  starts a driver (HTTP with server-sent events, standard input and output, A2A, ACP, MCP, ANP),
  applies each driver event to the task as a transition with an optimistic revision check, and
  broadcasts it. A client that follows a task gets stored history merged with the broadcast
  (\<open>reliable_stream.rs\<close>). Tasks are kept in memory, in SQLite or in PostgreSQL, behind one trait
  (\<open>adapter-store-contract\<close>).

  \<^bold>\<open>Theories and sources.\<close> An error is the left side of a sum, a record is a struct, machine
  integers are words or naturals with the wrap-around written out; clocks, random identifiers,
  remote partners and third-party codecs are arguments. A definition has the name of the Rust item
  where the name is free.

  \<^item> Base. \<open>Prelude\<close>: types, JSON, options, strings. \<open>Text_Bytes\<close>: UTF-8, lines and splitting as
    the standard library has them.
  \<^item> Model and stores. \<open>Adapter_Model\<close> (\<open>adapter-model\<close>); \<open>Store_Contract\<close>
    (\<open>adapter-store-contract\<close>, with the contract as the locales \<open>task_store\<close> and
    \<open>guarded_store\<close>); \<open>Memory_Store\<close>, \<open>Sqlite_Store\<close>, \<open>Postgres_Store\<close> (the three backends; a
    failing statement is an argument of every database operation).
  \<^item> Core (\<open>adapter-core\<close>). \<open>Registry\<close>, \<open>Bearer_Policy\<close>; \<open>Core_Programs\<close>: every handler and the
    worker as a program of single effects on shared state; \<open>Core_System\<close>: the step relation in
    which any number of them interleave (\<open>reach\<close>); \<open>Core_Invariants\<close>, \<open>Core_Run\<close>,
    \<open>Core_Properties\<close>, \<open>Core_Commands\<close>, \<open>Worker_Streams\<close>: its theory; \<open>Reliable_Stream\<close>;
    \<open>Core_Service\<close>: the operations that protocol layers call; \<open>Dropped_Requests\<close>: handlers
    whose future is dropped half way, and with them \<open>run_with_shutdown\<close> of the ACP runtime.
  \<^item> Protocols. \<open>A2A_Mapper\<close>, \<open>A2A_Server\<close> (\<open>protocol-a2a-mapper\<close>, \<open>protocol-a2a-server\<close>),
    \<open>ACP_Mapper\<close>, \<open>ACP_Runtime\<close> (\<open>protocol-acp-mapper\<close>, \<open>protocol-acp-runtime\<close>), \<open>ANP_Profile\<close>
    (\<open>protocol-anp-profile\<close>), \<open>ANP_Transport\<close> (\<open>anp-transport\<close>).
  \<^item> Drivers. \<open>Http_Sse\<close>, \<open>Stdio_Driver\<close>, \<open>A2A_Client\<close>, \<open>ACP_Client\<close>, \<open>MCP_Driver\<close>,
    \<open>ANP_Client\<close> (the crates \<open>driver-http-sse\<close>, \<open>driver-stdio\<close>, \<open>driver-a2a-client\<close>,
    \<open>driver-acp-client\<close>, \<open>driver-mcp\<close>, \<open>driver-anp-client\<close>).
  \<^item> Programs. \<open>Adapterd\<close> (\<open>adapterd\<close>: configuration, environment file, start-up), \<open>Daemon_Loop\<close>
    (its main function, routes, agent card, retention and shutdown); \<open>Ctl_Host\<close>
    (\<open>adapterctl\<close>: \<open>cancel.rs\<close>, \<open>managed_docker.rs\<close>, \<open>postgres_lifecycle.rs\<close>) and
    \<open>Adapterctl\<close> (the rest of it), whose programs are trees of questions to the machine, so that a
    theorem about every trace is one about every behaviour of Docker, file system and user.

  \<^bold>\<open>What the lemmas show.\<close> The theorems that carry a claim number are the main ones.

  \<^item> \<open>Core_Properties\<close>: under every interleaving, with stores that fail at will, logs are numbered
    without gaps, only grow and end once, permits are conserved, and a worker that is let alone ends
    its task. The invariants are proved once in \<open>guarded_store\<close>, which the in-memory and the SQLite
    store interpret; this theory says what they mean for a history that is read from SQLite. The
    PostgreSQL store is tied to them by its agreement with SQLite.
  \<^item> \<open>Core_Commands\<close>, \<open>Worker_Streams\<close>: each command does what its branch says when it runs alone;
    driver events follow the transition table of the state machine, one by one and as streams.
  \<^item> \<open>Reliable_Stream\<close>, \<open>A2A_Server\<close>, \<open>ACP_Runtime\<close>, \<open>ANP_Profile\<close>: readers get every event once
    and in order, requests are answered one by one, wire messages round-trip.
  \<^item> \<open>Http_Sse\<close>, \<open>Stdio_Driver\<close>, \<open>A2A_Client\<close>, \<open>ACP_Client\<close>, \<open>MCP_Driver\<close>, \<open>ANP_Client\<close>: routing,
    ordering, the one terminal event, reconnection bounds, independence of chunking, and which
    calls can be made at all.
  \<^item> \<open>Adapterd\<close>: validation accepts exactly the well-formed configurations, and start-up registers
    exactly the agents whose drivers start. \<open>Daemon_Loop\<close>: with tokens configured only their
    owners reach the JSON-RPC handler, and retention never removes a task that has not ended.
  \<^item> \<open>Ctl_Host\<close>, \<open>Adapterctl\<close>: the installer touches only resources it owns and removes a database
    container only after a complete backup; what it writes is compared with what the daemon reads.
  \<^item> Where the code does not do what it means to, a theorem shows it: a cancellation that loses a task,
    a subscription that misses an event, a creation that is half done, a dropped invocation that
    can never be repeated, a storage section that the daemon cannot read, an executable without
    execute permission, and others.

  \<^bold>\<open>Bounds.\<close> Histories are shorter than \<open>seq_limit\<close>, the largest signed 64-bit number: the databases
  store sequence numbers as such, and a run of \<open>n\<close> steps adds at most \<open>n\<close> events. A page of events
  has the 500 or 10000 entries of the source, a bounded channel the capacity of the source. Nothing is
  cut off by fuel: loops are structural or have a measure, except the discovery of MCP tools, which
  runs as long as the server sends pages; it is a partial function, and a theorem says
  when it returns. Interleavings are inductive relations over any number of steps. Waiting for a
  database is thirty rounds, as in the source.

  \<^bold>\<open>Not modelled.\<close> Input and output proper (sockets, pipes, the write-ahead log, logging, what is
  only printed) and the insides of third-party crates (the A2A server of the SDK, \<open>axum\<close>,
  \<open>bollard\<close>, \<open>sqlx\<close>). Third-party codecs (YAML, JSON text, schemas, UUID and time formats) are
  parameters with the laws they need. Paths are the byte strings of command line arguments, so the branches for paths
  that are not UTF-8 are absent. The drafts and prototypes under \<open>docs/design\<close> are not compiled into
  the program, and tests are not modelled.
\<close>

section \<open>The core on SQLite\<close>

lemma empty_db_good: "good_store (sq_inv cd) (sq_view cd) 0 empty_db"
  by (simp add: good_store_def sq_inv_def sq_view_def empty_db_def select_task_def)


definition sqlite_demo_run :: "core_event_kind db system option" where
  "sqlite_demo_run =
     run_schedule demo_env (sq_ops demo_codec) (\<lambda>_ _. True) complete_schedule (system_init empty_db [(''x'', demo_agent)])"

lemma sqlite_demo_completes:
  "case sqlite_demo_run of
     None \<Rightarrow> False
   | Some S \<Rightarrow> (case sq_get_snapshot demo_codec no_fault 7 (w_store (sys_world S)) of
         Inr (Some snap) \<Rightarrow> snap_state snap = Completed \<and> snap_last_seq snap = 2 | _ \<Rightarrow> False)"
  by code_simp


section \<open>The configuration and the PostgreSQL store\<close>

text \<open>The two checks of the schema name agree: a configuration that the daemon accepts is never
  turned down by the store.\<close>

lemma validated_schema_accepted:
  assumes "validate cfg = Inr ()" "cf_storage cfg = StPostgres dsn_env schema n"
  shows "validate_schema schema = Inr schema"
proof -
  have "schema_char = pg_schema_char" by (auto simp: schema_char_def pg_schema_char_def Let_def)
  with assms show ?thesis by (auto simp: config_validate_iff config_ok_def validate_schema_def)
qed

text \<open>The schema that the installer writes is such a name, so it is the spelling of the keys alone that
  keeps its PostgreSQL section from being used.\<close>

lemma installer_schema_accepted:
  "validate_schema (case jget_str ''schema'' postgres_fragment of Some s \<Rightarrow> s | None \<Rightarrow> []) = Inr ''agent_adapter''"
  by (simp add: postgres_fragment_def jget_str_def validate_schema_def pg_schema_char_def)

end
